(* ===== verification/Prelude.thy ===== *)
theory Prelude
  imports "HOL-Library.Word" "HOL-Library.Signed_Division"
begin

unbundle bit_operations_syntax

text \<open>
  Shared vocabulary of the development: the C integer types as words, the ways in which the
  emulator process can stop abnormally (as values of a sum type), the sequencing operator for
  fallible steps with its weakest-precondition rules, little-endian byte images of words (the
  meaning of \<open>memcpy\<close> between integers and byte buffers), and byte memories.
\<close>

section \<open>Machine integers\<close>

type_synonym u8 = "8 word"
type_synonym u16 = "16 word"
type_synonym u32 = "32 word"
type_synonym u64 = "64 word"

named_theorems wp \<open>weakest-precondition rules for fallible steps\<close>
named_theorems bitwise \<open>what single bits of the helper functions are\<close>

section \<open>Abnormal stops\<close>

text \<open>
  \<open>Die\<close> is \<open>die_msg\<close> or another call of \<open>exit\<close>; \<open>Hang\<close> an endless loop;
  \<open>NullDeref\<close> a dereference of \<open>NULL\<close>; \<open>OutOfBounds\<close> an access outside the C object
  the expression indexes; \<open>BadShift\<close> a shift by at least the width of the shifted operand.
  The last three are undefined behaviour of C: the model stops there and says so.
\<close>

datatype halt = Die | Hang | NullDeref | OutOfBounds | BadShift

type_synonym 'a res = "halt + 'a"

definition res_bind :: "'a res \<Rightarrow> ('a \<Rightarrow> 'b res) \<Rightarrow> 'b res" where
  "res_bind m f = (case m of Inl h \<Rightarrow> Inl h | Inr a \<Rightarrow> f a)"

lemma res_bind_simps [simp]:
  "res_bind (Inr a) f = f a"
  "res_bind (Inl h) f = Inl h"
  by (simp_all add: res_bind_def)

lemma res_bind_Inr [simp]: "res_bind m Inr = m"
  by (cases m) simp_all

lemma res_bind_assoc: "res_bind (res_bind m f) g = res_bind m (\<lambda>a. res_bind (f a) g)"
  by (cases m) simp_all

lemma res_bind_eq_Inr_iff:
  "res_bind m f = Inr b \<longleftrightarrow> (\<exists>a. m = Inr a \<and> f a = Inr b)"
  by (cases m) simp_all

lemma res_bind_eq_Inl_iff:
  "res_bind m f = Inl h \<longleftrightarrow> m = Inl h \<or> (\<exists>a. m = Inr a \<and> f a = Inl h)"
  by (cases m) simp_all

lemma res_bind_cong [fundef_cong]:
  "m = m' \<Longrightarrow> (\<And>a. m' = Inr a \<Longrightarrow> f a = f' a) \<Longrightarrow> res_bind m f = res_bind m' f'"
  by (cases m') simp_all

text \<open>\<open>post r Q\<close>: whenever the step \<open>r\<close> completes, its result satisfies \<open>Q\<close>.\<close>

definition post :: "'a res \<Rightarrow> ('a \<Rightarrow> bool) \<Rightarrow> bool" where
  "post r Q \<longleftrightarrow> (case r of Inl _ \<Rightarrow> True | Inr a \<Rightarrow> Q a)"

lemma post_simps [simp, wp]:
  "post (Inr a) Q \<longleftrightarrow> Q a"
  "post (Inl h) Q \<longleftrightarrow> True"
  by (simp_all add: post_def)

lemma post_bind [wp]: "post (res_bind m f) Q \<longleftrightarrow> post m (\<lambda>a. post (f a) Q)"
  by (cases m) simp_all

lemma post_if [wp]:
  "post (if b then r else r') Q \<longleftrightarrow> (b \<longrightarrow> post r Q) \<and> (\<not> b \<longrightarrow> post r' Q)"
  by simp

lemma postI: "(\<And>a. r = Inr a \<Longrightarrow> Q a) \<Longrightarrow> post r Q"
  by (cases r) simp_all

lemma postD: "post r Q \<Longrightarrow> r = Inr a \<Longrightarrow> Q a"
  by simp

lemma post_mono: "post r Q \<Longrightarrow> (\<And>a. Q a \<Longrightarrow> Q' a) \<Longrightarrow> post r Q'"
  by (cases r) simp_all

lemma post_conj: "post r Q \<Longrightarrow> post r Q' \<Longrightarrow> post r (\<lambda>a. Q a \<and> Q' a)"
  by (cases r) simp_all

section \<open>Bits of words\<close>

lemma bit_word_and_mask: "w AND mask n = take_bit n (w :: 'a::len word)"
  by (simp add: take_bit_eq_mask)

lemma ucast_ucast_take_bit:
  "(ucast (ucast w :: 'b::len word) :: 'a::len word) = take_bit LENGTH('b) w"
  by (rule bit_word_eqI) (auto simp: bit_simps)

lemma drop_bit_minus_one_word:
  "drop_bit n (- 1 :: 'a::len word) = mask (LENGTH('a) - n)"
  by (rule bit_word_eqI) (auto simp: bit_simps)

lemma and_push_one_eq_bit:
  fixes w :: "'a::len word"
  assumes "n < LENGTH('a)"
  shows "w AND push_bit n 1 = (if bit w n then push_bit n 1 else 0)"
  using assms by (intro bit_word_eqI) (auto simp: bit_simps)

lemma and_push_one_eq_0:
  fixes w :: "'a::len word"
  assumes "n < LENGTH('a)"
  shows "w AND push_bit n 1 = 0 \<longleftrightarrow> \<not> bit w n"
proof -
  have "bit (w AND push_bit n 1) n \<longleftrightarrow> bit w n" using assms by (simp add: bit_simps)
  then show ?thesis using assms and_push_one_eq_bit [OF assms, of w] by (auto split: if_splits)
qed

lemma word_and_1_eq: "(w :: 'a::len word) AND 1 = of_bool (bit w 0)"
  by (simp add: and_one_eq mod2_eq_if bit_0)

lemma unat_take: "unat (take_bit h (w :: 'a::len word)) = unat w mod 2 ^ h"
  unfolding unsigned_take_bit_eq by (rule take_bit_eq_mod)

lemma unat_drop: "unat (drop_bit h (w :: 'a::len word)) = unat w div 2 ^ h"
  unfolding unat_drop_bit_eq by (rule drop_bit_eq_div)

lemma unat_push: "unat (push_bit h (w :: 'a::len word)) = unat w * 2 ^ h mod 2 ^ LENGTH('a)"
proof -
  have "unat (push_bit h w) = take_bit LENGTH('a) (push_bit h (unat w))"
    by (rule unsigned_push_bit_eq)
  then show ?thesis by (simp only: take_bit_eq_mod push_bit_eq_mult [where 'a = nat])
qed

lemma unat_exp: "k < LENGTH('a) \<Longrightarrow> unat (2 ^ k :: 'a::len word) = 2 ^ k"
proof -
  assume "k < LENGTH('a)"
  then have "(2::nat) ^ k < 2 ^ LENGTH('a)" by simp
  then have "unat (of_nat (2 ^ k) :: 'a word) = 2 ^ k" by (simp only: unat_of_nat mod_less)
  then show ?thesis by simp
qed

lemma unat_ucast_up:
  assumes "LENGTH('a::len) \<le> LENGTH('b::len)"
  shows "unat (ucast w :: 'b word) = unat (w :: 'a word)"
proof -
  have "(2::nat) ^ LENGTH('a) \<le> 2 ^ LENGTH('b)" using assms by (intro power_increasing) simp_all
  then have "unat w < 2 ^ LENGTH('b)" by (rule less_le_trans [OF unsigned_less])
  then show ?thesis by (simp only: unsigned_ucast_eq take_bit_nat_eq_self)
qed

section \<open>Little-endian byte images\<close>

text \<open>\<open>bytes_of n w\<close>: the first \<open>n\<close> bytes of the object representation of \<open>w\<close>.\<close>

definition bytes_of :: "nat \<Rightarrow> 'a::len word \<Rightarrow> u8 list" where
  "bytes_of n w = map (\<lambda>i. ucast (drop_bit (8 * i) w)) [0..<n]"

primrec word_of_bytes :: "u8 list \<Rightarrow> 'a::len word" where
  "word_of_bytes [] = 0"
| "word_of_bytes (b # bs) = ucast b OR push_bit 8 (word_of_bytes bs)"

lemma length_bytes_of [simp]: "length (bytes_of n w) = n"
  by (simp add: bytes_of_def)

lemma nth_bytes_of: "i < n \<Longrightarrow> bytes_of n w ! i = ucast (drop_bit (8 * i) w)"
  by (simp add: bytes_of_def)

lemma bit_word_of_bytes:
  "bit (word_of_bytes bs :: 'a::len word) i \<longleftrightarrow>
     i < LENGTH('a) \<and> i div 8 < length bs \<and> bit (bs ! (i div 8)) (i mod 8)"
proof (induction bs arbitrary: i)
  case Nil
  then show ?case by simp
next
  case (Cons b bs)
  show ?case
  proof (cases "i < 8")
    case True
    then show ?thesis by (auto simp: bit_simps)
  next
    case False
    then have nb: "\<not> bit b i" by (auto dest: bit_imp_le_length)
    from False obtain j where j: "i = j + 8" by (metis add.commute le_add_diff_inverse not_less)
    then have "i div 8 = Suc (j div 8)" "i mod 8 = j mod 8" by simp_all
    then show ?thesis using False nb j by (auto simp: bit_simps Cons.IH)
  qed
qed

lemma word_of_bytes_of:
  fixes w :: "'a::len word"
  shows "(word_of_bytes (bytes_of n w) :: 'a word) = take_bit (8 * n) w"
  by (rule bit_word_eqI)
    (auto simp: bit_word_of_bytes nth_bytes_of bit_simps less_mult_imp_div_less
          dest: bit_imp_le_length)

lemma word_of_bytes_of_full [simp]:
  "8 * n = LENGTH('a) \<Longrightarrow> word_of_bytes (bytes_of n w) = (w :: 'a::len word)"
  by (simp add: word_of_bytes_of)

lemma bytes_of_word_of_bytes:
  assumes "8 * length bs \<le> LENGTH('a::len)"
  shows "bytes_of (length bs) (word_of_bytes bs :: 'a word) = bs"
proof (rule nth_equalityI)
  show "length (bytes_of (length bs) (word_of_bytes bs :: 'a word)) = length bs" by simp
next
  fix i assume "i < length (bytes_of (length bs) (word_of_bytes bs :: 'a word))"
  then have i: "i < length bs" by simp
  have "8 * i + j < LENGTH('a)" if "j < 8" for j using i that assms by simp
  then show "bytes_of (length bs) (word_of_bytes bs :: 'a word) ! i = bs ! i"
    using i by (intro bit_word_eqI)
      (auto simp: nth_bytes_of bit_simps bit_word_of_bytes div_mult_self2)
qed

section \<open>Byte memories\<close>

text \<open>A C byte array: its cells by index. Bounds are checked by the code's own guards.\<close>

type_synonym bytemem = "nat \<Rightarrow> u8"

definition mem_load :: "bytemem \<Rightarrow> nat \<Rightarrow> nat \<Rightarrow> u8 list" where
  "mem_load m a n = map (\<lambda>i. m (a + i)) [0..<n]"

definition mem_store :: "bytemem \<Rightarrow> nat \<Rightarrow> u8 list \<Rightarrow> bytemem" where
  "mem_store m a bs = (\<lambda>k. if a \<le> k \<and> k < a + length bs then bs ! (k - a) else m k)"

lemma length_mem_load [simp]: "length (mem_load m a n) = n"
  by (simp add: mem_load_def)

lemma mem_load_store_same: "n = length bs \<Longrightarrow> mem_load (mem_store m a bs) a n = bs"
  by (auto simp: mem_load_def mem_store_def intro: nth_equalityI)

lemma mem_load_store_disjoint:
  "a + length bs \<le> b \<or> b + n \<le> a \<Longrightarrow> mem_load (mem_store m a bs) b n = mem_load m b n"
  by (auto simp: mem_load_def mem_store_def)

lemma mem_store_outside: "k < a \<or> a + length bs \<le> k \<Longrightarrow> mem_store m a bs k = m k"
  by (auto simp: mem_store_def)

text \<open>\<open>memcpy\<close> into a byte list (an array object of known size).\<close>

definition splice :: "'a list \<Rightarrow> nat \<Rightarrow> 'a list \<Rightarrow> 'a list" where
  "splice xs off ys = take off xs @ ys @ drop (off + length ys) xs"

lemma length_splice [simp]: "off + length ys \<le> length xs \<Longrightarrow> length (splice xs off ys) = length xs"
  by (simp add: splice_def)

lemma nth_splice:
  assumes "off + length ys \<le> length xs" "k < length xs"
  shows "splice xs off ys ! k =
    (if off \<le> k \<and> k < off + length ys then ys ! (k - off) else xs ! k)"
  using assms by (auto simp: splice_def nth_append min_def)

section \<open>Arrays with C bounds\<close>

text \<open>
  Reading or writing cells of a C array: outside its bounds the result is \<open>OutOfBounds\<close>.
  A copy of no bytes touches no cell.
\<close>

definition arr_get :: "'a list \<Rightarrow> nat \<Rightarrow> 'a res" where
  "arr_get xs i = (if i < length xs then Inr (xs ! i) else Inl OutOfBounds)"

definition arr_set :: "'a list \<Rightarrow> nat \<Rightarrow> 'a \<Rightarrow> 'a list res" where
  "arr_set xs i v = (if i < length xs then Inr (xs[i := v]) else Inl OutOfBounds)"

definition arr_read :: "'a list \<Rightarrow> nat \<Rightarrow> nat \<Rightarrow> 'a list res" where
  "arr_read xs off n =
     (if n = 0 then Inr [] else if off + n \<le> length xs then Inr (take n (drop off xs)) else Inl OutOfBounds)"

definition arr_write :: "'a list \<Rightarrow> nat \<Rightarrow> 'a list \<Rightarrow> 'a list res" where
  "arr_write xs off ys =
     (if ys = [] then Inr xs else if off + length ys \<le> length xs then Inr (splice xs off ys) else Inl OutOfBounds)"

lemma arr_get_ok [simp]: "i < length xs \<Longrightarrow> arr_get xs i = Inr (xs ! i)"
  by (simp add: arr_get_def)

lemma arr_set_ok [simp]: "i < length xs \<Longrightarrow> arr_set xs i v = Inr (xs[i := v])"
  by (simp add: arr_set_def)

lemma arr_read_ok [simp]: "off + n \<le> length xs \<Longrightarrow> arr_read xs off n = Inr (take n (drop off xs))"
  by (simp add: arr_read_def)

lemma arr_write_ok [simp]: "off + length ys \<le> length xs \<Longrightarrow> arr_write xs off ys = Inr (splice xs off ys)"
  by (simp add: arr_write_def splice_def)

lemma arr_write_length: "arr_write xs off ys = Inr zs \<Longrightarrow> length zs = length xs"
  by (auto simp: arr_write_def split: if_splits)

text \<open>An integer inside the object representation of a structure, little-endian.\<close>

definition obj_read :: "nat \<Rightarrow> u8 list \<Rightarrow> nat \<Rightarrow> 'a::len word res" where
  "obj_read n img off = res_bind (arr_read img off n) (\<lambda>bs. Inr (word_of_bytes bs))"

definition obj_write :: "nat \<Rightarrow> u8 list \<Rightarrow> nat \<Rightarrow> 'a::len word \<Rightarrow> u8 list res" where
  "obj_write n img off w = arr_write img off (bytes_of n w)"

lemma obj_write_length: "obj_write n img off w = Inr img' \<Longrightarrow> length img' = length img"
  by (auto simp: obj_write_def dest: arr_write_length)

lemma obj_write_ok [simp]: "off + n \<le> length img \<Longrightarrow> obj_write n img off w = Inr (splice img off (bytes_of n w))"
  by (simp add: obj_write_def)

lemma obj_read_ok [simp]:
  "off + n \<le> length img \<Longrightarrow> obj_read n img off = Inr (word_of_bytes (take n (drop off img)))"
  by (simp add: obj_read_def)

text \<open>\<open>memcpy\<close> of \<open>n\<close> bytes to a place in one object from a place in another.\<close>

definition obj_copy :: "u8 list \<Rightarrow> nat \<Rightarrow> u8 list \<Rightarrow> nat \<Rightarrow> nat \<Rightarrow> u8 list res" where
  "obj_copy dst doff src soff n = res_bind (arr_read src soff n) (\<lambda>bs. arr_write dst doff bs)"

lemma obj_copy_length: "obj_copy dst doff src soff n = Inr dst' \<Longrightarrow> length dst' = length dst"
  by (auto simp: obj_copy_def res_bind_eq_Inr_iff dest: arr_write_length)

end
