(* ===== verification/RvTypes.thy ===== *)
theory RvTypes
  imports Prelude
begin

text \<open>
  The types of \<open>src/core/riscv_types.h\<close>, the configuration of
  \<open>src/core/riscv_config.h\<close>, and the helper functions of \<open>src/core/riscv_helper.h\<close> and
  \<open>src/core/riscv_xlen_specifics.h\<close>.

  The emulator is compiled for RV32 or for RV64 (\<open>#ifdef RV64\<close>). The model keeps both builds:
  \<open>rv_uint_xlen\<close> is \<open>'x word\<close> for a length \<open>'x\<close>, and a text under \<open>#ifdef RV64\<close> is the
  branch where \<open>LENGTH('x) = 64\<close>. Signed variables are the same words read by \<open>sint\<close>; signed
  overflow, which C leaves undefined, wraps around here, as the compiled code does.
\<close>

section \<open>Types\<close>

definition is_rv64 :: "'x::len itself \<Rightarrow> bool" where
  "is_rv64 _ \<longleftrightarrow> LENGTH('x) = 64"

lemma is_rv64_iff [simp, code]: "is_rv64 TYPE('x::len) \<longleftrightarrow> LENGTH('x) = 64"
  by (simp add: is_rv64_def)

text \<open>The two builds.\<close>

definition xlen_ok :: "'x::len itself \<Rightarrow> bool" where
  "xlen_ok _ \<longleftrightarrow> LENGTH('x) = 32 \<or> LENGTH('x) = 64"

lemma xlen_ok_32_64 [simp]: "xlen_ok TYPE(32)" "xlen_ok TYPE(64)"
  by (simp_all add: xlen_ok_def)

lemma xlen_ok_ge: "xlen_ok TYPE('x::len) \<Longrightarrow> 32 \<le> LENGTH('x)"
  by (auto simp: xlen_ok_def)

datatype rv_ret = rv_ok | rv_err

text \<open>The enum has the codes -1 to 4; \<open>priv_code\<close> reads them.\<close>

datatype privilege_level =
    priv_level_unknown | user_mode | supervisor_mode | reserved_mode | machine_mode | priv_level_max

primrec priv_code :: "privilege_level \<Rightarrow> int" where
  "priv_code priv_level_unknown = -1"
| "priv_code user_mode = 0"
| "priv_code supervisor_mode = 1"
| "priv_code reserved_mode = 2"
| "priv_code machine_mode = 3"
| "priv_code priv_level_max = 4"

text \<open>The code as a shift distance or array offset; only used on the levels from 0.\<close>

definition priv_nat :: "privilege_level \<Rightarrow> nat" where
  "priv_nat p = nat (priv_code p)"

text \<open>An integer of two bits stored into a variable of the enum type.\<close>

definition priv_of_bits :: "'x::len word \<Rightarrow> privilege_level" where
  "priv_of_bits w = (if w = 0 then user_mode else if w = 1 then supervisor_mode
     else if w = 2 then reserved_mode else machine_mode)"

text \<open>The decrement \<open>p--\<close> of the two counting loops over privilege levels.\<close>

primrec priv_dec :: "privilege_level \<Rightarrow> privilege_level" where
  "priv_dec priv_level_unknown = priv_level_unknown"
| "priv_dec user_mode = priv_level_unknown"
| "priv_dec supervisor_mode = user_mode"
| "priv_dec reserved_mode = supervisor_mode"
| "priv_dec machine_mode = reserved_mode"
| "priv_dec priv_level_max = machine_mode"

lemma priv_code_inj: "priv_code p = priv_code q \<Longrightarrow> p = q"
  by (cases p; cases q) simp_all

instantiation privilege_level :: linorder
begin
definition less_eq_privilege_level :: "privilege_level \<Rightarrow> privilege_level \<Rightarrow> bool" where
  "p \<le> q \<longleftrightarrow> priv_code p \<le> priv_code q"
definition less_privilege_level :: "privilege_level \<Rightarrow> privilege_level \<Rightarrow> bool" where
  "p < q \<longleftrightarrow> priv_code p < priv_code q"
instance
  by standard (auto simp: less_eq_privilege_level_def less_privilege_level_def intro: priv_code_inj)
end

lemmas priv_ord [simp] = less_eq_privilege_level_def less_privilege_level_def

lemma priv_nat_simps [simp]:
  "priv_nat user_mode = 0" "priv_nat supervisor_mode = 1"
  "priv_nat reserved_mode = 2" "priv_nat machine_mode = 3"
  by (simp_all add: priv_nat_def)

text \<open>The three privilege levels the architecture has.\<close>

definition proper_priv :: "privilege_level \<Rightarrow> bool" where
  "proper_priv p \<longleftrightarrow> p = user_mode \<or> p = supervisor_mode \<or> p = machine_mode"

datatype bus_access_type = bus_read_access | bus_write_access | bus_instr_access

primrec access_code :: "bus_access_type \<Rightarrow> nat" where
  "access_code bus_read_access = 0"
| "access_code bus_write_access = 1"
| "access_code bus_instr_access = 2"

text \<open>
  \<open>bus_access_func\<close>: the state behind the \<open>priv\<close> pointer goes in and out; the buffer
  \<open>value\<close> is the byte list that the access reads (a store) or overwrites (a load).
\<close>

type_synonym ('x, 'p) bus_access_func =
  "'p \<Rightarrow> privilege_level \<Rightarrow> bus_access_type \<Rightarrow> 'x word \<Rightarrow> u8 list \<Rightarrow> u8 \<Rightarrow> ('p \<times> rv_ret \<times> u8 list) res"

section \<open>Configuration\<close>

definition MROM_BASE_ADDR :: "'x::len word" where "MROM_BASE_ADDR = 0x1000"
definition MROM_SIZE_BYTES :: "'x::len word" where "MROM_SIZE_BYTES = 0xf000"
definition RAM_BASE_ADDR :: "'x::len word" where "RAM_BASE_ADDR = 0x80000000"
definition RAM_SIZE_BYTES :: "'x::len word" where "RAM_SIZE_BYTES = 0x8000000"
definition CLINT_BASE_ADDR :: "'x::len word" where "CLINT_BASE_ADDR = 0x2000000"
definition CLINT_SIZE_BYTES :: "'x::len word" where "CLINT_SIZE_BYTES = 0x10000"
definition SIMPLE_UART_TX_REG_ADDR :: "'x::len word" where "SIMPLE_UART_TX_REG_ADDR = 0x3000000"
definition SIMPLE_UART_SIZE_BYTES :: "'x::len word" where "SIMPLE_UART_SIZE_BYTES = 0x2"
definition PLIC_BASE_ADDR :: "'x::len word" where "PLIC_BASE_ADDR = 0x0C000000"
definition PLIC_SIZE_BYTES :: "'x::len word" where "PLIC_SIZE_BYTES = 0x3FFF004"
definition UART8250_TX_REG_ADDR :: "'x::len word" where "UART8250_TX_REG_ADDR = 0x10000000"
definition FROM_BASE_ADDR :: "'x::len word" where "FROM_BASE_ADDR = 0xc0000000"
definition FROM_SIZE_BYTES :: "'x::len word" where "FROM_SIZE_BYTES = 0xc800000"

definition RV_EXTENSION_TO_MISA :: "nat \<Rightarrow> u32" where
  "RV_EXTENSION_TO_MISA letter = push_bit (letter - 65) 1"

text \<open>The letters I, M, A, S and U by their character codes.\<close>

definition RV_SUPPORTED_EXTENSIONS :: "'x::len word" where
  "RV_SUPPORTED_EXTENSIONS = ucast
     (RV_EXTENSION_TO_MISA 73 OR RV_EXTENSION_TO_MISA 77 OR RV_EXTENSION_TO_MISA 65 OR
      RV_EXTENSION_TO_MISA 83 OR RV_EXTENSION_TO_MISA 85)"

section \<open>Helper functions\<close>

definition ADDR_WITHIN :: "'x::len word \<Rightarrow> 'x word \<Rightarrow> 'x word \<Rightarrow> bool" where
  "ADDR_WITHIN addr start sz = (addr \<ge> start \<and> addr < start + sz)"

definition ADDR_WITHIN_LEN :: "'x::len word \<Rightarrow> u8 \<Rightarrow> 'x word \<Rightarrow> 'x word \<Rightarrow> bool" where
  "ADDR_WITHIN_LEN addr len start sz = (addr \<ge> start \<and> addr + ucast len \<le> start + sz)"

definition ADDR_ALIGN_DOWN :: "u64 \<Rightarrow> u64 \<Rightarrow> u64" where
  "ADDR_ALIGN_DOWN n m = n div m * m"

text \<open>\<open>CHECK_BIT\<close>; the callers' bit numbers are below 31, where \<open>1 << n\<close> is positive.\<close>

definition CHECK_BIT :: "'a::len word \<Rightarrow> nat \<Rightarrow> bool" where
  "CHECK_BIT v n = (v AND push_bit n 1 \<noteq> 0)"

definition CLEAR_BIT :: "'a::len word \<Rightarrow> nat \<Rightarrow> 'a word" where
  "CLEAR_BIT v n = v AND NOT (push_bit n 1)"

definition assign_u32_bit :: "u32 \<Rightarrow> nat \<Rightarrow> u32 \<Rightarrow> u32" where
  "assign_u32_bit out nbit bit_value = out AND NOT (push_bit nbit 1) OR push_bit nbit (bit_value AND 1)"

definition assign_xlen_bit :: "'x::len word \<Rightarrow> nat \<Rightarrow> 'x word \<Rightarrow> 'x word" where
  "assign_xlen_bit out nbit bit_value = out AND NOT (push_bit nbit 1) OR push_bit nbit (bit_value AND 1)"

definition assign_xlen_value_within_reg ::
  "'x::len word \<Rightarrow> nat \<Rightarrow> 'x word \<Rightarrow> 'x word \<Rightarrow> 'x word" where
  "assign_xlen_value_within_reg out nbit val msk =
     out AND NOT (push_bit nbit msk) OR push_bit nbit (val AND msk)"

definition extract8 :: "u8 \<Rightarrow> nat \<Rightarrow> nat \<Rightarrow> u8" where
  "extract8 val start len = drop_bit start val AND drop_bit (8 - len) 0xFF"

definition extract32 :: "u32 \<Rightarrow> nat \<Rightarrow> nat \<Rightarrow> u32" where
  "extract32 val start len = drop_bit start val AND drop_bit (32 - len) 0xFFFFFFFF"

definition extractxlen :: "'x::len word \<Rightarrow> nat \<Rightarrow> nat \<Rightarrow> 'x word" where
  "extractxlen val start len = drop_bit start val AND drop_bit (LENGTH('x) - len) (- 1)"

text \<open>\<open>1 << n\<close> computed in \<open>int\<close> and converted to the register type.\<close>

definition int_bit :: "nat \<Rightarrow> 'x::len word res" where
  "int_bit n = (if n < 32 then Inr (scast (push_bit n 1 :: u32)) else Inl BadShift)"

text \<open>
  \<open>GEN_SIGNEX_FUNC(bit)\<close>: the value stored into a signed bit field of \<open>bit + 1\<close> bits and read
  back, which keeps the low bits and repeats bit number \<open>bit\<close>.
\<close>

definition SIGNEX_BIT :: "nat \<Rightarrow> 'x::len word \<Rightarrow> 'x word" where
  "SIGNEX_BIT b input = signed_take_bit b input"

definition XLEN_INT_MIN :: "'x::len word" where
  "XLEN_INT_MIN = (if is_rv64 TYPE('x) then 0x8000000000000000 else 0x80000000)"

definition SHIFT_OP_MASK :: "'x::len word" where
  "SHIFT_OP_MASK = (if is_rv64 TYPE('x) then 0x3F else 0x1F)"

lemma CHECK_BIT_iff [bitwise]: "n < LENGTH('a) \<Longrightarrow> CHECK_BIT (v :: 'a::len word) n \<longleftrightarrow> bit v n"
  unfolding CHECK_BIT_def using and_push_one_eq_0 [of n v] by simp

lemma bit_CLEAR_BIT [bitwise]:
  "bit (CLEAR_BIT (v :: 'a::len word) n) i \<longleftrightarrow> bit v i \<and> i \<noteq> n"
  by (auto simp: CLEAR_BIT_def bit_simps dest: bit_imp_le_length)

lemma bit_assign_xlen_bit [bitwise]:
  "bit (assign_xlen_bit (v :: 'a::len word) n b) i \<longleftrightarrow>
     (if i = n then n < LENGTH('a) \<and> bit b 0 else bit v i)"
  by (cases "i = n")
    (auto simp: assign_xlen_bit_def bit_simps bit_1_iff not_less dest: bit_imp_le_length)

lemma bit_assign_u32_bit [bitwise]:
  "bit (assign_u32_bit v n b) i \<longleftrightarrow> (if i = n then n < 32 \<and> bit b 0 else bit v i)"
  by (cases "i = n")
    (auto simp: assign_u32_bit_def bit_simps bit_1_iff not_less dest: bit_imp_le_length)

lemma extractxlen_eq:
  "len \<le> LENGTH('x) \<Longrightarrow> extractxlen (v :: 'x::len word) start len = take_bit len (drop_bit start v)"
  by (simp add: extractxlen_def drop_bit_minus_one_word take_bit_eq_mask)

lemma drop_bit_ones32: "drop_bit (32 - len) (0xFFFFFFFF :: u32) = mask (min len 32)"
proof -
  have "(0xFFFFFFFF :: u32) = - 1" by simp
  then show ?thesis
    by (simp only: drop_bit_minus_one_word) (auto simp: min_def)
qed

lemma extract32_eq: "len \<le> 32 \<Longrightarrow> extract32 v start len = take_bit len (drop_bit start v)"
  by (simp add: extract32_def drop_bit_ones32 min_def take_bit_eq_mask)

lemma drop_bit_ones8: "drop_bit (8 - len) (0xFF :: u8) = mask (min len 8)"
proof -
  have "(0xFF :: u8) = - 1" by simp
  then show ?thesis
    by (simp only: drop_bit_minus_one_word) (auto simp: min_def)
qed

lemma extract8_eq: "len \<le> 8 \<Longrightarrow> extract8 v start len = take_bit len (drop_bit start v)"
  by (simp add: extract8_def drop_bit_ones8 min_def take_bit_eq_mask)

lemma int_bit_eq: "n < 31 \<Longrightarrow> 32 \<le> LENGTH('x) \<Longrightarrow> int_bit n = Inr (push_bit n 1 :: 'x::len word)"
  by (auto simp: int_bit_def bit_simps bit_1_iff intro!: bit_word_eqI)

lemma take_bit_1_word: "take_bit 1 w = of_bool (bit w 0)" for w :: "'x::len word"
  by (simp add: bit_0 mod2_eq_if)

lemma extractxlen_1: "extractxlen (w :: 'x::len word) n 1 = of_bool (bit w n)"
  by (simp only: extractxlen_eq [OF Suc_leI [OF len_gt_0], folded One_nat_def] take_bit_1_word bit_drop_bit_eq comp_def add_0_right)

end
