(* ===== verification/WideMul.thy ===== *)
theory WideMul
  imports RvTypes
begin

text \<open>
  The double-width multiplications of \<open>src/core/riscv_helper.h\<close>, which build the high half of a
  product from four half-width partial products and a carry. The lemmas prove them equal to the
  exact product of the operands, unsigned, signed and mixed.
\<close>

section \<open>The functions\<close>

definition umul64wide :: "u64 \<Rightarrow> u64 \<Rightarrow> u64 \<times> u64" where
  "umul64wide a b =
    (let a_lo = ucast (ucast a :: u32); a_hi = drop_bit 32 a;
         b_lo = ucast (ucast b :: u32); b_hi = drop_bit 32 b;
         p0 = a_lo * b_lo; p1 = a_lo * b_hi; p2 = a_hi * b_lo; p3 = a_hi * b_hi;
         cy = (ucast (drop_bit 32 (drop_bit 32 p0 + ucast (ucast p1 :: u32) + ucast (ucast p2 :: u32))) :: u32)
     in (p3 + drop_bit 32 p1 + drop_bit 32 p2 + ucast cy,
         p0 + push_bit 32 p1 + push_bit 32 p2))"

definition mul64wide :: "u64 \<Rightarrow> u64 \<Rightarrow> u64 \<times> u64" where
  "mul64wide a b =
    (let (hi, lo) = umul64wide a b;
         hi = (if sint a < 0 then hi - b else hi);
         hi = (if sint b < 0 then hi - a else hi)
     in (hi, lo))"

definition mulhsu64wide :: "u64 \<Rightarrow> u64 \<Rightarrow> u64 \<times> u64" where
  "mulhsu64wide a b =
    (let (hi, lo) = umul64wide a b;
         hi = (if sint a < 0 then hi - b else hi)
     in (hi, lo))"

definition umul32wide :: "u32 \<Rightarrow> u32 \<Rightarrow> u32 \<times> u32" where
  "umul32wide a b =
    (let a_lo = ucast (ucast a :: u16); a_hi = drop_bit 16 a;
         b_lo = ucast (ucast b :: u16); b_hi = drop_bit 16 b;
         p0 = a_lo * b_lo; p1 = a_lo * b_hi; p2 = a_hi * b_lo; p3 = a_hi * b_hi;
         cy = (ucast (ucast (drop_bit 16 (drop_bit 16 p0 + ucast (ucast p1 :: u16) + ucast (ucast p2 :: u16))) :: u16) :: u32)
     in (p3 + drop_bit 16 p1 + drop_bit 16 p2 + cy,
         p0 + push_bit 16 p1 + push_bit 16 p2))"

definition mul32wide :: "u32 \<Rightarrow> u32 \<Rightarrow> u32 \<times> u32" where
  "mul32wide a b =
    (let (hi, lo) = umul32wide a b;
         hi = (if sint a < 0 then hi - b else hi);
         hi = (if sint b < 0 then hi - a else hi)
     in (hi, lo))"

definition mulhsu32wide :: "u32 \<Rightarrow> u32 \<Rightarrow> u32 \<times> u32" where
  "mulhsu32wide a b =
    (let (hi, lo) = umul32wide a b;
         hi = (if sint a < 0 then hi - b else hi)
     in (hi, lo))"

text \<open>The macros \<open>UMUL\<close>, \<open>MUL\<close> and \<open>MULHSU\<close> choose by the width of the build.\<close>

definition UMUL :: "'x::len word \<Rightarrow> 'x word \<Rightarrow> 'x word \<times> 'x word" where
  "UMUL a b = (if is_rv64 TYPE('x)
     then map_prod ucast ucast (umul64wide (ucast a) (ucast b))
     else map_prod ucast ucast (umul32wide (ucast a) (ucast b)))"

definition MUL :: "'x::len word \<Rightarrow> 'x word \<Rightarrow> 'x word \<times> 'x word" where
  "MUL a b = (if is_rv64 TYPE('x)
     then map_prod ucast ucast (mul64wide (ucast a) (ucast b))
     else map_prod ucast ucast (mul32wide (ucast a) (ucast b)))"

definition MULHSU :: "'x::len word \<Rightarrow> 'x word \<Rightarrow> 'x word \<times> 'x word" where
  "MULHSU a b = (if is_rv64 TYPE('x)
     then map_prod ucast ucast (mulhsu64wide (ucast a) (ucast b))
     else map_prod ucast ucast (mulhsu32wide (ucast a) (ucast b)))"

section \<open>The carry chain over the natural numbers\<close>

text \<open>
  Both widths are one computation with base \<open>B = 2 ^ h\<close>: the product in base \<open>B\<close> has its middle
  digits summed with a carry that fits half a word.
\<close>

lemma wide_product_nat:
  fixes B :: nat
  assumes "0 < B"
    and p: "p0 = al * bl" "p1 = al * bh" "p2 = ah * bl" "p3 = ah * bh"
    and cy: "cy = (p0 div B + p1 mod B + p2 mod B) div B"
  shows "(p3 + p1 div B + p2 div B + cy) * (B * B) + (p0 + p1 * B + p2 * B) mod (B * B)
    = (ah * B + al) * (bh * B + bl)"
proof -
  define m where "m = p0 div B + p1 mod B + p2 mod B"
  have regroup: "(q0 * B + r0) + (q1 * B + r1) * B + (q2 * B + r2) * B
      = (q1 + q2) * (B * B) + (q0 + r1 + r2) * B + r0" for q0 r0 q1 r1 q2 r2
    by (simp add: algebra_simps)
  have split: "p0 + p1 * B + p2 * B = (p1 div B + p2 div B + m div B) * (B * B) + (m mod B * B + p0 mod B)"
  proof -
    have "p0 + p1 * B + p2 * B = (p1 div B + p2 div B) * (B * B) + m * B + p0 mod B"
      using regroup [of "p0 div B" "p0 mod B" "p1 div B" "p1 mod B" "p2 div B" "p2 mod B"]
      by (simp only: div_mult_mod_eq m_def)
    also have "m * B = m div B * (B * B) + m mod B * B"
      by (metis div_mult_mod_eq add_mult_distrib mult.assoc)
    finally show ?thesis by (simp only: add_mult_distrib add.assoc)
  qed
  have "m mod B * B + p0 mod B < Suc (m mod B) * B" using \<open>0 < B\<close> by simp
  also have "\<dots> \<le> B * B" using \<open>0 < B\<close> by (intro mult_le_mono1) (simp add: Suc_leI)
  finally have small: "m mod B * B + p0 mod B < B * B" .
  have "(p0 + p1 * B + p2 * B) mod (B * B) = m mod B * B + p0 mod B"
    unfolding split using small by simp
  moreover have "(ah * B + al) * (bh * B + bl) = p3 * (B * B) + (p0 + p1 * B + p2 * B)"
    by (simp add: p algebra_simps)
  ultimately show ?thesis
    unfolding cy m_def [symmetric] split by (simp add: algebra_simps)
qed

text \<open>The common shape of the two functions for a word of \<open>2 * h\<close> bits.\<close>

definition umul_parts :: "nat \<Rightarrow> 'a::len word \<Rightarrow> 'a word \<Rightarrow> 'a word \<times> 'a word" where
  "umul_parts h a b =
    (let p0 = take_bit h a * take_bit h b; p1 = take_bit h a * drop_bit h b;
         p2 = drop_bit h a * take_bit h b; p3 = drop_bit h a * drop_bit h b
     in (p3 + drop_bit h p1 + drop_bit h p2
           + take_bit h (drop_bit h (drop_bit h p0 + take_bit h p1 + take_bit h p2)),
         p0 + push_bit h p1 + push_bit h p2))"

lemma umul64wide_parts: "umul64wide a b = umul_parts 32 a b"
  by (simp add: umul64wide_def umul_parts_def Let_def ucast_ucast_take_bit)

lemma umul32wide_parts: "umul32wide a b = umul_parts 16 a b"
  by (simp add: umul32wide_def umul_parts_def Let_def ucast_ucast_take_bit)

lemma unat_mult_small: "unat a * unat b < 2 ^ LENGTH('a) \<Longrightarrow> unat (a * b :: 'a::len word) = unat a * unat b"
  by (simp add: unat_word_ariths)

lemma unat_add_small: "unat a + unat b < 2 ^ LENGTH('a) \<Longrightarrow> unat (a + b :: 'a::len word) = unat a + unat b"
  by (simp add: unat_word_ariths)

lemma umul_parts_nat:
  fixes a b :: "'a::len word"
  assumes len: "LENGTH('a) = 2 * h" "2 \<le> h" and r: "umul_parts h a b = (hi, lo)"
  shows "unat hi * 2 ^ LENGTH('a) + unat lo = unat a * unat b"
proof -
  define B :: nat where "B = 2 ^ h"
  have BB: "2 ^ LENGTH('a) = B * B" by (simp add: B_def len power_add mult_2)
  have B4: "4 \<le> B" using power_increasing [of 2 h "2::nat"] len by (simp add: B_def)
  define al ah bl bh where d: "al = unat a mod B" "ah = unat a div B" "bl = unat b mod B" "bh = unat b div B"
  have lt: "al < B" "bl < B" using B4 by (simp_all add: d)
  have "unat a < B * B" "unat b < B * B"
    by (simp_all flip: BB)
  then have lth: "ah < B" "bh < B" by (simp_all add: d less_mult_imp_div_less)
  have small: "x * y < B * B" if "x < B" "y < B" for x y
    using that by (intro mult_strict_mono') simp_all
  define p0 p1 p2 p3 where p: "p0 = take_bit h a * take_bit h b" "p1 = take_bit h a * drop_bit h b"
    "p2 = drop_bit h a * take_bit h b" "p3 = drop_bit h a * drop_bit h b"
  have up: "unat p0 = al * bl" "unat p1 = al * bh" "unat p2 = ah * bl" "unat p3 = ah * bh"
    using lt lth small by (simp_all add: p unat_mult_small unat_take unat_drop BB d B_def [symmetric])
  define m where "m = drop_bit h p0 + take_bit h p1 + take_bit h p2"
  have digit: "unat p0 div B < B" "unat p1 mod B < B" "unat p2 mod B < B"
    using lt small B4 by (simp_all add: up less_mult_imp_div_less)
  have "3 * B < B * B" using B4 by simp
  have ud: "unat (drop_bit h p0) = unat p0 div B" "unat (take_bit h p1) = unat p1 mod B"
    "unat (take_bit h p2) = unat p2 mod B"
    by (simp_all only: unat_take unat_drop B_def)
  have "unat p0 div B + unat p1 mod B < 3 * B" using digit by linarith
  then have two: "unat p0 div B + unat p1 mod B < B * B"
    using \<open>3 * B < B * B\<close> by (rule less_trans)
  have um2: "unat (drop_bit h p0 + take_bit h p1) = unat p0 div B + unat p1 mod B"
    using two by (subst unat_add_small) (simp_all only: ud BB)
  have "unat p0 div B + unat p1 mod B + unat p2 mod B < 3 * B"
    using digit by linarith
  then have sum3: "unat p0 div B + unat p1 mod B + unat p2 mod B < B * B"
    using \<open>3 * B < B * B\<close> by (rule less_trans)
  then have um: "unat m = unat p0 div B + unat p1 mod B + unat p2 mod B"
    unfolding m_def by (subst unat_add_small) (simp_all only: ud um2 BB)
  have umd: "unat m div B < B"
    using sum3 by (intro less_mult_imp_div_less) (simp only: um)
  have lo: "lo = p0 + push_bit h p1 + push_bit h p2"
    and hi: "hi = p3 + drop_bit h p1 + drop_bit h p2 + take_bit h (drop_bit h m)"
    using r by (simp_all add: umul_parts_def Let_def p m_def)
  have ulo: "unat lo = (unat p0 + unat p1 * B + unat p2 * B) mod (B * B)"
    unfolding lo by (simp only: unat_word_ariths unat_push BB B_def [symmetric] mod_simps)
  have cy: "unat (take_bit h (drop_bit h m)) = unat m div B"
    using umd by (simp add: unat_take unat_drop B_def [symmetric])
  have exact: "(unat p3 + unat p1 div B + unat p2 div B + unat m div B) * (B * B) + unat lo
      = unat a * unat b"
    unfolding ulo using wide_product_nat [where B = B and al = al and bl = bl and ah = ah and bh = bh, OF _ up refl] B4
    by (simp add: um d)
  have "unat a * unat b < (B * B) * (B * B)"
    using \<open>unat a < B * B\<close> \<open>unat b < B * B\<close> by (intro mult_strict_mono') simp_all
  then have "(unat p3 + unat p1 div B + unat p2 div B + unat m div B) * (B * B) < (B * B) * (B * B)"
    using exact by linarith
  then have s: "unat p3 + unat p1 div B + unat p2 div B + unat m div B < B * B" by simp
  have "unat hi = unat p3 + unat p1 div B + unat p2 div B + unat m div B"
    using s by (simp add: hi unat_add_small cy unat_drop BB B_def [symmetric])
  then show ?thesis using exact by (simp add: BB)
qed

section \<open>Signed high halves\<close>

lemma umul_parts_int:
  fixes a b :: "'a::len word"
  assumes "LENGTH('a) = 2 * h" "2 \<le> h" and "umul_parts h a b = (hi, lo)"
  shows "uint hi * 2 ^ LENGTH('a) + uint lo = uint a * uint b"
proof -
  have "int (unat hi * 2 ^ LENGTH('a) + unat lo) = int (unat a * unat b)"
    by (simp only: umul_parts_nat [OF assms])
  then show ?thesis
    by (simp only: uint_nat of_nat_add of_nat_mult of_nat_power of_nat_numeral)
qed

lemma uint_sint: "uint (w :: 'a::len word) = sint w + (if sint w < 0 then 2 ^ LENGTH('a) else 0)"
proof -
  let ?N = "2 ^ LENGTH('a) :: int"
  have N: "?N = 2 * 2 ^ (LENGTH('a) - 1)"
    by (metis One_nat_def Suc_pred len_gt_0 power_Suc)
  have r: "- (2 ^ (LENGTH('a) - 1)) \<le> sint w" "sint w < 2 ^ (LENGTH('a) - 1)"
    using sint_ge [of w] sint_less [of w] by simp_all
  have u: "uint w = sint w mod ?N"
    using uint_word_of_int [of "sint w", where 'a = 'a] by simp
  show ?thesis
  proof (cases "sint w < 0")
    case True
    have "sint w mod ?N = (sint w + ?N) mod ?N" by simp
    also have "\<dots> = sint w + ?N" using True r N by (intro mod_pos_pos_trivial) linarith+
    finally show ?thesis using True u by simp
  next
    case False
    have "sint w mod ?N = sint w" using False r N by (intro mod_pos_pos_trivial) linarith+
    then show ?thesis using False u by simp
  qed
qed

text \<open>
  Subtracting an operand from the high half for each negative factor turns the unsigned product
  into the signed one; the result fits because a signed product is at most half as large.
\<close>

lemma high_half_int:
  fixes hi lo :: "'a::len word"
  assumes mod: "uint lo = k mod 2 ^ LENGTH('a)"
    and hi: "word_of_int (k div 2 ^ LENGTH('a)) = hi"
    and bnd: "- (2 ^ (LENGTH('a) - 1)) * 2 ^ LENGTH('a) \<le> k" "k < 2 ^ (LENGTH('a) - 1) * 2 ^ LENGTH('a)"
  shows "sint hi * 2 ^ LENGTH('a) + uint lo = k"
proof -
  let ?N = "2 ^ LENGTH('a) :: int"
  have "- (2 ^ (LENGTH('a) - 1)) * ?N div ?N \<le> k div ?N"
    using bnd(1) by (rule zdiv_mono1) simp
  moreover have "- (2 ^ (LENGTH('a) - 1)) * ?N div ?N = - (2 ^ (LENGTH('a) - 1))"
    by (rule nonzero_mult_div_cancel_right) simp
  ultimately have "- (2 ^ (LENGTH('a) - 1)) \<le> k div ?N" by simp
  moreover have "k div ?N < 2 ^ (LENGTH('a) - 1)"
  proof (rule mult_right_less_imp_less [of _ ?N])
    have "k div ?N * ?N \<le> k div ?N * ?N + k mod ?N" by simp
    also have "\<dots> = k" by (rule div_mult_mod_eq)
    also note bnd(2)
    finally show "k div ?N * ?N < 2 ^ (LENGTH('a) - 1) * ?N" .
  qed simp
  ultimately have "sint hi = k div ?N"
    unfolding hi [symmetric] sint_sbintrunc' by (intro signed_take_bit_int_eq_self) simp_all
  then show ?thesis by (simp only: mod div_mult_mod_eq)
qed

text \<open>\<open>s\<close> and \<open>t\<close> say whether the first and the second operand are read as signed.\<close>

definition sgn_read :: "bool \<Rightarrow> 'a::len word \<Rightarrow> int" where
  "sgn_read s w = (if s then sint w else uint w)"

definition neg_part :: "bool \<Rightarrow> 'a::len word \<Rightarrow> 'a word \<Rightarrow> 'a word" where
  "neg_part s w v = (if s \<and> sint w < 0 then v else 0)"

lemma sgn_read_bounds:
  "- (2 ^ (LENGTH('a) - 1)) \<le> sgn_read s (w :: 'a::len word)" "sgn_read s w < 2 ^ LENGTH('a)"
  "s \<Longrightarrow> sgn_read s w < 2 ^ (LENGTH('a) - 1)"
proof -
  have p: "(2::int) ^ LENGTH('a) = 2 * 2 ^ (LENGTH('a) - 1)"
    by (metis One_nat_def Suc_pred len_gt_0 power_Suc)
  have r: "- (2 ^ (LENGTH('a) - 1)) \<le> sint w" "sint w < 2 ^ (LENGTH('a) - 1)"
    using sint_ge [of w] sint_less [of w] by simp_all
  have u: "0 \<le> uint w" "uint w < 2 ^ LENGTH('a)" by simp_all
  have z: "- (2 ^ (LENGTH('a) - 1)) \<le> (0::int)" by simp
  show "- (2 ^ (LENGTH('a) - 1)) \<le> sgn_read s w"
    using r(1) order_trans [OF z u(1)] by (simp only: sgn_read_def split: if_split) simp
  show "sgn_read s w < 2 ^ LENGTH('a)" using r u p by (auto simp: sgn_read_def)
  show "s \<Longrightarrow> sgn_read s w < 2 ^ (LENGTH('a) - 1)" using r by (simp add: sgn_read_def)
qed

lemma signed_high:
  fixes a b hi lo :: "'a::len word"
  assumes u: "uint hi * 2 ^ LENGTH('a) + uint lo = uint a * uint b" and "s"
  shows "sint (hi - neg_part s a b - neg_part t b a) * 2 ^ LENGTH('a) + uint lo
    = sgn_read s a * sgn_read t b"
proof (rule high_half_int)
  let ?N = "2 ^ LENGTH('a) :: int" and ?H = "2 ^ (LENGTH('a) - 1) :: int"
  let ?sa = "of_bool (s \<and> sint a < 0) :: int" and ?sb = "of_bool (t \<and> sint b < 0) :: int"
  let ?q = "uint hi - ?sa * uint b - ?sb * uint a + ?N * (?sa * ?sb)"
  have sg: "sgn_read s a = uint a - ?N * ?sa" "sgn_read t b = uint b - ?N * ?sb"
    using uint_sint [of a] uint_sint [of b] by (auto simp: sgn_read_def)
  have k: "sgn_read s a * sgn_read t b = uint lo + ?q * ?N"
    unfolding sg using u by (simp add: algebra_simps)
  have lo: "0 \<le> uint lo" "uint lo < ?N" by simp_all
  show "uint lo = sgn_read s a * sgn_read t b mod ?N"
    unfolding k using lo by simp
  have "sgn_read s a * sgn_read t b div ?N = ?q"
    unfolding k using lo by simp
  then show "word_of_int (sgn_read s a * sgn_read t b div ?N) = hi - neg_part s a b - neg_part t b a"
    by (auto simp: neg_part_def wi_hom_syms)
  have H: "?N = 2 * ?H" "0 < ?H"
    by (metis One_nat_def Suc_pred len_gt_0 power_Suc, simp)
  have ba: "- ?H \<le> sgn_read s a" "sgn_read s a < ?H" and bb: "- ?H \<le> sgn_read t b" "sgn_read t b < ?N"
    using sgn_read_bounds [of s a] sgn_read_bounds [of t b] \<open>s\<close> by simp_all
  then have "\<bar>sgn_read s a\<bar> \<le> ?H" "\<bar>sgn_read t b\<bar> \<le> ?N - 1" using H by auto
  then have abs: "\<bar>sgn_read s a * sgn_read t b\<bar> \<le> ?H * (?N - 1)"
    unfolding abs_mult by (intro mult_mono) simp_all
  have "?H * (?N - 1) < ?H * ?N" using H by simp
  with abs show "- ?H * ?N \<le> sgn_read s a * sgn_read t b" "sgn_read s a * sgn_read t b < ?H * ?N"
    by (simp_all only: abs_le_iff) linarith+
qed

section \<open>The functions compute exact products\<close>

lemma umul64wide_exact:
  "uint (fst (umul64wide a b)) * 2 ^ 64 + uint (snd (umul64wide a b)) = uint a * uint b"
  using umul_parts_int [of 32 a b] by (cases "umul_parts 32 a b") (simp add: umul64wide_parts)

lemma umul32wide_exact:
  "uint (fst (umul32wide a b)) * 2 ^ 32 + uint (snd (umul32wide a b)) = uint a * uint b"
  using umul_parts_int [of 16 a b] by (cases "umul_parts 16 a b") (simp add: umul32wide_parts)

lemma wide_neg_parts:
  "mul64wide a b = (let (hi, lo) = umul64wide a b in (hi - neg_part True a b - neg_part True b a, lo))"
  "mulhsu64wide a b = (let (hi, lo) = umul64wide a b in (hi - neg_part True a b - neg_part False b a, lo))"
  "mul32wide c d = (let (hi, lo) = umul32wide c d in (hi - neg_part True c d - neg_part True d c, lo))"
  "mulhsu32wide c d = (let (hi, lo) = umul32wide c d in (hi - neg_part True c d - neg_part False d c, lo))"
  by (simp_all add: mul64wide_def mulhsu64wide_def mul32wide_def mulhsu32wide_def neg_part_def Let_def
      split: prod.split)

lemma mul64wide_exact:
  "sint (fst (mul64wide a b)) * 2 ^ 64 + uint (snd (mul64wide a b)) = sint a * sint b"
  "sint (fst (mulhsu64wide a b)) * 2 ^ 64 + uint (snd (mulhsu64wide a b)) = sint a * uint b"
  using umul64wide_exact [of a b]
    signed_high [where s = True and t = True and a = a and b = b]
    signed_high [where s = True and t = False and a = a and b = b]
  by (cases "umul64wide a b"; simp add: wide_neg_parts sgn_read_def)+

lemma mul32wide_exact:
  "sint (fst (mul32wide a b)) * 2 ^ 32 + uint (snd (mul32wide a b)) = sint a * sint b"
  "sint (fst (mulhsu32wide a b)) * 2 ^ 32 + uint (snd (mulhsu32wide a b)) = sint a * uint b"
  using umul32wide_exact [of a b]
    signed_high [where s = True and t = True and a = a and b = b]
    signed_high [where s = True and t = False and a = a and b = b]
  by (cases "umul32wide a b"; simp add: wide_neg_parts sgn_read_def)+

lemma same_len_ucast:
  assumes "LENGTH('a::len) = LENGTH('b::len)"
  shows "uint (ucast w :: 'b word) = uint (w :: 'a word)" "sint (ucast w :: 'b word) = sint w"
proof -
  show u: "uint (ucast w :: 'b word) = uint w"
    unfolding unsigned_ucast_eq assms [symmetric] by (simp add: take_bit_int_eq_self)
  show "sint (ucast w :: 'b word) = sint w" by (simp only: sint_uint u assms)
qed

lemma wide_multiplication_spec:
  fixes a b :: "'x::len word"
  assumes "LENGTH('x) = 32 \<or> LENGTH('x) = 64"
  shows "uint (fst (UMUL a b)) * 2 ^ LENGTH('x) + uint (snd (UMUL a b)) = uint a * uint b
    \<and> sint (fst (MUL a b)) * 2 ^ LENGTH('x) + uint (snd (MUL a b)) = sint a * sint b
    \<and> sint (fst (MULHSU a b)) * 2 ^ LENGTH('x) + uint (snd (MULHSU a b)) = sint a * uint b"
  using assms
proof
  assume "LENGTH('x) = 32"
  then show ?thesis
    using umul32wide_exact [of "ucast a" "ucast b"] mul32wide_exact [of "ucast a" "ucast b"]
    by (simp add: UMUL_def MUL_def MULHSU_def same_len_ucast)
next
  assume "LENGTH('x) = 64"
  then show ?thesis
    using umul64wide_exact [of "ucast a" "ucast b"] mul64wide_exact [of "ucast a" "ucast b"]
    by (simp add: UMUL_def MUL_def MULHSU_def same_len_ucast)
qed

text \<open>
  C38. In the RV32 and in the RV64 build, the two words that \<open>UMUL\<close>, \<open>MUL\<close> and \<open>MULHSU\<close> return are
  the exact double-width product: of two unsigned, of two signed, and of a signed and an unsigned
  operand. No carry between the partial products is lost.
\<close>

theorem wide_multiplication_exact:
  fixes a b :: "'x::len word"
  assumes "LENGTH('x) = 32 \<or> LENGTH('x) = 64"
  shows "uint (fst (UMUL a b)) * 2 ^ LENGTH('x) + uint (snd (UMUL a b)) = uint a * uint b
    \<and> sint (fst (MUL a b)) * 2 ^ LENGTH('x) + uint (snd (MUL a b)) = sint a * sint b
    \<and> sint (fst (MULHSU a b)) * 2 ^ LENGTH('x) + uint (snd (MULHSU a b)) = sint a * uint b"
  by (rule wide_multiplication_spec [OF assms])

theorem wide_multiplication_exact_witness:
  "sint (fst (MUL (0x80000000 :: u32) 3)) * 2 ^ 32 + uint (snd (MUL (0x80000000 :: u32) 3)) = - 6442450944"
  using wide_multiplication_exact [where a = "0x80000000 :: u32" and b = 3] by simp

end
