(* ===== verification/Fifo.thy ===== *)
theory Fifo
  imports RvTypes
begin

text \<open>
  The ring buffer of \<open>src/helpers/fifo.c\<close>: two free-running 32-bit counters \<open>in\<close> and \<open>out\<close>
  whose low bits index an array with a power-of-two size. The lemmas show it is a bounded
  first-in first-out queue, across the wrap-around of the index and of the counters.
\<close>

section \<open>State and operations\<close>

record fifo_t =
  f_in :: u32
  f_out :: u32
  f_mask :: u32
  f_size :: u32
  f_data :: "u8 list"

definition fifo_unused :: "fifo_t \<Rightarrow> u32" where
  "fifo_unused f = (f_mask f + 1) - (f_in f - f_out f)"

definition fifo_init :: "u8 list \<Rightarrow> u32 \<Rightarrow> fifo_t" where
  "fifo_init data_arr data_arr_size =
     \<lparr>f_in = 0, f_out = 0, f_mask = data_arr_size - 1, f_size = data_arr_size, f_data = data_arr\<rparr>"

definition fifo_reset :: "fifo_t \<Rightarrow> fifo_t" where
  "fifo_reset f = f\<lparr>f_in := 0, f_out := 0\<rparr>"

definition fifo_size :: "fifo_t \<Rightarrow> u32" where
  "fifo_size f = f_mask f + 1"

definition fifo_len :: "fifo_t \<Rightarrow> u32" where
  "fifo_len f = f_in f - f_out f"

definition fifo_is_empty :: "fifo_t \<Rightarrow> bool" where
  "fifo_is_empty f = (f_in f = f_out f)"

definition fifo_is_full :: "fifo_t \<Rightarrow> bool" where
  "fifo_is_full f = (fifo_len f > f_mask f)"

definition fifo_free :: "fifo_t \<Rightarrow> u32" where
  "fifo_free f = fifo_unused f"

definition fifo_put :: "fifo_t \<Rightarrow> u8 \<Rightarrow> (fifo_t \<times> bool) res" where
  "fifo_put f val =
    (let ret = \<not> fifo_is_full f in
     if ret then
       res_bind (arr_set (f_data f) (unat (f_in f AND f_mask f)) val) (\<lambda>d.
       Inr (f\<lparr>f_data := d, f_in := f_in f + 1\<rparr>, ret))
     else Inr (f, ret))"

definition fifo_get :: "fifo_t \<Rightarrow> (fifo_t \<times> u8 option) res" where
  "fifo_get f =
    (let ret = \<not> fifo_is_empty f in
     if ret then
       res_bind (arr_get (f_data f) (unat (f_out f AND f_mask f))) (\<lambda>v.
       Inr (f\<lparr>f_out := f_out f + 1\<rparr>, Some v))
     else Inr (f, None))"

text \<open>The copied bytes are the result; the caller's buffer receives them at its start.\<close>

definition fifo_copy_out :: "fifo_t \<Rightarrow> u32 \<Rightarrow> u32 \<Rightarrow> u8 list res" where
  "fifo_copy_out f len off =
    (let sz = f_mask f + 1;
         off = off AND f_mask f;
         l = sz - off;
         l = (if l > len then len else l)
     in res_bind (arr_read (f_data f) (unat off) (unat l)) (\<lambda>d1.
        res_bind (arr_read (f_data f) 0 (unat (len - l))) (\<lambda>d2.
        Inr (d1 @ d2))))"

definition fifo_out_peek :: "fifo_t \<Rightarrow> u32 \<Rightarrow> (u8 list \<times> u32) res" where
  "fifo_out_peek f len =
    (let l = f_in f - f_out f;
         len = (if len > l then l else len)
     in res_bind (fifo_copy_out f len (f_out f)) (\<lambda>d. Inr (d, len)))"

definition fifo_out :: "fifo_t \<Rightarrow> u64 \<Rightarrow> (fifo_t \<times> u8 list \<times> u32) res" where
  "fifo_out f n =
     res_bind (fifo_out_peek f (ucast n)) (\<lambda>(d, len).
     Inr (f\<lparr>f_out := f_out f + len\<rparr>, d, len))"

definition fifo_copy_in :: "fifo_t \<Rightarrow> u8 list \<Rightarrow> u32 \<Rightarrow> u32 \<Rightarrow> fifo_t res" where
  "fifo_copy_in f src len off =
    (let sz = f_mask f + 1;
         off = off AND f_mask f;
         l = sz - off;
         l = (if len < l then len else l)
     in res_bind (arr_read src 0 (unat l)) (\<lambda>s1.
        res_bind (arr_write (f_data f) (unat off) s1) (\<lambda>d1.
        res_bind (arr_read src (unat l) (unat (len - l))) (\<lambda>s2.
        res_bind (arr_write d1 0 s2) (\<lambda>d2.
        Inr (f\<lparr>f_data := d2\<rparr>))))))"

definition fifo_in :: "fifo_t \<Rightarrow> u8 list \<Rightarrow> u64 \<Rightarrow> (fifo_t \<times> u32) res" where
  "fifo_in f buf len =
    (let l = fifo_unused f;
         len = (if len > ucast l then ucast l else len)
     in res_bind (fifo_copy_in f buf (ucast len) (f_in f)) (\<lambda>f.
        Inr (f\<lparr>f_in := f_in f + ucast len\<rparr>, ucast len)))"

section \<open>Abstraction to a list\<close>

definition fifo_cap :: "fifo_t \<Rightarrow> nat" where
  "fifo_cap f = length (f_data f)"

text \<open>The array has a power-of-two size that \<open>mask\<close> fits, and at most that many elements are used.\<close>

definition fifo_wf :: "fifo_t \<Rightarrow> bool" where
  "fifo_wf f \<longleftrightarrow> (\<exists>k \<le> 31. length (f_data f) = 2 ^ k \<and> f_mask f = mask k) \<and>
     unat (fifo_len f) \<le> length (f_data f)"

definition fifo_contents :: "fifo_t \<Rightarrow> u8 list" where
  "fifo_contents f =
     map (\<lambda>i. f_data f ! unat ((f_out f + of_nat i) AND f_mask f)) [0..<unat (fifo_len f)]"

text \<open>The array position of an element: counters modulo the size.\<close>

lemma fifo_index:
  assumes "f_mask f = mask k" "k \<le> 31"
  shows "unat ((w + of_nat i) AND f_mask f) = (unat w + i) mod 2 ^ k"
proof -
  have d: "(2::nat) ^ k dvd 2 ^ 32" using assms by (intro le_imp_power_dvd) simp
  have "unat ((w + of_nat i) AND f_mask f) = unat (w + of_nat i) mod 2 ^ k"
    by (simp only: assms bit_word_and_mask unat_take)
  also have "\<dots> = (unat w + i mod 2 ^ 32) mod 2 ^ 32 mod 2 ^ k"
    by (simp add: unat_word_ariths unat_of_nat)
  also have "\<dots> = (unat w + i) mod 2 ^ k"
    by (simp only: mod_simps mod_mod_cancel [OF d])
  finally show ?thesis .
qed

lemma fifo_contents_nat:
  assumes "f_mask f = mask k" "k \<le> 31"
  shows "fifo_contents f =
    map (\<lambda>i. f_data f ! ((unat (f_out f) + i) mod 2 ^ k)) [0..<unat (fifo_len f)]"
  using fifo_index [OF assms, of "f_out f"] by (simp add: fifo_contents_def)

lemma length_fifo_contents [simp]: "length (fifo_contents f) = unat (fifo_len f)"
  by (simp add: fifo_contents_def)

lemma fifo_in_pos: "unat (f_in f) mod 2 ^ 32 = (unat (f_out f) + unat (fifo_len f)) mod 2 ^ 32"
proof -
  have "f_in f = f_out f + fifo_len f" by (simp add: fifo_len_def)
  then have "unat (f_in f) = (unat (f_out f) + unat (fifo_len f)) mod 2 ^ 32"
    by (simp only: unat_word_ariths) simp
  then show ?thesis by simp
qed

section \<open>Copies around the end of the array\<close>

lemma ring_mod_cases:
  fixes S :: nat
  assumes "j < S"
  shows "(off + j) mod S = (if off mod S + j < S then off mod S + j else off mod S + j - S)"
proof -
  have s: "(off + j) mod S = (off mod S + j) mod S" by (simp add: mod_simps)
  have a: "off mod S < S" using assms by simp
  show ?thesis
  proof (cases "off mod S + j < S")
    case True
    then show ?thesis by (simp only: s mod_less if_True)
  next
    case False
    then have "(off mod S + j) mod S = (off mod S + j - S) mod S" by (intro le_mod_geq) simp
    also have "\<dots> = off mod S + j - S" using a assms by (intro mod_less) linarith
    finally show ?thesis using False by (simp only: s if_False)
  qed
qed

lemma ring_write_at:
  fixes S :: nat
  assumes d: "length d = S" "len \<le> S" "len \<le> length src" "j < S" "a < S"
    and l: "l = min len (S - a)" and p: "p = (if a + j < S then a + j else a + j - S)"
  shows "splice (splice d a (take l src)) 0 (take (len - l) (drop l src)) ! p
    = (if j < len then src ! j else d ! p)"
proof -
  have ls: "length (take l src) = l" "length (take (len - l) (drop l src)) = len - l" using d l by auto
  have ps: "p < S" "l \<le> len" "a + l \<le> S" "len - l \<le> a" using d l p by auto
  have in1: "splice d a (take l src) ! p = (if a \<le> p \<and> p < a + l then src ! (p - a) else d ! p)"
    using d ls ps by (subst nth_splice) auto
  have "splice (splice d a (take l src)) 0 (take (len - l) (drop l src)) ! p
      = (if p < len - l then src ! (l + p) else splice d a (take l src) ! p)"
    using d ls ps by (subst nth_splice) auto
  then have outer: "splice (splice d a (take l src)) 0 (take (len - l) (drop l src)) ! p
      = (if p < len - l then src ! (l + p) else if a \<le> p \<and> p < a + l then src ! (p - a) else d ! p)"
    by (simp only: in1)
  show ?thesis
  proof (cases "a + j < S")
    case True
    then have "p = a + j" using p by simp
    moreover have "j < l \<longleftrightarrow> j < len" using True l by auto
    ultimately show ?thesis using outer ps by simp
  next
    case False
    then have pp: "p = a + j - S" using p by simp
    then have "\<not> a \<le> p" using d False by linarith
    moreover have "p < len - l \<longleftrightarrow> j < len" using False l d pp by auto
    moreover have "j < len \<Longrightarrow> l + p = j" using False l d pp by auto
    ultimately show ?thesis using outer by simp
  qed
qed

lemma ring_write_nth:
  fixes S :: nat
  assumes "length d = S" "len \<le> S" "len \<le> length src" "j < S" and "l = min len (S - off mod S)"
  shows "splice (splice d (off mod S) (take l src)) 0 (take (len - l) (drop l src)) ! ((off + j) mod S)
    = (if j < len then src ! j else d ! ((off + j) mod S))"
  using assms ring_mod_cases [of j S off] by (intro ring_write_at) auto

lemma ring_read_at:
  fixes S :: nat
  assumes "length d = S" "len \<le> S" "j < len" "a < S"
    and "l = min len (S - a)" and "p = (if a + j < S then a + j else a + j - S)"
  shows "(take l (drop a d) @ take (len - l) d) ! j = d ! p"
proof (cases "a + j < S")
  case True
  then have "j < l" using assms by simp
  then show ?thesis using assms True by (simp add: nth_append)
next
  case False
  then have "l = S - a" "\<not> j < l" "j - l = a + j - S" "j - l < len - l" using assms by auto
  then show ?thesis using assms False by (simp add: nth_append)
qed

lemma ring_read_eq:
  fixes S :: nat
  assumes "length d = S" "0 < S" "len \<le> S" "l = min len (S - off mod S)"
  shows "take l (drop (off mod S) d) @ take (len - l) d = map (\<lambda>j. d ! ((off + j) mod S)) [0..<len]"
proof (rule nth_equalityI)
  have a: "off mod S < S" using assms by simp
  then show "length (take l (drop (off mod S) d) @ take (len - l) d)
      = length (map (\<lambda>j. d ! ((off + j) mod S)) [0..<len])" using assms by auto
  fix j assume "j < length (take l (drop (off mod S) d) @ take (len - l) d)"
  then have j: "j < len" using a assms by auto
  then show "(take l (drop (off mod S) d) @ take (len - l) d) ! j
      = map (\<lambda>j. d ! ((off + j) mod S)) [0..<len] ! j"
    using a assms ring_mod_cases [of j S off] ring_read_at [of d S len j "off mod S" l "(off + j) mod S"]
    by simp
qed

section \<open>Every operation is the list operation\<close>

lemma fifo_wfE:
  assumes "fifo_wf f"
  obtains k where "k \<le> 31" "length (f_data f) = 2 ^ k" "f_mask f = mask k" "unat (fifo_len f) \<le> 2 ^ k"
    "unat (f_mask f + 1) = 2 ^ k" "unat (f_mask f) = 2 ^ k - 1"
proof -
  from assms obtain k where k: "k \<le> 31" "length (f_data f) = 2 ^ k" "f_mask f = mask k"
    "unat (fifo_len f) \<le> 2 ^ k" by (auto simp: fifo_wf_def)
  have e: "unat (2 ^ k :: u32) = 2 ^ k" using k(1) by (simp add: unat_exp)
  then have "(1 :: u32) \<le> 2 ^ k" by (simp add: word_le_nat_alt)
  then have "unat (mask k :: u32) = 2 ^ k - 1"
    by (simp add: mask_eq_exp_minus_1 unat_sub e)
  moreover have "unat (mask k + 1 :: u32) = 2 ^ k"
    by (simp add: mask_eq_exp_minus_1 e)
  ultimately show ?thesis using k that by metis
qed

lemma fifo_free_nat:
  assumes "fifo_wf f"
  shows "unat (fifo_unused f) = fifo_cap f - length (fifo_contents f)"
    and "length (fifo_contents f) \<le> fifo_cap f"
proof -
  from assms obtain k where k: "k \<le> 31" "length (f_data f) = 2 ^ k" "unat (fifo_len f) \<le> 2 ^ k"
    "unat (f_mask f + 1) = 2 ^ k" by (rule fifo_wfE)
  then have "fifo_len f \<le> f_mask f + 1" by (simp add: word_le_nat_alt)
  then show "unat (fifo_unused f) = fifo_cap f - length (fifo_contents f)"
    using k by (simp add: fifo_unused_def fifo_cap_def fifo_len_def [symmetric] unat_sub)
  show "length (fifo_contents f) \<le> fifo_cap f" using k by (simp add: fifo_cap_def)
qed

lemma fifo_chunk:
  assumes k: "k \<le> 31" "f_mask f = mask k" "unat (f_mask f + 1) = 2 ^ k" and len: "unat len \<le> 2 ^ k"
  shows "unat (off AND f_mask f) = unat off mod 2 ^ k"
    and "unat (if (f_mask f + 1) - (off AND f_mask f) > len then len else (f_mask f + 1) - (off AND f_mask f))
      = min (unat len) (2 ^ k - unat off mod 2 ^ k)"
proof -
  show o: "unat (off AND f_mask f) = unat off mod 2 ^ k"
    by (simp only: k bit_word_and_mask unat_take)
  have "unat off mod 2 ^ k \<le> 2 ^ k" by (rule less_imp_le) simp
  then have "off AND f_mask f \<le> f_mask f + 1" unfolding word_le_nat_alt o k(3) .
  then have "unat ((f_mask f + 1) - (off AND f_mask f)) = 2 ^ k - unat off mod 2 ^ k"
    by (simp only: unat_sub o k(3))
  then show "unat (if (f_mask f + 1) - (off AND f_mask f) > len then len else (f_mask f + 1) - (off AND f_mask f))
      = min (unat len) (2 ^ k - unat off mod 2 ^ k)"
    by (auto simp: word_less_nat_alt min_def)
qed

lemma fifo_copy_in_spec:
  assumes k: "k \<le> 31" "length (f_data f) = 2 ^ k" "f_mask f = mask k" "unat (f_mask f + 1) = 2 ^ k"
    and len: "unat len \<le> 2 ^ k" "unat len \<le> length src"
  shows "\<exists>d. fifo_copy_in f src len off = Inr (f\<lparr>f_data := d\<rparr>) \<and> length d = 2 ^ k \<and>
    (\<forall>j < 2 ^ k. d ! ((unat off + j) mod 2 ^ k) =
       (if j < unat len then src ! j else f_data f ! ((unat off + j) mod 2 ^ k)))"
proof -
  define l where "l = (if (f_mask f + 1) - (off AND f_mask f) > len then len else (f_mask f + 1) - (off AND f_mask f))"
  note ch = fifo_chunk [OF k(1,3,4) len(1), of off]
  have ul: "unat l = min (unat len) (2 ^ k - unat off mod 2 ^ k)" unfolding l_def by (rule ch(2))
  have ml: "unat off mod 2 ^ k < 2 ^ k" by simp
  have "l \<le> len" using ul by (simp add: word_le_nat_alt)
  then have ud: "unat (len - l) = unat len - unat l" by (simp add: unat_sub)
  let ?d = "splice (splice (f_data f) (unat off mod 2 ^ k) (take (unat l) src)) 0
    (take (unat len - unat l) (drop (unat l) src))"
  have b1: "unat off mod 2 ^ k + length (take (unat l) src) \<le> length (f_data f)" proof -
    have "unat off mod 2 ^ k + min (length src) (min (unat len) (2 ^ k - unat off mod 2 ^ k))
        \<le> unat off mod 2 ^ k + (2 ^ k - unat off mod 2 ^ k)"
      by (intro add_left_mono min.coboundedI2) simp
    also have "\<dots> = 2 ^ k" using ml by (simp only: le_add_diff_inverse less_imp_le)
    finally show ?thesis by (simp only: ul k length_take)
  qed
  have b2: "0 + length (take (unat len - unat l) (drop (unat l) src))
      \<le> length (splice (f_data f) (unat off mod 2 ^ k) (take (unat l) src))"
    using b1 k order_trans [OF min.cobounded2 order_trans [OF diff_le_self len(1)]] by simp
  have lsrc: "unat l \<le> length src" "unat l + (unat len - unat l) \<le> length src" using ul len by auto
  have steps: "arr_read src 0 (unat l) = Inr (take (unat l) src)"
    "arr_write (f_data f) (unat (off AND f_mask f)) (take (unat l) src)
      = Inr (splice (f_data f) (unat off mod 2 ^ k) (take (unat l) src))"
    "arr_read src (unat l) (unat (len - l)) = Inr (take (unat len - unat l) (drop (unat l) src))"
    "arr_write (splice (f_data f) (unat off mod 2 ^ k) (take (unat l) src)) 0
      (take (unat len - unat l) (drop (unat l) src)) = Inr ?d"
    using arr_write_ok [OF b1] arr_write_ok [OF b2] arr_read_ok [OF lsrc(2)] lsrc(1)
    by (simp_all only: ud ch(1)) simp
  have "fifo_copy_in f src len off = Inr (f\<lparr>f_data := ?d\<rparr>)"
    unfolding fifo_copy_in_def Let_def l_def [symmetric] by (simp only: steps res_bind_simps)
  moreover have "length ?d = 2 ^ k" using b1 b2 k by simp
  ultimately show ?thesis using ring_write_nth [OF k(2) len _ ul] by auto
qed

lemma fifo_in_spec:
  assumes wf: "fifo_wf f" and len: "unat len \<le> length buf"
    and n: "n = min (unat len) (fifo_cap f - length (fifo_contents f))"
  shows "\<exists>f'. fifo_in f buf len = Inr (f', of_nat n) \<and> fifo_wf f' \<and> fifo_cap f' = fifo_cap f \<and>
    fifo_contents f' = fifo_contents f @ take n buf"
proof -
  from wf obtain k where k: "k \<le> 31" "length (f_data f) = 2 ^ k" "f_mask f = mask k"
    "unat (fifo_len f) \<le> 2 ^ k" "unat (f_mask f + 1) = 2 ^ k" by (rule fifo_wfE)
  note fr = fifo_free_nat [OF wf]
  let ?c = "unat (fifo_len f)" and ?S = "2 ^ k :: nat"
  have S: "?S < 2 ^ 32" using k(1) by (intro power_strict_increasing) simp_all
  define w where "w = (if len > ucast (fifo_unused f) then ucast (fifo_unused f) else len)"
  have uu: "unat (ucast (fifo_unused f) :: u64) = unat (fifo_unused f)"
    by (rule unat_ucast_up) simp
  then have uw: "unat w = n"
    unfolding w_def n fr(1) [symmetric] by (auto simp: word_less_nat_alt min_def)
  have nS: "n + ?c \<le> ?S" using n k by (simp add: fifo_cap_def)
  then have w32: "(ucast w :: u32) = of_nat n"
    by (simp only: uw [symmetric] of_nat_unat)
  have n32: "unat (of_nat n :: u32) = n" using nS S by (simp add: unat_of_nat)
  have nl: "n \<le> 2 ^ k" "n \<le> length buf" using nS len n by auto
  obtain d where d: "fifo_copy_in f buf (of_nat n) (f_in f) = Inr (f\<lparr>f_data := d\<rparr>)" "length d = ?S"
    "\<And>j. j < ?S \<Longrightarrow> d ! ((unat (f_in f) + j) mod ?S)
       = (if j < n then buf ! j else f_data f ! ((unat (f_in f) + j) mod ?S))"
    using fifo_copy_in_spec [OF k(1,2,3,5), of "of_nat n" buf "f_in f", unfolded n32, OF nl] by blast
  define f' where "f' = f\<lparr>f_data := d, f_in := f_in f + of_nat n\<rparr>"
  have run: "fifo_in f buf len = Inr (f', of_nat n)"
    unfolding fifo_in_def Let_def w_def [symmetric] w32 d(1) by (simp add: f'_def)
  have "fifo_len f' = fifo_len f + of_nat n" by (simp add: f'_def fifo_len_def)
  then have len': "unat (fifo_len f') = ?c + n"
    using n32 nS S by (simp add: unat_word_ariths)
  have wf': "fifo_wf f'"
    using k d(2) len' nS by (auto simp: fifo_wf_def f'_def)
  have dv: "?S dvd 2 ^ 32" using k(1) by (intro le_imp_power_dvd) simp
  have "unat (f_in f) mod ?S = (unat (f_out f) + ?c) mod ?S"
    using arg_cong [OF fifo_in_pos [of f], of "\<lambda>v. v mod ?S"] by (simp only: mod_mod_cancel [OF dv])
  then have pos: "(unat (f_in f) + j) mod ?S = (unat (f_out f) + ?c + j) mod ?S" for j
    by (rule mod_add_cong) (rule refl)
  have "fifo_contents f' ! i = (fifo_contents f @ take n buf) ! i" if i: "i < ?c + n" for i
  proof (cases "i < ?c")
    case True
    have "unat (f_out f) + ?c + (?S - ?c + i) = unat (f_out f) + i + ?S" using k(4) by simp
    then have "(unat (f_in f) + (?S - ?c + i)) mod ?S = (unat (f_out f) + i) mod ?S"
      by (simp only: pos mod_add_self2)
    then have "d ! ((unat (f_out f) + i) mod ?S) = f_data f ! ((unat (f_out f) + i) mod ?S)"
      using d(3) [of "?S - ?c + i"] True nS by (auto split: if_splits)
    then show ?thesis
      using True i fifo_contents_nat [of f k] fifo_contents_nat [of f' k] k len'
      by (simp add: nth_append f'_def)
  next
    case False
    then obtain j where j: "i = ?c + j" "j < n" using i by (metis add.commute add_less_cancel_right le_Suc_ex not_less)
    then have "d ! ((unat (f_out f) + i) mod ?S) = buf ! j"
      using d(3) [of j] nS by (simp add: pos add.assoc)
    then show ?thesis
      using False i j fifo_contents_nat [of f' k] k len' by (simp add: nth_append f'_def)
  qed
  then have "fifo_contents f' = fifo_contents f @ take n buf"
    using len' len n by (intro nth_equalityI) auto
  moreover have "fifo_cap f' = fifo_cap f" using d(2) k by (simp add: fifo_cap_def f'_def)
  ultimately show ?thesis using run wf' by blast
qed

lemma fifo_out_spec:
  assumes wf: "fifo_wf f" and n: "n = min (unat (ucast len :: u32)) (length (fifo_contents f))"
  shows "\<exists>f'. fifo_out f len = Inr (f', take n (fifo_contents f), of_nat n) \<and> fifo_wf f' \<and>
    fifo_cap f' = fifo_cap f \<and> fifo_contents f' = drop n (fifo_contents f)"
proof -
  from wf obtain k where k: "k \<le> 31" "length (f_data f) = 2 ^ k" "f_mask f = mask k"
    "unat (fifo_len f) \<le> 2 ^ k" "unat (f_mask f + 1) = 2 ^ k" by (rule fifo_wfE)
  let ?c = "unat (fifo_len f)" and ?S = "2 ^ k :: nat"
  have S: "?S < 2 ^ 32" using k(1) by (intro power_strict_increasing) simp_all
  define w where "w = (if ucast len > fifo_len f then fifo_len f else (ucast len :: u32))"
  have uw: "unat w = n" unfolding w_def n by (auto simp: word_less_nat_alt min_def)
  then have wn: "w = of_nat n" by (metis of_nat_unat ucast_id)
  have nc: "n \<le> ?c" "unat w \<le> ?S" using n uw k(4) by auto
  define l where "l = (if (f_mask f + 1) - (f_out f AND f_mask f) > w then w
    else (f_mask f + 1) - (f_out f AND f_mask f))"
  note ch = fifo_chunk [OF k(1,3,5) nc(2), of "f_out f"]
  have ul: "unat l = min n (?S - unat (f_out f) mod ?S)" unfolding l_def using ch(2) by (simp only: uw)
  have "l \<le> w" using ul uw by (simp add: word_le_nat_alt)
  then have ud: "unat (w - l) = n - unat l" by (simp add: unat_sub uw)
  have "unat (f_out f) mod ?S < ?S" by simp
  then have b: "unat (f_out f) mod ?S + unat l \<le> length (f_data f)" "0 + (n - unat l) \<le> length (f_data f)"
    using ul nc uw k(2) by (simp_all only:)
  have nS: "n \<le> ?S" using nc uw by simp
  have "fifo_copy_out f w (f_out f) =
      Inr (take (unat l) (drop (unat (f_out f) mod ?S) (f_data f)) @ take (n - unat l) (f_data f))"
    unfolding fifo_copy_out_def Let_def l_def [symmetric] ch(1) ud arr_read_ok [OF b(1)] arr_read_ok [OF b(2)]
    by simp
  also have "take (unat l) (drop (unat (f_out f) mod ?S) (f_data f)) @ take (n - unat l) (f_data f)
      = map (\<lambda>j. f_data f ! ((unat (f_out f) + j) mod ?S)) [0..<n]"
    by (rule ring_read_eq [OF k(2) _ nS ul]) simp
  also have "\<dots> = take n (fifo_contents f)"
    using nc(1) by (simp add: fifo_contents_nat [OF k(3,1)] take_map)
  finally have co: "fifo_copy_out f w (f_out f) = Inr (take n (fifo_contents f))" .
  define f' where "f' = f\<lparr>f_out := f_out f + w\<rparr>"
  have run: "fifo_out f len = Inr (f', take n (fifo_contents f), of_nat n)"
    unfolding fifo_out_def fifo_out_peek_def Let_def fifo_len_def [symmetric] w_def [symmetric] co
    by (simp add: f'_def wn)
  have "fifo_len f' = fifo_len f - w" by (simp add: f'_def fifo_len_def)
  moreover have "w \<le> fifo_len f" using nc(1) uw by (simp add: word_le_nat_alt)
  ultimately have len': "unat (fifo_len f') = ?c - n" by (simp add: unat_sub uw)
  have wf': "fifo_wf f'" using k len' by (auto simp: fifo_wf_def f'_def)
  have dv: "?S dvd 2 ^ 32" using k(1) by (intro le_imp_power_dvd) simp
  have pos: "(unat (f_out f') + j) mod ?S = (unat (f_out f) + (n + j)) mod ?S" for j
    using mod_mod_cancel [OF dv, of "unat (f_out f) + n"]
    by (simp add: f'_def unat_word_ariths uw mod_simps add.assoc [symmetric])
      (metis mod_add_left_eq)
  have same: "f_data f' = f_data f" "f_mask f' = f_mask f" by (simp_all add: f'_def)
  have "fifo_contents f' = drop n (fifo_contents f)"
    using same len' fifo_contents_nat [OF k(3,1)] fifo_contents_nat [of f' k] k
    by (auto intro!: nth_equalityI simp: pos)
  moreover have "fifo_cap f' = fifo_cap f" by (simp add: fifo_cap_def f'_def)
  ultimately show ?thesis using run wf' by blast
qed

section \<open>The queue interface\<close>

text \<open>
  What the two UART models rely on: a bounded queue of elements. Adding to a full queue loses the
  new element, taking from an empty queue yields nothing, and neither stops abnormally.
\<close>

datatype 'a qop = Put 'a | Take

text \<open>The answer to an operation: whether the element was stored, or the element taken.\<close>

datatype 'a qans = Stored bool | Taken "'a option"

text \<open>The same operations on a list of at most \<open>cap\<close> elements: the final list and the answers.\<close>

fun queue_run :: "nat \<Rightarrow> 'a list \<Rightarrow> 'a qop list \<Rightarrow> 'a list \<times> 'a qans list" where
  "queue_run cap q [] = (q, [])"
| "queue_run cap q (Put a # ops) =
     (let ok = length q < cap; (q', ans) = queue_run cap (if ok then q @ [a] else q) ops in (q', Stored ok # ans))"
| "queue_run cap q (Take # ops) =
     (let (q', ans) = queue_run cap (tl q) ops in (q', Taken (case q of [] \<Rightarrow> None | v # _ \<Rightarrow> Some v) # ans))"

locale bounded_queue =
  fixes enq :: "'q \<Rightarrow> 'a \<Rightarrow> ('q \<times> bool) res"
    and deq :: "'q \<Rightarrow> ('q \<times> 'a option) res"
    and contents :: "'q \<Rightarrow> 'a list"
    and cap :: "'q \<Rightarrow> nat"
    and inv :: "'q \<Rightarrow> bool"
  assumes enq_law: "inv q \<Longrightarrow> \<exists>q'. enq q a = Inr (q', length (contents q) < cap q) \<and> inv q' \<and> cap q' = cap q \<and>
      contents q' = (if length (contents q) < cap q then contents q @ [a] else contents q)"
    and deq_law: "inv q \<Longrightarrow> \<exists>q'. deq q = Inr (q', case contents q of [] \<Rightarrow> None | v # _ \<Rightarrow> Some v) \<and>
      inv q' \<and> cap q' = cap q \<and> contents q' = tl (contents q)"
    and bounded: "inv q \<Longrightarrow> length (contents q) \<le> cap q"
begin

text \<open>A run of operations with its answers.\<close>

fun run :: "'q \<Rightarrow> 'a qop list \<Rightarrow> ('q \<times> 'a qans list) res" where
  "run q [] = Inr (q, [])"
| "run q (Put a # ops) =
     res_bind (enq q a) (\<lambda>(q1, ok). res_bind (run q1 ops) (\<lambda>(q2, ans). Inr (q2, Stored ok # ans)))"
| "run q (Take # ops) =
     res_bind (deq q) (\<lambda>(q1, v). res_bind (run q1 ops) (\<lambda>(q2, ans). Inr (q2, Taken v # ans)))"

lemma run_refines:
  "inv q \<Longrightarrow> \<exists>q' ans. run q ops = Inr (q', ans) \<and> inv q' \<and> cap q' = cap q \<and>
     queue_run (cap q) (contents q) ops = (contents q', ans)"
proof (induction ops arbitrary: q)
  case Nil
  then show ?case by simp
next
  case (Cons op ops)
  show ?case
  proof (cases op)
    case (Put a)
    obtain q1 where q1: "enq q a = Inr (q1, length (contents q) < cap q)" "inv q1" "cap q1 = cap q"
      "contents q1 = (if length (contents q) < cap q then contents q @ [a] else contents q)"
      using enq_law [OF Cons.prems] by blast
    then show ?thesis using Cons.IH [OF q1(2)] by (auto simp: Put split: if_splits)
  next
    case Take
    obtain q1 where q1: "deq q = Inr (q1, case contents q of [] \<Rightarrow> None | v # _ \<Rightarrow> Some v)" "inv q1"
      "cap q1 = cap q" "contents q1 = tl (contents q)"
      using deq_law [OF Cons.prems] by blast
    then show ?thesis using Cons.IH [OF q1(2)] by (auto simp: Take)
  qed
qed

end

text \<open>One element through \<open>fifo_in\<close> and \<open>fifo_out\<close>, as the UARTs call them.\<close>

definition fifo_in1 :: "fifo_t \<Rightarrow> u8 \<Rightarrow> (fifo_t \<times> bool) res" where
  "fifo_in1 f v = res_bind (fifo_in f [v] 1) (\<lambda>(f', n). Inr (f', n \<noteq> 0))"

definition fifo_out1 :: "fifo_t \<Rightarrow> (fifo_t \<times> u8 option) res" where
  "fifo_out1 f = res_bind (fifo_out f 1) (\<lambda>(f', d, n). Inr (f', case d of [] \<Rightarrow> None | v # _ \<Rightarrow> Some v))"

lemma fifo_in1_spec:
  assumes "fifo_wf f"
  shows "\<exists>f'. fifo_in f [v] 1 = Inr (f', if length (fifo_contents f) < fifo_cap f then 1 else 0) \<and>
    fifo_wf f' \<and> fifo_cap f' = fifo_cap f \<and>
    fifo_contents f' = (if length (fifo_contents f) < fifo_cap f then fifo_contents f @ [v] else fifo_contents f)"
proof -
  let ?n = "min (unat (1 :: u64)) (fifo_cap f - length (fifo_contents f))"
  have n: "?n = (if length (fifo_contents f) < fifo_cap f then 1 else 0)" by (auto simp: min_def)
  obtain f' where "fifo_in f [v] 1 = Inr (f', of_nat ?n)" "fifo_wf f'" "fifo_cap f' = fifo_cap f"
    "fifo_contents f' = fifo_contents f @ take ?n [v]"
    using fifo_in_spec [OF assms, of 1 "[v]" ?n] by auto
  then show ?thesis unfolding n by (auto split: if_splits)
qed

lemma fifo_out1_spec:
  assumes "fifo_wf f"
  shows "\<exists>f'. fifo_out f 1 = Inr (f', take 1 (fifo_contents f), of_nat (min 1 (length (fifo_contents f)))) \<and>
    fifo_wf f' \<and> fifo_cap f' = fifo_cap f \<and> fifo_contents f' = tl (fifo_contents f)"
  using fifo_out_spec [OF assms, of "min 1 (length (fifo_contents f))" 1]
  by (cases "fifo_contents f") auto

interpretation fifo_io: bounded_queue fifo_in1 fifo_out1 fifo_contents fifo_cap fifo_wf
proof unfold_locales
  fix f v assume wf: "fifo_wf f"
  from fifo_in1_spec [OF wf, of v]
  show "\<exists>f'. fifo_in1 f v = Inr (f', length (fifo_contents f) < fifo_cap f) \<and> fifo_wf f' \<and>
      fifo_cap f' = fifo_cap f \<and>
      fifo_contents f' = (if length (fifo_contents f) < fifo_cap f then fifo_contents f @ [v] else fifo_contents f)"
    by (auto simp: fifo_in1_def split: if_splits)
  from fifo_out1_spec [OF wf]
  show "\<exists>f'. fifo_out1 f = Inr (f', case fifo_contents f of [] \<Rightarrow> None | v # _ \<Rightarrow> Some v) \<and> fifo_wf f' \<and>
      fifo_cap f' = fifo_cap f \<and> fifo_contents f' = tl (fifo_contents f)"
    by (cases "fifo_contents f") (auto simp: fifo_out1_def)
  show "length (fifo_contents f) \<le> fifo_cap f" by (rule fifo_free_nat(2) [OF wf])
qed

section \<open>Correctness of the buffer\<close>

lemma fifo_init_wf:
  "k \<le> 31 \<Longrightarrow> length d = 2 ^ k \<Longrightarrow> fifo_wf (fifo_init d (2 ^ k))"
  "fifo_contents (fifo_init d sz) = []"
  "fifo_cap (fifo_init d sz) = length d"
  by (auto simp: fifo_wf_def fifo_init_def fifo_len_def mask_eq_exp_minus_1 fifo_contents_def fifo_cap_def)

lemma fifo_reset_wf:
  "fifo_wf f \<Longrightarrow> fifo_wf (fifo_reset f)"
  "fifo_contents (fifo_reset f) = []"
  "fifo_cap (fifo_reset f) = fifo_cap f"
  by (auto simp: fifo_wf_def fifo_reset_def fifo_len_def fifo_contents_def fifo_cap_def)

lemma fifo_tests:
  "fifo_is_empty f \<longleftrightarrow> fifo_contents f = []"
  "fifo_wf f \<Longrightarrow> fifo_is_full f \<longleftrightarrow> length (fifo_contents f) = fifo_cap f"
proof -
  show "fifo_is_empty f \<longleftrightarrow> fifo_contents f = []"
    by (auto simp: fifo_is_empty_def fifo_contents_def fifo_len_def unat_eq_0)
  assume "fifo_wf f"
  then obtain k where "length (f_data f) = 2 ^ k" "unat (fifo_len f) \<le> 2 ^ k" "unat (f_mask f) = 2 ^ k - 1"
    by (rule fifo_wfE)
  moreover have "(0::nat) < 2 ^ k" by simp
  ultimately show "fifo_is_full f \<longleftrightarrow> length (fifo_contents f) = fifo_cap f"
    by (auto simp: fifo_is_full_def fifo_cap_def word_less_nat_alt)
qed

text \<open>
  \<open>fifo_in\<close> appends to the queue exactly the leading bytes of the buffer that fit, reports how
  many, and keeps the buffer well formed: also when the copy wraps around the end of the array or
  the 32-bit counters overflow. It never writes outside the array.
\<close>

theorem fifo_in_appends:
  assumes "fifo_wf f" "unat len \<le> length buf"
    and "n = min (unat len) (fifo_cap f - length (fifo_contents f))"
  shows "\<exists>f'. fifo_in f buf len = Inr (f', of_nat n) \<and> fifo_wf f' \<and> fifo_cap f' = fifo_cap f \<and>
    fifo_contents f' = fifo_contents f @ take n buf"
  using assms by (rule fifo_in_spec)

theorem fifo_in_appends_witness:
  "\<exists>f'. fifo_in \<lparr>f_in = 1, f_out = 0xFFFFFFFE, f_mask = 3, f_size = 4, f_data = [11, 12, 13, 14]\<rparr> [7, 8] 2
      = Inr (f', 1) \<and> fifo_contents f' = [13, 14, 11, 7]"
proof -
  let ?f = "\<lparr>f_in = 1, f_out = 0xFFFFFFFE, f_mask = 3, f_size = 4, f_data = [11, 12, 13, 14]\<rparr>"
  have len: "fifo_len ?f = 3" by (simp add: fifo_len_def)
  have "\<exists>k \<le> 31. length (f_data ?f) = 2 ^ k \<and> f_mask ?f = mask k"
    by (rule exI [of _ 2]) (simp add: mask_eq_exp_minus_1)
  then have wf: "fifo_wf ?f" unfolding fifo_wf_def len by (rule conjI) simp
  have c: "fifo_contents ?f = [13, 14, 11]"
    unfolding fifo_contents_def len by (simp add: upt_conv_Cons)
  have "\<exists>f'. fifo_in ?f [7, 8] 2 = Inr (f', of_nat 1) \<and> fifo_wf f' \<and> fifo_cap f' = fifo_cap ?f \<and>
      fifo_contents f' = fifo_contents ?f @ take 1 [7, 8]"
    by (rule fifo_in_appends [OF wf]) (simp_all add: fifo_cap_def len)
  then show ?thesis unfolding c by auto
qed

text \<open>
  C37. From the initialisation on, any sequence of single-byte writes and reads through \<open>fifo_in\<close> and \<open>fifo_out\<close>
  gives the answers of a first-in first-out queue on lists whose capacity is the size of the array, and leaves its
  contents: a write is accepted exactly while fewer bytes than that are stored and is otherwise refused, a read gives
  the oldest byte, or nothing if there is none, and no operation leaves the array, however often the counters have
  wrapped around.
\<close>

theorem fifo_refines_queue:
  assumes "k \<le> 31" "length d = 2 ^ k"
  shows "\<exists>f ans. fifo_io.run (fifo_init d (2 ^ k)) ops = Inr (f, ans) \<and>
    queue_run (2 ^ k) [] ops = (fifo_contents f, ans)"
  using fifo_io.run_refines [OF fifo_init_wf(1) [OF assms], of ops] by (auto simp: fifo_init_wf assms(2))

theorem fifo_refines_queue_witness:
  "\<exists>f. fifo_io.run (fifo_init [0, 0] 2) [Put 5, Put 6, Put 7, Take, Put 8, Take, Take, Take] =
      Inr (f, [Stored True, Stored True, Stored False, Taken (Some 5), Stored True, Taken (Some 6), Taken (Some 8), Taken None]) \<and>
    fifo_contents f = []"
  using fifo_refines_queue [of 1 "[0, 0]" "[Put 5, Put 6, Put 7, Take, Put 8, Take, Take, Take]"] by auto

end
