(* ===== verification/Csr.thy ===== *)
theory Csr
  imports RvTypes
begin

text \<open>
  The control and status register file of \<open>src/core/csr/csr.c\<close> and \<open>csr.h\<close>: a table of registers
  with access flags per privilege level, write masks, and optional callbacks into the trap, PMP
  and MMU components. The state behind the callbacks' \<open>priv\<close> pointers is the type \<open>'d\<close>, passed in
  and out; which component a pointer names is part of the callback.
\<close>

section \<open>State\<close>

type_synonym ('x, 'd) csr_read_cb = "'d \<Rightarrow> privilege_level \<Rightarrow> u16 \<Rightarrow> (rv_ret \<times> 'x word) res"
type_synonym ('x, 'd) csr_write_cb = "'d \<Rightarrow> privilege_level \<Rightarrow> u16 \<Rightarrow> 'x word \<Rightarrow> ('d \<times> rv_ret) res"

record (overloaded) ('x, 'd) csr_reg_td =
  access_flags :: u16
  csr_value :: "'x word"
  csr_mask :: "'x word"
  warl_always_enabled :: "'x word"
  read_cb :: "('x, 'd) csr_read_cb option"
  write_cb :: "('x, 'd) csr_write_cb option"
  internal_reg :: u16

text \<open>The array \<open>csr_regs[CSR_ADDR_MAX]\<close>, by index; the functions check the bound.\<close>

type_synonym ('x, 'd) csr_file = "nat \<Rightarrow> ('x, 'd) csr_reg_td"

definition CSR_ADDR_MAX :: nat where "CSR_ADDR_MAX = 0xFFF"

definition csr_reg_zero :: "('x::len, 'd) csr_reg_td" where
  "csr_reg_zero = \<lparr>access_flags = 0, csr_value = 0, csr_mask = 0, warl_always_enabled = 0,
     read_cb = None, write_cb = None, internal_reg = 0\<rparr>"

definition CSR_ACCESS_READ :: u16 where "CSR_ACCESS_READ = 1"
definition CSR_ACCESS_WRITE :: u16 where "CSR_ACCESS_WRITE = 2"

definition CSR_ACCESS_RO :: "privilege_level \<Rightarrow> u16" where
  "CSR_ACCESS_RO p = push_bit (priv_nat p * 2) CSR_ACCESS_READ"

definition CSR_ACCESS_WO :: "privilege_level \<Rightarrow> u16" where
  "CSR_ACCESS_WO p = push_bit (priv_nat p * 2) CSR_ACCESS_WRITE"

definition CSR_ACCESS_RW :: "privilege_level \<Rightarrow> u16" where
  "CSR_ACCESS_RW p = push_bit (priv_nat p * 2) (CSR_ACCESS_WRITE OR CSR_ACCESS_READ)"

definition CSR_ACCESS_READ_GRANTED :: "privilege_level \<Rightarrow> u16 \<Rightarrow> bool" where
  "CSR_ACCESS_READ_GRANTED p flags = (CSR_ACCESS_RO p AND flags \<noteq> 0)"

definition CSR_ACCESS_WRITE_GRANTED :: "privilege_level \<Rightarrow> u16 \<Rightarrow> bool" where
  "CSR_ACCESS_WRITE_GRANTED p flags = (CSR_ACCESS_WO p AND flags \<noteq> 0)"

definition INIT_CSR_REG_DEFAULT ::
  "nat \<Rightarrow> u16 \<Rightarrow> 'x::len word \<Rightarrow> 'x word \<Rightarrow> 'x word \<Rightarrow> ('x, 'd) csr_file \<Rightarrow> ('x, 'd) csr_file" where
  "INIT_CSR_REG_DEFAULT index flags init_val msk warl csr = csr(index :=
     \<lparr>access_flags = flags, csr_value = init_val, csr_mask = msk, warl_always_enabled = warl,
      read_cb = None, write_cb = None, internal_reg = 0\<rparr>)"

text \<open>The special initialiser leaves \<open>value\<close> as it is.\<close>

definition INIT_CSR_REG_SPECIAL ::
  "nat \<Rightarrow> u16 \<Rightarrow> 'x::len word \<Rightarrow> 'x word \<Rightarrow> ('x, 'd) csr_read_cb \<Rightarrow> ('x, 'd) csr_write_cb \<Rightarrow> u16
    \<Rightarrow> ('x, 'd) csr_file \<Rightarrow> ('x, 'd) csr_file" where
  "INIT_CSR_REG_SPECIAL index flags msk warl rcb wcb ireg csr = csr(index :=
     (csr index)\<lparr>access_flags := flags, csr_mask := msk, warl_always_enabled := warl,
      read_cb := Some rcb, write_cb := Some wcb, internal_reg := ireg\<rparr>)"

section \<open>Operations\<close>

text \<open>
  \<open>csr_regs[address]\<close> with the bound of the array. The guards of the two access functions are
  \<open>address > CSR_ADDR_MAX\<close>, one more than the last index, and \<open>csr_get_mask\<close> has none.
\<close>

definition csr_at :: "('x::len, 'd) csr_file \<Rightarrow> u16 \<Rightarrow> ('x, 'd) csr_reg_td res" where
  "csr_at csr address =
     (if unat address < CSR_ADDR_MAX then Inr (csr (unat address)) else Inl OutOfBounds)"

definition csr_get_mask :: "('x::len, 'd) csr_file \<Rightarrow> u16 \<Rightarrow> 'x word res" where
  "csr_get_mask csr address = res_bind (csr_at csr address) (\<lambda>r. Inr (csr_mask r))"

text \<open>\<open>out_val\<close> is the content of the caller's variable, overwritten when the access is granted.\<close>

definition csr_read_reg ::
  "('x::len, 'd) csr_file \<Rightarrow> 'd \<Rightarrow> privilege_level \<Rightarrow> u16 \<Rightarrow> 'x word \<Rightarrow> (rv_ret \<times> 'x word) res" where
  "csr_read_reg csr d curr_priv_mode address out_val =
    (if unat address > CSR_ADDR_MAX then Inr (rv_err, out_val)
     else res_bind (csr_at csr address) (\<lambda>r.
       if CSR_ACCESS_READ_GRANTED curr_priv_mode (access_flags r) then
         res_bind
           (case read_cb r of
              Some cb \<Rightarrow> cb d curr_priv_mode (internal_reg r)
            | None \<Rightarrow> Inr (rv_ok, csr_value r))
           (\<lambda>(ret_val, tmp_out_val). Inr (ret_val, tmp_out_val OR warl_always_enabled r))
       else Inr (rv_err, out_val)))"

definition csr_write_reg ::
  "('x::len, 'd) csr_file \<Rightarrow> 'd \<Rightarrow> privilege_level \<Rightarrow> u16 \<Rightarrow> 'x word
    \<Rightarrow> (('x, 'd) csr_file \<times> 'd \<times> rv_ret) res" where
  "csr_write_reg csr d curr_priv_mode address val =
    (if unat address > CSR_ADDR_MAX then Inr (csr, d, rv_err)
     else res_bind (csr_at csr address) (\<lambda>r.
       if CSR_ACCESS_WRITE_GRANTED curr_priv_mode (access_flags r) then
         (case write_cb r of
            Some cb \<Rightarrow> res_bind (cb d curr_priv_mode (internal_reg r) val)
              (\<lambda>(d', ret). Inr (csr, d', ret))
          | None \<Rightarrow> Inr (csr(unat address := r\<lparr>csr_value := val AND csr_mask r\<rparr>), d, rv_ok))
       else Inr (csr, d, rv_err)))"

section \<open>Access control\<close>

lemma CSR_ACCESS_READ_GRANTED_iff [bitwise]:
  "proper_priv p \<Longrightarrow> CSR_ACCESS_READ_GRANTED p flags \<longleftrightarrow> bit flags (priv_nat p * 2)"
  using and_push_one_eq_0 [of "priv_nat p * 2" flags]
  by (auto simp: CSR_ACCESS_READ_GRANTED_def CSR_ACCESS_RO_def CSR_ACCESS_READ_def proper_priv_def and.commute)

lemma CSR_ACCESS_WRITE_GRANTED_iff [bitwise]:
  "proper_priv p \<Longrightarrow> CSR_ACCESS_WRITE_GRANTED p flags \<longleftrightarrow> bit flags (priv_nat p * 2 + 1)"
proof -
  assume p: "proper_priv p"
  have "CSR_ACCESS_WO p = push_bit (priv_nat p * 2 + 1) 1"
    by (simp add: CSR_ACCESS_WO_def CSR_ACCESS_WRITE_def push_bit_eq_mult)
  then show ?thesis
    using p and_push_one_eq_0 [of "priv_nat p * 2 + 1" flags]
    by (auto simp: CSR_ACCESS_WRITE_GRANTED_def proper_priv_def and.commute)
qed

lemma csr_at_ok [simp]: "unat address < CSR_ADDR_MAX \<Longrightarrow> csr_at csr address = Inr (csr (unat address))"
  by (simp add: csr_at_def)

text \<open>A register without write permission at the current level is left alone, callbacks included.\<close>

lemma csr_write_denied:
  assumes "\<not> CSR_ACCESS_WRITE_GRANTED p (access_flags (csr (unat address)))" "unat address < CSR_ADDR_MAX"
  shows "csr_write_reg csr d p address val = Inr (csr, d, rv_err)"
  using assms by (simp add: csr_write_reg_def)

lemma csr_read_denied:
  assumes "\<not> CSR_ACCESS_READ_GRANTED p (access_flags (csr (unat address)))" "unat address < CSR_ADDR_MAX"
  shows "csr_read_reg csr d p address v = Inr (rv_err, v)"
  using assms by (simp add: csr_read_reg_def)

text \<open>Writes keep the table's flags, masks and callbacks; only plain values change.\<close>

definition csr_static :: "('x::len, 'd) csr_reg_td \<Rightarrow> u16 \<times> 'x word \<times> 'x word \<times> ('x, 'd) csr_read_cb option \<times>
    ('x, 'd) csr_write_cb option \<times> u16" where
  "csr_static r = (access_flags r, csr_mask r, warl_always_enabled r, read_cb r, write_cb r, internal_reg r)"

lemma csr_write_static:
  "post (csr_write_reg csr d p address val) (\<lambda>(csr', d', ret). \<forall>i. csr_static (csr' i) = csr_static (csr i))"
  by (auto simp: csr_write_reg_def csr_at_def csr_static_def wp split: option.splits intro: postI)

section \<open>Properties\<close>

text \<open>
  Access control and masking. Without the permission bit of the current level a register cannot
  be read or written: the access fails and changes nothing. With it, a plain register (no callbacks)
  stores the value under its write mask and reads back as that, together with the bits that are
  always set; no other register of the table changes.
\<close>

theorem csr_access_control:
  assumes "unat address < CSR_ADDR_MAX" "proper_priv p"
  shows "(\<not> bit (access_flags (csr (unat address))) (priv_nat p * 2) \<longrightarrow>
      csr_read_reg csr d p address out_val = Inr (rv_err, out_val)) \<and>
    (\<not> bit (access_flags (csr (unat address))) (priv_nat p * 2 + 1) \<longrightarrow>
      csr_write_reg csr d p address val = Inr (csr, d, rv_err)) \<and>
    (bit (access_flags (csr (unat address))) (priv_nat p * 2) \<and>
     bit (access_flags (csr (unat address))) (priv_nat p * 2 + 1) \<and>
     read_cb (csr (unat address)) = None \<and> write_cb (csr (unat address)) = None \<longrightarrow>
      (\<exists>csr'. csr_write_reg csr d p address val = Inr (csr', d, rv_ok) \<and>
        csr_read_reg csr' d p address out_val =
          Inr (rv_ok, (val AND csr_mask (csr (unat address))) OR warl_always_enabled (csr (unat address))) \<and>
        (\<forall>i. i \<noteq> unat address \<longrightarrow> csr' i = csr i)))"
  using assms csr_read_denied csr_write_denied
  by (auto simp: CSR_ACCESS_READ_GRANTED_iff CSR_ACCESS_WRITE_GRANTED_iff csr_read_reg_def csr_write_reg_def)

theorem csr_access_control_witness:
  "csr_write_reg (INIT_CSR_REG_DEFAULT 0x306 (CSR_ACCESS_RW machine_mode) 0 0 0 (\<lambda>_. csr_reg_zero) :: (32, unit) csr_file)
     () user_mode 0x306 5 = Inr (INIT_CSR_REG_DEFAULT 0x306 (CSR_ACCESS_RW machine_mode) 0 0 0 (\<lambda>_. csr_reg_zero), (), rv_err)"
proof -
  have "\<not> bit (CSR_ACCESS_RW machine_mode) 1" by (simp add: CSR_ACCESS_RW_def CSR_ACCESS_READ_def CSR_ACCESS_WRITE_def)
  then show ?thesis
    using csr_access_control [of "0x306" user_mode
        "INIT_CSR_REG_DEFAULT 0x306 (CSR_ACCESS_RW machine_mode) 0 0 0 (\<lambda>_. csr_reg_zero) :: (32, unit) csr_file" "()" 0 5]
    by (simp add: proper_priv_def CSR_ADDR_MAX_def INIT_CSR_REG_DEFAULT_def)
qed

text \<open>
  The last CSR number, 0xFFF, passes the range check of both access functions (and the mask
  lookup has none) although the table ends at 0xFFE: every access to it, by whatever level, leaves
  the table.
\<close>

theorem csr_last_address_out_of_bounds:
  "csr_read_reg csr d p 0xFFF out_val = Inl OutOfBounds \<and>
   csr_write_reg csr d p 0xFFF val = Inl OutOfBounds \<and> csr_get_mask csr 0xFFF = Inl OutOfBounds"
  by (simp add: csr_read_reg_def csr_write_reg_def csr_get_mask_def csr_at_def CSR_ADDR_MAX_def)

end
