(* ===== verification/CsrMap.thy ===== *)
theory CsrMap
  imports Csr
begin

text \<open>
  The CSR addresses and write masks of \<open>src/core/csr/csr.h\<close>. The masks that depend on the register
  width have the two values of the \<open>#ifdef\<close>.
\<close>

section \<open>Addresses\<close>

definition CSR_ADDR_MVENDORID :: nat where "CSR_ADDR_MVENDORID = 0xF11"
definition CSR_ADDR_MARCHID :: nat where "CSR_ADDR_MARCHID = 0xF12"
definition CSR_ADDR_MIMPID :: nat where "CSR_ADDR_MIMPID = 0xF13"
definition CSR_ADDR_MHARTID :: nat where "CSR_ADDR_MHARTID = 0xF14"
definition CSR_ADDR_MSTATUS :: nat where "CSR_ADDR_MSTATUS = 0x300"
definition CSR_ADDR_MISA :: nat where "CSR_ADDR_MISA = 0x301"
definition CSR_ADDR_MEDELEG :: nat where "CSR_ADDR_MEDELEG = 0x302"
definition CSR_ADDR_MIDELEG :: nat where "CSR_ADDR_MIDELEG = 0x303"
definition CSR_ADDR_MIE :: nat where "CSR_ADDR_MIE = 0x304"
definition CSR_ADDR_MTVEC :: nat where "CSR_ADDR_MTVEC = 0x305"
definition CSR_ADDR_MCOUNTEREN :: nat where "CSR_ADDR_MCOUNTEREN = 0x306"
definition CSR_ADDR_MSCRATCH :: nat where "CSR_ADDR_MSCRATCH = 0x340"
definition CSR_ADDR_MEPC :: nat where "CSR_ADDR_MEPC = 0x341"
definition CSR_ADDR_MCAUSE :: nat where "CSR_ADDR_MCAUSE = 0x342"
definition CSR_ADDR_MTVAL :: nat where "CSR_ADDR_MTVAL = 0x343"
definition CSR_ADDR_MIP :: nat where "CSR_ADDR_MIP = 0x344"
definition CSR_PMPCFG0 :: nat where "CSR_PMPCFG0 = 0x3A0"
definition CSR_PMPADDR0 :: nat where "CSR_PMPADDR0 = 0x3B0"
definition CSR_ADDR_SSTATUS :: nat where "CSR_ADDR_SSTATUS = 0x100"
definition CSR_ADDR_SEDELEG :: nat where "CSR_ADDR_SEDELEG = 0x102"
definition CSR_ADDR_SIDELEG :: nat where "CSR_ADDR_SIDELEG = 0x103"
definition CSR_ADDR_SIE :: nat where "CSR_ADDR_SIE = 0x104"
definition CSR_ADDR_STVEC :: nat where "CSR_ADDR_STVEC = 0x105"
definition CSR_ADDR_SCOUNTEREN :: nat where "CSR_ADDR_SCOUNTEREN = 0x106"
definition CSR_ADDR_SSCRATCH :: nat where "CSR_ADDR_SSCRATCH = 0x140"
definition CSR_ADDR_SEPC :: nat where "CSR_ADDR_SEPC = 0x141"
definition CSR_ADDR_SCAUSE :: nat where "CSR_ADDR_SCAUSE = 0x142"
definition CSR_ADDR_STVAL :: nat where "CSR_ADDR_STVAL = 0x143"
definition CSR_ADDR_SIP :: nat where "CSR_ADDR_SIP = 0x144"
definition CSR_ADDR_SATP :: nat where "CSR_ADDR_SATP = 0x180"
definition CSR_ADDR_MCYCLE :: nat where "CSR_ADDR_MCYCLE = 0xB00"
definition CSR_ADDR_MINSTRET :: nat where "CSR_ADDR_MINSTRET = 0xB02"
definition CSR_ADDR_MCYCLEH :: nat where "CSR_ADDR_MCYCLEH = 0xB80"
definition CSR_ADDR_MINSTRETH :: nat where "CSR_ADDR_MINSTRETH = 0xB82"
definition CSR_ADDR_CYCLE :: nat where "CSR_ADDR_CYCLE = 0xC00"
definition CSR_ADDR_TIME :: nat where "CSR_ADDR_TIME = 0xC01"
definition CSR_ADDR_CYCLEH :: nat where "CSR_ADDR_CYCLEH = 0xC80"
definition CSR_ADDR_TIMEH :: nat where "CSR_ADDR_TIMEH = 0xC81"

lemmas csr_addr_defs = CSR_ADDR_MVENDORID_def CSR_ADDR_MARCHID_def CSR_ADDR_MIMPID_def CSR_ADDR_MHARTID_def CSR_ADDR_MSTATUS_def
  CSR_ADDR_MISA_def CSR_ADDR_MEDELEG_def CSR_ADDR_MIDELEG_def CSR_ADDR_MIE_def CSR_ADDR_MTVEC_def
  CSR_ADDR_MCOUNTEREN_def CSR_ADDR_MSCRATCH_def CSR_ADDR_MEPC_def CSR_ADDR_MCAUSE_def CSR_ADDR_MTVAL_def
  CSR_ADDR_MIP_def CSR_PMPCFG0_def CSR_PMPADDR0_def CSR_ADDR_SSTATUS_def CSR_ADDR_SEDELEG_def
  CSR_ADDR_SIDELEG_def CSR_ADDR_SIE_def CSR_ADDR_STVEC_def CSR_ADDR_SCOUNTEREN_def CSR_ADDR_SSCRATCH_def
  CSR_ADDR_SEPC_def CSR_ADDR_SCAUSE_def CSR_ADDR_STVAL_def CSR_ADDR_SIP_def CSR_ADDR_SATP_def
  CSR_ADDR_MCYCLE_def CSR_ADDR_MINSTRET_def CSR_ADDR_MCYCLEH_def CSR_ADDR_MINSTRETH_def CSR_ADDR_CYCLE_def
  CSR_ADDR_TIME_def CSR_ADDR_CYCLEH_def CSR_ADDR_TIMEH_def

section \<open>Masks\<close>

definition CSR_MASK_WR_ALL :: "'x::len word" where
  "CSR_MASK_WR_ALL = (if is_rv64 TYPE('x) then 0xFFFFFFFFFFFFFFFF else 0xFFFFFFFF)"

definition CSR_MASK_ZERO :: "'x::len word" where "CSR_MASK_ZERO = 0"

definition CSR_MSTATUS_MASK :: "'x::len word" where
  "CSR_MSTATUS_MASK = (if is_rv64 TYPE('x) then 0x8000000F007FF9BB else 0x807FF9BB)"

definition CSR_MTVEC_MASK :: "'x::len word" where
  "CSR_MTVEC_MASK = (if is_rv64 TYPE('x) then 0xFFFFFFFFFFFFFFFC else 0xFFFFFFFC)"

definition CSR_SSTATUS_MASK :: "'x::len word" where
  "CSR_SSTATUS_MASK = (if is_rv64 TYPE('x) then 0x80000003000DE133 else 0x800DE133)"

definition CSR_SATP_MASK :: "'x::len word" where
  "CSR_SATP_MASK = (if is_rv64 TYPE('x) then 0xF0000FFFFFFFFFFF else 0x803FFFFF)"

definition CSR_MIP_MIE_MASK :: "'x::len word" where "CSR_MIP_MIE_MASK = 0xBBB"
definition CSR_MIDELEG_MASK :: "'x::len word" where "CSR_MIDELEG_MASK = CSR_MIP_MIE_MASK"
definition CSR_MEDELEG_MASK :: "'x::len word" where "CSR_MEDELEG_MASK = 0xF3FF"
definition CSR_STVEC_MASK :: "'x::len word" where "CSR_STVEC_MASK = CSR_MTVEC_MASK"
definition CSR_SIP_SIE_MASK :: "'x::len word" where "CSR_SIP_SIE_MASK = 0x333"
definition CSR_SIDELEG_MASK :: "'x::len word" where "CSR_SIDELEG_MASK = CSR_SIP_SIE_MASK"
definition CSR_SEDELEG_MASK :: "'x::len word" where "CSR_SEDELEG_MASK = 0xF1FF"

definition CSR_XLEN_32_BIT :: "'x::len word" where "CSR_XLEN_32_BIT = 1"
definition CSR_XLEN_64_BIT :: "'x::len word" where "CSR_XLEN_64_BIT = 2"
definition CSR_SXL_BIT_BASE :: nat where "CSR_SXL_BIT_BASE = 34"
definition CSR_UXL_BIT_BASE :: nat where "CSR_UXL_BIT_BASE = 32"
definition CSR_HPMCOUNTER_WARL_MAX :: nat where "CSR_HPMCOUNTER_WARL_MAX = 32"

end
