(* ===== verification/Trap.thy ===== *)
theory Trap
  imports RvTypes
begin

text \<open>
  The trap registers and the interrupt and exception logic of \<open>src/core/trap/trap.c\<close> and
  \<open>trap.h\<close>: which privilege level serves a trap, what entering and leaving a handler does to the
  status register, and how interrupt lines reach the pending register.

  The C code reaches the registers through tables of pointers, one per privilege level, that
  \<open>trap_init\<close> fills and nothing changes afterwards. The model keeps the registers in a store of
  cells (\<open>trap_regs_td\<close>) and the tables as functions to cells, so that the aliasing of the three
  shared registers is explicit.
\<close>

section \<open>Registers\<close>

datatype trap_internal_regs =
    trap_reg_status | trap_reg_isa | trap_reg_edeleg | trap_reg_ideleg | trap_reg_ie | trap_reg_tvec
  | trap_reg_counteren | trap_reg_scratch | trap_reg_epc | trap_reg_cause | trap_reg_tval | trap_reg_ip

primrec trap_reg_code :: "trap_internal_regs \<Rightarrow> u16" where
  "trap_reg_code trap_reg_status = 0"
| "trap_reg_code trap_reg_isa = 1"
| "trap_reg_code trap_reg_edeleg = 2"
| "trap_reg_code trap_reg_ideleg = 3"
| "trap_reg_code trap_reg_ie = 4"
| "trap_reg_code trap_reg_tvec = 5"
| "trap_reg_code trap_reg_counteren = 6"
| "trap_reg_code trap_reg_scratch = 7"
| "trap_reg_code trap_reg_epc = 8"
| "trap_reg_code trap_reg_cause = 9"
| "trap_reg_code trap_reg_tval = 10"
| "trap_reg_code trap_reg_ip = 11"

text \<open>The element of \<open>regs[trap_reg_max]\<close> that an index names.\<close>

definition trap_reg_at :: "u16 \<Rightarrow> trap_internal_regs res" where
  "trap_reg_at i =
    (if i = 0 then Inr trap_reg_status else if i = 1 then Inr trap_reg_isa
     else if i = 2 then Inr trap_reg_edeleg else if i = 3 then Inr trap_reg_ideleg
     else if i = 4 then Inr trap_reg_ie else if i = 5 then Inr trap_reg_tvec
     else if i = 6 then Inr trap_reg_counteren else if i = 7 then Inr trap_reg_scratch
     else if i = 8 then Inr trap_reg_epc else if i = 9 then Inr trap_reg_cause
     else if i = 10 then Inr trap_reg_tval else if i = 11 then Inr trap_reg_ip
     else Inl OutOfBounds)"

text \<open>The cells of \<open>trap_regs_td\<close>: three shared registers and nine of each level.\<close>

datatype trap_cell =
    shared_status | shared_ie | shared_ip
  | m_isa | m_edeleg | m_ideleg | m_tvec | m_counteren | m_scratch | m_epc | m_cause | m_tval
  | s_isa | s_edeleg | s_ideleg | s_tvec | s_counteren | s_scratch | s_epc | s_cause | s_tval
  | u_isa | u_edeleg | u_ideleg | u_tvec | u_counteren | u_scratch | u_epc | u_cause | u_tval

type_synonym trap_regs_p_td = "trap_internal_regs \<Rightarrow> trap_cell"

primrec trap_m_regs :: trap_regs_p_td where
  "trap_m_regs trap_reg_status = shared_status"
| "trap_m_regs trap_reg_isa = m_isa"
| "trap_m_regs trap_reg_edeleg = m_edeleg"
| "trap_m_regs trap_reg_ideleg = m_ideleg"
| "trap_m_regs trap_reg_ie = shared_ie"
| "trap_m_regs trap_reg_tvec = m_tvec"
| "trap_m_regs trap_reg_counteren = m_counteren"
| "trap_m_regs trap_reg_scratch = m_scratch"
| "trap_m_regs trap_reg_epc = m_epc"
| "trap_m_regs trap_reg_cause = m_cause"
| "trap_m_regs trap_reg_tval = m_tval"
| "trap_m_regs trap_reg_ip = shared_ip"

primrec trap_s_regs :: trap_regs_p_td where
  "trap_s_regs trap_reg_status = shared_status"
| "trap_s_regs trap_reg_isa = s_isa"
| "trap_s_regs trap_reg_edeleg = s_edeleg"
| "trap_s_regs trap_reg_ideleg = s_ideleg"
| "trap_s_regs trap_reg_ie = shared_ie"
| "trap_s_regs trap_reg_tvec = s_tvec"
| "trap_s_regs trap_reg_counteren = s_counteren"
| "trap_s_regs trap_reg_scratch = s_scratch"
| "trap_s_regs trap_reg_epc = s_epc"
| "trap_s_regs trap_reg_cause = s_cause"
| "trap_s_regs trap_reg_tval = s_tval"
| "trap_s_regs trap_reg_ip = shared_ip"

primrec trap_u_regs :: trap_regs_p_td where
  "trap_u_regs trap_reg_status = shared_status"
| "trap_u_regs trap_reg_isa = u_isa"
| "trap_u_regs trap_reg_edeleg = u_edeleg"
| "trap_u_regs trap_reg_ideleg = u_ideleg"
| "trap_u_regs trap_reg_ie = shared_ie"
| "trap_u_regs trap_reg_tvec = u_tvec"
| "trap_u_regs trap_reg_counteren = u_counteren"
| "trap_u_regs trap_reg_scratch = u_scratch"
| "trap_u_regs trap_reg_epc = u_epc"
| "trap_u_regs trap_reg_cause = u_cause"
| "trap_u_regs trap_reg_tval = u_tval"
| "trap_u_regs trap_reg_ip = shared_ip"

record (overloaded) 'x trap_td =
  regs_data :: "trap_cell \<Rightarrow> 'x word"

text \<open>After the \<open>memset\<close> of the owner and \<open>trap_init\<close>, all registers are zero.\<close>

definition trap_init :: "'x::len trap_td" where
  "trap_init = \<lparr>regs_data = (\<lambda>_. 0)\<rparr>"

definition trap_put :: "trap_cell \<Rightarrow> 'x::len word \<Rightarrow> 'x trap_td \<Rightarrow> 'x trap_td" where
  "trap_put cell v t = t\<lparr>regs_data := (regs_data t)(cell := v)\<rparr>"

text \<open>\<open>None\<close> is \<open>NULL\<close>; \<open>deref_regs\<close> is the use of the pointer.\<close>

definition get_priv_regs :: "privilege_level \<Rightarrow> trap_regs_p_td option" where
  "get_priv_regs priv_level = (case priv_level of
     machine_mode \<Rightarrow> Some trap_m_regs | supervisor_mode \<Rightarrow> Some trap_s_regs
   | user_mode \<Rightarrow> Some trap_u_regs | _ \<Rightarrow> None)"

definition deref_regs :: "trap_regs_p_td option \<Rightarrow> trap_regs_p_td res" where
  "deref_regs p = (case p of None \<Rightarrow> Inl NullDeref | Some r \<Rightarrow> Inr r)"

section \<open>CSR callbacks\<close>

definition trap_m_write :: "'x::len trap_td \<Rightarrow> privilege_level \<Rightarrow> u16 \<Rightarrow> 'x word \<Rightarrow> ('x trap_td \<times> rv_ret) res" where
  "trap_m_write t curr_priv reg_index csr_val =
     res_bind (trap_reg_at reg_index) (\<lambda>r. Inr (trap_put (trap_m_regs r) csr_val t, rv_ok))"

definition trap_m_read :: "'x::len trap_td \<Rightarrow> privilege_level \<Rightarrow> u16 \<Rightarrow> (rv_ret \<times> 'x word) res" where
  "trap_m_read t curr_priv_mode reg_index =
     res_bind (trap_reg_at reg_index) (\<lambda>r. Inr (rv_ok, regs_data t (trap_m_regs r)))"

definition trap_s_write :: "'x::len trap_td \<Rightarrow> privilege_level \<Rightarrow> u16 \<Rightarrow> 'x word \<Rightarrow> ('x trap_td \<times> rv_ret) res" where
  "trap_s_write t curr_priv reg_index csr_val =
     res_bind (trap_reg_at reg_index) (\<lambda>r. Inr (trap_put (trap_s_regs r) csr_val t, rv_ok))"

definition trap_s_read :: "'x::len trap_td \<Rightarrow> privilege_level \<Rightarrow> u16 \<Rightarrow> (rv_ret \<times> 'x word) res" where
  "trap_s_read t curr_priv_mode reg_index =
     res_bind (trap_reg_at reg_index) (\<lambda>r. Inr (rv_ok, regs_data t (trap_s_regs r)))"

definition trap_u_write :: "'x::len trap_td \<Rightarrow> privilege_level \<Rightarrow> u16 \<Rightarrow> 'x word \<Rightarrow> ('x trap_td \<times> rv_ret) res" where
  "trap_u_write t curr_priv reg_index csr_val =
     res_bind (trap_reg_at reg_index) (\<lambda>r. Inr (trap_put (trap_u_regs r) csr_val t, rv_ok))"

definition trap_u_read :: "'x::len trap_td \<Rightarrow> privilege_level \<Rightarrow> u16 \<Rightarrow> (rv_ret \<times> 'x word) res" where
  "trap_u_read t curr_priv_mode reg_index =
     res_bind (trap_reg_at reg_index) (\<lambda>r. Inr (rv_ok, regs_data t (trap_u_regs r)))"

section \<open>Causes\<close>

datatype trap_cause_interrupt =
    trap_cause_user_swi | trap_cause_super_swi | trap_cause_rsvd_0 | trap_cause_machine_swi
  | trap_cause_user_ti | trap_cause_super_ti | trap_cause_rsvd_1 | trap_cause_machine_ti
  | trap_cause_user_exti | trap_cause_super_exti | trap_cause_rsvd_2 | trap_cause_machine_exti

primrec irq_code :: "trap_cause_interrupt \<Rightarrow> nat" where
  "irq_code trap_cause_user_swi = 0"
| "irq_code trap_cause_super_swi = 1"
| "irq_code trap_cause_rsvd_0 = 2"
| "irq_code trap_cause_machine_swi = 3"
| "irq_code trap_cause_user_ti = 4"
| "irq_code trap_cause_super_ti = 5"
| "irq_code trap_cause_rsvd_1 = 6"
| "irq_code trap_cause_machine_ti = 7"
| "irq_code trap_cause_user_exti = 8"
| "irq_code trap_cause_super_exti = 9"
| "irq_code trap_cause_rsvd_2 = 10"
| "irq_code trap_cause_machine_exti = 11"

datatype trap_cause_exception =
    trap_cause_instr_addr_misalign | trap_cause_instr_access_fault | trap_cause_illegal_instr
  | trap_cause_breakpoint | trap_cause_load_addr_misalign | trap_cause_load_access_fault
  | trap_cause_store_amo_addr_fault | trap_cause_store_amo_access_fault | trap_cause_user_ecall
  | trap_cause_super_ecall | trap_cause_rsvd_3 | trap_cause_machine_ecall
  | trap_cause_instr_page_fault | trap_cause_load_page_fault | trap_cause_rsvd_4
  | trap_cause_store_amo_page_fault

primrec exc_code :: "trap_cause_exception \<Rightarrow> nat" where
  "exc_code trap_cause_instr_addr_misalign = 0"
| "exc_code trap_cause_instr_access_fault = 1"
| "exc_code trap_cause_illegal_instr = 2"
| "exc_code trap_cause_breakpoint = 3"
| "exc_code trap_cause_load_addr_misalign = 4"
| "exc_code trap_cause_load_access_fault = 5"
| "exc_code trap_cause_store_amo_addr_fault = 6"
| "exc_code trap_cause_store_amo_access_fault = 7"
| "exc_code trap_cause_user_ecall = 8"
| "exc_code trap_cause_super_ecall = 9"
| "exc_code trap_cause_rsvd_3 = 10"
| "exc_code trap_cause_machine_ecall = 11"
| "exc_code trap_cause_instr_page_fault = 12"
| "exc_code trap_cause_load_page_fault = 13"
| "exc_code trap_cause_rsvd_4 = 14"
| "exc_code trap_cause_store_amo_page_fault = 15"

datatype trap_ret = trap_ret_none | trap_ret_irq_pending

definition TRAP_XSTATUS_UPIE_BIT :: nat where "TRAP_XSTATUS_UPIE_BIT = 4"
definition TRAP_XSTATUS_SPP_BIT :: nat where "TRAP_XSTATUS_SPP_BIT = 8"
definition TRAP_XSTATUS_MPP_BIT :: nat where "TRAP_XSTATUS_MPP_BIT = 11"
definition TRAP_XSTATUS_MPRV_BIT :: nat where "TRAP_XSTATUS_MPRV_BIT = 17"
definition TRAP_XSTATUS_SUM_BIT :: nat where "TRAP_XSTATUS_SUM_BIT = 18"
definition TRAP_XSTATUS_MXR_BIT :: nat where "TRAP_XSTATUS_MXR_BIT = 19"

lemmas xstatus_bits = TRAP_XSTATUS_UPIE_BIT_def TRAP_XSTATUS_SPP_BIT_def TRAP_XSTATUS_MPP_BIT_def
  TRAP_XSTATUS_MPRV_BIT_def TRAP_XSTATUS_SUM_BIT_def TRAP_XSTATUS_MXR_BIT_def

section \<open>Pending bits\<close>

text \<open>One of the four guarded assignments: the pending bit follows the line while it is enabled.\<close>

definition trap_set_line :: "trap_cause_interrupt \<Rightarrow> u8 \<Rightarrow> 'x::len trap_td \<Rightarrow> 'x trap_td" where
  "trap_set_line irq line t =
    (if CHECK_BIT (regs_data t (trap_m_regs trap_reg_ie)) (irq_code irq)
     then trap_put (trap_m_regs trap_reg_ip)
       (assign_xlen_bit (regs_data t (trap_m_regs trap_reg_ip)) (irq_code irq) (ucast line)) t
     else t)"

definition trap_set_pending_bits :: "u8 \<Rightarrow> u8 \<Rightarrow> u8 \<Rightarrow> 'x::len trap_td \<Rightarrow> 'x trap_td" where
  "trap_set_pending_bits ext_int tim_int sw_int t =
     trap_set_line trap_cause_machine_swi sw_int
      (trap_set_line trap_cause_machine_ti tim_int
       (trap_set_line trap_cause_super_exti ext_int
        (trap_set_line trap_cause_machine_exti ext_int t)))"

section \<open>Which level serves\<close>

text \<open>The \<open>for\<close> loop of the interrupt check, from \<open>delegation_level\<close> downwards.\<close>

function irq_deleg_loop ::
  "'x::len trap_td \<Rightarrow> privilege_level \<Rightarrow> 'x word \<Rightarrow> privilege_level \<Rightarrow> privilege_level res" where
  "irq_deleg_loop t curr_priv_mode interrupt_bit delegation_level =
    (if delegation_level \<ge> curr_priv_mode then
       if delegation_level = reserved_mode then
         irq_deleg_loop t curr_priv_mode interrupt_bit (priv_dec delegation_level)
       else res_bind (deref_regs (get_priv_regs delegation_level)) (\<lambda>r.
         if regs_data t (r trap_reg_ideleg) AND interrupt_bit = 0 then Inr delegation_level
         else irq_deleg_loop t curr_priv_mode interrupt_bit (priv_dec delegation_level))
     else Inr delegation_level)"
  by pat_completeness auto
termination
proof (relation "measure (\<lambda>(t, c, b, l). nat (priv_code l + 1))")
  show "wf (measure (\<lambda>(t, c, b, l). nat (priv_code l + 1)))" by simp
next
  fix t :: "'x trap_td" and c b l
  assume "l = reserved_mode"
  then show "((t, c, b, priv_dec l), (t, c, b, l)) \<in> measure (\<lambda>(t, c, b, l). nat (priv_code l + 1))"
    by simp
next
  fix t :: "'x trap_td" and c b l r
  assume "deref_regs (get_priv_regs l) = Inr r"
  then show "((t, c, b, priv_dec l), (t, c, b, l)) \<in> measure (\<lambda>(t, c, b, l). nat (priv_code l + 1))"
    by (cases l) (simp_all add: deref_regs_def get_priv_regs_def)
qed

declare irq_deleg_loop.simps [simp del]

definition trap_check_interrupt_pending ::
  "'x::len trap_td \<Rightarrow> privilege_level \<Rightarrow> trap_cause_interrupt \<Rightarrow> (trap_ret \<times> privilege_level) res" where
  "trap_check_interrupt_pending t curr_priv_mode irq =
    (let interrupt_bit = push_bit (irq_code irq) 1 in
     res_bind (deref_regs (get_priv_regs curr_priv_mode)) (\<lambda>x.
       if regs_data t (x trap_reg_ip) AND interrupt_bit = 0 \<or> regs_data t (x trap_reg_ie) AND interrupt_bit = 0
       then Inr (trap_ret_none, machine_mode)
       else res_bind (irq_deleg_loop t curr_priv_mode interrupt_bit machine_mode) (\<lambda>delegation_level.
         if ucast (drop_bit (nat (priv_code priv_level_max - priv_code curr_priv_mode)) (0xF0 :: u32)) AND
              (regs_data t (x trap_reg_status) AND 0xF) AND
              ucast (drop_bit (nat (priv_code machine_mode - priv_code delegation_level)) (0xF :: u32)) \<noteq> 0
         then Inr (trap_ret_irq_pending, delegation_level)
         else Inr (trap_ret_none, machine_mode))))"

text \<open>The \<open>for\<close> loop of the exception check.\<close>

function exc_deleg_loop ::
  "'x::len trap_td \<Rightarrow> privilege_level \<Rightarrow> nat \<Rightarrow> privilege_level \<Rightarrow> privilege_level res" where
  "exc_deleg_loop t curr_priv_mode cause priv_index =
    (if priv_index \<ge> user_mode then
       if priv_index = reserved_mode then exc_deleg_loop t curr_priv_mode cause (priv_dec priv_index)
       else res_bind (deref_regs (get_priv_regs priv_index)) (\<lambda>x.
         res_bind (int_bit cause) (\<lambda>exception_bit.
           if regs_data t (x trap_reg_edeleg) AND exception_bit = 0 then Inr priv_index
           else if curr_priv_mode \<ge> priv_index then Inr priv_index
           else exc_deleg_loop t curr_priv_mode cause (priv_dec priv_index)))
     else Inr priv_index)"
  by pat_completeness auto
termination
proof (relation "measure (\<lambda>(t, c, b, l). nat (priv_code l + 1))")
  show "wf (measure (\<lambda>(t, c, b, l). nat (priv_code l + 1)))" by simp
next
  fix t :: "'x trap_td" and c b l
  assume "l = reserved_mode"
  then show "((t, c, b, priv_dec l), (t, c, b, l)) \<in> measure (\<lambda>(t, c, b, l). nat (priv_code l + 1))"
    by simp
next
  fix t :: "'x trap_td" and c b l r
  assume "deref_regs (get_priv_regs l) = Inr r"
  then show "((t, c, b, priv_dec l), (t, c, b, l)) \<in> measure (\<lambda>(t, c, b, l). nat (priv_code l + 1))"
    by (cases l) (simp_all add: deref_regs_def get_priv_regs_def)
qed

declare exc_deleg_loop.simps [simp del]

text \<open>The cause arrives as the enum value that the pending register was converted to.\<close>

definition trap_check_exception_delegation ::
  "'x::len trap_td \<Rightarrow> privilege_level \<Rightarrow> 'x word \<Rightarrow> privilege_level res" where
  "trap_check_exception_delegation t curr_priv_mode cause =
     exc_deleg_loop t curr_priv_mode (unat (ucast cause :: u32)) machine_mode"

section \<open>Entering and leaving a handler\<close>

definition trap_serve_interrupt ::
  "'x::len trap_td \<Rightarrow> privilege_level \<Rightarrow> privilege_level \<Rightarrow> 'x word \<Rightarrow> 'x word \<Rightarrow> 'x word \<Rightarrow> 'x word
    \<Rightarrow> ('x trap_td \<times> 'x word) res" where
  "trap_serve_interrupt t serving_priv_mode previous_priv_mode is_interrupt cause curr_pc tval =
     res_bind (deref_regs (get_priv_regs serving_priv_mode)) (\<lambda>x.
      let status = x trap_reg_status;
          t = trap_put (x trap_reg_epc) (if is_interrupt \<noteq> 0 then curr_pc else curr_pc - 4) t;
          t = trap_put (x trap_reg_cause) (push_bit (LENGTH('x) - 1) is_interrupt OR cause) t;
          t = (if serving_priv_mode = machine_mode then
                 trap_put status (assign_xlen_value_within_reg (regs_data t status)
                   TRAP_XSTATUS_MPP_BIT (of_int (priv_code previous_priv_mode)) 0x3) t
               else if serving_priv_mode = supervisor_mode then
                 trap_put status (assign_xlen_value_within_reg (regs_data t status)
                   TRAP_XSTATUS_SPP_BIT (of_int (priv_code previous_priv_mode)) 0x1) t
               else t);
          ie = drop_bit (priv_nat serving_priv_mode) (regs_data t status) AND 0x1;
          t = trap_put status (assign_xlen_bit (regs_data t status)
                (TRAP_XSTATUS_UPIE_BIT + priv_nat serving_priv_mode) ie) t;
          t = trap_put status (CLEAR_BIT (regs_data t status) (priv_nat serving_priv_mode)) t;
          t = trap_put (x trap_reg_tval) tval t
      in Inr (t, regs_data t (x trap_reg_tvec)))"

definition trap_restore_irq_settings ::
  "'x::len trap_td \<Rightarrow> privilege_level \<Rightarrow> ('x trap_td \<times> privilege_level) res" where
  "trap_restore_irq_settings t serving_priv_mode =
     res_bind (deref_regs (get_priv_regs serving_priv_mode)) (\<lambda>x.
      let status = x trap_reg_status;
          previous_priv_level =
            (if serving_priv_mode = machine_mode then
               priv_of_bits (extractxlen (regs_data t status) TRAP_XSTATUS_MPP_BIT 2)
             else if serving_priv_mode = supervisor_mode then
               priv_of_bits (extractxlen (regs_data t status) TRAP_XSTATUS_SPP_BIT 1)
             else user_mode);
          pie = drop_bit (TRAP_XSTATUS_UPIE_BIT + priv_nat serving_priv_mode) (regs_data t status) AND 0x1;
          t = trap_put status (assign_xlen_bit (regs_data t status) (priv_nat serving_priv_mode) pie) t;
          t = trap_put status
                (CLEAR_BIT (regs_data t status) (TRAP_XSTATUS_UPIE_BIT + priv_nat serving_priv_mode)) t
      in Inr (t, previous_priv_level))"

section \<open>Lemmas\<close>

lemma regs_data_put [simp]:
  "regs_data (trap_put c v t) c' = (if c' = c then v else regs_data t c')"
  by (simp add: trap_put_def)

lemma trap_put_put [simp]: "trap_put c v (trap_put c w t) = trap_put c v t"
  by (simp add: trap_put_def)

lemma trap_eqI: "(\<And>c. regs_data t c = regs_data t' c) \<Longrightarrow> t = (t' :: 'x::len trap_td)"
  by (cases t; cases t') auto

lemma deref_proper [simp]:
  "deref_regs (get_priv_regs machine_mode) = Inr trap_m_regs"
  "deref_regs (get_priv_regs supervisor_mode) = Inr trap_s_regs"
  "deref_regs (get_priv_regs user_mode) = Inr trap_u_regs"
  "deref_regs (get_priv_regs reserved_mode) = Inl NullDeref"
  "deref_regs (get_priv_regs priv_level_unknown) = Inl NullDeref"
  "deref_regs (get_priv_regs priv_level_max) = Inl NullDeref"
  by (simp_all add: deref_regs_def get_priv_regs_def)

lemma irq_code_less: "irq_code irq < 12"
  by (cases irq) simp_all

lemma exc_code_less: "exc_code e < 16"
  by (cases e) simp_all

lemma bit_assign_within [bitwise]:
  "bit (assign_xlen_value_within_reg (v :: 'x::len word) n val (mask k)) i \<longleftrightarrow>
     (if n \<le> i \<and> i < n + k then i < LENGTH('x) \<and> bit val (i - n) else bit v i)"
  by (auto simp: assign_xlen_value_within_reg_def bit_simps dest: bit_imp_le_length)

lemma mask_numerals: "(3 :: 'x::len word) = mask 2" "(1 :: 'x::len word) = mask 1"
  by (simp_all add: mask_eq_exp_minus_1)

lemma bit_of_bool_and_1 [bitwise]: "bit (drop_bit n (w :: 'x::len word) AND 1) 0 \<longleftrightarrow> bit w n"
  by (simp add: bit_simps)

lemma bit_priv_code [bitwise]:
  "bit (of_int (priv_code p) :: 'x::len word) j \<longleftrightarrow> j < LENGTH('x) \<and> bit (priv_code p) j"
  by (rule bit_word_of_int_iff)

definition exc_target :: "'x::len trap_td \<Rightarrow> privilege_level \<Rightarrow> nat \<Rightarrow> privilege_level" where
  "exc_target t cur k =
    (if cur = machine_mode \<or> \<not> bit (regs_data t m_edeleg) k then machine_mode
     else if cur = supervisor_mode \<or> \<not> bit (regs_data t s_edeleg) k then supervisor_mode
     else user_mode)"

lemma exc_delegation_spec:
  fixes t :: "'x::len trap_td"
  assumes "proper_priv cur" "k < 31" "32 \<le> LENGTH('x)" "unat (ucast cause :: u32) = k"
  shows "trap_check_exception_delegation t cur cause = Inr (exc_target t cur k) \<and>
    proper_priv (exc_target t cur k) \<and> cur \<le> exc_target t cur k"
proof -
  have b: "w AND push_bit k 1 = 0 \<longleftrightarrow> \<not> bit w k" for w :: "'x word"
    using assms by (intro and_push_one_eq_0) simp
  show ?thesis
    using assms(1) int_bit_eq [of k, where 'x = 'x] assms(2-)
    unfolding trap_check_exception_delegation_def assms(4) proper_priv_def exc_target_def
    by (auto simp: exc_deleg_loop.simps b simp del: push_bit_of_1)
qed

definition irq_target :: "'x::len trap_td \<Rightarrow> nat \<Rightarrow> privilege_level option" where
  "irq_target t k =
    (if \<not> bit (regs_data t m_ideleg) k then Some machine_mode
     else if \<not> bit (regs_data t s_ideleg) k then Some supervisor_mode
     else if \<not> bit (regs_data t u_ideleg) k then Some user_mode else None)"

definition irq_served :: "'x::len trap_td \<Rightarrow> privilege_level \<Rightarrow> nat \<Rightarrow> privilege_level option" where
  "irq_served t cur k =
    (if bit (regs_data t shared_ip) k \<and> bit (regs_data t shared_ie) k then
       (case irq_target t k of None \<Rightarrow> None
        | Some p \<Rightarrow> if \<exists>i. priv_nat cur \<le> i \<and> i \<le> priv_nat p \<and> bit (regs_data t shared_status) i
            then Some p else None)
     else None)"

lemma word_eq_0_iff_bit: "(w :: 'a::len word) = 0 \<longleftrightarrow> (\<forall>i. \<not> bit w i)"
  by (simp add: bit_eq_iff) (metis bit_imp_le_length)

lemma irq_window:
  fixes st :: "'x::len word"
  assumes "8 \<le> LENGTH('x)" "0 \<le> c" "c \<le> 3" "-1 \<le> d" "d \<le> 3"
  shows "ucast (drop_bit (nat (4 - c)) (0xF0 :: u32)) AND (st AND 0xF) AND
      ucast (drop_bit (nat (3 - d)) (0xF :: u32)) = 0
     \<longleftrightarrow> \<not> (\<exists>i. c \<le> int i \<and> int i \<le> d \<and> bit st i)"
proof -
  have n: "(0xF0 :: u32) = push_bit 4 (mask 4)" "(0xF :: u32) = mask 4" "(0xF :: 'x word) = mask 4"
    by (simp_all add: mask_eq_exp_minus_1)
  have eq: "bit (ucast (drop_bit (nat (4 - c)) (push_bit 4 (mask 4) :: u32)) AND (st AND mask 4) AND
      ucast (drop_bit (nat (3 - d)) (mask 4 :: u32))) i \<longleftrightarrow> c \<le> int i \<and> int i \<le> d \<and> bit st i" for i
    using assms by (auto simp: bit_simps dest: bit_imp_le_length)
  show ?thesis
    unfolding n word_eq_0_iff_bit eq by blast
qed

lemma irq_deleg_loop_eq:
  fixes t :: "'x::len trap_td"
  assumes "proper_priv cp" "k < LENGTH('x)"
  shows "irq_deleg_loop t cp (push_bit k 1) machine_mode = Inr (case irq_target t k of
     None \<Rightarrow> priv_dec cp | Some p \<Rightarrow> if cp \<le> p then p else priv_dec cp)"
proof -
  have b: "w AND push_bit k 1 = 0 \<longleftrightarrow> \<not> bit w k" for w :: "'x word"
    using assms(2) by (rule and_push_one_eq_0)
  show ?thesis
    using assms(1) unfolding proper_priv_def irq_target_def
    by (auto simp: irq_deleg_loop.simps b simp del: push_bit_of_1)
qed

lemma irq_check_spec:
  fixes t :: "'x::len trap_td"
  assumes "proper_priv cp" "32 \<le> LENGTH('x)"
  shows "trap_check_interrupt_pending t cp irq = Inr
    (case irq_served t cp (irq_code irq) of None \<Rightarrow> (trap_ret_none, machine_mode)
     | Some p \<Rightarrow> (trap_ret_irq_pending, p))"
proof -
  let ?k = "irq_code irq"
  have k: "?k < LENGTH('x)" using assms(2) irq_code_less [of irq] by simp
  have b: "w AND push_bit ?k 1 = 0 \<longleftrightarrow> \<not> bit w ?k" for w :: "'x word"
    using k by (rule and_push_one_eq_0)
  define lvl where "lvl = (case irq_target t ?k of
     None \<Rightarrow> priv_dec cp | Some p \<Rightarrow> if cp \<le> p then p else priv_dec cp)"
  have code: "0 \<le> priv_code cp" "priv_code cp \<le> 3" "-1 \<le> priv_code lvl" "priv_code lvl \<le> 3"
    using assms(1) unfolding lvl_def irq_target_def by (auto simp: proper_priv_def split: option.splits)
  have win: "ucast (drop_bit (nat (4 - priv_code cp)) (0xF0 :: u32)) AND (st AND 0xF) AND
      ucast (drop_bit (nat (3 - priv_code lvl)) (0xF :: u32)) = 0
     \<longleftrightarrow> \<not> (\<exists>i. priv_code cp \<le> int i \<and> int i \<le> priv_code lvl \<and> bit st i)" for st :: "'x word"
    using irq_window [OF _ code, of st] assms(2) by simp
  have tgt: "irq_target t ?k = Some p \<Longrightarrow> 0 \<le> priv_code p" for p
    by (auto simp: irq_target_def split: if_splits)
  have served: "irq_served t cp ?k = (if bit (regs_data t shared_ip) ?k \<and> bit (regs_data t shared_ie) ?k \<and>
      (\<exists>i. priv_code cp \<le> int i \<and> int i \<le> priv_code lvl \<and> bit (regs_data t shared_status) i)
      then Some lvl else None)"
    using code(1) tgt unfolding irq_served_def lvl_def priv_nat_def
    by (cases cp; cases "irq_target t ?k") (auto simp: nat_le_iff le_nat_iff)
  have "\<exists>x. deref_regs (get_priv_regs cp) = Inr x \<and> x trap_reg_ip = shared_ip \<and>
      x trap_reg_ie = shared_ie \<and> x trap_reg_status = shared_status"
    using assms(1) by (auto simp: proper_priv_def)
  then show ?thesis
    unfolding trap_check_interrupt_pending_def Let_def
    by (elim exE conjE) (simp add: b irq_deleg_loop_eq [OF assms(1) k] lvl_def [symmetric] win served
        del: push_bit_of_1)
qed

lemma pending_bits_spec:
  fixes t :: "'x::len trap_td"
  assumes "32 \<le> LENGTH('x)"
  shows "(\<forall>i. bit (regs_data (trap_set_pending_bits ext_int tim_int sw_int t) shared_ip) i \<longleftrightarrow>
      (if i \<in> {3, 7, 9, 11} \<and> bit (regs_data t shared_ie) i
       then bit (if i = 3 then sw_int else if i = 7 then tim_int else ext_int) 0
       else bit (regs_data t shared_ip) i)) \<and>
    (\<forall>c. c \<noteq> shared_ip \<longrightarrow>
      regs_data (trap_set_pending_bits ext_int tim_int sw_int t) c = regs_data t c)"
  using assms
  by (auto simp: trap_set_pending_bits_def trap_set_line_def CHECK_BIT_iff bit_assign_xlen_bit bit_ucast_iff)

definition serve_status_bit :: "privilege_level \<Rightarrow> privilege_level \<Rightarrow> 'x::len word \<Rightarrow> nat \<Rightarrow> bool" where
  "serve_status_bit p prev st i =
    (if i = priv_nat p then False
     else if i = 4 + priv_nat p then bit st (priv_nat p)
     else if p = machine_mode \<and> 11 \<le> i \<and> i < 13 then bit (priv_code prev) (i - 11)
     else if p = supervisor_mode \<and> i = 8 then bit (priv_code prev) 0
     else bit st i)"

lemma assign_within_masks:
  "assign_xlen_value_within_reg v n w 3 = assign_xlen_value_within_reg v n w (mask 2)"
  "assign_xlen_value_within_reg v n w 1 = assign_xlen_value_within_reg v n w (mask 1)" for w :: "'x::len word"
  by (simp_all add: mask_eq_exp_minus_1)

lemma bit_serve_swap:
  "bit (CLEAR_BIT (assign_xlen_bit v (4 + n) (drop_bit n v AND 1)) n) i \<longleftrightarrow>
    (if i = n then False else if i = 4 + n then 4 + n < LENGTH('x) \<and> bit v n else bit v i)"
  for v :: "'x::len word"
  by (simp add: bit_CLEAR_BIT bit_assign_xlen_bit bit_of_bool_and_1)

lemma serve_status_bits:
  fixes st :: "'x::len word"
  assumes "32 \<le> LENGTH('x)"
  shows "bit (CLEAR_BIT (assign_xlen_bit (assign_xlen_value_within_reg st 11 (of_int (priv_code prev)) 3) (4 + 3)
            (drop_bit 3 (assign_xlen_value_within_reg st 11 (of_int (priv_code prev)) 3) AND 1)) 3) i
         \<longleftrightarrow> serve_status_bit machine_mode prev st i"
    "bit (CLEAR_BIT (assign_xlen_bit (assign_xlen_value_within_reg st 8 (of_int (priv_code prev)) 1) (4 + 1)
            (drop_bit 1 (assign_xlen_value_within_reg st 8 (of_int (priv_code prev)) 1) AND 1)) 1) i
         \<longleftrightarrow> serve_status_bit supervisor_mode prev st i"
    "bit (CLEAR_BIT (assign_xlen_bit st (4 + 0) (drop_bit 0 st AND 1)) 0) i
         \<longleftrightarrow> serve_status_bit user_mode prev st i"
  using assms unfolding bit_serve_swap assign_within_masks bit_assign_within bit_priv_code serve_status_bit_def
  by auto

lemma serve_effect:
  fixes t :: "'x::len trap_td"
  assumes "proper_priv p" "32 \<le> LENGTH('x)"
  shows "\<exists>t' x. get_priv_regs p = Some x \<and>
    trap_serve_interrupt t p prev is_interrupt cause pc tval = Inr (t', regs_data t (x trap_reg_tvec)) \<and>
    (\<forall>i. bit (regs_data t' shared_status) i \<longleftrightarrow> serve_status_bit p prev (regs_data t shared_status) i) \<and>
    regs_data t' (x trap_reg_epc) = (if is_interrupt \<noteq> 0 then pc else pc - 4) \<and>
    regs_data t' (x trap_reg_cause) = push_bit (LENGTH('x) - 1) is_interrupt OR cause \<and>
    regs_data t' (x trap_reg_tval) = tval \<and>
    (\<forall>c. c \<notin> {shared_status, x trap_reg_epc, x trap_reg_cause, x trap_reg_tval} \<longrightarrow>
       regs_data t' c = regs_data t c)"
  using assms(1) serve_status_bits [OF assms(2)] unfolding proper_priv_def
  by (elim disjE) (simp_all add: trap_serve_interrupt_def get_priv_regs_def deref_regs_def Let_def xstatus_bits)


lemma bit_restore_swap:
  "bit (CLEAR_BIT (assign_xlen_bit v n (drop_bit (4 + n) v AND 1)) (4 + n)) i \<longleftrightarrow>
    (if i = 4 + n then False else if i = n then bit v (4 + n) else bit v i)"
  for v :: "'x::len word"
  by (auto simp: bit_CLEAR_BIT bit_assign_xlen_bit bit_of_bool_and_1 dest: bit_imp_le_length)

definition restored_level :: "privilege_level \<Rightarrow> 'x::len word \<Rightarrow> privilege_level" where
  "restored_level p st =
    (if p = machine_mode then
       (if bit st 12 then if bit st 11 then machine_mode else reserved_mode
        else if bit st 11 then supervisor_mode else user_mode)
     else if p = supervisor_mode \<and> bit st 8 then supervisor_mode else user_mode)"

lemma take_bit_2_word: "take_bit 2 w = of_bool (bit w 1) * 2 + of_bool (bit w 0)" for w :: "'x::len word"
  by (simp add: numeral_2_eq_2 take_bit_Suc bit_Suc bit_0 mod2_eq_if)

lemma small_words_distinct:
  assumes "2 \<le> LENGTH('x)"
  shows "(2 :: 'x::len word) \<noteq> 0" "(2 :: 'x word) \<noteq> 1" "(3 :: 'x word) \<noteq> 0" "(3 :: 'x word) \<noteq> 1"
    "(3 :: 'x word) \<noteq> 2"
proof -
  have "(2::nat) ^ 2 \<le> 2 ^ LENGTH('x)" using assms by (intro power_increasing) simp_all
  then have u: "unat (of_nat k :: 'x word) = k" if "k < 4" for k
    using that by (simp only: unat_of_nat) simp
  have "unat (2 :: 'x word) = 2" "unat (3 :: 'x word) = 3" using u [of 2] u [of 3] by simp_all
  then show "(2 :: 'x::len word) \<noteq> 0" "(2 :: 'x word) \<noteq> 1" "(3 :: 'x word) \<noteq> 0" "(3 :: 'x word) \<noteq> 1"
    "(3 :: 'x word) \<noteq> 2" by (metis unat_0 zero_neq_numeral, metis unat_1 numeral_eq_one_iff semiring_norm(85),
       metis unat_0 zero_neq_numeral, metis unat_1 numeral_eq_one_iff semiring_norm(86), metis numeral_eq_iff semiring_norm(89))
qed

lemma priv_of_bits_1: "priv_of_bits (extractxlen (st :: 'x::len word) n 1) =
    (if bit st n then supervisor_mode else user_mode)"
  unfolding extractxlen_1 by (simp add: priv_of_bits_def)

lemma priv_of_bits_2:
  assumes "2 \<le> LENGTH('x)"
  shows "priv_of_bits (extractxlen (st :: 'x::len word) n 2) =
    (if bit st (n + 1) then if bit st n then machine_mode else reserved_mode
     else if bit st n then supervisor_mode else user_mode)"
proof -
  have "extractxlen st n 2 = of_bool (bit st (n + 1)) * 2 + of_bool (bit st n)"
    by (subst extractxlen_eq [OF assms]) (simp only: take_bit_2_word bit_drop_bit_eq comp_def add_0_right)
  then show ?thesis using small_words_distinct [OF assms] by (simp add: priv_of_bits_def)
qed

lemma restore_effect:
  fixes t :: "'x::len trap_td"
  assumes "proper_priv p" "32 \<le> LENGTH('x)"
  shows "\<exists>t'. trap_restore_irq_settings t p = Inr (t', restored_level p (regs_data t shared_status)) \<and>
    (\<forall>i. bit (regs_data t' shared_status) i \<longleftrightarrow>
      (if i = 4 + priv_nat p then False
       else if i = priv_nat p then bit (regs_data t shared_status) (4 + priv_nat p)
       else bit (regs_data t shared_status) i)) \<and>
    (\<forall>c. c \<noteq> shared_status \<longrightarrow> regs_data t' c = regs_data t c)"
  using assms bit_restore_swap [of "regs_data t shared_status" 3] bit_restore_swap [of "regs_data t shared_status" 1]
    bit_restore_swap [of "regs_data t shared_status" 0]
    priv_of_bits_1 [of "regs_data t shared_status" 8] unfolding proper_priv_def
  by (elim disjE) (simp_all add: trap_restore_irq_settings_def priv_of_bits_2
    Let_def xstatus_bits restored_level_def del: drop_bit_drop_bit)

section \<open>Properties\<close>

text \<open>
  The level that serves an exception: machine mode unless the machine-level delegation bit of
  the cause is set and the hart is below machine mode, then supervisor mode unless it is delegated
  once more, then user mode. It is always one of the three levels and never below the current one.
\<close>

theorem exception_delegation:
  fixes t :: "'x::len trap_td"
  assumes "proper_priv cur" "k < 31" "32 \<le> LENGTH('x)" "unat (ucast cause :: u32) = k"
  shows "trap_check_exception_delegation t cur cause = Inr (exc_target t cur k) \<and>
    proper_priv (exc_target t cur k) \<and> cur \<le> exc_target t cur k"
  by (rule exc_delegation_spec [OF assms])

theorem exception_delegation_witness:
  "trap_check_exception_delegation (trap_put m_edeleg 0x100 trap_init :: 32 trap_td) user_mode 8 =
    Inr supervisor_mode"
proof -
  have "exc_target (trap_put m_edeleg 0x100 trap_init :: 32 trap_td) user_mode 8 = supervisor_mode"
    by (simp add: exc_target_def trap_init_def)
  then show ?thesis
    using exception_delegation [of user_mode 8 8 "trap_put m_edeleg 0x100 trap_init :: 32 trap_td"]
    by (simp add: proper_priv_def)
qed

text \<open>
  C34. An interrupt is taken exactly when it is pending and enabled, the delegation registers leave
  it to a level that is not below the current one, and a global enable bit between the current level
  and that level is set; the level returned is then that level.
\<close>

theorem interrupt_check:
  fixes t :: "'x::len trap_td"
  assumes "proper_priv cp" "32 \<le> LENGTH('x)"
  shows "trap_check_interrupt_pending t cp irq = Inr
    (case irq_served t cp (irq_code irq) of None \<Rightarrow> (trap_ret_none, machine_mode)
     | Some p \<Rightarrow> (trap_ret_irq_pending, p))"
  by (rule irq_check_spec [OF assms])

theorem interrupt_check_witness:
  "trap_check_interrupt_pending
     (trap_put shared_ip 0x80 (trap_put shared_ie 0x80 (trap_put shared_status 8 trap_init)) :: 32 trap_td)
     user_mode trap_cause_machine_ti = Inr (trap_ret_irq_pending, machine_mode)"
proof -
  let ?t = "trap_put shared_ip 0x80 (trap_put shared_ie 0x80 (trap_put shared_status 8 trap_init)) :: 32 trap_td"
  have "bit (8 :: 32 word) 3" by simp
  then have "irq_served ?t user_mode 7 = Some machine_mode"
    by (auto simp: irq_served_def irq_target_def trap_init_def intro: exI [of _ 3])
  then show ?thesis
    using interrupt_check [of user_mode ?t trap_cause_machine_ti] by (simp add: proper_priv_def)
qed

text \<open>
  Updating the pending register from the interrupt lines changes exactly the bits 3, 7, 9 and
  11, each only while its enable bit is set, to the low bit of its line (9 and 11 share the external
  line), and changes no other register.
\<close>

theorem pending_bits:
  fixes t :: "'x::len trap_td"
  assumes "32 \<le> LENGTH('x)"
  shows "(\<forall>i. bit (regs_data (trap_set_pending_bits ext_int tim_int sw_int t) shared_ip) i \<longleftrightarrow>
      (if i \<in> {3, 7, 9, 11} \<and> bit (regs_data t shared_ie) i
       then bit (if i = 3 then sw_int else if i = 7 then tim_int else ext_int) 0
       else bit (regs_data t shared_ip) i)) \<and>
    (\<forall>c. c \<noteq> shared_ip \<longrightarrow>
      regs_data (trap_set_pending_bits ext_int tim_int sw_int t) c = regs_data t c)"
  by (rule pending_bits_spec [OF assms])

theorem pending_bits_witness:
  "bit (regs_data (trap_set_pending_bits 0 1 1 (trap_put shared_ie 0x80 trap_init :: 64 trap_td)) shared_ip) 7 \<and>
   \<not> bit (regs_data (trap_set_pending_bits 0 1 1 (trap_put shared_ie 0x80 trap_init :: 64 trap_td)) shared_ip) 3"
  using pending_bits [of 0 1 1 "trap_put shared_ie 0x80 trap_init :: 64 trap_td"]
  by (simp add: trap_init_def)

text \<open>
  Entering a handler at level \<open>p\<close>: the interrupt enable bit of \<open>p\<close> moves into its previous
  enable bit and is cleared, the level that was interrupted goes into the previous-privilege field
  of \<open>p\<close>, the other status bits stay; the exception pc, cause and trap value registers of \<open>p\<close> get
  their values, every other register is unchanged, and the handler address is returned.
\<close>

theorem trap_entry:
  fixes t :: "'x::len trap_td"
  assumes "proper_priv p" "32 \<le> LENGTH('x)"
  shows "\<exists>t' x. get_priv_regs p = Some x \<and>
    trap_serve_interrupt t p prev is_interrupt cause pc tval = Inr (t', regs_data t (x trap_reg_tvec)) \<and>
    (\<forall>i. bit (regs_data t' shared_status) i \<longleftrightarrow> serve_status_bit p prev (regs_data t shared_status) i) \<and>
    regs_data t' (x trap_reg_epc) = (if is_interrupt \<noteq> 0 then pc else pc - 4) \<and>
    regs_data t' (x trap_reg_cause) = push_bit (LENGTH('x) - 1) is_interrupt OR cause \<and>
    regs_data t' (x trap_reg_tval) = tval \<and>
    (\<forall>c. c \<notin> {shared_status, x trap_reg_epc, x trap_reg_cause, x trap_reg_tval} \<longrightarrow>
       regs_data t' c = regs_data t c)"
  by (rule serve_effect [OF assms])

theorem trap_entry_witness:
  "\<exists>t'. trap_serve_interrupt (trap_put s_tvec 0x400 trap_init :: 64 trap_td) supervisor_mode user_mode 0 8 0x1004 0
      = Inr (t', 0x400) \<and> regs_data t' s_epc = 0x1000"
  using trap_entry [where p = supervisor_mode and t = "trap_put s_tvec 0x400 trap_init :: 64 trap_td" and
    prev = user_mode and is_interrupt = 0 and cause = 8 and pc = "0x1004" and tval = 0]
  by (auto simp: proper_priv_def get_priv_regs_def)

text \<open>
  C35. Leaving a handler undoes entering it: after a trap from level \<open>prev\<close> into \<open>p\<close>, the return
  restores \<open>prev\<close> and the enable bit of \<open>p\<close>; only the previous-enable bit (cleared) and the
  previous-privilege field (still \<open>prev\<close>) of \<open>p\<close> differ from the status before the trap.
\<close>

theorem trap_entry_return_round_trip:
  fixes t :: "'x::len trap_td"
  assumes "proper_priv p" "proper_priv prev" "prev \<le> p" "32 \<le> LENGTH('x)"
    "trap_serve_interrupt t p prev is_interrupt cause pc tval = Inr (t1, handler)"
  shows "\<exists>t2. trap_restore_irq_settings t1 p = Inr (t2, prev) \<and>
    (\<forall>i. bit (regs_data t2 shared_status) i \<longleftrightarrow>
      (if i = 4 + priv_nat p then False
       else if p = machine_mode \<and> 11 \<le> i \<and> i < 13 then bit (priv_code prev) (i - 11)
       else if p = supervisor_mode \<and> i = 8 then bit (priv_code prev) 0
       else bit (regs_data t shared_status) i))"
proof -
  have st: "bit (regs_data t1 shared_status) i \<longleftrightarrow> serve_status_bit p prev (regs_data t shared_status) i" for i
    using serve_effect [OF assms(1,4), of t prev is_interrupt cause pc tval] assms(5) by auto
  have lvl: "restored_level p (regs_data t1 shared_status) = prev"
    using assms(1-3) unfolding restored_level_def st serve_status_bit_def proper_priv_def by auto
  obtain t2 where t2: "trap_restore_irq_settings t1 p = Inr (t2, prev)"
    "\<forall>i. bit (regs_data t2 shared_status) i \<longleftrightarrow>
      (if i = 4 + priv_nat p then False
       else if i = priv_nat p then bit (regs_data t1 shared_status) (4 + priv_nat p)
       else bit (regs_data t1 shared_status) i)"
    using restore_effect [OF assms(1,4), of t1] lvl by auto
  have n: "priv_nat p \<le> 3" using assms(1) by (auto simp: proper_priv_def)
  show ?thesis
    using t2(1) by (rule_tac x = t2 in exI) (use t2(2) n in \<open>auto simp: st serve_status_bit_def\<close>)
qed

theorem trap_entry_return_round_trip_witness:
  "\<exists>t1 t2. trap_serve_interrupt (trap_put shared_status 8 trap_init :: 32 trap_td) machine_mode supervisor_mode 1 7 0x80000000 0
      = Inr (t1, 0) \<and> trap_restore_irq_settings t1 machine_mode = Inr (t2, supervisor_mode)"
proof -
  obtain t1 where t1: "trap_serve_interrupt (trap_put shared_status 8 trap_init :: 32 trap_td) machine_mode
      supervisor_mode 1 7 0x80000000 0 = Inr (t1, 0)"
    using serve_effect [where p = machine_mode and t = "trap_put shared_status 8 trap_init :: 32 trap_td" and
      prev = supervisor_mode and is_interrupt = 1 and cause = 7 and pc = "0x80000000" and tval = 0]
    by (auto simp: proper_priv_def get_priv_regs_def trap_init_def)
  then show ?thesis
    using trap_entry_return_round_trip [OF _ _ _ _ t1] by (auto simp: proper_priv_def)
qed

end
