(* ===== verification/Pmp.thy ===== *)
theory Pmp
  imports RvTypes
begin

text \<open>
  Physical memory protection, \<open>src/core/pmp/pmp.c\<close> and \<open>pmp.h\<close>, in the build with
  \<open>PMP_SUPPORT\<close>: the configuration and address registers with their lock rules, and the check of
  an access against the sixteen entries.

  The code reads and writes the configuration array through byte pointers, so the model keeps its
  object representation: \<open>pmp_cfg\<close> are the sixteen bytes of \<open>cfg[]\<close> (two words of eight bytes or four of
  four), on a little-endian host. The array \<open>addr[]\<close> follows it in the structure.
\<close>

section \<open>State\<close>

datatype pmp_addr_matching = pmp_a_off | pmp_a_tor | pmp_a_na4 | pmp_a_napot

record (overloaded) 'x pmp_td =
  pmp_cfg :: "u8 list"
  pmp_addr :: "'x word list"

definition XLEN_BYTES :: "'x::len itself \<Rightarrow> nat" where
  "XLEN_BYTES _ = LENGTH('x) div 8"

definition PMP_NR_CFG_REGS :: "'x::len itself \<Rightarrow> nat" where
  "PMP_NR_CFG_REGS _ = (if is_rv64 TYPE('x) then 2 else 4)"

definition PMP_NR_ADDR_REGS :: nat where "PMP_NR_ADDR_REGS = 16"

definition PMP_CFG_L_BIT :: nat where "PMP_CFG_L_BIT = 7"
definition PMP_CFG_A_BIT_OFFS :: nat where "PMP_CFG_A_BIT_OFFS = 3"

text \<open>All registers are zero after the \<open>memset\<close> of the owner.\<close>

definition pmp_zero :: "'x::len pmp_td" where
  "pmp_zero = \<lparr>pmp_cfg = replicate (PMP_NR_CFG_REGS TYPE('x) * XLEN_BYTES TYPE('x)) 0,
     pmp_addr = replicate PMP_NR_ADDR_REGS 0\<rparr>"

text \<open>A byte of the structure, counted from \<open>cfg[0]\<close>: after the configuration come the addresses.\<close>

definition pmp_struct_byte :: "'x::len pmp_td \<Rightarrow> nat \<Rightarrow> u8 res" where
  "pmp_struct_byte pmp k =
    (if k < length (pmp_cfg pmp) then Inr (pmp_cfg pmp ! k)
     else let k' = k - length (pmp_cfg pmp) in
       res_bind (arr_get (pmp_addr pmp) (k' div XLEN_BYTES TYPE('x))) (\<lambda>w.
         Inr (ucast (drop_bit (8 * (k' mod XLEN_BYTES TYPE('x))) w))))"

definition pmp_matching_of :: "u8 \<Rightarrow> pmp_addr_matching" where
  "pmp_matching_of b = (if b = 0 then pmp_a_off else if b = 1 then pmp_a_tor
     else if b = 2 then pmp_a_na4 else pmp_a_napot)"

section \<open>CSR callbacks\<close>

definition pmp_write_csr_cfg ::
  "'x::len pmp_td \<Rightarrow> privilege_level \<Rightarrow> u16 \<Rightarrow> 'x word \<Rightarrow> ('x pmp_td \<times> rv_ret) res" where
  "pmp_write_csr_cfg pmp curr_priv reg_index csr_val =
    (if curr_priv \<noteq> machine_mode then Inr (pmp, rv_err)
     else if unat reg_index < PMP_NR_CFG_REGS TYPE('x) then
       let n = XLEN_BYTES TYPE('x);
           off = unat reg_index * n;
           cfg' = fold (\<lambda>i cfg. if \<not> CHECK_BIT (cfg ! (off + i)) PMP_CFG_L_BIT
                     then cfg[off + i := bytes_of n csr_val ! i] else cfg) [0..<n] (pmp_cfg pmp)
       in Inr (pmp\<lparr>pmp_cfg := cfg'\<rparr>, rv_ok)
     else Inl OutOfBounds)"

definition pmp_read_csr_cfg :: "'x::len pmp_td \<Rightarrow> privilege_level \<Rightarrow> u16 \<Rightarrow> (rv_ret \<times> 'x word) res" where
  "pmp_read_csr_cfg pmp curr_priv reg_index =
     res_bind (arr_read (pmp_cfg pmp) (unat reg_index * XLEN_BYTES TYPE('x)) (XLEN_BYTES TYPE('x)))
       (\<lambda>bs. Inr (rv_ok, word_of_bytes bs))"

definition pmp_write_csr_addr ::
  "'x::len pmp_td \<Rightarrow> privilege_level \<Rightarrow> u16 \<Rightarrow> 'x word \<Rightarrow> ('x pmp_td \<times> rv_ret) res" where
  "pmp_write_csr_addr pmp curr_priv reg_index csr_val =
    (let n = XLEN_BYTES TYPE('x);
         cfg_reg_idx = (unat reg_index div n) mod 256;
         cfg_idx = unat reg_index mod n;
         cfg_ptr = cfg_reg_idx * n
     in if curr_priv \<noteq> machine_mode then Inr (pmp, rv_err)
     else
       res_bind
         (if cfg_idx < PMP_NR_ADDR_REGS - 1 then
            res_bind (pmp_struct_byte pmp (cfg_ptr + cfg_idx + 1)) (\<lambda>next_cfg.
              Inr (pmp_matching_of (extract8 next_cfg PMP_CFG_A_BIT_OFFS 2) = pmp_a_tor \<and>
                CHECK_BIT next_cfg PMP_CFG_L_BIT))
          else Inr False)
         (\<lambda>next_locked.
           if next_locked then Inr (pmp, rv_ok)
           else res_bind (pmp_struct_byte pmp (cfg_ptr + cfg_idx)) (\<lambda>c.
             if CHECK_BIT c PMP_CFG_L_BIT then Inr (pmp, rv_ok)
             else res_bind (arr_set (pmp_addr pmp) (unat reg_index) csr_val) (\<lambda>a.
               Inr (pmp\<lparr>pmp_addr := a\<rparr>, rv_ok)))))"

definition pmp_read_csr_addr :: "'x::len pmp_td \<Rightarrow> privilege_level \<Rightarrow> u16 \<Rightarrow> (rv_ret \<times> 'x word) res" where
  "pmp_read_csr_addr pmp curr_priv reg_index =
     res_bind (arr_get (pmp_addr pmp) (unat reg_index)) (\<lambda>v. Inr (rv_ok, v))"

section \<open>The access check\<close>

text \<open>\<open>__builtin_ffsl\<close>: one more than the position of the lowest set bit, 0 for 0.\<close>

definition FIND_FIRST_BIT_SET :: "u64 \<Rightarrow> nat" where
  "FIND_FIRST_BIT_SET v = (case List.find (bit v) [0..<64] of None \<Rightarrow> 0 | Some i \<Rightarrow> Suc i)"

definition get_pmp_napot_size_from_pmpaddr :: "'x::len word \<Rightarrow> 'x word res" where
  "get_pmp_napot_size_from_pmpaddr addr = int_bit (FIND_FIRST_BIT_SET (ucast (NOT addr)) + 2)"

definition get_pmp_napot_addr_from_pmpaddr :: "'x::len word \<Rightarrow> 'x word res" where
  "get_pmp_napot_addr_from_pmpaddr addr =
     res_bind (get_pmp_napot_size_from_pmpaddr addr) (\<lambda>sz.
       let msk = drop_bit 2 (sz div 2 - 1) in Inr (push_bit 2 (addr - msk)))"

text \<open>The start and size of an entry, by its matching mode (the \<open>switch\<close> of the check).\<close>

definition pmp_region :: "'x::len pmp_td \<Rightarrow> pmp_addr_matching \<Rightarrow> nat \<Rightarrow> ('x word \<times> 'x word) res" where
  "pmp_region pmp addr_mode addr_count =
    (case addr_mode of
       pmp_a_tor \<Rightarrow>
         if addr_count = 0 then
           res_bind (arr_get (pmp_addr pmp) addr_count) (\<lambda>a. Inr (0, push_bit 2 a))
         else res_bind (arr_get (pmp_addr pmp) (addr_count - 1)) (\<lambda>b.
           res_bind (arr_get (pmp_addr pmp) addr_count) (\<lambda>a.
             Inr (push_bit 2 b, push_bit 2 a - push_bit 2 b)))
     | pmp_a_napot \<Rightarrow>
         res_bind (arr_get (pmp_addr pmp) addr_count) (\<lambda>a.
           if a = - 1 then Inr (0, - 1)
           else res_bind (get_pmp_napot_size_from_pmpaddr a) (\<lambda>pmp_addr_size.
             res_bind (get_pmp_napot_addr_from_pmpaddr a) (\<lambda>pmp_addr_start.
               Inr (pmp_addr_start, pmp_addr_size))))
     | pmp_a_na4 \<Rightarrow> res_bind (arr_get (pmp_addr pmp) addr_count) (\<lambda>a. Inr (push_bit 2 a, 4))
     | pmp_a_off \<Rightarrow> Inr (0, 0))"

text \<open>The two nested loops visit the entries in order; \<open>None\<close> is leaving them without a return.\<close>

primrec pmp_check_loop ::
  "'x::len pmp_td \<Rightarrow> privilege_level \<Rightarrow> 'x word \<Rightarrow> u8 \<Rightarrow> bus_access_type \<Rightarrow> nat list \<Rightarrow> rv_ret option res" where
  "pmp_check_loop pmp curr_priv addr len access_type [] = Inr None"
| "pmp_check_loop pmp curr_priv addr len access_type (addr_count # rest) =
    res_bind (arr_get (pmp_cfg pmp) addr_count) (\<lambda>cfg.
      if curr_priv = machine_mode \<and> \<not> CHECK_BIT cfg PMP_CFG_L_BIT then
        pmp_check_loop pmp curr_priv addr len access_type rest
      else let addr_mode = pmp_matching_of (extract8 cfg PMP_CFG_A_BIT_OFFS 2) in
        if addr_mode = pmp_a_off then pmp_check_loop pmp curr_priv addr len access_type rest
        else
          let curr_access_flags = (push_bit (access_code access_type) 1 :: u8);
              allowed_access = cfg AND 0x7
          in res_bind (pmp_region pmp addr_mode addr_count) (\<lambda>(pmp_addr_start, pmp_addr_size).
            let addr_end = addr + (ucast len - 1);
                lower_addr_match = ADDR_WITHIN addr pmp_addr_start pmp_addr_size;
                upper_addr_match = ADDR_WITHIN addr_end pmp_addr_start pmp_addr_size
            in
              if lower_addr_match \<and> \<not> upper_addr_match then
                Inr (Some (if curr_priv = machine_mode \<and> curr_access_flags AND allowed_access \<noteq> 0 then rv_ok else rv_err))
              else if upper_addr_match \<and> \<not> lower_addr_match then
                Inr (Some (if curr_priv = machine_mode \<and> curr_access_flags AND allowed_access \<noteq> 0 then rv_ok else rv_err))
              else if upper_addr_match \<and> lower_addr_match then
                Inr (Some (if curr_access_flags AND allowed_access \<noteq> 0 then rv_ok else rv_err))
              else pmp_check_loop pmp curr_priv addr len access_type rest))"

definition pmp_mem_check ::
  "'x::len pmp_td \<Rightarrow> privilege_level \<Rightarrow> 'x word \<Rightarrow> u8 \<Rightarrow> bus_access_type \<Rightarrow> rv_ret res" where
  "pmp_mem_check pmp curr_priv addr len access_type =
     res_bind (pmp_check_loop pmp curr_priv addr len access_type
         [0..<PMP_NR_CFG_REGS TYPE('x) * XLEN_BYTES TYPE('x)])
       (\<lambda>r. case r of Some v \<Rightarrow> Inr v
          | None \<Rightarrow> Inr (if curr_priv = machine_mode then rv_ok else rv_err))"

section \<open>Well-formed state and address ranges\<close>

definition pmp_wf :: "'x::len pmp_td \<Rightarrow> bool" where
  "pmp_wf pmp \<longleftrightarrow> xlen_ok TYPE('x) \<and> length (pmp_cfg pmp) = 16 \<and> length (pmp_addr pmp) = 16"

lemma pmp_cfg_bytes: "xlen_ok TYPE('x::len) \<Longrightarrow> PMP_NR_CFG_REGS TYPE('x) * XLEN_BYTES TYPE('x) = 16"
  by (auto simp: xlen_ok_def PMP_NR_CFG_REGS_def XLEN_BYTES_def)

lemma pmp_zero_wf: "xlen_ok TYPE('x::len) \<Longrightarrow> pmp_wf (pmp_zero :: 'x pmp_td)"
  by (simp add: pmp_wf_def pmp_zero_def pmp_cfg_bytes PMP_NR_ADDR_REGS_def)

text \<open>The number of ones below the lowest zero.\<close>

function trailing_ones :: "nat \<Rightarrow> nat" where
  "trailing_ones n = (if odd n then Suc (trailing_ones (n div 2)) else 0)"
  by pat_completeness auto
termination
  by (relation "measure id") (auto elim: oddE)

declare trailing_ones.simps [simp del]

lemma trailing_ones_bits: "i < trailing_ones n \<Longrightarrow> bit n i" "\<not> bit n (trailing_ones n)"
proof (induction n arbitrary: i rule: trailing_ones.induct)
  case (1 n)
  {
    case 1
    then show ?case using "1.IH"(1) by (subst (asm) trailing_ones.simps) (cases i; auto simp: bit_0 bit_Suc split: if_splits)
  next
    case 2
    then show ?case using "1.IH"(2) by (subst trailing_ones.simps) (auto simp: bit_0 bit_Suc)
  }
qed

lemma ffs_not:
  fixes a :: "'x::len word"
  assumes "a \<noteq> - 1" "LENGTH('x) \<le> 64"
  shows "FIND_FIRST_BIT_SET (ucast (NOT a)) = Suc (trailing_ones (unat a))"
    and "trailing_ones (unat a) < LENGTH('x)"
proof -
  let ?n = "trailing_ones (unat a)"
  have b: "bit (unat a) i \<longleftrightarrow> bit a i" for i
    by (auto simp: bit_unsigned_iff dest: bit_imp_le_length)
  obtain j where "j < LENGTH('x)" "\<not> bit a j" using assms(1) by (auto simp: bit_eq_iff)
  then have "\<not> LENGTH('x) \<le> ?n"
    using trailing_ones_bits(1) [where n = "unat a" and i = j] b by auto
  then show n: "?n < LENGTH('x)" by simp
  have "List.find (bit (ucast (NOT a) :: u64)) [0..<64] = Some ?n"
    unfolding find_Some_iff
    using n assms(2) trailing_ones_bits(1) [where n = "unat a"] trailing_ones_bits(2) [of "unat a"] b
    by (intro exI [of _ ?n]) (auto simp: bit_simps)
  then show "FIND_FIRST_BIT_SET (ucast (NOT a)) = Suc ?n" by (simp add: FIND_FIRST_BIT_SET_def)
qed

lemma napot_size:
  fixes a :: "'x::len word"
  assumes "xlen_ok TYPE('x)" "a \<noteq> - 1" "trailing_ones (unat a) \<le> 27"
  shows "get_pmp_napot_size_from_pmpaddr a = Inr (2 ^ (trailing_ones (unat a) + 3))"
proof -
  have e: "FIND_FIRST_BIT_SET (ucast (NOT a)) + 2 = trailing_ones (unat a) + 3"
    using assms ffs_not(1) [of a] by (auto simp: xlen_ok_def)
  show ?thesis
    unfolding get_pmp_napot_size_from_pmpaddr_def e
    using assms(3) xlen_ok_ge [OF assms(1)] by (subst int_bit_eq) simp_all
qed

lemma trailing_ones_le: "2 ^ trailing_ones m - 1 \<le> (m :: nat)"
proof (induction m rule: trailing_ones.induct)
  case (1 n)
  show ?case
  proof (cases "odd n")
    case True
    then have "2 ^ trailing_ones (n div 2) - 1 \<le> n div 2" "n = 2 * (n div 2) + 1" using 1 by auto
    moreover have "trailing_ones n = Suc (trailing_ones (n div 2))" using True by (subst trailing_ones.simps) simp
    ultimately show ?thesis by simp
  qed (simp add: trailing_ones.simps)
qed

section \<open>What the registers mean\<close>

text \<open>The address range of an entry, without wrap-around: first address and first address after it.\<close>

definition pmp_mode :: "'x::len pmp_td \<Rightarrow> nat \<Rightarrow> pmp_addr_matching" where
  "pmp_mode pmp k = pmp_matching_of (extract8 (pmp_cfg pmp ! k) 3 2)"

definition pmp_range :: "'x::len pmp_td \<Rightarrow> nat \<Rightarrow> nat \<times> nat" where
  "pmp_range pmp k = (let a = unat (pmp_addr pmp ! k) in case pmp_mode pmp k of
     pmp_a_off \<Rightarrow> (0, 0)
   | pmp_a_tor \<Rightarrow> (if k = 0 then 0 else 4 * unat (pmp_addr pmp ! (k - 1)), 4 * a)
   | pmp_a_na4 \<Rightarrow> (4 * a, 4 * a + 4)
   | pmp_a_napot \<Rightarrow> let n = trailing_ones a in (4 * (a - (2 ^ n - 1)), 4 * (a - (2 ^ n - 1)) + 2 ^ (n + 3)))"

definition pmp_entry_sane :: "'x::len pmp_td \<Rightarrow> nat \<Rightarrow> bool" where
  "pmp_entry_sane pmp k \<longleftrightarrow> fst (pmp_range pmp k) < 2 ^ LENGTH('x) \<and> snd (pmp_range pmp k) < 2 ^ LENGTH('x) \<and>
     (pmp_mode pmp k = pmp_a_napot \<longrightarrow> trailing_ones (unat (pmp_addr pmp ! k)) \<le> 27)"

text \<open>
  The range that the code computes, in registers: every address is reduced modulo \<open>2 ^ XLEN\<close>. The size of a power-of-two entry is
  \<open>1 << (n + 3)\<close> of type \<open>int\<close>, for the number \<open>n\<close> of ones at the low end of the register: with \<open>n = 28\<close> it is
  negative and extended by its sign, with more it is a shift beyond the width. All ones are a case of their own.
\<close>

definition napot_bytes :: "'x::len itself \<Rightarrow> nat \<Rightarrow> int option" where
  "napot_bytes _ n = (if n \<le> 27 then Some (2 ^ (n + 3)) else if n = 28 then Some (2 ^ LENGTH('x) - 2 ^ 31) else None)"

definition pmp_window :: "'x::len pmp_td \<Rightarrow> nat \<Rightarrow> (nat \<times> nat) res" where
  "pmp_window pmp k = (let a = uint (pmp_addr pmp ! k); m = 2 ^ LENGTH('x) in case pmp_mode pmp k of
     pmp_a_off \<Rightarrow> Inr (0, 0)
   | pmp_a_tor \<Rightarrow> Inr (if k = 0 then 0 else nat (4 * uint (pmp_addr pmp ! (k - 1)) mod m), nat (4 * a mod m))
   | pmp_a_na4 \<Rightarrow> Inr (nat (4 * a mod m), nat ((4 * a + 4) mod m))
   | pmp_a_napot \<Rightarrow> if a = m - 1 then Inr (0, nat (m - 1)) else (case napot_bytes TYPE('x) (trailing_ones (nat a)) of
       None \<Rightarrow> Inl BadShift
     | Some z \<Rightarrow> let s = 4 * (a - (z div 2 - 1) div 4) in Inr (nat (s mod m), nat ((s + z) mod m))))"

lemma within_words:
  fixes x :: "'x::len word"
  shows "ADDR_WITHIN x (word_of_int s) (word_of_int z) \<longleftrightarrow>
    nat (s mod 2 ^ LENGTH('x)) \<le> unat x \<and> unat x < nat ((s + z) mod 2 ^ LENGTH('x))"
proof -
  have u: "unat (word_of_int i :: 'x word) = nat (i mod 2 ^ LENGTH('x))" for i
    by (metis nat_uint_eq take_bit_eq_mod uint_word_of_int_eq)
  show ?thesis unfolding ADDR_WITHIN_def word_le_nat_alt word_less_nat_alt wi_hom_add u ..
qed

lemma push2_int: "push_bit 2 w = word_of_int (4 * uint w)" for w :: "'x::len word"
  by (simp add: push_bit_eq_mult wi_hom_mult [symmetric] mult.commute)

lemma napot_size_word:
  fixes a :: "'x::len word"
  assumes "xlen_ok TYPE('x)" "a \<noteq> - 1"
  shows "get_pmp_napot_size_from_pmpaddr a = (case napot_bytes TYPE('x) (trailing_ones (unat a)) of
    None \<Rightarrow> Inl BadShift | Some z \<Rightarrow> Inr (word_of_int z))"
proof -
  let ?n = "trailing_ones (unat a)"
  have e: "FIND_FIRST_BIT_SET (ucast (NOT a)) + 2 = ?n + 3" using assms ffs_not(1) [of a] by (auto simp: xlen_ok_def)
  consider "?n \<le> 27" | "?n = 28" | "28 < ?n" by linarith
  then show ?thesis
  proof cases
    case 1
    then show ?thesis unfolding napot_size [OF assms 1] by (simp add: napot_bytes_def)
  next
    case 2
    have "(int_bit 31 :: 'x word res) = Inr (word_of_int (2 ^ LENGTH('x) - 2 ^ 31))"
      using assms(1) by (auto simp: xlen_ok_def int_bit_def)
    then show ?thesis unfolding get_pmp_napot_size_from_pmpaddr_def e 2 by (simp add: napot_bytes_def)
  next
    case 3
    then show ?thesis unfolding get_pmp_napot_size_from_pmpaddr_def e by (simp add: napot_bytes_def int_bit_def)
  qed
qed

lemma napot_bytes_bounds:
  assumes "xlen_ok TYPE('x::len)" "napot_bytes TYPE('x) n = Some z"
  shows "8 \<le> z" "z < 2 ^ LENGTH('x)"
proof -
  have "8 \<le> z \<and> z < 2 ^ LENGTH('x)"
  proof (cases "n \<le> 27")
    case True
    then have "(2::int) ^ (n + 3) \<le> 2 ^ 30" "(2::int) ^ 3 \<le> 2 ^ (n + 3)" by (intro power_increasing; simp)+
    then show ?thesis using assms True by (auto simp: napot_bytes_def xlen_ok_def)
  qed (use assms in \<open>auto simp: napot_bytes_def xlen_ok_def split: if_splits\<close>)
  then show "8 \<le> z" "z < 2 ^ LENGTH('x)" by simp_all
qed

lemma napot_addr_word:
  fixes a :: "'x::len word"
  assumes "xlen_ok TYPE('x)" "a \<noteq> - 1" "napot_bytes TYPE('x) (trailing_ones (unat a)) = Some z"
  shows "get_pmp_napot_addr_from_pmpaddr a = Inr (word_of_int (4 * (uint a - (z div 2 - 1) div 4)))"
proof -
  note z = napot_bytes_bounds [OF assms(1,3)]
  let ?w = "word_of_int z :: 'x word"
  have u: "uint (word_of_int i :: 'x word) = i" if "0 \<le> i" "i < 2 ^ LENGTH('x)" for i
    using that by (simp add: uint_word_of_int_eq take_bit_int_eq_self)
  have w: "uint ?w = z" using z by (intro u) simp_all
  have "(2 :: 'x word) \<noteq> 0" "uint (2 :: 'x word) = 2" using assms(1) by (auto simp: xlen_ok_def)
  then have "uint (?w div 2) = z div 2" by (simp add: uint_div w)
  then have "?w div 2 = word_of_int (z div 2)" by (metis word_of_int_uint)
  then have h: "?w div 2 - 1 = word_of_int (z div 2 - 1)" by simp
  have "uint (?w div 2 - 1) = z div 2 - 1"
    unfolding h using z by (intro u) simp_all
  moreover have "uint (4 :: 'x word) = 4" using assms(1) by (auto simp: xlen_ok_def)
  moreover have "drop_bit 2 v = v div 4" for v :: "'x word" by (simp add: drop_bit_eq_div)
  ultimately have "uint (drop_bit 2 (?w div 2 - 1)) = (z div 2 - 1) div 4" by (simp only: uint_div)
  then have "drop_bit 2 (?w div 2 - 1) = word_of_int ((z div 2 - 1) div 4)" by (metis word_of_int_uint)
  moreover have "uint a - (z div 2 - 1) div 4 = uint a - (z div 2 - 1) div 4" ..
  moreover have "push_bit 2 (a - word_of_int i) = word_of_int (4 * (uint a - i))" for i
    by (simp add: push_bit_eq_mult wi_hom_mult [symmetric] wi_hom_sub [symmetric] mult.commute)
  ultimately show ?thesis
    by (simp add: get_pmp_napot_addr_from_pmpaddr_def napot_size_word [OF assms(1,2)] assms(3) Let_def)
qed

text \<open>The region that the code computes contains exactly the addresses of the window.\<close>

lemma pmp_region_window:
  fixes pmp :: "'x::len pmp_td"
  assumes "pmp_wf pmp" "k < 16" "pmp_mode pmp k \<noteq> pmp_a_off"
  shows "case pmp_window pmp k of Inl h \<Rightarrow> pmp_region pmp (pmp_mode pmp k) k = Inl h
    | Inr r \<Rightarrow> \<exists>s z. pmp_region pmp (pmp_mode pmp k) k = Inr (s, z) \<and>
        (\<forall>x. ADDR_WITHIN x s z \<longleftrightarrow> fst r \<le> unat x \<and> unat x < snd r)"
proof -
  have x: "xlen_ok TYPE('x)" and L: "length (pmp_addr pmp) = 16" using assms(1) by (auto simp: pmp_wf_def)
  let ?a = "pmp_addr pmp ! k" let ?b = "pmp_addr pmp ! (k - 1)"
  note w = within_words [where 'x = 'x]
  show ?thesis
  proof (cases "pmp_mode pmp k")
    case pmp_a_off
    then show ?thesis using assms(3) by simp
  next
    case pmp_a_na4
    then show ?thesis
      using assms(2) L w [of _ "4 * uint ?a" 4] by (simp add: pmp_region_def pmp_window_def Let_def push2_int)
  next
    case pmp_a_tor
    have d: "push_bit 2 ?a - push_bit 2 ?b = word_of_int (4 * uint ?a - 4 * uint ?b)"
      by (simp only: push2_int wi_hom_sub)
    show ?thesis
      using pmp_a_tor assms(2) L w [of _ 0 "4 * uint ?a"] w [of _ "4 * uint ?b" "4 * uint ?a - 4 * uint ?b"]
      by (cases "k = 0") (simp_all add: pmp_region_def pmp_window_def Let_def d, simp_all add: push2_int)
  next
    case pmp_a_napot
    have m1: "?a = - 1 \<longleftrightarrow> uint ?a = 2 ^ LENGTH('x) - 1"
      unfolding word_uint_eq_iff by (simp add: unsigned_minus_1_eq_mask mask_eq_exp_minus_1)
    have r: "pmp_region pmp (pmp_mode pmp k) k = (if ?a = - 1 then Inr (0, - 1)
        else res_bind (get_pmp_napot_size_from_pmpaddr ?a) (\<lambda>z. res_bind (get_pmp_napot_addr_from_pmpaddr ?a) (\<lambda>s. Inr (s, z))))"
      using pmp_a_napot assms(2) L by (simp add: pmp_region_def)
    show ?thesis
    proof (cases "?a = - 1")
      case True
      have mod_m: "(2 ^ LENGTH('x) - 1 :: int) mod 2 ^ LENGTH('x) = 2 ^ LENGTH('x) - 1" by (rule mod_pos_pos_trivial) simp_all
      have "ADDR_WITHIN v 0 (- 1) \<longleftrightarrow> unat v < nat (2 ^ LENGTH('x) - 1)" for v :: "'x word"
        using w [of v 0 "2 ^ LENGTH('x) - 1"] unfolding add_0 mod_m by simp
      then show ?thesis using True m1 r pmp_a_napot by (simp add: pmp_window_def Let_def)
    next
      case False
      then show ?thesis
      proof (cases "napot_bytes TYPE('x) (trailing_ones (unat ?a))")
        case None
        then show ?thesis using False m1 r pmp_a_napot napot_size_word [OF x False]
          by (simp add: pmp_window_def Let_def)
      next
        case (Some z)
        define si where "si = 4 * (uint ?a - (z div 2 - 1) div 4)"
        have "get_pmp_napot_size_from_pmpaddr ?a = Inr (word_of_int z)" "get_pmp_napot_addr_from_pmpaddr ?a = Inr (word_of_int si)"
          using napot_size_word [OF x False] napot_addr_word [OF x False Some] Some by (simp_all add: si_def)
        then have "pmp_region pmp (pmp_mode pmp k) k = Inr (word_of_int si, word_of_int z)" using r False by simp
        moreover have "pmp_window pmp k = Inr (nat (si mod 2 ^ LENGTH('x)), nat ((si + z) mod 2 ^ LENGTH('x)))"
          using False m1 Some pmp_a_napot by (simp add: pmp_window_def Let_def si_def)
        ultimately show ?thesis using w by simp
      qed
    qed
  qed
qed

text \<open>For an entry that stays inside the address space it is the range of the architecture.\<close>

lemma pmp_window_range:
  fixes pmp :: "'x::len pmp_td"
  assumes "pmp_entry_sane pmp k"
  shows "pmp_window pmp k = Inr (pmp_range pmp k)"
proof -
  let ?a = "pmp_addr pmp ! k" let ?n = "trailing_ones (unat ?a)"
  have m: "nat (int i mod 2 ^ LENGTH('x)) = i" if "i < 2 ^ LENGTH('x)" for i :: nat
    using that by (simp add: nat_mod_distrib)
  show ?thesis
  proof (cases "pmp_mode pmp k")
    case pmp_a_napot
    let ?s = "4 * (unat ?a - (2 ^ ?n - 1))"
    have n: "?n \<le> 27" and lt: "?s + 2 ^ (?n + 3) < 2 ^ LENGTH('x)"
      using assms pmp_a_napot by (auto simp: pmp_entry_sane_def pmp_range_def Let_def)
    have "(2 :: int) ^ (?n + 3) div 2 = 4 * 2 ^ ?n" by (simp add: power_add)
    then have q: "((2 :: int) ^ (?n + 3) div 2 - 1) div 4 = 2 ^ ?n - 1" by linarith
    have "int (unat ?a - (2 ^ ?n - 1)) = uint ?a - (2 ^ ?n - 1)"
      using trailing_ones_le [of "unat ?a"] by (simp add: of_nat_diff)
    then have s: "4 * (uint ?a - ((2 :: int) ^ (?n + 3) div 2 - 1) div 4) = int ?s" unfolding q by simp
    have e: "int ?s + 2 ^ (?n + 3) = int (?s + 2 ^ (?n + 3))" by simp
    have ne: "uint ?a \<noteq> 2 ^ LENGTH('x) - 1"
    proof
      assume "uint ?a = 2 ^ LENGTH('x) - 1"
      then have "int (unat ?a + 1) = int (2 ^ LENGTH('x))" by simp
      then have a: "unat ?a + 1 = 2 ^ LENGTH('x)" by (simp only: of_nat_eq_iff)
      have "unat ?a - (2 ^ ?n - 1) + 2 ^ ?n \<ge> unat ?a + 1" by simp
      then have "4 * (unat ?a + 1) \<le> ?s + 2 ^ (?n + 3)" by (simp add: power_add)
      then show False using lt a by simp
    qed
    have "napot_bytes TYPE('x) ?n = Some (2 ^ (?n + 3))" using n by (simp add: napot_bytes_def)
    then have "pmp_window pmp k = Inr (nat (int ?s mod 2 ^ LENGTH('x)), nat (int (?s + 2 ^ (?n + 3)) mod 2 ^ LENGTH('x)))"
      using ne pmp_a_napot unfolding pmp_window_def Let_def by (simp only: pmp_addr_matching.case if_False nat_uint_eq option.case s e)
    moreover have "?s < 2 ^ LENGTH('x)" using lt by simp
    ultimately show ?thesis using m [of ?s] m [OF lt] pmp_a_napot by (simp only: pmp_range_def Let_def pmp_addr_matching.case)
  next
    case pmp_a_off
    then show ?thesis by (simp add: pmp_window_def pmp_range_def)
  next
    case pmp_a_na4
    then have "4 * unat ?a < 2 ^ LENGTH('x)" "4 * unat ?a + 4 < 2 ^ LENGTH('x)"
      using assms by (auto simp: pmp_entry_sane_def pmp_range_def Let_def)
    then show ?thesis using pmp_a_na4 m [of "4 * unat ?a"] m [of "4 * unat ?a + 4"] by (simp add: pmp_window_def pmp_range_def Let_def)
  next
    case pmp_a_tor
    then have "4 * unat ?a < 2 ^ LENGTH('x)" "k \<noteq> 0 \<Longrightarrow> 4 * unat (pmp_addr pmp ! (k - 1)) < 2 ^ LENGTH('x)"
      using assms by (auto simp: pmp_entry_sane_def pmp_range_def Let_def)
    then show ?thesis
      using pmp_a_tor m [of "4 * unat ?a"] m [of "4 * unat (pmp_addr pmp ! (k - 1))"] by (simp add: pmp_window_def pmp_range_def Let_def)
  qed
qed

section \<open>First match\<close>

definition pmp_applies :: "'x::len pmp_td \<Rightarrow> privilege_level \<Rightarrow> nat \<Rightarrow> bool" where
  "pmp_applies pmp cp k \<longleftrightarrow> (cp = machine_mode \<longrightarrow> bit (pmp_cfg pmp ! k) 7) \<and> pmp_mode pmp k \<noteq> pmp_a_off"

definition in_range :: "nat \<Rightarrow> nat \<times> nat \<Rightarrow> bool" where
  "in_range x r \<longleftrightarrow> fst r \<le> x \<and> x < snd r"

definition pmp_hit :: "'x::len pmp_td \<Rightarrow> privilege_level \<Rightarrow> nat \<Rightarrow> nat \<Rightarrow> nat \<Rightarrow> bool" where
  "pmp_hit pmp cp lo hi k \<longleftrightarrow>
     pmp_applies pmp cp k \<and> (in_range lo (pmp_range pmp k) \<or> in_range hi (pmp_range pmp k))"

definition pmp_entry_allows ::
  "'x::len pmp_td \<Rightarrow> privilege_level \<Rightarrow> nat \<Rightarrow> nat \<Rightarrow> bus_access_type \<Rightarrow> nat \<Rightarrow> bool" where
  "pmp_entry_allows pmp cp lo hi acc k \<longleftrightarrow> bit (pmp_cfg pmp ! k) (access_code acc) \<and>
     (cp = machine_mode \<or> in_range lo (pmp_range pmp k) \<and> in_range hi (pmp_range pmp k))"

definition pmp_allows ::
  "'x::len pmp_td \<Rightarrow> privilege_level \<Rightarrow> nat \<Rightarrow> nat \<Rightarrow> bus_access_type \<Rightarrow> bool" where
  "pmp_allows pmp cp lo hi acc =
    (case List.find (pmp_hit pmp cp lo hi) [0..<16] of
       None \<Rightarrow> cp = machine_mode | Some k \<Rightarrow> pmp_entry_allows pmp cp lo hi acc k)"

lemma access_bit: "push_bit (access_code acc) 1 AND (c AND 7) = 0 \<longleftrightarrow> \<not> bit (c :: u8) (access_code acc)"
proof -
  have "access_code acc < 3" by (cases acc) simp_all
  moreover have "c AND 7 = take_bit 3 c" by (simp add: take_bit_eq_mask mask_eq_exp_minus_1)
  ultimately have "push_bit (access_code acc) 1 AND (c AND 7) = c AND push_bit (access_code acc) 1"
    by (auto simp: bit_simps bit_1_iff simp del: push_bit_of_1 intro!: bit_word_eqI)
  then show ?thesis using and_push_one_eq_0 [of "access_code acc" c] \<open>access_code acc < 3\<close> by simp
qed

text \<open>
  The rule that the code follows, over the computed windows: the first entry that applies and holds the first or the last byte
  decides; an entry whose window is not defined stops the check.
\<close>

definition pmp_decides :: "'x::len pmp_td \<Rightarrow> privilege_level \<Rightarrow> nat \<Rightarrow> nat \<Rightarrow> nat \<Rightarrow> bool" where
  "pmp_decides pmp cp lo hi k \<longleftrightarrow> pmp_applies pmp cp k \<and>
     (case pmp_window pmp k of Inl _ \<Rightarrow> True | Inr r \<Rightarrow> in_range lo r \<or> in_range hi r)"

definition pmp_decision ::
  "'x::len pmp_td \<Rightarrow> privilege_level \<Rightarrow> nat \<Rightarrow> nat \<Rightarrow> bus_access_type \<Rightarrow> nat \<Rightarrow> rv_ret res" where
  "pmp_decision pmp cp lo hi acc k = res_bind (pmp_window pmp k) (\<lambda>r.
     Inr (if bit (pmp_cfg pmp ! k) (access_code acc) \<and> (cp = machine_mode \<or> in_range lo r \<and> in_range hi r) then rv_ok else rv_err))"

definition pmp_rule :: "'x::len pmp_td \<Rightarrow> privilege_level \<Rightarrow> nat \<Rightarrow> nat \<Rightarrow> bus_access_type \<Rightarrow> rv_ret res" where
  "pmp_rule pmp cp lo hi acc =
    (case List.find (pmp_decides pmp cp lo hi) [0..<16] of
       None \<Rightarrow> Inr (if cp = machine_mode then rv_ok else rv_err)
     | Some k \<Rightarrow> pmp_decision pmp cp lo hi acc k)"

lemma pmp_check_loop_find:
  fixes pmp :: "'x::len pmp_td"
  assumes wf: "pmp_wf pmp" and hi: "unat (addr + (ucast len - 1)) = hi"
  shows "set ks \<subseteq> {..<16} \<Longrightarrow> pmp_check_loop pmp cp addr len acc ks =
    (case List.find (pmp_decides pmp cp (unat addr) hi) ks of None \<Rightarrow> Inr None
     | Some k \<Rightarrow> res_bind (pmp_decision pmp cp (unat addr) hi acc k) (\<lambda>r. Inr (Some r)))"
proof (induction ks)
  case Nil
  then show ?case by simp
next
  case (Cons k ks)
  then have k: "k < 16" and IH: "pmp_check_loop pmp cp addr len acc ks =
    (case List.find (pmp_decides pmp cp (unat addr) hi) ks of None \<Rightarrow> Inr None
     | Some k \<Rightarrow> res_bind (pmp_decision pmp cp (unat addr) hi acc k) (\<lambda>r. Inr (Some r)))" by auto
  have get: "arr_get (pmp_cfg pmp) k = Inr (pmp_cfg pmp ! k)" using k wf by (simp add: pmp_wf_def)
  have lock: "CHECK_BIT (pmp_cfg pmp ! k) PMP_CFG_L_BIT \<longleftrightarrow> bit (pmp_cfg pmp ! k) 7"
    by (simp add: CHECK_BIT_iff PMP_CFG_L_BIT_def)
  have mode: "pmp_matching_of (extract8 (pmp_cfg pmp ! k) PMP_CFG_A_BIT_OFFS 2) = pmp_mode pmp k"
    by (simp add: pmp_mode_def PMP_CFG_A_BIT_OFFS_def)
  show ?case
  proof (cases "pmp_applies pmp cp k")
    case False
    then have "\<not> pmp_decides pmp cp (unat addr) hi k"
      "cp = machine_mode \<and> \<not> bit (pmp_cfg pmp ! k) 7 \<or> pmp_mode pmp k = pmp_a_off"
      by (auto simp: pmp_decides_def pmp_applies_def)
    then show ?thesis
      unfolding pmp_check_loop.simps get res_bind_simps lock mode Let_def IH by auto
  next
    case True
    then have go: "\<not> (cp = machine_mode \<and> \<not> bit (pmp_cfg pmp ! k) 7)" "pmp_mode pmp k \<noteq> pmp_a_off"
      by (auto simp: pmp_applies_def)
    note region = pmp_region_window [OF wf k go(2)]
    show ?thesis
    proof (cases "pmp_window pmp k")
      case (Inl h)
      then have "pmp_decides pmp cp (unat addr) hi k" "pmp_decision pmp cp (unat addr) hi acc k = Inl h"
        "pmp_region pmp (pmp_mode pmp k) k = Inl h"
        using True region by (simp_all add: pmp_decides_def pmp_decision_def)
      then show ?thesis
        unfolding pmp_check_loop.simps get res_bind_simps lock mode Let_def if_not_P [OF go(1)] if_not_P [OF go(2)] by simp
    next
      case (Inr w)
      then obtain s z where r: "pmp_region pmp (pmp_mode pmp k) k = Inr (s, z)" and
        within: "\<And>x. ADDR_WITHIN x s z \<longleftrightarrow> in_range (unat x) w" using region by (auto simp: in_range_def)
      have d: "pmp_decides pmp cp (unat addr) hi k \<longleftrightarrow> in_range (unat addr) w \<or> in_range hi w"
        using True Inr by (simp add: pmp_decides_def)
      show ?thesis
        unfolding pmp_check_loop.simps get res_bind_simps lock mode Let_def IH r within hi access_bit prod.case
          if_not_P [OF go(1)] if_not_P [OF go(2)] find.simps d
        by (auto simp: pmp_decision_def Inr)
    qed
  qed
qed

lemma pmp_mem_check_rule:
  fixes pmp :: "'x::len pmp_td"
  assumes "pmp_wf pmp" "0 < len"
  shows "pmp_mem_check pmp cp addr len acc = pmp_rule pmp cp (unat addr) ((unat addr + unat len - 1) mod 2 ^ LENGTH('x)) acc"
proof -
  have x: "xlen_ok TYPE('x)" using assms(1) by (simp add: pmp_wf_def)
  have l: "unat (ucast len :: 'x word) = unat len" using x by (intro unat_ucast_up) (auto simp: xlen_ok_def)
  have l1: "1 \<le> unat len" using assms(2) by (metis Suc_leI One_nat_def unat_gt_0 word_neq_0_conv)
  have one: "unat (ucast len - 1 :: 'x word) = unat len - 1"
    using l1 l by (subst unat_sub) (simp_all add: word_le_nat_alt)
  have hi: "unat (addr + (ucast len - 1)) = (unat addr + unat len - 1) mod 2 ^ LENGTH('x)"
    using l1 by (simp add: unat_word_ariths(1) one)
  show ?thesis
    unfolding pmp_mem_check_def pmp_cfg_bytes [OF x]
    using pmp_check_loop_find [OF assms(1) hi, where ks = "[0..<16]"]
    by (auto simp: pmp_rule_def res_bind_assoc atLeast0LessThan simp del: upt_rec_numeral split: option.splits)
qed

text \<open>Entries inside the address space: the rule is the one of the architecture.\<close>

lemma pmp_mem_check_spec:
  fixes pmp :: "'x::len pmp_td"
  assumes "pmp_wf pmp" "\<And>k. k < 16 \<Longrightarrow> pmp_applies pmp cp k \<Longrightarrow> pmp_entry_sane pmp k"
    "0 < len" "unat addr + unat len \<le> 2 ^ LENGTH('x)"
  shows "pmp_mem_check pmp cp addr len acc = Inr
    (if pmp_allows pmp cp (unat addr) (unat addr + unat len - 1) acc then rv_ok else rv_err)"
proof -
  let ?lo = "unat addr" let ?hi = "unat addr + unat len - 1"
  have hi: "?hi mod 2 ^ LENGTH('x) = ?hi" using assms(3,4) by (simp add: word_less_nat_alt)
  have w: "pmp_window pmp k = Inr (pmp_range pmp k)" if "k < 16" "pmp_applies pmp cp k" for k
    using pmp_window_range assms(2) [OF that] by blast
  then have d: "pmp_decides pmp cp ?lo ?hi k \<longleftrightarrow> pmp_hit pmp cp ?lo ?hi k" if "k < 16" for k
    using that by (auto simp: pmp_decides_def pmp_hit_def)
  have f: "List.find (pmp_decides pmp cp ?lo ?hi) [0..<16] = List.find (pmp_hit pmp cp ?lo ?hi) [0..<16]"
    using d by (intro find_cong) auto
  have e: "pmp_decision pmp cp ?lo ?hi acc k = Inr (if pmp_entry_allows pmp cp ?lo ?hi acc k then rv_ok else rv_err)"
    if "List.find (pmp_hit pmp cp ?lo ?hi) [0..<16] = Some k" for k
  proof -
    have "k < 16" "pmp_hit pmp cp ?lo ?hi k" using that by (auto simp: find_Some_iff simp del: upt_rec_numeral)
    then show ?thesis using w [of k] by (simp add: pmp_decision_def pmp_entry_allows_def pmp_hit_def)
  qed
  show ?thesis
    unfolding pmp_mem_check_rule [OF assms(1,3)] hi pmp_rule_def f pmp_allows_def
    using e by (cases "List.find (pmp_hit pmp cp ?lo ?hi) [0..<16]") simp_all
qed

section \<open>Register writes\<close>

lemma fold_locked_update:
  assumes "off + m \<le> length cfg"
  shows "length (fold (\<lambda>i c. if \<not> P (c ! (off + i)) then c[off + i := f i] else c) [0..<m] cfg) = length cfg"
    and "j < length cfg \<Longrightarrow> fold (\<lambda>i c. if \<not> P (c ! (off + i)) then c[off + i := f i] else c) [0..<m] cfg ! j =
      (if off \<le> j \<and> j < off + m \<and> \<not> P (cfg ! j) then f (j - off) else cfg ! j)"
  using assms by (induction m arbitrary: j) (auto simp: nth_list_update less_Suc_eq)

lemma pmp_write_csr_cfg_effect:
  fixes pmp :: "'x::len pmp_td"
  assumes "pmp_wf pmp" "unat reg < PMP_NR_CFG_REGS TYPE('x)"
  shows "\<exists>pmp' r. pmp_write_csr_cfg pmp cp reg v = Inr (pmp', r) \<and> pmp_wf pmp' \<and>
    (r = rv_ok \<longleftrightarrow> cp = machine_mode) \<and> pmp_addr pmp' = pmp_addr pmp \<and>
    (\<forall>j<16. pmp_cfg pmp' ! j =
      (if cp = machine_mode \<and> j div XLEN_BYTES TYPE('x) = unat reg \<and> \<not> bit (pmp_cfg pmp ! j) 7
       then ucast (drop_bit (8 * (j mod XLEN_BYTES TYPE('x))) v) else pmp_cfg pmp ! j))"
proof (cases "cp = machine_mode")
  case False
  then show ?thesis using assms(1) by (simp add: pmp_write_csr_cfg_def)
next
  case True
  let ?n = "XLEN_BYTES TYPE('x)"
  have x: "xlen_ok TYPE('x)" and len: "length (pmp_cfg pmp) = 16" using assms(1) by (auto simp: pmp_wf_def)
  have n: "0 < ?n" using x by (auto simp: xlen_ok_def XLEN_BYTES_def)
  have "(unat reg + 1) * ?n \<le> PMP_NR_CFG_REGS TYPE('x) * ?n" using assms(2) by (intro mult_le_mono1) simp
  then have off: "unat reg * ?n + ?n \<le> length (pmp_cfg pmp)" using pmp_cfg_bytes [OF x] len by simp
  have ix: "unat reg * ?n \<le> j \<and> j < unat reg * ?n + ?n \<longleftrightarrow> j div ?n = unat reg" for j
    using n by (metis add.commute div_nat_eqI dividend_less_times_div mult.commute mult_Suc times_div_less_eq_dividend)
  have sub: "j div ?n = unat reg \<Longrightarrow> j - unat reg * ?n = j mod ?n" for j
    by (metis minus_div_mult_eq_mod)
  have cfg: "fold (\<lambda>i c. if \<not> CHECK_BIT (c ! (unat reg * ?n + i)) 7 then c[unat reg * ?n + i := f i] else c)
      [0..<?n] (pmp_cfg pmp) ! j =
      (if j div ?n = unat reg \<and> \<not> bit (pmp_cfg pmp ! j) 7 then f (j mod ?n) else pmp_cfg pmp ! j)"
    if "j < 16" for j f
    using fold_locked_update(2) [OF off, where P = "\<lambda>c. CHECK_BIT c 7" and f = f and j = j] that len ix [of j] sub [of j]
    by (auto simp: CHECK_BIT_iff)
  show ?thesis
    using True assms n fold_locked_update(1) [OF off, where P = "\<lambda>c. CHECK_BIT c 7"] len
    unfolding pmp_write_csr_cfg_def PMP_CFG_L_BIT_def Let_def
    by (simp add: pmp_wf_def cfg nth_bytes_of)
qed

lemma pmp_struct_byte_cfg: "pmp_wf pmp \<Longrightarrow> k < 16 \<Longrightarrow> pmp_struct_byte pmp k = Inr (pmp_cfg pmp ! k)"
  by (simp add: pmp_struct_byte_def pmp_wf_def)

text \<open>The configuration byte that decides about the next entry; entry 15 has none of its own.\<close>

lemma pmp_write_csr_addr_effect:
  fixes pmp :: "'x::len pmp_td"
  assumes "pmp_wf pmp" "unat reg < 16"
  shows "\<exists>pmp' r. pmp_write_csr_addr pmp cp reg v = Inr (pmp', r) \<and> pmp_wf pmp' \<and>
    (r = rv_ok \<longleftrightarrow> cp = machine_mode) \<and> pmp_cfg pmp' = pmp_cfg pmp \<and>
    (pmp_addr pmp' = pmp_addr pmp \<or> pmp_addr pmp' = (pmp_addr pmp)[unat reg := v] \<and>
       \<not> bit (pmp_cfg pmp ! unat reg) 7 \<and>
       (unat reg < 15 \<longrightarrow> \<not> (bit (pmp_cfg pmp ! Suc (unat reg)) 7 \<and> pmp_mode pmp (Suc (unat reg)) = pmp_a_tor)))"
proof -
  let ?n = "XLEN_BYTES TYPE('x)" and ?k = "unat reg"
  have x: "xlen_ok TYPE('x)" and len: "length (pmp_addr pmp) = 16" "length (pmp_cfg pmp) = 16"
    using assms(1) by (auto simp: pmp_wf_def)
  have n: "0 < ?n" "?n \<le> 8" using x by (auto simp: xlen_ok_def XLEN_BYTES_def)
  have m: "?k div ?n mod 256 = ?k div ?n"
    using assms(2) div_le_dividend [of ?k ?n] by (intro mod_less) linarith
  have ix: "?k div ?n * ?n + ?k mod ?n = ?k" "?k + 1 = Suc ?k" by simp_all
  have "?k mod ?n < ?n" using n(1) by simp
  then have lt: "?k mod ?n < PMP_NR_ADDR_REGS - 1" using n(2) unfolding PMP_NR_ADDR_REGS_def by linarith
  obtain b where b: "pmp_struct_byte pmp (Suc ?k) = Inr b" and b': "?k < 15 \<Longrightarrow> b = pmp_cfg pmp ! Suc ?k"
  proof (cases "?k < 15")
    case True
    then show ?thesis using that pmp_struct_byte_cfg [OF assms(1), of "Suc ?k"] by simp
  next
    case False
    then have "?k = 15" using assms(2) by simp
    then show ?thesis using that len by (simp add: pmp_struct_byte_def Let_def)
  qed
  have c: "pmp_struct_byte pmp ?k = Inr (pmp_cfg pmp ! ?k)" using assms by (intro pmp_struct_byte_cfg)
  show ?thesis
    unfolding pmp_write_csr_addr_def Let_def m ix b c res_bind_simps
    using lt assms len b'
    by (auto simp: CHECK_BIT_iff PMP_CFG_L_BIT_def PMP_CFG_A_BIT_OFFS_def pmp_mode_def pmp_wf_def)
qed

section \<open>Sequences of register writes\<close>

datatype 'v pmp_op = pmp_op_cfg privilege_level u16 'v | pmp_op_addr privilege_level u16 'v

fun pmp_op_valid :: "'x::len word pmp_op \<Rightarrow> bool" where
  "pmp_op_valid (pmp_op_cfg cp reg v) \<longleftrightarrow> unat reg < PMP_NR_CFG_REGS TYPE('x)"
| "pmp_op_valid (pmp_op_addr cp reg v) \<longleftrightarrow> unat reg < PMP_NR_ADDR_REGS"

fun pmp_step :: "'x::len pmp_td \<Rightarrow> 'x word pmp_op \<Rightarrow> ('x pmp_td \<times> rv_ret) res" where
  "pmp_step pmp (pmp_op_cfg cp reg v) = pmp_write_csr_cfg pmp cp reg v"
| "pmp_step pmp (pmp_op_addr cp reg v) = pmp_write_csr_addr pmp cp reg v"

fun pmp_run :: "'x::len pmp_td \<Rightarrow> 'x word pmp_op list \<Rightarrow> 'x pmp_td res" where
  "pmp_run pmp [] = Inr pmp"
| "pmp_run pmp (op # ops) = res_bind (pmp_step pmp op) (\<lambda>(pmp', r). pmp_run pmp' ops)"

text \<open>What a locked entry keeps.\<close>

definition pmp_locked_same :: "nat \<Rightarrow> 'x::len pmp_td \<Rightarrow> 'x pmp_td \<Rightarrow> bool" where
  "pmp_locked_same k pmp pmp' \<longleftrightarrow> pmp_cfg pmp' ! k = pmp_cfg pmp ! k \<and> pmp_addr pmp' ! k = pmp_addr pmp ! k \<and>
     (pmp_mode pmp k = pmp_a_tor \<and> 0 < k \<longrightarrow> pmp_addr pmp' ! (k - 1) = pmp_addr pmp ! (k - 1))"

lemma pmp_step_locked:
  fixes pmp :: "'x::len pmp_td"
  assumes "pmp_wf pmp" "k < 16" "bit (pmp_cfg pmp ! k) 7" "pmp_op_valid op"
  shows "\<exists>pmp' r. pmp_step pmp op = Inr (pmp', r) \<and> pmp_wf pmp' \<and> pmp_locked_same k pmp pmp'"
proof (cases op)
  case (pmp_op_cfg cp reg v)
  then show ?thesis
    using pmp_write_csr_cfg_effect [OF assms(1), of reg cp v] assms by (auto simp: pmp_locked_same_def)
next
  case (pmp_op_addr cp reg v)
  then obtain pmp' r where w: "pmp_write_csr_addr pmp cp reg v = Inr (pmp', r)" "pmp_wf pmp'"
    "pmp_cfg pmp' = pmp_cfg pmp"
    "pmp_addr pmp' = pmp_addr pmp \<or> pmp_addr pmp' = (pmp_addr pmp)[unat reg := v] \<and>
       \<not> bit (pmp_cfg pmp ! unat reg) 7 \<and>
       (unat reg < 15 \<longrightarrow> \<not> (bit (pmp_cfg pmp ! Suc (unat reg)) 7 \<and> pmp_mode pmp (Suc (unat reg)) = pmp_a_tor))"
    using pmp_write_csr_addr_effect [OF assms(1), of reg cp v] assms(4) by (auto simp: PMP_NR_ADDR_REGS_def)
  have "unat reg \<noteq> k" if "\<not> bit (pmp_cfg pmp ! unat reg) 7" using that assms(3) by auto
  moreover have "unat reg \<noteq> k - 1" if "0 < k" "pmp_mode pmp k = pmp_a_tor"
    "unat reg < 15 \<longrightarrow> \<not> (bit (pmp_cfg pmp ! Suc (unat reg)) 7 \<and> pmp_mode pmp (Suc (unat reg)) = pmp_a_tor)"
    using that assms(2,3) by (cases k) auto
  ultimately show ?thesis
    using w pmp_op_addr by (auto simp: pmp_locked_same_def)
qed

lemma pmp_run_locked:
  fixes pmp :: "'x::len pmp_td"
  assumes "pmp_wf pmp" "k < 16" "bit (pmp_cfg pmp ! k) 7" "\<forall>op \<in> set ops. pmp_op_valid op"
  shows "\<exists>pmp'. pmp_run pmp ops = Inr pmp' \<and> pmp_wf pmp' \<and> pmp_locked_same k pmp pmp'"
  using assms
proof (induction ops arbitrary: pmp)
  case Nil
  then show ?case by (simp add: pmp_locked_same_def)
next
  case (Cons op ops)
  obtain p1 r where p1: "pmp_step pmp op = Inr (p1, r)" "pmp_wf p1" "pmp_locked_same k pmp p1"
    using pmp_step_locked [OF Cons.prems(1-3), of op] Cons.prems(4) by auto
  have "bit (pmp_cfg p1 ! k) 7" using p1(3) Cons.prems(3) by (simp add: pmp_locked_same_def)
  then obtain p2 where "pmp_run p1 ops = Inr p2" "pmp_wf p2" "pmp_locked_same k p1 p2"
    using Cons.IH [OF p1(2) Cons.prems(2)] Cons.prems(4) by auto
  then show ?case using p1 by (auto simp: pmp_locked_same_def pmp_mode_def)
qed

section \<open>Properties\<close>



text \<open>
  C36. Locked entries: along any sequence of CSR writes to the configuration and address registers,
  at any privilege level, a locked entry keeps its configuration byte and its address register, and
  if it is a top-of-range entry also the address register below it. Every such sequence completes.
\<close>

theorem pmp_lock_is_permanent:
  fixes pmp :: "'x::len pmp_td"
  assumes "pmp_wf pmp" "k < 16" "bit (pmp_cfg pmp ! k) 7" "\<forall>op \<in> set ops. pmp_op_valid op"
  shows "\<exists>pmp'. pmp_run pmp ops = Inr pmp' \<and> pmp_wf pmp' \<and> pmp_locked_same k pmp pmp'"
  by (rule pmp_run_locked [OF assms])

theorem pmp_lock_is_permanent_witness:
  "\<exists>pmp'. pmp_run (pmp_zero\<lparr>pmp_cfg := (replicate 16 0)[1 := 0x88]\<rparr> :: 64 pmp_td)
     [pmp_op_cfg machine_mode 0 0, pmp_op_addr machine_mode 0 7, pmp_op_addr machine_mode 1 9] = Inr pmp' \<and>
   pmp_addr pmp' ! 0 = 0 \<and> pmp_addr pmp' ! 1 = 0 \<and> pmp_cfg pmp' ! 1 = 0x88"
proof -
  let ?p = "pmp_zero\<lparr>pmp_cfg := (replicate 16 0)[1 := 0x88]\<rparr> :: 64 pmp_td"
  have "pmp_wf ?p" "bit (pmp_cfg ?p ! 1) 7" "pmp_mode ?p 1 = pmp_a_tor"
    by (simp_all add: pmp_wf_def pmp_zero_def PMP_NR_ADDR_REGS_def pmp_mode_def extract8_def pmp_matching_of_def)
  moreover have "pmp_addr ?p ! 0 = 0" "pmp_addr ?p ! 1 = 0" "pmp_cfg ?p ! 1 = 0x88"
    by (simp_all add: pmp_zero_def PMP_NR_ADDR_REGS_def)
  ultimately show ?thesis
    using pmp_lock_is_permanent [of ?p 1 "[pmp_op_cfg machine_mode 0 0, pmp_op_addr machine_mode 0 7, pmp_op_addr machine_mode 1 9]"]
    by (fastforce simp: pmp_locked_same_def PMP_NR_ADDR_REGS_def PMP_NR_CFG_REGS_def)
qed

text \<open>
  The lock test of the last address register looks one byte past the configuration: whenever the
  lowest byte of the first address register has bit 7 set and 1 in bits 3 and 4, a write to the
  last address register is dropped with success, whatever the configuration registers say.
\<close>

theorem pmpaddr15_blocked_by_pmpaddr0:
  fixes pmp :: "'x::len pmp_td"
  assumes "pmp_wf pmp" "bit (ucast (pmp_addr pmp ! 0) :: u8) 7" "extract8 (ucast (pmp_addr pmp ! 0)) 3 2 = 1"
  shows "pmp_write_csr_addr pmp machine_mode 15 v = Inr (pmp, rv_ok)"
proof -
  have n: "XLEN_BYTES TYPE('x) = 4 \<or> XLEN_BYTES TYPE('x) = 8" and len: "length (pmp_cfg pmp) = 16" "length (pmp_addr pmp) = 16"
    using assms(1) by (auto simp: pmp_wf_def xlen_ok_def XLEN_BYTES_def)
  then have "pmp_struct_byte pmp 16 = Inr (ucast (pmp_addr pmp ! 0))"
    by (auto simp: pmp_struct_byte_def)
  then show ?thesis
    using n assms(2,3) by (auto simp: pmp_write_csr_addr_def Let_def PMP_NR_ADDR_REGS_def PMP_CFG_A_BIT_OFFS_def
        PMP_CFG_L_BIT_def pmp_matching_of_def CHECK_BIT_iff)
qed

theorem pmpaddr15_blocked_by_pmpaddr0_witness:
  "let pmp = pmp_zero\<lparr>pmp_addr := (replicate 16 0)[0 := 0x88]\<rparr> :: 32 pmp_td in
     (\<forall>k<16. \<not> bit (pmp_cfg pmp ! k) 7) \<and> pmp_write_csr_addr pmp machine_mode 15 0x1234 = Inr (pmp, rv_ok)"
proof -
  let ?p = "pmp_zero\<lparr>pmp_addr := (replicate 16 0)[0 := 0x88]\<rparr> :: 32 pmp_td"
  have "pmp_wf ?p" by (simp add: pmp_wf_def pmp_zero_def pmp_cfg_bytes)
  then show ?thesis
    using pmpaddr15_blocked_by_pmpaddr0 [of ?p "0x1234"]
    by (simp add: Let_def extract8_def pmp_zero_def pmp_cfg_bytes)
qed

end
