(* ===== verification/Mmu.thy ===== *)
theory Mmu
  imports RvTypes
begin

text \<open>
  Address translation, \<open>src/core/mmu/mmu.c\<close> and \<open>mmu.h\<close>: the page table walk, the permission
  checks of the leaf entry and the composition of the physical address.

  The structure's two pointers, the bus access function and its context, are set once by
  \<open>mmu_init\<close>; the model passes the function as an argument and its context as the state \<open>'p\<close>, which
  the walk threads through its reads.
\<close>

section \<open>State\<close>

datatype mmu_ret = mmu_ok | mmu_page_fault

record (overloaded) 'x mmu_td =
  satp_reg :: "'x word"
  last_virt_pc :: "'x word"
  last_phys_pc :: "'x word"

definition mmu_init :: "'x::len mmu_td" where
  "mmu_init = \<lparr>satp_reg = 0, last_virt_pc = 0, last_phys_pc = 0\<rparr>"

definition MMU_PAGE_VALID :: u8 where "MMU_PAGE_VALID = 0x01"
definition MMU_PAGE_READ :: u8 where "MMU_PAGE_READ = 0x02"
definition MMU_PAGE_WRITE :: u8 where "MMU_PAGE_WRITE = 0x04"
definition MMU_PAGE_USER :: u8 where "MMU_PAGE_USER = 0x10"
definition MMU_PAGE_ACCESSED :: u8 where "MMU_PAGE_ACCESSED = 0x40"
definition MMU_PAGE_DIRTY :: u8 where "MMU_PAGE_DIRTY = 0x80"

definition SV32_PAGE_SIZE :: "'x::len word" where "SV32_PAGE_SIZE = 4096"
definition SV32_PTESIZE :: "'x::len word" where "SV32_PTESIZE = 4"
definition SV32_PTESHIFT :: nat where "SV32_PTESHIFT = 2"

definition MMU_SATP_MODE_BIT :: "'x::len itself \<Rightarrow> nat" where
  "MMU_SATP_MODE_BIT _ = (if is_rv64 TYPE('x) then 60 else 31)"

definition MMU_SATP_MODE_NR_BITS :: "'x::len itself \<Rightarrow> nat" where
  "MMU_SATP_MODE_NR_BITS _ = (if is_rv64 TYPE('x) then 4 else 1)"

definition ACCESS_TYPE_TO_MMU :: "bus_access_type \<Rightarrow> u8" where
  "ACCESS_TYPE_TO_MMU access_type = push_bit 1 (push_bit (access_code access_type) 1)"

section \<open>CSR callbacks\<close>

definition mmu_read_csr :: "'x::len mmu_td \<Rightarrow> privilege_level \<Rightarrow> u16 \<Rightarrow> (rv_ret \<times> 'x word) res" where
  "mmu_read_csr mmu curr_priv_mode reg_index = Inr (rv_ok, satp_reg mmu)"

definition mmu_write_csr ::
  "'x::len mmu_td \<Rightarrow> privilege_level \<Rightarrow> u16 \<Rightarrow> 'x word \<Rightarrow> ('x mmu_td \<times> rv_ret) res" where
  "mmu_write_csr mmu curr_priv reg_index csr_val = Inr (mmu\<lparr>satp_reg := csr_val\<rparr>, rv_ok)"

section \<open>The walk\<close>

text \<open>
  The \<open>for\<close> loop over the levels, from the root. \<open>Some (i, pte)\<close> is the \<open>break\<close> at a leaf of level
  \<open>i\<close>; \<open>None\<close> is \<open>exit_page_fault\<close>, also the one after the loop for \<open>i < 0\<close>. The result of the bus
  access is not looked at: after a failed access \<open>pte\<close> has whatever the buffer holds.
\<close>

primrec mmu_walk ::
  "('x::len, 'p) bus_access_func \<Rightarrow> privilege_level \<Rightarrow> (nat \<Rightarrow> 'x word) \<Rightarrow> nat list \<Rightarrow> 'p \<Rightarrow> 'x word \<Rightarrow> 'x word
    \<Rightarrow> ('p \<times> (nat \<times> 'x word) option) res" where
  "mmu_walk bus curr_priv vpn [] p a pte = Inr (p, None)"
| "mmu_walk bus curr_priv vpn (i # levels) p a pte =
    (let pte_addr = a + vpn i * SV32_PTESIZE;
         n = LENGTH('x) div 8
     in res_bind (bus p curr_priv bus_read_access pte_addr (bytes_of n pte) (of_nat n)) (\<lambda>(p, _, buf).
       let pte = word_of_bytes buf;
           pte_flags = (ucast pte :: u8)
       in if pte_flags AND MMU_PAGE_VALID = 0 \<or>
             pte_flags AND MMU_PAGE_READ = 0 \<and> pte_flags AND MMU_PAGE_WRITE \<noteq> 0 then Inr (p, None)
          else if pte_flags AND 0xA \<noteq> 0 then Inr (p, Some (i, pte))
          else mmu_walk bus curr_priv vpn levels p (drop_bit 10 pte * SV32_PAGE_SIZE) pte))"

text \<open>Steps 5 to 8, once the leaf is found: \<open>None\<close> is \<open>exit_page_fault\<close>.\<close>

definition mmu_leaf ::
  "privilege_level \<Rightarrow> 'x::len word \<Rightarrow> bus_access_type \<Rightarrow> u8 \<Rightarrow> u8 \<Rightarrow> nat \<Rightarrow> 'x word \<Rightarrow> u64 option" where
  "mmu_leaf curr_priv virt_addr access_type mxr sum_flag i pte =
    (let pte_flags = (ucast pte :: u8);
         user_page = pte_flags AND MMU_PAGE_USER
     in if curr_priv = user_mode \<and> user_page = 0 then None
     else if curr_priv = supervisor_mode \<and> user_page \<noteq> 0 \<and> sum_flag = 0 then None
     else
       let pte_flags = (if access_type = bus_read_access \<and> ACCESS_TYPE_TO_MMU bus_instr_access AND pte_flags \<noteq> 0 \<and>
              mxr \<noteq> 0 then pte_flags OR MMU_PAGE_READ else pte_flags)
       in if ACCESS_TYPE_TO_MMU access_type AND pte_flags = 0 then None
       else
         let pte = push_bit SV32_PTESHIFT pte;
             ppn0 = drop_bit 12 pte AND 0x3ff;
             ppn1 = drop_bit 22 pte AND 0xfff;
             phys_addr_translation =
               (if i = 0 then push_bit 22 ppn1 OR push_bit 12 ppn0 OR (virt_addr AND 0xfff)
                else push_bit 22 ppn1 OR (virt_addr AND 0x3fffff))
         in if i > 0 \<and> ppn0 \<noteq> 0 then None
         else if pte_flags AND MMU_PAGE_ACCESSED = 0 \<or>
             access_type = bus_write_access \<and> pte_flags AND MMU_PAGE_DIRTY = 0 then None
         else Some (ucast phys_addr_translation))"

definition mmu_virt_to_phys ::
  "('x::len, 'p) bus_access_func \<Rightarrow> 'x mmu_td \<Rightarrow> 'p \<Rightarrow> privilege_level \<Rightarrow> 'x word \<Rightarrow> bus_access_type \<Rightarrow> u8 \<Rightarrow> u8
    \<Rightarrow> ('x mmu_td \<times> 'p \<times> mmu_ret \<times> u64) res" where
  "mmu_virt_to_phys bus mmu p curr_priv virt_addr access_type mxr sum_flag =
    (let mode = (ucast (extractxlen (satp_reg mmu) (MMU_SATP_MODE_BIT TYPE('x)) (MMU_SATP_MODE_NR_BITS TYPE('x))) :: u8)
     in if curr_priv = machine_mode \<or> mode = 0 then Inr (mmu, p, mmu_ok, ucast virt_addr)
     else
       let vpn = (\<lambda>i::nat. if i = 0 then drop_bit 12 virt_addr AND 0x3ff else drop_bit 22 virt_addr AND 0x3ff);
           a = (satp_reg mmu AND 0x3FFFFF) * SV32_PAGE_SIZE
       in res_bind (mmu_walk bus curr_priv vpn [1, 0] p a 0) (\<lambda>(p, found).
         case found of
           None \<Rightarrow> Inr (mmu, p, mmu_page_fault, 0)
         | Some (i, pte) \<Rightarrow>
             (case mmu_leaf curr_priv virt_addr access_type mxr sum_flag i pte of
                None \<Rightarrow> Inr (mmu, p, mmu_page_fault, 0)
              | Some pa \<Rightarrow>
                  Inr (if access_type = bus_instr_access
                       then mmu\<lparr>last_phys_pc := ucast pa, last_virt_pc := virt_addr\<rparr> else mmu,
                     p, mmu_ok, pa))))"

section \<open>Sv32\<close>

text \<open>
  The translation of the privileged specification, on natural numbers. A page table entry is read by
  \<open>rd\<close> from its physical address, of 34 bits; \<open>pte_valid\<close> is the rule of step 3, \<open>pte_is_leaf\<close> that of step 4.
\<close>

type_synonym pte_reader = "nat \<Rightarrow> u32"

definition pte_valid :: "'x::len word \<Rightarrow> bool" where
  "pte_valid e \<longleftrightarrow> bit e 0 \<and> (bit e 2 \<longrightarrow> bit e 1)"

definition pte_is_leaf :: "'x::len word \<Rightarrow> bool" where
  "pte_is_leaf e \<longleftrightarrow> bit e 1 \<or> bit e 3"

definition pte_ppn :: "u32 \<Rightarrow> nat" where
  "pte_ppn e = unat e div 2 ^ 10"

definition sv32_root :: "u32 \<Rightarrow> nat \<Rightarrow> nat" where
  "sv32_root satp va = unat satp mod 2 ^ 22 * 4096 + va div 2 ^ 22 * 4"

definition sv32_next :: "u32 \<Rightarrow> nat \<Rightarrow> nat" where
  "sv32_next e va = pte_ppn e * 4096 + va div 2 ^ 12 mod 2 ^ 10 * 4"

definition sv32_leaf :: "pte_reader \<Rightarrow> u32 \<Rightarrow> nat \<Rightarrow> (nat \<times> u32) option" where
  "sv32_leaf rd satp va =
    (let e1 = rd (sv32_root satp va) in
     if \<not> pte_valid e1 then None
     else if pte_is_leaf e1 then Some (1, e1)
     else let e0 = rd (sv32_next e1 va) in if pte_valid e0 \<and> pte_is_leaf e0 then Some (0, e0) else None)"

text \<open>The addresses at which the walk reads: one entry, and a second one if the first points to a table.\<close>

definition sv32_visits :: "pte_reader \<Rightarrow> u32 \<Rightarrow> nat \<Rightarrow> nat list" where
  "sv32_visits rd satp va =
    (let e1 = rd (sv32_root satp va) in
     sv32_root satp va # (if pte_valid e1 \<and> \<not> pte_is_leaf e1 then [sv32_next e1 va] else []))"

definition sv32_permits :: "privilege_level \<Rightarrow> bus_access_type \<Rightarrow> bool \<Rightarrow> bool \<Rightarrow> 'x::len word \<Rightarrow> bool" where
  "sv32_permits cp acc mxr sm e \<longleftrightarrow>
     (cp = user_mode \<longrightarrow> bit e 4) \<and> (cp = supervisor_mode \<and> bit e 4 \<longrightarrow> sm) \<and>
     (case acc of bus_read_access \<Rightarrow> bit e 1 \<or> mxr \<and> bit e 3
      | bus_write_access \<Rightarrow> bit e 2 | bus_instr_access \<Rightarrow> bit e 3) \<and>
     bit e 6 \<and> (acc = bus_write_access \<longrightarrow> bit e 7)"

text \<open>The physical address has 34 bits; a leaf at level 1 maps 4 MiB and must be aligned to it.\<close>

definition sv32_address :: "nat \<Rightarrow> nat \<Rightarrow> u32 \<Rightarrow> nat option" where
  "sv32_address va i e =
    (if i = 0 then Some (pte_ppn e * 2 ^ 12 + va mod 2 ^ 12)
     else if pte_ppn e mod 2 ^ 10 = 0 then Some (pte_ppn e div 2 ^ 10 * 2 ^ 22 + va mod 2 ^ 22)
     else None)"

definition sv32_translate ::
  "pte_reader \<Rightarrow> u32 \<Rightarrow> privilege_level \<Rightarrow> bus_access_type \<Rightarrow> bool \<Rightarrow> bool \<Rightarrow> nat \<Rightarrow> nat option" where
  "sv32_translate rd satp cp acc mxr sm va =
    (case sv32_leaf rd satp va of None \<Rightarrow> None
     | Some (i, e) \<Rightarrow> if sv32_permits cp acc mxr sm e then sv32_address va i e else None)"

lemma bit_byte: "i < 8 \<Longrightarrow> bit (ucast (w :: 'x::len word) :: u8) i \<longleftrightarrow> bit w i"
  by (simp add: bit_ucast_iff)

lemma pte_flags:
  fixes w :: u8
  shows "w AND MMU_PAGE_VALID = 0 \<longleftrightarrow> \<not> bit w 0" "w AND MMU_PAGE_READ = 0 \<longleftrightarrow> \<not> bit w 1"
    "w AND MMU_PAGE_WRITE = 0 \<longleftrightarrow> \<not> bit w 2" "w AND MMU_PAGE_USER = 0 \<longleftrightarrow> \<not> bit w 4"
    "w AND MMU_PAGE_ACCESSED = 0 \<longleftrightarrow> \<not> bit w 6" "w AND MMU_PAGE_DIRTY = 0 \<longleftrightarrow> \<not> bit w 7"
  using and_push_one_eq_0 [of 0 w] and_push_one_eq_0 [of 1 w] and_push_one_eq_0 [of 2 w] and_push_one_eq_0 [of 4 w]
    and_push_one_eq_0 [of 6 w] and_push_one_eq_0 [of 7 w]
  by (simp_all add: MMU_PAGE_VALID_def MMU_PAGE_READ_def MMU_PAGE_WRITE_def MMU_PAGE_USER_def
      MMU_PAGE_ACCESSED_def MMU_PAGE_DIRTY_def)

lemma leaf_flags: "(w :: u8) AND 0xA = 0 \<longleftrightarrow> \<not> bit w 1 \<and> \<not> bit w 3"
proof -
  have e: "(0xA :: u8) = push_bit 1 1 OR push_bit 3 1" by simp
  have "w AND 0xA = (w AND push_bit 1 1) OR (w AND push_bit 3 1)"
    unfolding e by (rule bit.conj_disj_distrib)
  moreover have "a OR b = 0 \<longleftrightarrow> a = 0 \<and> b = 0" for a b :: u8 by (simp add: or_eq_0_iff)
  ultimately show ?thesis using and_push_one_eq_0 [of 1 w] and_push_one_eq_0 [of 3 w] by simp
qed

lemma access_flags: "ACCESS_TYPE_TO_MMU acc AND (w :: u8) = 0 \<longleftrightarrow>
  \<not> bit w (case acc of bus_read_access \<Rightarrow> 1 | bus_write_access \<Rightarrow> 2 | bus_instr_access \<Rightarrow> 3)"
  using and_push_one_eq_0 [of 1 w] and_push_one_eq_0 [of 2 w] and_push_one_eq_0 [of 3 w]
  by (cases acc) (simp_all add: ACCESS_TYPE_TO_MMU_def and.commute)

text \<open>The bus gives the entries at the addresses that the walk visits, and nothing changes behind it.\<close>

definition mmu_reads :: "(32, 'p) bus_access_func \<Rightarrow> 'p \<Rightarrow> privilege_level \<Rightarrow> pte_reader \<Rightarrow> nat set \<Rightarrow> bool" where
  "mmu_reads bus p cp rd as \<longleftrightarrow> (\<forall>a \<in> as. \<forall>buf. length buf = 4 \<longrightarrow>
     bus p cp bus_read_access (of_nat a) buf 4 = Inr (p, rv_ok, bytes_of 4 (rd a)))"

lemma pte_check:
  fixes e :: "'x::len word"
  shows "((ucast e :: u8) AND MMU_PAGE_VALID = 0 \<or>
      (ucast e :: u8) AND MMU_PAGE_READ = 0 \<and> (ucast e :: u8) AND MMU_PAGE_WRITE \<noteq> 0) \<longleftrightarrow> \<not> pte_valid e"
    and "(ucast e :: u8) AND 0xA = 0 \<longleftrightarrow> \<not> pte_is_leaf e"
  by (auto simp: pte_flags leaf_flags bit_byte pte_valid_def pte_is_leaf_def)

lemma unat_and_mask: "unat (w AND mask n) = unat (w :: 'a::len word) mod 2 ^ n"
  by (simp only: bit_word_and_mask unat_take)

lemma vpn_nat:
  fixes w :: u32
  shows "drop_bit 12 w AND 0x3ff = of_nat (unat w div 2 ^ 12 mod 2 ^ 10)"
    and "drop_bit 22 w AND 0x3ff = of_nat (unat w div 2 ^ 22)"
    and "w AND 0x3FFFFF = of_nat (unat w mod 2 ^ 22)"
proof -
  have m: "(0x3ff :: u32) = mask 10" "(0x3FFFFF :: u32) = mask 22" by (simp_all add: mask_eq_exp_minus_1)
  have "unat w < 2 ^ LENGTH(32)" by (rule unsigned_less)
  then have "unat w div 2 ^ 22 < 2 ^ 10" by (simp add: less_mult_imp_div_less)
  then have e: "unat w div 2 ^ 22 mod 2 ^ 10 = unat w div 2 ^ 22" by (rule mod_less)
  show "drop_bit 12 w AND 0x3ff = of_nat (unat w div 2 ^ 12 mod 2 ^ 10)"
    unfolding m by (metis of_nat_unat unat_and_mask unat_drop ucast_id)
  show "drop_bit 22 w AND 0x3ff = of_nat (unat w div 2 ^ 22)"
    unfolding m by (metis of_nat_unat unat_and_mask unat_drop ucast_id e)
  show "w AND 0x3FFFFF = of_nat (unat w mod 2 ^ 22)"
    unfolding m by (metis of_nat_unat unat_and_mask ucast_id)
qed

lemma mmu_walk_sv32:
  assumes "mmu_reads bus p cp rd (set (sv32_visits rd satp (unat va)))"
  shows "mmu_walk bus cp (\<lambda>i::nat. if i = 0 then drop_bit 12 va AND 0x3ff else drop_bit 22 va AND 0x3ff) [1, 0] p
     ((satp AND 0x3FFFFF) * SV32_PAGE_SIZE) 0 = Inr (p, sv32_leaf rd satp (unat va))"
proof -
  let ?r = "sv32_root satp (unat va)"
  have a1: "(satp AND 0x3FFFFF) * SV32_PAGE_SIZE + (drop_bit 22 va AND 0x3ff) * SV32_PTESIZE = of_nat ?r"
    unfolding vpn_nat SV32_PAGE_SIZE_def SV32_PTESIZE_def sv32_root_def by simp
  have a0: "drop_bit 10 e * SV32_PAGE_SIZE + (drop_bit 12 va AND 0x3ff) * SV32_PTESIZE = of_nat (sv32_next e (unat va))" for e
  proof -
    have "drop_bit 10 e = of_nat (pte_ppn e)" unfolding pte_ppn_def by (metis of_nat_unat unat_drop ucast_id)
    then show ?thesis unfolding vpn_nat SV32_PAGE_SIZE_def SV32_PTESIZE_def sv32_next_def by simp
  qed
  have rd: "length buf = 4 \<Longrightarrow> bus p cp bus_read_access (of_nat ?r) buf 4 = Inr (p, rv_ok, bytes_of 4 (rd ?r))"
    "pte_valid (rd ?r) \<Longrightarrow> \<not> pte_is_leaf (rd ?r) \<Longrightarrow> length buf = 4 \<Longrightarrow>
      bus p cp bus_read_access (of_nat (sv32_next (rd ?r) (unat va))) buf 4 =
        Inr (p, rv_ok, bytes_of 4 (rd (sv32_next (rd ?r) (unat va))))" for buf
    using assms by (simp_all add: mmu_reads_def sv32_visits_def Let_def)
  have wb: "word_of_bytes (bytes_of 4 e) = e" for e :: u32 by simp
  show ?thesis
    unfolding sv32_leaf_def
    by (simp add: Let_def a1 rd wb pte_check a0)
qed

lemma disj_add: "a AND b = 0 \<Longrightarrow> a + b = (a :: 'a::len word) OR b"
  using bit_and_iff [of a b] by (intro disjunctive_add) auto

lemma sv32_address_0:
  fixes e va :: u32
  shows "push_bit 22 (drop_bit 22 (push_bit 2 e) AND 0xfff) OR push_bit 12 (drop_bit 12 (push_bit 2 e) AND 0x3ff) OR
     (va AND 0xfff) = of_nat (pte_ppn e * 2 ^ 12 + unat va mod 2 ^ 12)"
proof -
  have m: "(0xfff :: u32) = mask 12" "(0x3ff :: u32) = mask 10" by (simp_all add: mask_eq_exp_minus_1)
  have "of_nat (pte_ppn e * 2 ^ 12 + unat va mod 2 ^ 12) = push_bit 12 (drop_bit 10 e) + take_bit 12 va"
    unfolding pte_ppn_def unat_drop [symmetric] unat_take [symmetric]
    by (simp only: of_nat_add of_nat_mult of_nat_power of_nat_numeral of_nat_unat ucast_id push_bit_eq_mult)
  also have "\<dots> = push_bit 12 (drop_bit 10 e) OR take_bit 12 va"
    by (rule disj_add) (auto intro!: bit_word_eqI simp: bit_simps)
  also have "\<dots> = push_bit 22 (drop_bit 22 (push_bit 2 e) AND 0xfff) OR push_bit 12 (drop_bit 12 (push_bit 2 e) AND 0x3ff) OR
     (va AND 0xfff)"
  proof (rule bit_word_eqI)
    fix n
    show "bit (push_bit 12 (drop_bit 10 e) OR take_bit 12 va) n \<longleftrightarrow>
      bit (push_bit 22 (drop_bit 22 (push_bit 2 e) AND 0xfff) OR push_bit 12 (drop_bit 12 (push_bit 2 e) AND 0x3ff) OR
        (va AND 0xfff)) n"
    proof (cases "22 \<le> n")
      case True
      then obtain k where "n = 22 + k" by (auto dest: le_Suc_ex)
      then show ?thesis unfolding m by (auto simp: bit_simps)
    qed (auto simp: m bit_simps)
  qed
  finally show ?thesis ..
qed

lemma sv32_address_1:
  fixes e va :: u32
  shows "push_bit 22 (drop_bit 22 (push_bit 2 e) AND 0xfff) OR (va AND 0x3fffff) =
    of_nat (pte_ppn e div 2 ^ 10 * 2 ^ 22 + unat va mod 2 ^ 22)"
proof -
  have m: "(0xfff :: u32) = mask 12" "(0x3fffff :: u32) = mask 22" by (simp_all add: mask_eq_exp_minus_1)
  have d: "pte_ppn e div 2 ^ 10 = unat e div 2 ^ 20" by (simp add: pte_ppn_def div_mult2_eq [symmetric])
  have "of_nat (pte_ppn e div 2 ^ 10 * 2 ^ 22 + unat va mod 2 ^ 22) = push_bit 22 (drop_bit 20 e) + take_bit 22 va"
    unfolding d unat_drop [symmetric] unat_take [symmetric]
    by (simp only: of_nat_add of_nat_mult of_nat_power of_nat_numeral of_nat_unat ucast_id push_bit_eq_mult)
  also have "\<dots> = push_bit 22 (drop_bit 20 e) OR take_bit 22 va"
    by (rule disj_add) (auto intro!: bit_word_eqI simp: bit_simps)
  also have "\<dots> = push_bit 22 (drop_bit 22 (push_bit 2 e) AND 0xfff) OR (va AND 0x3fffff)"
    unfolding m by (rule bit_word_eqI) (auto simp: bit_simps)
  finally show ?thesis ..
qed

lemma superpage_aligned:
  fixes e :: u32
  shows "drop_bit 12 (push_bit 2 e) AND 0x3ff = 0 \<longleftrightarrow> pte_ppn e mod 2 ^ 10 = 0"
proof -
  have m: "(0x3ff :: u32) = mask 10" by (simp add: mask_eq_exp_minus_1)
  have "drop_bit 12 (push_bit 2 e) AND 0x3ff = take_bit 10 (drop_bit 10 e)"
    unfolding m by (rule bit_word_eqI) (auto simp: bit_simps)
  then show ?thesis
    unfolding pte_ppn_def unat_drop [symmetric] unat_take [symmetric] by (simp only: unat_eq_0)
qed

lemma ucast_of_nat_u64: "(ucast (of_nat n :: u32) :: u64) = of_nat (n mod 2 ^ 32)"
  by (simp add: unsigned_of_nat take_bit_eq_mod)

lemma leaf_flags_mxr:
  fixes e :: "'x::len word"
  assumes "k < 8"
  shows "bit (if acc = bus_read_access \<and> ACCESS_TYPE_TO_MMU bus_instr_access AND ucast e \<noteq> 0 \<and>
              mxr \<noteq> 0 then ucast e OR MMU_PAGE_READ else (ucast e :: u8)) k \<longleftrightarrow>
    bit e k \<or> k = 1 \<and> acc = bus_read_access \<and> bit e 3 \<and> mxr \<noteq> 0"
proof -
  have e: "MMU_PAGE_READ = push_bit 1 1" by (simp add: MMU_PAGE_READ_def)
  have "bit MMU_PAGE_READ k \<longleftrightarrow> k = 1" for k
    unfolding e by (simp only: bit_push_bit_iff bit_1_iff) auto
  then show ?thesis using assms by (auto simp: access_flags bit_byte bit_or_iff)
qed

lemma mmu_leaf_sv32:
  fixes e va :: u32
  assumes "i = 0 \<or> i = 1"
  shows "mmu_leaf cp va acc mxr sm i e =
    (if sv32_permits cp acc (mxr \<noteq> 0) (sm \<noteq> 0) e
     then map_option (\<lambda>n. of_nat (n mod 2 ^ 32)) (sv32_address (unat va) i e) else None)"
proof -
  define f where "f = (if acc = bus_read_access \<and> ACCESS_TYPE_TO_MMU bus_instr_access AND ucast e \<noteq> 0 \<and>
              mxr \<noteq> 0 then ucast e OR MMU_PAGE_READ else (ucast e :: u8))"
  have fb: "k < 8 \<Longrightarrow> bit f k \<longleftrightarrow> bit e k \<or> k = 1 \<and> acc = bus_read_access \<and> bit e 3 \<and> mxr \<noteq> 0" for k
    unfolding f_def by (rule leaf_flags_mxr)
  define al where "al \<longleftrightarrow> pte_ppn e mod 2 ^ 10 = 0"
  define n0 n1 where n: "n0 = pte_ppn e * 2 ^ 12 + unat va mod 2 ^ 12" "n1 = pte_ppn e div 2 ^ 10 * 2 ^ 22 + unat va mod 2 ^ 22"
  have adr: "sv32_address (unat va) i e = (if i = 0 then Some n0 else if al then Some n1 else None)"
    by (simp only: sv32_address_def n al_def)
  show ?thesis
    unfolding mmu_leaf_def Let_def unfolding f_def [symmetric]
    unfolding SV32_PTESHIFT_def sv32_address_0 sv32_address_1 superpage_aligned
      access_flags pte_flags adr n [symmetric] al_def [symmetric] sv32_permits_def
    using assms by (cases acc) (simp_all add: fb bit_byte ucast_of_nat_u64)
qed

lemma sv32_leaf_level: "sv32_leaf rd satp va = Some (i, e) \<Longrightarrow> i = 0 \<or> i = 1"
  by (auto simp: sv32_leaf_def Let_def split: if_splits)

lemma mmu_mode_32: "(ucast (extractxlen (w :: u32) 31 1) :: u8) = 0 \<longleftrightarrow> \<not> bit w 31"
  unfolding extractxlen_1 by simp

lemma mmu_sv32_spec:
  fixes mmu :: "32 mmu_td"
  assumes "cp \<noteq> machine_mode \<Longrightarrow> bit (satp_reg mmu) 31 \<Longrightarrow> mmu_reads bus p cp rd (set (sv32_visits rd (satp_reg mmu) (unat va)))"
  shows "mmu_virt_to_phys bus mmu p cp va acc mxr sm = Inr
    (if cp = machine_mode \<or> \<not> bit (satp_reg mmu) 31 then (mmu, p, mmu_ok, ucast va)
     else case sv32_translate rd (satp_reg mmu) cp acc (mxr \<noteq> 0) (sm \<noteq> 0) (unat va) of
       None \<Rightarrow> (mmu, p, mmu_page_fault, 0)
     | Some n \<Rightarrow> (if acc = bus_instr_access then mmu\<lparr>last_phys_pc := of_nat n, last_virt_pc := va\<rparr> else mmu,
         p, mmu_ok, of_nat (n mod 2 ^ 32)))"
proof -
  have b: "MMU_SATP_MODE_BIT TYPE(32) = 31" "MMU_SATP_MODE_NR_BITS TYPE(32) = 1"
    by (simp_all add: MMU_SATP_MODE_BIT_def MMU_SATP_MODE_NR_BITS_def)
  have pc: "(ucast (of_nat (n mod 2 ^ 32) :: u64) :: u32) = of_nat n" for n
    by (simp only: ucast_of_nat_u64 [symmetric]) (simp only: ucast_ucast_take_bit, simp add: take_bit_word_eq_self)
  show ?thesis
  proof (cases "cp = machine_mode \<or> \<not> bit (satp_reg mmu) 31")
    case True
    then show ?thesis unfolding mmu_virt_to_phys_def Let_def b mmu_mode_32 by simp
  next
    case on: False
    then have reads: "mmu_reads bus p cp rd (set (sv32_visits rd (satp_reg mmu) (unat va)))" using assms by blast
    show ?thesis
    proof (cases "sv32_leaf rd (satp_reg mmu) (unat va)")
      case None
      then show ?thesis
        unfolding mmu_virt_to_phys_def Let_def b mmu_mode_32 mmu_walk_sv32 [OF reads] sv32_translate_def by simp
    next
      case (Some r)
      then obtain i e where r: "sv32_leaf rd (satp_reg mmu) (unat va) = Some (i, e)" by (cases r) auto
      show ?thesis
        unfolding mmu_virt_to_phys_def Let_def b mmu_mode_32 mmu_walk_sv32 [OF reads] sv32_translate_def r
          mmu_leaf_sv32 [OF sv32_leaf_level [OF r]] res_bind_simps prod.case option.case
        by (cases "sv32_address (unat va) i e") (simp_all only: pc option.map option.case if_cancel split: if_split, simp_all)
    qed
  qed
qed

section \<open>Any bus\<close>

lemma mmu_leaf_permits:
  assumes "mmu_leaf cp va acc mxr sm i e = Some pa"
  shows "sv32_permits cp acc (mxr \<noteq> 0) (sm \<noteq> 0) e"
proof -
  define f where "f = (if acc = bus_read_access \<and> ACCESS_TYPE_TO_MMU bus_instr_access AND ucast e \<noteq> 0 \<and>
              mxr \<noteq> 0 then ucast e OR MMU_PAGE_READ else (ucast e :: u8))"
  have fb: "k < 8 \<Longrightarrow> bit f k \<longleftrightarrow> bit e k \<or> k = 1 \<and> acc = bus_read_access \<and> bit e 3 \<and> mxr \<noteq> 0" for k
    unfolding f_def by (rule leaf_flags_mxr)
  show ?thesis
    using assms unfolding mmu_leaf_def Let_def f_def [symmetric]
    unfolding access_flags pte_flags sv32_permits_def
    by (cases acc) (auto simp: fb bit_byte split: if_splits)
qed

lemma mmu_walk_leaf:
  "mmu_walk bus cp vpn levels p a pte = Inr (p', Some (i, e)) \<Longrightarrow>
    i \<in> set levels \<and> pte_valid e \<and> pte_is_leaf e"
  by (induction levels arbitrary: p a pte)
    (auto simp: Let_def pte_check res_bind_eq_Inr_iff simp del: bytes_of_word_of_bytes split: if_splits)

text \<open>Whether translation is switched on, and the walk that it then makes.\<close>

definition mmu_active :: "'x::len mmu_td \<Rightarrow> privilege_level \<Rightarrow> bool" where
  "mmu_active mmu cp \<longleftrightarrow> cp \<noteq> machine_mode \<and>
     (ucast (extractxlen (satp_reg mmu) (MMU_SATP_MODE_BIT TYPE('x)) (MMU_SATP_MODE_NR_BITS TYPE('x))) :: u8) \<noteq> 0"

definition mmu_lookup ::
  "('x::len, 'p) bus_access_func \<Rightarrow> 'x mmu_td \<Rightarrow> 'p \<Rightarrow> privilege_level \<Rightarrow> 'x word \<Rightarrow> ('p \<times> (nat \<times> 'x word) option) res" where
  "mmu_lookup bus mmu p cp va =
     mmu_walk bus cp (\<lambda>i::nat. if i = 0 then drop_bit 12 va AND 0x3ff else drop_bit 22 va AND 0x3ff) [1, 0] p
       ((satp_reg mmu AND 0x3FFFFF) * SV32_PAGE_SIZE) 0"

lemma mmu_virt_to_phys_cases:
  "mmu_virt_to_phys bus mmu p cp va acc mxr sm =
    (if \<not> mmu_active mmu cp then Inr (mmu, p, mmu_ok, ucast va)
     else res_bind (mmu_lookup bus mmu p cp va) (\<lambda>(p', found).
       case found of None \<Rightarrow> Inr (mmu, p', mmu_page_fault, 0)
       | Some (i, e) \<Rightarrow> (case mmu_leaf cp va acc mxr sm i e of None \<Rightarrow> Inr (mmu, p', mmu_page_fault, 0)
          | Some pa \<Rightarrow> Inr (if acc = bus_instr_access then mmu\<lparr>last_phys_pc := ucast pa, last_virt_pc := va\<rparr> else mmu,
              p', mmu_ok, pa))))"
  unfolding mmu_virt_to_phys_def Let_def mmu_active_def mmu_lookup_def by simp

lemma mmu_leaf_offset:
  assumes "mmu_leaf cp va acc mxr sm i e = Some pa" "12 \<le> LENGTH('x)"
  shows "take_bit 12 pa = take_bit 12 (ucast (va :: 'x::len word))"
proof -
  have m: "(0xfff :: 'x word) = mask 12" "(0x3fffff :: 'x word) = mask 22" by (simp_all add: mask_eq_exp_minus_1)
  define ppn0 where "ppn0 = drop_bit 12 (push_bit SV32_PTESHIFT e) AND 0x3ff"
  define ppn1 where "ppn1 = drop_bit 22 (push_bit SV32_PTESHIFT e) AND 0xfff"
  have "pa = ucast (if i = 0 then push_bit 22 ppn1 OR push_bit 12 ppn0 OR (va AND 0xfff)
      else push_bit 22 ppn1 OR (va AND 0x3fffff))"
    using assms(1) unfolding mmu_leaf_def Let_def ppn0_def [symmetric] ppn1_def [symmetric]
    by (auto simp only: option.inject option.distinct split: if_splits)
  then show ?thesis
    unfolding m using assms(2) by (auto intro!: bit_word_eqI simp: bit_simps)
qed

lemma mmu_permission_spec:
  fixes mmu :: "'x::len mmu_td"
  assumes "mmu_virt_to_phys bus mmu p cp va acc mxr sm = Inr (mmu', p', r, pa)" "xlen_ok TYPE('x)"
  shows "satp_reg mmu' = satp_reg mmu \<and>
    (\<not> mmu_active mmu cp \<longrightarrow> mmu' = mmu \<and> p' = p \<and> r = mmu_ok \<and> pa = ucast va) \<and>
    (r = mmu_page_fault \<longrightarrow> mmu' = mmu) \<and>
    (mmu_active mmu cp \<and> r = mmu_ok \<longrightarrow>
      (\<exists>i e. mmu_lookup bus mmu p cp va = Inr (p', Some (i, e)) \<and> i \<in> {0, 1} \<and> pte_valid e \<and> pte_is_leaf e \<and>
        sv32_permits cp acc (mxr \<noteq> 0) (sm \<noteq> 0) e \<and> take_bit 12 pa = take_bit 12 (ucast va)))"
proof (cases "mmu_active mmu cp")
  case False
  then show ?thesis using assms(1) by (auto simp: mmu_virt_to_phys_cases)
next
  case True
  then obtain p1 found where l: "mmu_lookup bus mmu p cp va = Inr (p1, found)"
    using assms(1) by (auto simp: mmu_virt_to_phys_cases res_bind_eq_Inr_iff)
  show ?thesis
  proof (cases found)
    case None
    then show ?thesis using assms(1) True l by (auto simp: mmu_virt_to_phys_cases)
  next
    case (Some ie)
    then obtain i e where f: "found = Some (i, e)" by (cases ie) auto
    then have w: "i \<in> {0, 1} \<and> pte_valid e \<and> pte_is_leaf e"
      using mmu_walk_leaf [OF l [unfolded mmu_lookup_def f]] by auto
    show ?thesis
    proof (cases "mmu_leaf cp va acc mxr sm i e")
      case None
      then show ?thesis using assms(1) True l f by (auto simp: mmu_virt_to_phys_cases)
    next
      case (Some pa')
      then show ?thesis
        using assms(1) True l f w mmu_leaf_permits [OF Some] mmu_leaf_offset [OF Some] xlen_ok_ge [OF assms(2)]
        by (simp add: mmu_virt_to_phys_cases) auto
    qed
  qed
qed

section \<open>Properties\<close>

text \<open>A bus whose every word is the same superpage entry, for the examples.\<close>

definition mmu_example_bus :: "(32, unit) bus_access_func" where
  "mmu_example_bus p cp acc a buf n = Inr (p, rv_ok, bytes_of 4 (0x200000CF :: u32))"

lemma mmu_example:
  "mmu_reads mmu_example_bus () supervisor_mode (\<lambda>_. 0x200000CF) as"
  "sv32_translate (\<lambda>_. 0x200000CF) 0x80000001 supervisor_mode bus_read_access False False 0x400123 = Some 0x80000123"
  by (simp_all add: mmu_reads_def mmu_example_bus_def sv32_translate_def sv32_leaf_def pte_valid_def
      pte_is_leaf_def sv32_permits_def sv32_address_def pte_ppn_def)

text \<open>
  For any bus: translation never changes the page table root; it is the identity without a
  memory access when switched off; and when switched on, an address is returned only if the walk found
  a valid leaf entry that permits the access (user pages only for user mode or with SUM, read,
  write or execute permission, accessed and dirty bits), with the page offset unchanged.
\<close>

theorem mmu_permission_safety:
  fixes mmu :: "'x::len mmu_td"
  assumes "mmu_virt_to_phys bus mmu p cp va acc mxr sm = Inr (mmu', p', r, pa)" "xlen_ok TYPE('x)"
  shows "satp_reg mmu' = satp_reg mmu \<and>
    (\<not> mmu_active mmu cp \<longrightarrow> mmu' = mmu \<and> p' = p \<and> r = mmu_ok \<and> pa = ucast va) \<and>
    (r = mmu_page_fault \<longrightarrow> mmu' = mmu) \<and>
    (mmu_active mmu cp \<and> r = mmu_ok \<longrightarrow>
      (\<exists>i e. mmu_lookup bus mmu p cp va = Inr (p', Some (i, e)) \<and> i \<in> {0, 1} \<and> pte_valid e \<and> pte_is_leaf e \<and>
        sv32_permits cp acc (mxr \<noteq> 0) (sm \<noteq> 0) e \<and> take_bit 12 pa = take_bit 12 (ucast va)))"
  by (rule mmu_permission_spec [OF assms])

theorem mmu_permission_safety_witness:
  "\<exists>i e. mmu_lookup mmu_example_bus (mmu_init\<lparr>satp_reg := 0x80000001\<rparr>) () supervisor_mode 0x400123 =
      Inr ((), Some (i, e)) \<and> pte_valid e \<and> sv32_permits supervisor_mode bus_read_access False False e"
proof -
  have a: "mmu_active (mmu_init\<lparr>satp_reg := 0x80000001\<rparr> :: 32 mmu_td) supervisor_mode"
    using mmu_mode_32 [of "0x80000001"] by (simp add: mmu_active_def MMU_SATP_MODE_BIT_def MMU_SATP_MODE_NR_BITS_def)
  have "mmu_virt_to_phys mmu_example_bus (mmu_init\<lparr>satp_reg := 0x80000001\<rparr>) () supervisor_mode 0x400123
      bus_read_access 0 0 = Inr (mmu_init\<lparr>satp_reg := 0x80000001\<rparr>, (), mmu_ok, 0x80000123)"
    by (subst mmu_sv32_spec [OF mmu_example(1)]) (simp add: mmu_example(2))
  from mmu_permission_safety [OF this] a show ?thesis by auto
qed

end
