(* ===== verification/Clint.thy ===== *)
theory Clint
  imports RvTypes
begin

text \<open>
  The core-local interruptor, \<open>src/peripherals/clint/clint.c\<close> and \<open>clint.h\<close>: three 64-bit
  registers (software interrupt, timer compare, timer) that the bus reaches byte-wise, and the
  timer step. The registers are kept as the object representation of \<open>regs[3]\<close>, since the bus
  access copies bytes in and out of it.
\<close>

section \<open>State and operations\<close>

datatype clint_regs = clint_msip | clint_mtimecmp | clint_mtime

primrec clint_reg_code :: "clint_regs \<Rightarrow> nat" where
  "clint_reg_code clint_msip = 0"
| "clint_reg_code clint_mtimecmp = 1"
| "clint_reg_code clint_mtime = 2"

record clint_td =
  clint_image :: "u8 list"

definition CLINT_REG_SIZE_BYTES :: nat where "CLINT_REG_SIZE_BYTES = 8"
definition CLINT_MSIP_OFFS :: "'x::len word" where "CLINT_MSIP_OFFS = 0x0000"
definition CLINT_MTIMECMP_OFFS :: "'x::len word" where "CLINT_MTIMECMP_OFFS = 0x4000"
definition CLINT_MTIME_OFFS :: "'x::len word" where "CLINT_MTIME_OFFS = 0xBFF8"

definition clint_zero :: clint_td where
  "clint_zero = \<lparr>clint_image = replicate 24 0\<rparr>"

definition clint_get :: "clint_td \<Rightarrow> clint_regs \<Rightarrow> u64 res" where
  "clint_get c r = obj_read 8 (clint_image c) (clint_reg_code r * 8)"

definition clint_set :: "clint_td \<Rightarrow> clint_regs \<Rightarrow> u64 \<Rightarrow> clint_td res" where
  "clint_set c r v =
     res_bind (obj_write 8 (clint_image c) (clint_reg_code r * 8) v) (\<lambda>img. Inr (c\<lparr>clint_image := img\<rparr>))"

text \<open>\<open>None\<close> is -1: no register at the address.\<close>

definition get_u8_arr_index_offs :: "'x::len word \<Rightarrow> nat option" where
  "get_u8_arr_index_offs address =
    (if address < CLINT_MSIP_OFFS + of_nat CLINT_REG_SIZE_BYTES then Some (0 * CLINT_REG_SIZE_BYTES)
     else if ADDR_WITHIN address CLINT_MTIMECMP_OFFS (of_nat CLINT_REG_SIZE_BYTES) then Some (1 * CLINT_REG_SIZE_BYTES)
     else if ADDR_WITHIN address CLINT_MTIME_OFFS (of_nat CLINT_REG_SIZE_BYTES) then Some (2 * CLINT_REG_SIZE_BYTES)
     else None)"

definition clint_bus_access :: "('x::len, clint_td) bus_access_func" where
  "clint_bus_access clint priv_level access_type address value len =
    (case get_u8_arr_index_offs address of
       None \<Rightarrow> Inr (clint, rv_ok, value)
     | Some arr_index_offs \<Rightarrow>
         let tmp_addr = unat (address AND 0x7) + arr_index_offs in
         if access_type = bus_write_access then
           res_bind (obj_copy (clint_image clint) tmp_addr value 0 (unat len)) (\<lambda>img.
             Inr (clint\<lparr>clint_image := img\<rparr>, rv_ok, value))
         else
           res_bind (obj_copy value 0 (clint_image clint) tmp_addr (unat len)) (\<lambda>value.
             Inr (clint, rv_ok, value)))"

text \<open>The static counter's test \<open>i % 1 == 0\<close> always holds. The results are \<open>msi\<close> and \<open>mti\<close>.\<close>

definition clint_update :: "clint_td \<Rightarrow> (clint_td \<times> u8 \<times> u8) res" where
  "clint_update clint =
     res_bind (clint_get clint clint_mtime) (\<lambda>t.
     res_bind (clint_set clint clint_mtime (t + 1)) (\<lambda>clint.
     res_bind (clint_get clint clint_mtime) (\<lambda>t.
     res_bind (clint_get clint clint_mtimecmp) (\<lambda>cmp.
     res_bind (clint_get clint clint_msip) (\<lambda>sip.
       Inr (clint, ucast (sip AND 0x1), of_bool (t \<ge> cmp)))))))"

end
