(* ===== verification/Plic.thy ===== *)
theory Plic
  imports RvTypes
begin

text \<open>
  The platform-level interrupt controller, \<open>src/peripherals/plic/plic.c\<close> and \<open>plic.h\<close>: interrupt
  priorities, pending and enable bits, the selection of the interrupt to signal, and the claim and
  complete protocol.

  The bus reaches the registers through byte pointers into the structure, so the model keeps the
  object representation of \<open>plic_td\<close>: \<open>priority[256]\<close>, \<open>pending_bits[8]\<close>, \<open>enable_bits[8]\<close>,
  \<open>priority_threshold\<close>, \<open>claim_complete\<close> and \<open>claimed_bits[8]\<close>, 282 words of four bytes. An index of one
  of the arrays is checked against that array; a byte copy against the structure.
\<close>

section \<open>State\<close>

record plic_td =
  plic_image :: "u8 list"

datatype plic_field = plic_priority | plic_pending_bits | plic_enable_bits | plic_priority_threshold
  | plic_claim_complete | plic_claimed_bits

text \<open>First word and number of words of a member.\<close>

primrec plic_offs :: "plic_field \<Rightarrow> nat" where
  "plic_offs plic_priority = 0"
| "plic_offs plic_pending_bits = 256"
| "plic_offs plic_enable_bits = 264"
| "plic_offs plic_priority_threshold = 272"
| "plic_offs plic_claim_complete = 273"
| "plic_offs plic_claimed_bits = 274"

primrec plic_count :: "plic_field \<Rightarrow> nat" where
  "plic_count plic_priority = 256"
| "plic_count plic_pending_bits = 8"
| "plic_count plic_enable_bits = 8"
| "plic_count plic_priority_threshold = 1"
| "plic_count plic_claim_complete = 1"
| "plic_count plic_claimed_bits = 8"

definition plic_zero :: plic_td where
  "plic_zero = \<lparr>plic_image = replicate 1128 0\<rparr>"

definition plic_get :: "plic_td \<Rightarrow> plic_field \<Rightarrow> nat \<Rightarrow> u32 res" where
  "plic_get plic f i =
    (if i < plic_count f then obj_read 4 (plic_image plic) (4 * (plic_offs f + i)) else Inl OutOfBounds)"

definition plic_set :: "plic_td \<Rightarrow> plic_field \<Rightarrow> nat \<Rightarrow> u32 \<Rightarrow> plic_td res" where
  "plic_set plic f i v =
    (if i < plic_count f then
       res_bind (obj_write 4 (plic_image plic) (4 * (plic_offs f + i)) v) (\<lambda>img. Inr (plic\<lparr>plic_image := img\<rparr>))
     else Inl OutOfBounds)"

definition plic_assign_bit :: "plic_td \<Rightarrow> plic_field \<Rightarrow> nat \<Rightarrow> nat \<Rightarrow> u32 \<Rightarrow> plic_td res" where
  "plic_assign_bit plic f i nbit v =
     res_bind (plic_get plic f i) (\<lambda>w. plic_set plic f i (assign_u32_bit w nbit v))"

section \<open>Register addresses\<close>

definition PLIC_PRIORITY_ADDR_OFFS :: "'x::len word" where "PLIC_PRIORITY_ADDR_OFFS = 0x0"
definition PLIC_PRIORITY_SIZE_BYTES :: "'x::len word" where "PLIC_PRIORITY_SIZE_BYTES = 0x400"
definition PLIC_PENDING_ADDR_OFFS :: "'x::len word" where "PLIC_PENDING_ADDR_OFFS = 0x1000"
definition PLIC_PENDING_SIZE_BYTES :: "'x::len word" where "PLIC_PENDING_SIZE_BYTES = 0x20"
definition PLIC_IRQ_ENABLE_ADDR_OFFS :: "'x::len word" where "PLIC_IRQ_ENABLE_ADDR_OFFS = 0x2000"
definition PLIC_IRQ_ENABLE_SIZE_BYTES :: "'x::len word" where "PLIC_IRQ_ENABLE_SIZE_BYTES = 0x20"
definition PLIC_PRIO_THRESH_ADDR_OFFS :: "'x::len word" where "PLIC_PRIO_THRESH_ADDR_OFFS = 0x200000"
definition PLIC_PRIO_THRESH_SIZE_BYTES :: "'x::len word" where "PLIC_PRIO_THRESH_SIZE_BYTES = 0x4"
definition PLIC_PRIO_CLAIM_ADDR_OFFS :: "'x::len word" where "PLIC_PRIO_CLAIM_ADDR_OFFS = 0x200004"
definition PLIC_PRIO_CLAIM_SIZE_BYTES :: "'x::len word" where "PLIC_PRIO_CLAIM_SIZE_BYTES = 0x4"

lemmas plic_addresses = PLIC_PRIORITY_ADDR_OFFS_def PLIC_PRIORITY_SIZE_BYTES_def PLIC_PENDING_ADDR_OFFS_def
  PLIC_PENDING_SIZE_BYTES_def PLIC_IRQ_ENABLE_ADDR_OFFS_def PLIC_IRQ_ENABLE_SIZE_BYTES_def
  PLIC_PRIO_THRESH_ADDR_OFFS_def PLIC_PRIO_THRESH_SIZE_BYTES_def PLIC_PRIO_CLAIM_ADDR_OFFS_def
  PLIC_PRIO_CLAIM_SIZE_BYTES_def

text \<open>The pointer as an offset into the structure, with the claim flag; \<open>None\<close> is \<open>NULL\<close>.\<close>

definition get_u8_reg_ptr :: "'x::len word \<Rightarrow> (nat \<times> bool) option" where
  "get_u8_reg_ptr address =
    (if address < PLIC_PRIORITY_SIZE_BYTES then
       let tmp_address = address - PLIC_PRIORITY_ADDR_OFFS in
       if tmp_address \<ge> 0x4 then Some (4 * plic_offs plic_priority + unat tmp_address, False) else None
     else if ADDR_WITHIN address PLIC_PENDING_ADDR_OFFS PLIC_PENDING_SIZE_BYTES then
       Some (4 * plic_offs plic_pending_bits + unat (address - PLIC_PENDING_ADDR_OFFS), False)
     else if ADDR_WITHIN address PLIC_IRQ_ENABLE_ADDR_OFFS PLIC_IRQ_ENABLE_SIZE_BYTES then
       Some (4 * plic_offs plic_enable_bits + unat (address - PLIC_IRQ_ENABLE_ADDR_OFFS), False)
     else if ADDR_WITHIN address PLIC_PRIO_THRESH_ADDR_OFFS PLIC_PRIO_THRESH_SIZE_BYTES then
       Some (4 * plic_offs plic_priority_threshold + unat (address - PLIC_PRIO_THRESH_ADDR_OFFS), False)
     else if ADDR_WITHIN address PLIC_PRIO_CLAIM_ADDR_OFFS PLIC_PRIO_CLAIM_SIZE_BYTES then
       Some (4 * plic_offs plic_claim_complete + unat (address - PLIC_PRIO_CLAIM_ADDR_OFFS), True)
     else None)"

section \<open>Operations\<close>

text \<open>The loop of the sanity check over the priorities, then the threshold.\<close>

primrec plic_mask_priorities :: "nat list \<Rightarrow> plic_td \<Rightarrow> plic_td res" where
  "plic_mask_priorities [] plic = Inr plic"
| "plic_mask_priorities (i # is) plic =
     res_bind (plic_get plic plic_priority i) (\<lambda>w.
     res_bind (plic_set plic plic_priority i (w AND 0x7)) (plic_mask_priorities is))"

definition plic_check_sanity :: "plic_td \<Rightarrow> plic_td res" where
  "plic_check_sanity plic =
     res_bind (plic_mask_priorities [0..<256] plic) (\<lambda>plic.
     res_bind (plic_get plic plic_priority_threshold 0) (\<lambda>w.
       plic_set plic plic_priority_threshold 0 (w AND 0x7)))"

definition plic_update_pending :: "plic_td \<Rightarrow> u32 \<Rightarrow> u8 \<Rightarrow> plic_td res" where
  "plic_update_pending plic interrupt_id pending =
     plic_assign_bit plic plic_pending_bits (unat (interrupt_id div 32)) (unat (interrupt_id mod 32)) (ucast pending)"

text \<open>The local variables of the selection: id counter, best id so far, its priority.\<close>

type_synonym plic_scan = "u32 \<times> u32 \<times> u8"

primrec plic_scan_bits :: "nat \<Rightarrow> nat list \<Rightarrow> plic_td \<Rightarrow> plic_scan \<Rightarrow> (plic_td \<times> plic_scan) res" where
  "plic_scan_bits i [] plic sc = Inr (plic, sc)"
| "plic_scan_bits i (j # js) plic sc =
    (case sc of (irq_id_count, irq_to_trigger, highest_prio) \<Rightarrow>
     res_bind (plic_get plic plic_enable_bits i) (\<lambda>en.
     res_bind (plic_get plic plic_pending_bits i) (\<lambda>pend.
     res_bind
       (if CHECK_BIT en j \<and> CHECK_BIT pend j then
          res_bind (plic_get plic plic_priority (unat irq_id_count)) (\<lambda>prio.
          res_bind (plic_get plic plic_priority_threshold 0) (\<lambda>thr.
            if prio \<ge> thr then
              res_bind (plic_get plic plic_claimed_bits i) (\<lambda>cl.
                if CHECK_BIT cl j then
                  res_bind (plic_assign_bit plic plic_pending_bits i j 0) (\<lambda>plic.
                    Inr (plic, irq_to_trigger, highest_prio))
                else if prio \<ge> ucast highest_prio then Inr (plic, irq_id_count, ucast prio)
                else Inr (plic, irq_to_trigger, highest_prio))
            else Inr (plic, irq_to_trigger, highest_prio)))
        else Inr (plic, irq_to_trigger, highest_prio))
       (\<lambda>(plic, irq_to_trigger, highest_prio).
         plic_scan_bits i js plic (irq_id_count + 1, irq_to_trigger, highest_prio)))))"

primrec plic_scan_words :: "nat list \<Rightarrow> plic_td \<Rightarrow> plic_scan \<Rightarrow> (plic_td \<times> plic_scan) res" where
  "plic_scan_words [] plic sc = Inr (plic, sc)"
| "plic_scan_words (i # is) plic sc =
     res_bind (plic_get plic plic_enable_bits i) (\<lambda>en.
     res_bind (plic_get plic plic_pending_bits i) (\<lambda>pend.
       if en = 0 \<or> pend = 0 then plic_scan_words is plic sc
       else res_bind (plic_scan_bits i [0..<32] plic sc) (\<lambda>(plic, sc). plic_scan_words is plic sc)))"

definition plic_update :: "plic_td \<Rightarrow> (plic_td \<times> u8) res" where
  "plic_update plic =
     res_bind (plic_scan_words [0..<8] plic (0, 0, 0)) (\<lambda>(plic, _, irq_to_trigger, _).
       if irq_to_trigger > 0 then
         res_bind (plic_set plic plic_claim_complete 0 irq_to_trigger) (\<lambda>plic. Inr (plic, 1))
       else res_bind (plic_set plic plic_claim_complete 0 0) (\<lambda>plic. Inr (plic, 0)))"

definition plic_bus_access :: "('x::len, plic_td) bus_access_func" where
  "plic_bus_access plic priv_level access_type address value len =
    (case get_u8_reg_ptr address of
       None \<Rightarrow> Inr (plic, rv_ok, value)
     | Some (u8_ptr, is_claim_complete) \<Rightarrow>
         if access_type = bus_write_access then
           res_bind (obj_copy (plic_image plic) u8_ptr value 0 (unat len)) (\<lambda>img.
           res_bind (obj_read 4 value 0) (\<lambda>tmp_val :: u32.
           let plic = plic\<lparr>plic_image := img\<rparr> in
           res_bind
             (if is_claim_complete then
                plic_assign_bit plic plic_claimed_bits (unat (tmp_val div 32)) (unat (tmp_val mod 32)) 0
              else Inr plic)
             (\<lambda>plic. res_bind (plic_check_sanity plic) (\<lambda>plic. Inr (plic, rv_ok, value)))))
         else
           res_bind (obj_copy value 0 (plic_image plic) u8_ptr (unat len)) (\<lambda>value.
           res_bind (obj_read 4 (plic_image plic) u8_ptr) (\<lambda>tmp_val :: u32.
           res_bind
             (if is_claim_complete then
                res_bind (plic_get plic plic_pending_bits (unat (tmp_val div 32))) (\<lambda>pend.
                  if CHECK_BIT pend (unat (tmp_val mod 32)) then
                    plic_assign_bit plic plic_claimed_bits (unat (tmp_val div 32)) (unat (tmp_val mod 32)) 1
                  else Inr plic)
              else Inr plic)
             (\<lambda>plic. Inr (plic, rv_ok, value)))))"

end
