(* ===== verification/PlicSpec.thy ===== *)
theory PlicSpec
  imports Plic
begin

text \<open>
  What the interrupt controller promises, over its registers as words: the invariant of its structure, which
  interrupt is signalled, and the protocol of claim and completion.
\<close>

section \<open>Registers\<close>

definition plic_slot :: "plic_field \<Rightarrow> nat \<Rightarrow> nat" where
  "plic_slot f i = plic_offs f + i"

definition plic_word :: "plic_td \<Rightarrow> plic_field \<Rightarrow> nat \<Rightarrow> u32" where
  "plic_word p f i = word_of_bytes (take 4 (drop (4 * plic_slot f i) (plic_image p)))"

definition plic_wf :: "plic_td \<Rightarrow> bool" where
  "plic_wf p \<longleftrightarrow> length (plic_image p) = 1128"

text \<open>Priorities and threshold have three bits, which \<open>plic_check_sanity\<close> enforces.\<close>

definition plic_ok :: "plic_td \<Rightarrow> bool" where
  "plic_ok p \<longleftrightarrow> plic_wf p \<and> (\<forall>i < 256. plic_word p plic_priority i \<le> 7) \<and> plic_word p plic_priority_threshold 0 \<le> 7"

lemma plic_slot_less: "i < plic_count f \<Longrightarrow> plic_slot f i < 282"
  by (cases f) (simp_all add: plic_slot_def)

lemma plic_slot_inj: "i < plic_count f \<Longrightarrow> j < plic_count g \<Longrightarrow> plic_slot f i = plic_slot g j \<longleftrightarrow> f = g \<and> i = j"
  by (cases f; cases g) (auto simp: plic_slot_def)

lemma take_drop_splice:
  assumes "length ys = 4" "4 * m + 4 \<le> length xs" "4 * k + 4 \<le> length xs"
  shows "take 4 (drop (4 * k) (splice xs (4 * m) ys)) = (if k = m then ys else take 4 (drop (4 * k) xs))"
proof (rule nth_equalityI)
  show "length (take 4 (drop (4 * k) (splice xs (4 * m) ys))) = length (if k = m then ys else take 4 (drop (4 * k) xs))"
    using assms by simp
next
  fix j assume "j < length (take 4 (drop (4 * k) (splice xs (4 * m) ys)))"
  then have j: "j < 4" "4 * k + j < length xs" using assms by auto
  then have e: "take 4 (drop (4 * k) (splice xs (4 * m) ys)) ! j = splice xs (4 * m) ys ! (4 * k + j)" using assms by simp
  have "4 * m \<le> 4 * k + j \<and> 4 * k + j < 4 * m + 4 \<longleftrightarrow> k = m" using j by linarith
  then show "take 4 (drop (4 * k) (splice xs (4 * m) ys)) ! j = (if k = m then ys else take 4 (drop (4 * k) xs)) ! j"
    unfolding e using nth_splice [of "4 * m" ys xs "4 * k + j"] assms j by auto
qed

lemma plic_get_ok:
  assumes "plic_wf p" "i < plic_count f"
  shows "plic_get p f i = Inr (plic_word p f i)"
  using plic_slot_less [OF assms(2)] assms by (simp add: plic_get_def plic_wf_def plic_word_def plic_slot_def)

lemma plic_set_ok:
  assumes "plic_wf p" "i < plic_count f"
  shows "\<exists>p'. plic_set p f i v = Inr p' \<and> plic_wf p' \<and>
    (\<forall>g k. k < plic_count g \<longrightarrow> plic_word p' g k = (if g = f \<and> k = i then v else plic_word p g k))"
proof -
  let ?img = "splice (plic_image p) (4 * plic_slot f i) (bytes_of 4 v)"
  have len: "length (plic_image p) = 1128" "4 * plic_slot f i + 4 \<le> 1128"
    using assms(1) plic_slot_less [OF assms(2)] by (simp_all add: plic_wf_def)
  have "plic_word (p\<lparr>plic_image := ?img\<rparr>) g k = (if g = f \<and> k = i then v else plic_word p g k)" if "k < plic_count g" for g k
  proof -
    have s: "4 * plic_slot g k + 4 \<le> 1128" using plic_slot_less [OF that] by simp
    show ?thesis
      unfolding plic_word_def using take_drop_splice [of "bytes_of 4 v" "plic_slot f i" "plic_image p" "plic_slot g k"]
        len s plic_slot_inj [OF that assms(2)] by auto
  qed
  then show ?thesis
    using assms len by (intro exI [of _ "p\<lparr>plic_image := ?img\<rparr>"]) (simp add: plic_set_def plic_wf_def plic_slot_def)
qed

lemma plic_assign_bit_ok:
  assumes "plic_wf p" "i < plic_count f"
  shows "\<exists>p'. plic_assign_bit p f i n v = Inr p' \<and> plic_wf p' \<and>
    (\<forall>g k. k < plic_count g \<longrightarrow> plic_word p' g k = (if g = f \<and> k = i then assign_u32_bit (plic_word p f i) n v else plic_word p g k))"
  using plic_set_ok [OF assms, of "assign_u32_bit (plic_word p f i) n v"] plic_get_ok [OF assms]
  by (simp add: plic_assign_bit_def)

lemma bit_assign_u32: "n < 32 \<Longrightarrow> bit (assign_u32_bit w n v) k \<longleftrightarrow> (if k = n then bit v 0 else bit w k)"
  unfolding assign_u32_bit_def
  by (auto simp: bit_simps bit_1_iff word_and_1_eq not_less dest: bit_imp_le_length simp del: push_bit_of_1)

section \<open>Selection\<close>

text \<open>
  The scan visits the words that are not idle, in order, and counts the bits that it visits from 0: the bit counted as \<open>m\<close> is
  bit \<open>m mod 32\<close> of the word \<open>plic_reg p m\<close>. It belongs to the interrupt \<open>plic_source p m\<close>, but what the code takes for its
  number, and whose priority it reads, is \<open>m\<close>.
\<close>

definition plic_idle :: "plic_td \<Rightarrow> nat \<Rightarrow> bool" where
  "plic_idle p i \<longleftrightarrow> plic_word p plic_enable_bits i = 0 \<or> plic_word p plic_pending_bits i = 0"

definition plic_live :: "plic_td \<Rightarrow> nat list" where
  "plic_live p = filter (\<lambda>i. \<not> plic_idle p i) [0..<8]"

definition plic_reg :: "plic_td \<Rightarrow> nat \<Rightarrow> nat" where
  "plic_reg p m = plic_live p ! (m div 32)"

definition plic_source :: "plic_td \<Rightarrow> nat \<Rightarrow> nat" where
  "plic_source p m = 32 * plic_reg p m + m mod 32"

text \<open>
  A candidate is enabled and pending, and its priority reaches the threshold; candidates that are claimed lose their pending bit.
\<close>

definition plic_cand :: "plic_td \<Rightarrow> nat \<Rightarrow> bool" where
  "plic_cand p m \<longleftrightarrow> bit (plic_word p plic_enable_bits (plic_reg p m)) (m mod 32) \<and>
     bit (plic_word p plic_pending_bits (plic_reg p m)) (m mod 32) \<and>
     plic_word p plic_priority_threshold 0 \<le> plic_word p plic_priority m"

definition plic_claimed :: "plic_td \<Rightarrow> nat \<Rightarrow> bool" where
  "plic_claimed p m \<longleftrightarrow> bit (plic_word p plic_claimed_bits (plic_reg p m)) (m mod 32)"

definition plic_free :: "plic_td \<Rightarrow> nat \<Rightarrow> bool" where
  "plic_free p m \<longleftrightarrow> plic_cand p m \<and> \<not> plic_claimed p m"

text \<open>\<open>plic_best p n b\<close>: \<open>b\<close> has the highest priority among the free candidates below \<open>n\<close>, and of those the highest number.\<close>

definition plic_best :: "plic_td \<Rightarrow> nat \<Rightarrow> nat \<Rightarrow> bool" where
  "plic_best p n b \<longleftrightarrow> b < n \<and> plic_free p b \<and>
     (\<forall>k < n. plic_free p k \<longrightarrow> plic_word p plic_priority k < plic_word p plic_priority b \<or>
        plic_word p plic_priority k = plic_word p plic_priority b \<and> k \<le> b)"

definition plic_chosen :: "plic_td \<Rightarrow> nat \<Rightarrow> nat \<Rightarrow> bool" where
  "plic_chosen p n b \<longleftrightarrow> (if \<exists>k < n. plic_free p k then plic_best p n b else b = 0)"

text \<open>What the scan leaves of the pending bits; nothing else changes.\<close>

definition plic_dropped :: "plic_td \<Rightarrow> nat \<Rightarrow> nat \<Rightarrow> nat \<Rightarrow> bool" where
  "plic_dropped p n i k \<longleftrightarrow> (\<exists>m < n. plic_cand p m \<and> plic_claimed p m \<and> plic_reg p m = i \<and> m mod 32 = k)"

definition plic_scanned :: "nat \<Rightarrow> plic_td \<Rightarrow> plic_td \<Rightarrow> bool" where
  "plic_scanned n p q \<longleftrightarrow> plic_wf q \<and>
     (\<forall>g k. k < plic_count g \<and> g \<noteq> plic_pending_bits \<longrightarrow> plic_word q g k = plic_word p g k) \<and>
     (\<forall>i < 8. \<forall>k. bit (plic_word q plic_pending_bits i) k \<longleftrightarrow> bit (plic_word p plic_pending_bits i) k \<and> \<not> plic_dropped p n i k)"

lemma plic_live_less: "i \<in> set (plic_live p) \<Longrightarrow> i < 8" "length (plic_live p) \<le> 8"
  using length_filter_le [of "\<lambda>i. \<not> plic_idle p i" "[0..<8]"] by (auto simp: plic_live_def)

lemma plic_reg_live: "m < 32 * length (plic_live p) \<Longrightarrow> plic_reg p m \<in> set (plic_live p)"
  by (simp add: plic_reg_def less_mult_imp_div_less mult.commute)

lemma plic_reg_inj:
  assumes "m < 32 * length (plic_live p)" "n < 32 * length (plic_live p)" "plic_reg p m = plic_reg p n" "m mod 32 = n mod 32"
  shows "m = n"
proof -
  have "distinct (plic_live p)" by (simp add: plic_live_def)
  moreover have "m div 32 < length (plic_live p)" "n div 32 < length (plic_live p)"
    using assms(1,2) by (simp_all add: less_mult_imp_div_less mult.commute)
  ultimately have "m div 32 = n div 32" using assms(3) by (simp add: plic_reg_def nth_eq_iff_index_eq)
  then show ?thesis using assms(4) by (metis div_mult_mod_eq)
qed

text \<open>The numbers are right as long as no word is skipped before the interrupt's own.\<close>

lemma plic_source_same: "m div 32 < length (plic_live p) \<Longrightarrow> plic_live p = [0..<length (plic_live p)] \<Longrightarrow> plic_source p m = m"
  unfolding plic_source_def plic_reg_def by (metis add_cancel_left_left mult_div_mod_eq nth_upt)

lemma plic_live_first: "\<not> plic_idle p 0 \<Longrightarrow> (\<And>k. 0 < k \<Longrightarrow> k < 8 \<Longrightarrow> plic_idle p k) \<Longrightarrow> plic_live p = [0]"
  by (simp add: plic_live_def upt_rec)

lemma plic_scan_bits_append:
  "plic_scan_bits i (xs @ ys) p sc = res_bind (plic_scan_bits i xs p sc) (\<lambda>(p, sc). plic_scan_bits i ys p sc)"
  by (induction xs arbitrary: p sc) (auto simp: res_bind_assoc split_beta intro!: arg_cong [where f = "res_bind _"] ext)

lemma plic_chosen_step:
  assumes "plic_chosen p n b"
  shows "\<not> plic_free p n \<Longrightarrow> plic_chosen p (Suc n) b"
    and "plic_free p n \<Longrightarrow> (\<exists>k < n. plic_free p k) \<Longrightarrow> \<not> plic_word p plic_priority b \<le> plic_word p plic_priority n \<Longrightarrow>
      plic_chosen p (Suc n) b"
    and "plic_free p n \<Longrightarrow> ((\<exists>k < n. plic_free p k) \<Longrightarrow> plic_word p plic_priority b \<le> plic_word p plic_priority n) \<Longrightarrow>
      plic_chosen p (Suc n) n"
proof -
  let ?ex = "\<lambda>m. \<exists>k < m. plic_free p k"
  have some: "?ex n \<Longrightarrow> plic_best p n b" and none: "\<not> ?ex n \<Longrightarrow> b = 0"
    using assms unfolding plic_chosen_def by presburger+
  have ex: "?ex (Suc n) \<longleftrightarrow> ?ex n \<or> plic_free p n" by (auto simp: less_Suc_eq)
  show "plic_chosen p (Suc n) b" if "\<not> plic_free p n"
  proof (cases "?ex n")
    case True
    then have "plic_best p (Suc n) b" using some that by (auto simp: plic_best_def less_Suc_eq)
    then show ?thesis using ex True by (simp add: plic_chosen_def)
  qed (use none ex that in \<open>auto simp: plic_chosen_def\<close>)
  show "plic_chosen p (Suc n) b"
    if "plic_free p n" "?ex n" "\<not> plic_word p plic_priority b \<le> plic_word p plic_priority n"
  proof -
    have "plic_best p (Suc n) b" using some [OF that(2)] that(3) by (auto simp: plic_best_def less_Suc_eq not_le)
    then show ?thesis using ex that by (simp add: plic_chosen_def)
  qed
  show "plic_chosen p (Suc n) n"
    if f: "plic_free p n" and le: "?ex n \<Longrightarrow> plic_word p plic_priority b \<le> plic_word p plic_priority n"
  proof -
    have "plic_word p plic_priority k \<le> plic_word p plic_priority n" if "k < n" "plic_free p k" for k
    proof -
      have "plic_best p n b" "plic_word p plic_priority b \<le> plic_word p plic_priority n" using some le that by blast+
      then show ?thesis using that by (force simp: plic_best_def)
    qed
    then have "plic_best p (Suc n) n" using f by (auto simp: plic_best_def less_Suc_eq order_le_less)
    then show ?thesis using ex f by (simp add: plic_chosen_def)
  qed
qed

definition plic_level :: "plic_td \<Rightarrow> nat \<Rightarrow> nat \<Rightarrow> u8" where
  "plic_level p n b = (if \<exists>k < n. plic_free p k then ucast (plic_word p plic_priority b) else 0)"

lemma ucast_small: "(w :: u32) \<le> 7 \<Longrightarrow> ucast (ucast w :: u8) = w"
proof -
  assume "w \<le> 7"
  then have "unat w < 2 ^ 8" by (simp add: word_le_nat_alt)
  then have "take_bit 8 w = w" by (metis take_bit_nat_eq_self unsigned_take_bit_eq word_unat_eq_iff)
  then show ?thesis by (simp add: ucast_ucast_take_bit)
qed

lemma plic_level_le:
  assumes "plic_ok p" "n \<le> 256" "plic_chosen p n b"
  shows "ucast (plic_level p n b) \<le> plic_word p plic_priority m \<longleftrightarrow>
    ((\<exists>k < n. plic_free p k) \<longrightarrow> plic_word p plic_priority b \<le> plic_word p plic_priority m)"
proof (cases "\<exists>k < n. plic_free p k")
  case True
  then have "b < 256" using assms(2,3) by (simp add: plic_chosen_def plic_best_def)
  then have "plic_word p plic_priority b \<le> 7" using assms(1) by (simp add: plic_ok_def)
  then show ?thesis using True by (simp add: plic_level_def ucast_small)
next
  case False
  then have "plic_level p n b = 0" unfolding plic_level_def by (rule if_not_P)
  then show ?thesis using False by auto
qed

text \<open>One bit: \<open>n\<close> is its number, and the bits below it have been scanned.\<close>

lemma plic_scan_bit:
  assumes ok: "plic_ok p" and n: "n < 32 * length (plic_live p)"
    and sc: "plic_scanned n p q" "plic_chosen p n b"
  shows "\<exists>r b'. plic_scan_bits (plic_reg p n) [n mod 32] q (of_nat n, of_nat b, plic_level p n b) =
      Inr (r, of_nat (Suc n), of_nat b', plic_level p (Suc n) b') \<and> plic_scanned (Suc n) p r \<and> plic_chosen p (Suc n) b'"
proof -
  let ?i = "plic_reg p n" and ?j = "n mod 32"
  have n256: "n < 256" using n plic_live_less(2) [of p] by linarith
  then have un: "unat (of_nat n :: u32) = n" by (simp add: unat_of_nat)
  have i: "?i < 8" using plic_live_less(1) plic_reg_live [OF n] by blast
  have wf: "plic_wf q" and same: "\<And>g k. k < plic_count g \<Longrightarrow> g \<noteq> plic_pending_bits \<Longrightarrow> plic_word q g k = plic_word p g k"
    and pend: "\<And>i k. i < 8 \<Longrightarrow> bit (plic_word q plic_pending_bits i) k \<longleftrightarrow> bit (plic_word p plic_pending_bits i) k \<and> \<not> plic_dropped p n i k"
    using sc(1) by (auto simp: plic_scanned_def)
  have gets: "plic_get q plic_enable_bits ?i = Inr (plic_word p plic_enable_bits ?i)"
    "plic_get q plic_pending_bits ?i = Inr (plic_word q plic_pending_bits ?i)"
    "plic_get q plic_priority n = Inr (plic_word p plic_priority n)"
    "plic_get q plic_priority_threshold 0 = Inr (plic_word p plic_priority_threshold 0)"
    "plic_get q plic_claimed_bits ?i = Inr (plic_word p plic_claimed_bits ?i)"
    using plic_get_ok [OF wf] same i n256 by simp_all
  have "plic_reg p m \<noteq> ?i \<or> m mod 32 \<noteq> ?j" if "m < n" for m using plic_reg_inj [of m p n] n that by auto
  then have "\<not> plic_dropped p n ?i ?j" by (auto simp: plic_dropped_def)
  then have pn: "bit (plic_word q plic_pending_bits ?i) ?j = bit (plic_word p plic_pending_bits ?i) ?j" using pend [OF i] by simp
  have drop: "plic_dropped p (Suc n) i k \<longleftrightarrow> plic_dropped p n i k \<or> plic_cand p n \<and> plic_claimed p n \<and> i = ?i \<and> k = ?j" for i k
    by (auto simp: plic_dropped_def less_Suc_eq)
  have next_lv: "(\<exists>k < n. plic_free p k) \<Longrightarrow> plic_level p (Suc n) b = plic_level p n b"
    "\<not> plic_free p n \<Longrightarrow> plic_level p (Suc n) b = plic_level p n b"
    "plic_free p n \<Longrightarrow> plic_level p (Suc n) n = ucast (plic_word p plic_priority n)"
    by (auto simp: plic_level_def less_Suc_eq)
  have keep: "plic_scanned (Suc n) p q" if "\<not> (plic_cand p n \<and> plic_claimed p n)"
    using sc(1) that unfolding plic_scanned_def drop by blast
  note lv = plic_level_le [OF ok less_imp_le [OF n256] sc(2), of n]
  note cl = CHECK_BIT_iff
  consider (no) "\<not> plic_cand p n" | (claimed) "plic_cand p n" "plic_claimed p n"
    | (lower) "plic_free p n" "\<not> ucast (plic_level p n b) \<le> plic_word p plic_priority n"
    | (higher) "plic_free p n" "ucast (plic_level p n b) \<le> plic_word p plic_priority n"
    by (auto simp: plic_free_def)
  then show ?thesis
  proof cases
    case no
    then have "plic_scan_bits ?i [?j] q (of_nat n, of_nat b, plic_level p n b) = Inr (q, of_nat (Suc n), of_nat b, plic_level p n b)"
      using gets un by (auto simp: cl pn plic_cand_def not_le)
    moreover have f: "\<not> plic_free p n" using no by (simp add: plic_free_def)
    ultimately show ?thesis using keep no plic_chosen_step(1) [OF sc(2) f] next_lv(2) [OF f] by auto
  next
    case claimed
    obtain r where r: "plic_assign_bit q plic_pending_bits ?i ?j 0 = Inr r" "plic_wf r"
      "\<And>g k. k < plic_count g \<Longrightarrow> plic_word r g k = (if g = plic_pending_bits \<and> k = ?i
        then assign_u32_bit (plic_word q plic_pending_bits ?i) ?j 0 else plic_word q g k)"
      using plic_assign_bit_ok [OF wf, of ?i plic_pending_bits ?j 0] i by auto
    have f: "\<not> plic_free p n" using claimed by (simp add: plic_free_def)
    have "plic_scan_bits ?i [?j] q (of_nat n, of_nat b, plic_level p n b) = Inr (r, of_nat (Suc n), of_nat b, plic_level p n b)"
      using gets un claimed r(1) by (auto simp: cl pn plic_cand_def plic_claimed_def)
    moreover have "plic_scanned (Suc n) p r"
      using r(2,3) same pend claimed i by (auto simp: plic_scanned_def bit_assign_u32 drop)
    ultimately show ?thesis using plic_chosen_step(1) [OF sc(2) f] next_lv(2) [OF f] by auto
  next
    case lower
    then have ex: "\<exists>k < n. plic_free p k" "\<not> plic_word p plic_priority b \<le> plic_word p plic_priority n" using lv by auto
    have "plic_scan_bits ?i [?j] q (of_nat n, of_nat b, plic_level p n b) = Inr (q, of_nat (Suc n), of_nat b, plic_level p n b)"
      using gets un lower by (auto simp: cl pn plic_cand_def plic_free_def plic_claimed_def)
    then show ?thesis
      using keep lower plic_chosen_step(2) [OF sc(2) lower(1) ex] next_lv(1) [OF ex(1)] by (auto simp: plic_free_def)
  next
    case higher
    have "plic_scan_bits ?i [?j] q (of_nat n, of_nat b, plic_level p n b) =
        Inr (q, of_nat (Suc n), of_nat n, ucast (plic_word p plic_priority n))"
      using gets un higher by (auto simp: cl pn plic_cand_def plic_free_def plic_claimed_def)
    then show ?thesis
      using keep higher plic_chosen_step(3) [OF sc(2) higher(1)] next_lv(3) lv by (auto simp: plic_free_def)
  qed
qed

text \<open>The bits of a word, then the words.\<close>

lemma plic_scan_bits_spec:
  assumes ok: "plic_ok p" and w: "w < length (plic_live p)"
    and sc: "plic_scanned (32 * w) p q" "plic_chosen p (32 * w) b"
  shows "t \<le> 32 \<Longrightarrow> \<exists>r b'. plic_scan_bits (plic_live p ! w) [0..<t] q (of_nat (32 * w), of_nat b, plic_level p (32 * w) b) =
      Inr (r, of_nat (32 * w + t), of_nat b', plic_level p (32 * w + t) b') \<and>
    plic_scanned (32 * w + t) p r \<and> plic_chosen p (32 * w + t) b'"
proof (induction t)
  case 0
  show ?case by (intro exI [of _ q] exI [of _ b]) (use sc in simp)
next
  case (Suc t)
  then obtain r b1 where r: "plic_scan_bits (plic_live p ! w) [0..<t] q (of_nat (32 * w), of_nat b, plic_level p (32 * w) b) =
      Inr (r, of_nat (32 * w + t), of_nat b1, plic_level p (32 * w + t) b1)"
    "plic_scanned (32 * w + t) p r" "plic_chosen p (32 * w + t) b1" by auto
  have t: "(32 * w + t) div 32 = w" "(32 * w + t) mod 32 = t" using Suc.prems by simp_all
  have "Suc w * 32 \<le> length (plic_live p) * 32" using w by (intro mult_le_mono1) simp
  then have lt: "32 * w + t < 32 * length (plic_live p)" using Suc.prems by simp
  have reg: "plic_reg p (32 * w + t) = plic_live p ! w" unfolding plic_reg_def t ..
  show ?case
    using plic_scan_bit [OF ok lt r(2,3)] unfolding reg t
    by (auto simp: plic_scan_bits_append r(1) simp del: of_nat_add of_nat_mult of_nat_Suc of_nat_numeral plic_scan_bits.simps)
qed

lemma plic_scan_words_append:
  "plic_scan_words (xs @ ys) p sc = res_bind (plic_scan_words xs p sc) (\<lambda>(p, sc). plic_scan_words ys p sc)"
  by (induction xs arbitrary: p sc) (auto simp: res_bind_assoc split_beta intro!: arg_cong [where f = "res_bind _"] ext)

lemma plic_scan_words_spec:
  assumes ok: "plic_ok p"
  shows "v \<le> 8 \<Longrightarrow> n = 32 * length (filter (\<lambda>i. \<not> plic_idle p i) [0..<v]) \<Longrightarrow>
    \<exists>q b. plic_scan_words [0..<v] p (0, 0, 0) = Inr (q, of_nat n, of_nat b, plic_level p n b) \<and>
      plic_scanned n p q \<and> plic_chosen p n b"
proof (induction v arbitrary: n)
  case 0
  then show ?case
    using ok by (intro exI [of _ p] exI [of _ "0::nat"])
      (simp add: plic_scanned_def plic_chosen_def plic_level_def plic_dropped_def plic_ok_def)
next
  case (Suc v)
  let ?as = "filter (\<lambda>i. \<not> plic_idle p i) [0..<v]" let ?w = "length ?as"
  obtain q b where q: "plic_scan_words [0..<v] p (0, 0, 0) = Inr (q, of_nat (32 * ?w), of_nat b, plic_level p (32 * ?w) b)"
    "plic_scanned (32 * ?w) p q" "plic_chosen p (32 * ?w) b" using Suc.IH [OF _ refl] Suc.prems(1) by auto
  have v: "v < 8" using Suc.prems by simp
  have "[0..<8] = [0..<v] @ v # [Suc v..<8]" using v upt_add_eq_append [of 0 v "8 - v"] by (simp add: upt_conv_Cons)
  then have live: "plic_live p = ?as @ filter (\<lambda>i. \<not> plic_idle p i) (v # [Suc v..<8])" by (simp add: plic_live_def)
  have "plic_reg p m < v" if "m < 32 * ?w" for m
  proof -
    have "m div 32 < ?w" using that by (simp add: less_mult_imp_div_less mult.commute)
    then have "plic_reg p m \<in> set ?as" unfolding plic_reg_def live by (simp only: nth_append if_True nth_mem)
    then show ?thesis by simp
  qed
  then have "\<not> plic_dropped p (32 * ?w) v k" for k by (auto simp: plic_dropped_def)
  then have pv: "plic_word q plic_pending_bits v = plic_word p plic_pending_bits v"
    using q(2) v by (intro bit_word_eqI) (simp add: plic_scanned_def)
  have gets: "plic_get q plic_enable_bits v = Inr (plic_word p plic_enable_bits v)"
    "plic_get q plic_pending_bits v = Inr (plic_word p plic_pending_bits v)"
    using q(2) v pv plic_get_ok [of q v plic_enable_bits] plic_get_ok [of q v plic_pending_bits] by (simp_all add: plic_scanned_def)
  have e: "(\<lambda>(p, sc). plic_scan_words [] p sc) = Inr" by (simp add: fun_eq_iff)
  have step: "plic_scan_words [0..<Suc v] p (0, 0, 0) = plic_scan_words [v] q (of_nat (32 * ?w), of_nat b, plic_level p (32 * ?w) b)"
    by (simp add: plic_scan_words_append q(1) del: of_nat_mult of_nat_numeral)
  show ?case
  proof (cases "plic_idle p v")
    case True
    then have "n = 32 * ?w" using Suc.prems(2) by simp
    moreover have "plic_scan_words [v] q sc = Inr (q, sc)" for sc using True gets by (auto simp: plic_idle_def)
    ultimately show ?thesis unfolding step using q(2,3) by blast
  next
    case False
    then have n: "n = 32 * ?w + 32" using Suc.prems(2) by simp
    have w: "?w < length (plic_live p)" "plic_live p ! ?w = v" using live False by (simp_all add: nth_append)
    have "plic_scan_words [v] q sc = plic_scan_bits v [0..<32] q sc" for sc
      using False gets by (simp add: e plic_idle_def del: upt_rec_numeral)
    then show ?thesis
      unfolding step n using plic_scan_bits_spec [OF ok w(1) q(2,3), of 32] unfolding w(2) by auto
  qed
qed

lemma plic_update_spec:
  assumes ok: "plic_ok p"
  shows "\<exists>q b. plic_update p = Inr (q, of_bool (b \<noteq> 0)) \<and> plic_chosen p (32 * length (plic_live p)) b \<and> plic_wf q \<and>
    (\<forall>g k. k < plic_count g \<and> g \<noteq> plic_pending_bits \<longrightarrow>
       plic_word q g k = (if g = plic_claim_complete then of_nat b else plic_word p g k)) \<and>
    (\<forall>i < 8. \<forall>k. bit (plic_word q plic_pending_bits i) k \<longleftrightarrow>
       bit (plic_word p plic_pending_bits i) k \<and> \<not> plic_dropped p (32 * length (plic_live p)) i k)"
proof -
  let ?n = "32 * length (plic_live p)"
  obtain q b where q: "plic_scan_words [0..<8] p (0, 0, 0) = Inr (q, of_nat ?n, of_nat b, plic_level p ?n b)"
    and sc: "plic_scanned ?n p q" and b: "plic_chosen p ?n b"
    using plic_scan_words_spec [OF ok order_refl refl] unfolding plic_live_def [symmetric] by blast
  have wf: "plic_wf q" using sc by (simp add: plic_scanned_def)
  obtain r where r: "plic_set q plic_claim_complete 0 (of_nat b) = Inr r" "plic_wf r"
    "\<And>g k. k < plic_count g \<Longrightarrow> plic_word r g k = (if g = plic_claim_complete \<and> k = 0 then of_nat b else plic_word q g k)"
    using plic_set_ok [OF wf, of 0 plic_claim_complete "of_nat b"] by auto
  have "b < 256"
    using b plic_live_less(2) [of p] by (cases "\<exists>k < ?n. plic_free p k") (auto simp: plic_chosen_def plic_best_def)
  then have bz: "(0 :: u32) < of_nat b \<longleftrightarrow> b \<noteq> 0" by (simp add: word_less_nat_alt unat_of_nat)
  have "plic_update p = Inr (r, of_bool (b \<noteq> 0))"
    using q r(1) bz by (cases "b = 0") (simp_all add: plic_update_def del: upt_rec_numeral)
  then show ?thesis using b r sc by (intro exI [of _ r] exI [of _ b]) (auto simp: plic_scanned_def)
qed

text \<open>Any number of active words: the update completes and keeps the invariant.\<close>

lemma plic_ok_update:
  assumes "plic_ok p" "plic_wf q" "\<And>g k. k < plic_count g \<Longrightarrow> g \<in> {plic_priority, plic_priority_threshold} \<Longrightarrow>
    plic_word q g k = plic_word p g k"
  shows "plic_ok q"
  using assms by (simp add: plic_ok_def)

lemma plic_assign_bit_total:
  assumes "plic_ok p" "i < plic_count f" "f \<notin> {plic_priority, plic_priority_threshold}"
  shows "\<exists>q. plic_assign_bit p f i n v = Inr q \<and> plic_ok q"
  using plic_assign_bit_ok [of p i f n v] plic_ok_update [OF assms(1)] assms by (fastforce simp: plic_ok_def)

lemma plic_set_total:
  assumes "plic_ok p" "i < plic_count f" "f \<notin> {plic_priority, plic_priority_threshold}"
  shows "\<exists>q. plic_set p f i v = Inr q \<and> plic_ok q"
  using plic_set_ok [of p i f v] plic_ok_update [OF assms(1)] assms by (fastforce simp: plic_ok_def)

lemma plic_scan_bits_total:
  "plic_ok p \<Longrightarrow> i < 8 \<Longrightarrow> cnt + length js \<le> 256 \<Longrightarrow>
    \<exists>q t h. plic_scan_bits i js p (of_nat cnt, t0, h0) = Inr (q, of_nat (cnt + length js), t, h) \<and> plic_ok q"
proof (induction js arbitrary: p cnt t0 h0)
  case (Cons j js)
  have wf: "plic_wf p" using Cons.prems by (simp add: plic_ok_def)
  have c: "unat (of_nat cnt :: u32) = cnt" "cnt < 256" using Cons.prems by (simp_all add: unat_of_nat)
  obtain r where r: "plic_assign_bit p plic_pending_bits i j 0 = Inr r" "plic_ok r"
    using plic_assign_bit_total [of p i plic_pending_bits j 0] Cons.prems by auto
  have next_step: "\<exists>q t h. plic_scan_bits i js p' (of_nat cnt + 1, t0', h0') = Inr (q, of_nat (cnt + length (j # js)), t, h) \<and> plic_ok q"
    if "plic_ok p'" for p' t0' h0'
    using Cons.IH [OF that Cons.prems(2), of "Suc cnt" t0' h0'] Cons.prems(3) by (simp add: add.commute)
  show ?case
    using Cons.prems c r next_step
    by (simp add: plic_get_ok [OF wf])
qed simp

lemma plic_scan_words_total:
  "plic_ok p \<Longrightarrow> set is \<subseteq> {..<8} \<Longrightarrow> cnt + 32 * length is \<le> 256 \<Longrightarrow>
    \<exists>q cnt' t h. plic_scan_words is p (of_nat cnt, t0, h0) = Inr (q, cnt', t, h) \<and> plic_ok q"
proof (induction "is" arbitrary: p cnt t0 h0)
  case (Cons i "is")
  have wf: "plic_wf p" using Cons.prems by (simp add: plic_ok_def)
  obtain q t h where q: "plic_scan_bits i [0..<32] p (of_nat cnt, t0, h0) = Inr (q, of_nat (cnt + 32), t, h)" "plic_ok q"
    using plic_scan_bits_total [OF Cons.prems(1), of i cnt "[0..<32]" t0 h0] Cons.prems(2,3) by auto
  show ?case
    using Cons.IH [OF q(2), of "cnt + 32" t h] Cons.IH [OF Cons.prems(1), of cnt t0 h0] Cons.prems q(1)
    by (simp add: plic_get_ok [OF wf] split_beta del: upt_rec_numeral of_nat_add)
qed simp

lemma plic_update_total:
  assumes "plic_ok p"
  shows "\<exists>q mei. plic_update p = Inr (q, mei) \<and> plic_ok q"
proof -
  obtain q c t h where q: "plic_scan_words [0..<8] p (of_nat 0, 0, 0) = Inr (q, c, t, h)" "plic_ok q"
    using plic_scan_words_total [OF assms, of "[0..<8]" 0 0 0] by (force simp: lessThan_atLeast0)
  obtain r s where "plic_set q plic_claim_complete 0 t = Inr r" "plic_ok r" "plic_set q plic_claim_complete 0 0 = Inr s" "plic_ok s"
    using plic_set_total [OF q(2), of 0 plic_claim_complete t] plic_set_total [OF q(2), of 0 plic_claim_complete 0] by auto
  then show ?thesis using q(1) by (auto simp: plic_update_def simp del: upt_rec_numeral)
qed

lemma plic_update_pending_total:
  assumes "plic_ok p" "unat (n div 32) < 8"
  shows "\<exists>q. plic_update_pending p n v = Inr q \<and> plic_ok q"
  using plic_assign_bit_total [OF assms(1), of _ plic_pending_bits] assms(2) by (simp add: plic_update_pending_def)

section \<open>Bus accesses\<close>

lemma plic_mask_spec:
  "plic_wf p \<Longrightarrow> set is \<subseteq> {..<256} \<Longrightarrow> \<exists>q. plic_mask_priorities is p = Inr q \<and> plic_wf q \<and>
    (\<forall>g k. k < plic_count g \<longrightarrow> plic_word q g k =
       (if g = plic_priority \<and> k \<in> set is then plic_word p g k AND 7 else plic_word p g k))"
proof (induction "is" arbitrary: p)
  case (Cons i "is")
  obtain r where r: "plic_set p plic_priority i (plic_word p plic_priority i AND 7) = Inr r" "plic_wf r"
    "\<And>g k. k < plic_count g \<Longrightarrow> plic_word r g k =
      (if g = plic_priority \<and> k = i then plic_word p plic_priority i AND 7 else plic_word p g k)"
    using plic_set_ok [OF Cons.prems(1), of i plic_priority "plic_word p plic_priority i AND 7"] Cons.prems(2) by auto
  obtain q where q: "plic_mask_priorities is r = Inr q" "plic_wf q"
    "\<And>g k. k < plic_count g \<Longrightarrow> plic_word q g k =
       (if g = plic_priority \<and> k \<in> set is then plic_word r g k AND 7 else plic_word r g k)"
    using Cons.IH [OF r(2)] Cons.prems(2) by auto
  show ?case
    using r q Cons.prems by (intro exI [of _ q]) (auto simp: plic_get_ok and.assoc)
qed simp

lemma plic_check_sanity_spec:
  assumes "plic_wf p"
  shows "\<exists>q. plic_check_sanity p = Inr q \<and> plic_ok q \<and>
    (\<forall>g k. k < plic_count g \<longrightarrow> plic_word q g k =
       (if g \<in> {plic_priority, plic_priority_threshold} then plic_word p g k AND 7 else plic_word p g k))"
proof -
  obtain r where r: "plic_mask_priorities [0..<256] p = Inr r" "plic_wf r"
    "\<And>g k. k < plic_count g \<Longrightarrow> plic_word r g k =
       (if g = plic_priority \<and> k \<in> set [0..<256] then plic_word p g k AND 7 else plic_word p g k)"
    using plic_mask_spec [OF assms, of "[0..<256]"] by (force simp: lessThan_atLeast0)
  obtain q where q: "plic_set r plic_priority_threshold 0 (plic_word r plic_priority_threshold 0 AND 7) = Inr q" "plic_wf q"
    "\<And>g k. k < plic_count g \<Longrightarrow> plic_word q g k = (if g = plic_priority_threshold \<and> k = 0
       then plic_word r plic_priority_threshold 0 AND 7 else plic_word r g k)"
    using plic_set_ok [OF r(2), of 0 plic_priority_threshold "plic_word r plic_priority_threshold 0 AND 7"] by auto
  have "w AND 7 \<le> 7" for w :: u32 by (rule word_and_le1)
  then show ?thesis
    using r q by (intro exI [of _ q]) (auto simp: plic_check_sanity_def plic_get_ok plic_ok_def simp del: upt_rec_numeral)
qed

lemma plic_assign_bit_wf: "plic_assign_bit p f i k v = Inr q \<Longrightarrow> plic_wf p \<Longrightarrow> plic_wf q"
  by (auto simp: plic_assign_bit_def plic_set_def plic_wf_def res_bind_eq_Inr_iff split: if_splits dest: obj_write_length)

lemma plic_claimed_ok: "plic_assign_bit p plic_claimed_bits i k v = Inr q \<Longrightarrow> plic_ok p \<Longrightarrow> plic_ok q"
  using plic_assign_bit_total [of p i plic_claimed_bits k v]
  by (cases "i < plic_count plic_claimed_bits") (auto simp: plic_assign_bit_def plic_get_def)

lemma plic_sanity_ok: "plic_check_sanity p = Inr q \<Longrightarrow> plic_wf p \<Longrightarrow> plic_ok q"
  using plic_check_sanity_spec [of p] by auto

lemma plic_copy_wf: "obj_copy (plic_image p) k v j n = Inr img \<Longrightarrow> plic_wf p \<Longrightarrow> plic_wf (p\<lparr>plic_image := img\<rparr>)"
  by (auto simp: plic_wf_def dest: obj_copy_length)

lemma plic_bus_access_ok:
  assumes "plic_bus_access d l a addr v n = Inr (d', r, v')" "plic_ok d"
  shows "plic_ok d'"
proof (cases "get_u8_reg_ptr addr")
  case (Some pc)
  obtain ptr c where pc: "pc = (ptr, c)" by (cases pc)
  have wf: "plic_wf d" using assms(2) by (simp add: plic_ok_def)
  show ?thesis
  proof (cases "a = bus_write_access")
    case True
    then obtain img w d1 where "obj_copy (plic_image d) ptr v 0 (unat n) = Inr img" "plic_check_sanity d1 = Inr d'"
      "(if c then plic_assign_bit (d\<lparr>plic_image := img\<rparr>) plic_claimed_bits (unat ((w :: u32) div 32)) (unat (w mod 32)) 0
        else Inr (d\<lparr>plic_image := img\<rparr>)) = Inr d1"
      using assms(1) Some pc by (auto simp: plic_bus_access_def res_bind_eq_Inr_iff Let_def)
    then show ?thesis using wf plic_copy_wf plic_assign_bit_wf plic_sanity_ok by (cases c) auto
  next
    case False
    then show ?thesis
      using assms Some pc by (auto simp: plic_bus_access_def res_bind_eq_Inr_iff dest: plic_claimed_ok split: if_splits)
  qed
qed (use assms in \<open>simp add: plic_bus_access_def\<close>)

text \<open>The claim register.\<close>

lemma claim_ptr: "xlen_ok TYPE('x::len) \<Longrightarrow> get_u8_reg_ptr (PLIC_PRIO_CLAIM_ADDR_OFFS :: 'x word) = Some (1092, True)"
  by (auto simp: xlen_ok_def get_u8_reg_ptr_def plic_addresses ADDR_WITHIN_def word_less_nat_alt word_le_nat_alt)

lemma word_bytes_round: "length bs = 4 \<Longrightarrow> bytes_of 4 (word_of_bytes bs :: u32) = bs"
  using bytes_of_word_of_bytes [of bs, where 'a = 32] by simp

lemma plic_claim_read:
  assumes x: "xlen_ok TYPE('x::len)" and ok: "plic_ok p" and v: "length v = 4"
    and c: "c = plic_word p plic_claim_complete 0" "c < 256"
  shows "\<exists>q. plic_bus_access p l bus_read_access (PLIC_PRIO_CLAIM_ADDR_OFFS :: 'x word) v 4 = Inr (q, rv_ok, bytes_of 4 c) \<and>
    plic_ok q \<and> (\<forall>g k. k < plic_count g \<longrightarrow> plic_word q g k =
      (if g = plic_claimed_bits \<and> k = unat (c div 32) \<and> bit (plic_word p plic_pending_bits k) (unat (c mod 32))
       then assign_u32_bit (plic_word p g k) (unat (c mod 32)) 1 else plic_word p g k))"
proof -
  have wf: "plic_wf p" "length (plic_image p) = 1128" using ok by (simp_all add: plic_ok_def plic_wf_def)
  let ?bs = "take 4 (drop 1092 (plic_image p))"
  have bs: "length ?bs = 4" "word_of_bytes ?bs = c" using wf c by (simp_all add: plic_word_def plic_slot_def)
  then have vb: "obj_copy v 0 (plic_image p) 1092 4 = Inr (bytes_of 4 c)"
    using wf v word_bytes_round [OF bs(1)] by (simp add: obj_copy_def splice_def)
  have i: "unat (c div 32) < 8" using c(2) by (simp add: unat_div word_less_nat_alt)
  have m: "unat (c mod 32) < 32" by (simp add: unat_mod)
  obtain q where q: "plic_assign_bit p plic_claimed_bits (unat (c div 32)) (unat (c mod 32)) 1 = Inr q" "plic_wf q"
    "\<And>g k. k < plic_count g \<Longrightarrow> plic_word q g k = (if g = plic_claimed_bits \<and> k = unat (c div 32)
      then assign_u32_bit (plic_word p plic_claimed_bits (unat (c div 32))) (unat (c mod 32)) 1 else plic_word p g k)"
    using plic_assign_bit_ok [OF wf(1), of "unat (c div 32)" plic_claimed_bits "unat (c mod 32)" 1] i by auto
  have acc: "plic_bus_access p l bus_read_access (PLIC_PRIO_CLAIM_ADDR_OFFS :: 'x word) v 4 =
    Inr (if bit (plic_word p plic_pending_bits (unat (c div 32))) (unat (c mod 32)) then q else p, rv_ok, bytes_of 4 c)"
    using vb bs wf i m q(1) by (simp add: plic_bus_access_def claim_ptr [OF x] plic_get_ok CHECK_BIT_iff)
  have "plic_ok q" using plic_claimed_ok [OF q(1) ok] .
  then show ?thesis unfolding acc using q(3) ok by auto
qed

lemma plic_complete_write:
  assumes x: "xlen_ok TYPE('x::len)" and ok: "plic_ok p"
  shows "plic_bus_access p l bus_write_access (PLIC_PRIO_CLAIM_ADDR_OFFS :: 'x word) (bytes_of 4 (c :: u32)) 4 =
      Inl OutOfBounds \<longleftrightarrow> 256 \<le> c"
    and "c < 256 \<Longrightarrow> \<exists>q. plic_bus_access p l bus_write_access (PLIC_PRIO_CLAIM_ADDR_OFFS :: 'x word) (bytes_of 4 c) 4 =
      Inr (q, rv_ok, bytes_of 4 c) \<and> plic_ok q \<and> (\<forall>g k. k < plic_count g \<longrightarrow> plic_word q g k =
      (if g = plic_claim_complete then c else if g = plic_claimed_bits \<and> k = unat (c div 32)
       then assign_u32_bit (plic_word p g k) (unat (c mod 32)) 0 else plic_word p g k))"
proof -
  have wf: "plic_wf p" "length (plic_image p) = 1128" using ok by (simp_all add: plic_ok_def plic_wf_def)
  let ?img = "splice (plic_image p) 1092 (bytes_of 4 c)" let ?p1 = "p\<lparr>plic_image := ?img\<rparr>"
  obtain p1 where p1: "plic_set p plic_claim_complete 0 c = Inr p1" "plic_wf p1"
    "\<And>g k. k < plic_count g \<Longrightarrow> plic_word p1 g k = (if g = plic_claim_complete \<and> k = 0 then c else plic_word p g k)"
    using plic_set_ok [OF wf(1), of 0 plic_claim_complete c] by auto
  have e: "p1 = ?p1" using p1(1) wf by (simp add: plic_set_def)
  have acc: "plic_bus_access p l bus_write_access (PLIC_PRIO_CLAIM_ADDR_OFFS :: 'x word) (bytes_of 4 c) 4 =
    res_bind (plic_assign_bit p1 plic_claimed_bits (unat (c div 32)) (unat (c mod 32)) 0)
      (\<lambda>p. res_bind (plic_check_sanity p) (\<lambda>p. Inr (p, rv_ok, bytes_of 4 c)))"
    using wf by (simp add: plic_bus_access_def claim_ptr [OF x] obj_copy_def Let_def e)
  have i: "unat (c div 32) < 8 \<longleftrightarrow> c < 256" by (simp add: unat_div word_less_nat_alt less_mult_imp_div_less div_less_iff_less_mult)
  have small: "\<exists>q. plic_bus_access p l bus_write_access (PLIC_PRIO_CLAIM_ADDR_OFFS :: 'x word) (bytes_of 4 c) 4 =
      Inr (q, rv_ok, bytes_of 4 c) \<and> plic_ok q \<and> (\<forall>g k. k < plic_count g \<longrightarrow> plic_word q g k =
      (if g = plic_claim_complete then c else if g = plic_claimed_bits \<and> k = unat (c div 32)
       then assign_u32_bit (plic_word p g k) (unat (c mod 32)) 0 else plic_word p g k))" if c: "c < 256"
  proof -
    obtain p2 where p2: "plic_assign_bit p1 plic_claimed_bits (unat (c div 32)) (unat (c mod 32)) 0 = Inr p2" "plic_wf p2"
      "\<And>g k. k < plic_count g \<Longrightarrow> plic_word p2 g k = (if g = plic_claimed_bits \<and> k = unat (c div 32)
        then assign_u32_bit (plic_word p1 plic_claimed_bits (unat (c div 32))) (unat (c mod 32)) 0 else plic_word p1 g k)"
      using plic_assign_bit_ok [OF p1(2), of "unat (c div 32)" plic_claimed_bits "unat (c mod 32)" 0] i c by auto
    obtain q where q: "plic_check_sanity p2 = Inr q" "plic_ok q"
      "\<And>g k. k < plic_count g \<Longrightarrow> plic_word q g k =
       (if g \<in> {plic_priority, plic_priority_threshold} then plic_word p2 g k AND 7 else plic_word p2 g k)"
      using plic_check_sanity_spec [OF p2(2)] by auto
    have a7: "w AND 7 = w" if "w \<le> 7" for w :: u32
    proof -
      have "unat w < 2 ^ 3" using that by (simp add: word_le_nat_alt)
      then have "take_bit 3 w = w" by (metis take_bit_nat_eq_self unsigned_take_bit_eq word_unat_eq_iff)
      then show ?thesis by (simp add: take_bit_eq_mask mask_eq_exp_minus_1)
    qed
    have "plic_word q g k = (if g = plic_claim_complete then c else if g = plic_claimed_bits \<and> k = unat (c div 32)
       then assign_u32_bit (plic_word p g k) (unat (c mod 32)) 0 else plic_word p g k)" if "k < plic_count g" for g k
      using q(3) [OF that] p2(3) [OF that] p1(3) [OF that] p1(3) [of "unat (c div 32)" plic_claimed_bits] i c ok that
      by (cases g) (auto simp: a7 plic_ok_def)
    then show ?thesis unfolding acc using p2(1) q(1,2) by simp
  qed
  show "c < 256 \<Longrightarrow> \<exists>q. plic_bus_access p l bus_write_access (PLIC_PRIO_CLAIM_ADDR_OFFS :: 'x word) (bytes_of 4 c) 4 =
      Inr (q, rv_ok, bytes_of 4 c) \<and> plic_ok q \<and> (\<forall>g k. k < plic_count g \<longrightarrow> plic_word q g k =
      (if g = plic_claim_complete then c else if g = plic_claimed_bits \<and> k = unat (c div 32)
       then assign_u32_bit (plic_word p g k) (unat (c mod 32)) 0 else plic_word p g k))" by (rule small)
  show "plic_bus_access p l bus_write_access (PLIC_PRIO_CLAIM_ADDR_OFFS :: 'x word) (bytes_of 4 c) 4 =
      Inl OutOfBounds \<longleftrightarrow> 256 \<le> c"
  proof (cases "c < 256")
    case False
    then have "plic_assign_bit p1 plic_claimed_bits (unat (c div 32)) (unat (c mod 32)) 0 = Inl OutOfBounds"
      using i by (simp add: plic_assign_bit_def plic_get_def)
    then show ?thesis unfolding acc using False by simp
  qed (use small in auto)
qed

lemma plic_zero_word: "k < plic_count g \<Longrightarrow> plic_word plic_zero g k = 0"
proof -
  assume "k < plic_count g"
  then have "4 * plic_slot g k + 4 \<le> 1128" using plic_slot_less [of k g] by simp
  then have "take 4 (drop (4 * plic_slot g k) (plic_image plic_zero)) = replicate 4 0" by (simp add: plic_zero_def)
  then show ?thesis by (simp add: plic_word_def eval_nat_numeral)
qed

lemma plic_zero_ok: "plic_ok plic_zero"
  using plic_zero_word by (simp add: plic_ok_def) (simp add: plic_wf_def plic_zero_def)

text \<open>A controller with the one bit \<open>n\<close> of word \<open>i\<close> enabled and pending, for the examples.\<close>

lemma plic_example:
  assumes "n < 32" "i < 8"
  obtains p where "plic_ok p" "plic_word p plic_enable_bits i = 2 ^ n" "plic_word p plic_pending_bits i = 2 ^ n"
    "\<And>k. k \<noteq> i \<Longrightarrow> k < 8 \<Longrightarrow> plic_word p plic_enable_bits k = 0" "\<And>k. k < 8 \<Longrightarrow> plic_word p plic_claimed_bits k = 0"
    "plic_word p plic_priority_threshold 0 = 0" "plic_word p plic_claim_complete 0 = 0"
proof -
  obtain p1 where p1: "plic_set plic_zero plic_enable_bits i (2 ^ n) = Inr p1" "plic_wf p1"
    "\<And>g k. k < plic_count g \<Longrightarrow> plic_word p1 g k = (if g = plic_enable_bits \<and> k = i then 2 ^ n else plic_word plic_zero g k)"
    using plic_set_ok [of plic_zero i plic_enable_bits "2 ^ n"] plic_zero_ok assms(2) by (auto simp: plic_ok_def)
  obtain p2 where p2: "plic_set p1 plic_pending_bits i (2 ^ n) = Inr p2" "plic_wf p2"
    "\<And>g k. k < plic_count g \<Longrightarrow> plic_word p2 g k = (if g = plic_pending_bits \<and> k = i then 2 ^ n else plic_word p1 g k)"
    using plic_set_ok [OF p1(2), of i plic_pending_bits "2 ^ n"] assms(2) by auto
  show thesis
    by (rule that [of p2]) (use p1 p2 plic_zero_word assms(2) in \<open>simp_all add: plic_ok_def\<close>)
qed

section \<open>Properties\<close>

text \<open>
  C27. Selection, in every state whose priorities and threshold have three bits, whatever words are in use. The bits of the
  words that have an enabled and a pending bit each are counted from 0; the enabled and pending ones among them whose priority reaches
  the threshold are the candidates. Those already claimed lose their pending bit; of the others the controller picks the one
  of highest priority, and among equal priorities the one with the highest number, signals it unless the number is 0, and puts
  the number into the claim register. Nothing else changes. Two points differ from what the program documents: the
  comment in \<open>plic.h\<close> gives equal priorities to the lower number, and the number is the interrupt's own only if no word is
  skipped before it (lemma \<open>plic_source_same\<close>), since the skipped words are not counted.
\<close>

theorem plic_selection:
  assumes "plic_ok p"
  shows "\<exists>q b. plic_update p = Inr (q, of_bool (b \<noteq> 0)) \<and> plic_chosen p (32 * length (plic_live p)) b \<and> plic_wf q \<and>
    (\<forall>g k. k < plic_count g \<and> g \<noteq> plic_pending_bits \<longrightarrow>
       plic_word q g k = (if g = plic_claim_complete then of_nat b else plic_word p g k)) \<and>
    (\<forall>i < 8. \<forall>k. bit (plic_word q plic_pending_bits i) k \<longleftrightarrow>
       bit (plic_word p plic_pending_bits i) k \<and> \<not> plic_dropped p (32 * length (plic_live p)) i k)"
  by (rule plic_update_spec [OF assms])

theorem plic_selection_witness:
  "\<exists>p q. plic_word p plic_enable_bits 1 = 2 ^ 8 \<and> plic_word p plic_pending_bits 1 = 2 ^ 8 \<and> plic_source p 8 = 40 \<and>
     plic_update p = Inr (q, 1) \<and> plic_word q plic_claim_complete 0 = 8"
proof -
  obtain p where p: "plic_ok p" "plic_word p plic_enable_bits 1 = 2 ^ 8" "plic_word p plic_pending_bits 1 = 2 ^ 8"
    "\<And>k. k \<noteq> 1 \<Longrightarrow> k < 8 \<Longrightarrow> plic_word p plic_enable_bits k = 0" "\<And>k. k < 8 \<Longrightarrow> plic_word p plic_claimed_bits k = 0"
    "plic_word p plic_priority_threshold 0 = 0"
    by (rule plic_example [of 8 1]) simp_all
  have nz: "(2 ^ 8 :: u32) \<noteq> 0" by simp
  have "plic_idle p k \<longleftrightarrow> k \<noteq> 1" if "k < 8" for k using p(2-4) that nz unfolding plic_idle_def by metis
  then have live: "plic_live p = [1]" by (simp add: plic_live_def upt_rec)
  obtain q b where q: "plic_update p = Inr (q, of_bool (b \<noteq> 0))" "plic_chosen p 32 b" "plic_word q plic_claim_complete 0 = of_nat b"
    using plic_selection [OF p(1)] unfolding live by fastforce
  have two: "bit (2 ^ n :: u32) k \<longleftrightarrow> n < 32 \<and> k = n" for n k by (auto simp: bit_exp_iff)
  have bits: "bit (plic_word p plic_enable_bits 1) k \<longleftrightarrow> k = 8" "bit (plic_word p plic_pending_bits 1) k \<longleftrightarrow> k = 8" for k
    unfolding p(2,3) two by auto
  have "plic_free p k \<longleftrightarrow> k = 8" if "k < 32" for k
    using that p(5) [of 1] bits [of k] p(6) by (auto simp: plic_free_def plic_cand_def plic_claimed_def plic_reg_def live)
  moreover from this have "\<exists>k < 32. plic_free p k" by (intro exI [of _ 8]) simp
  ultimately have "b = 8" using q(2) by (auto simp: plic_chosen_def plic_best_def)
  moreover have "plic_source p 8 = 40" by (simp add: plic_source_def plic_reg_def live)
  ultimately show ?thesis using q p by auto
qed

text \<open>
  C28. Claim and completion. A read of the claim register returns the number that the last update left there and marks that
  interrupt as claimed, if it is pending; writing a number back unmarks it. Nothing else
  changes, and the priorities stay in their three bits. A number of 256 or more is written beyond the array of marks.
\<close>

theorem plic_claim_complete_protocol:
  assumes "xlen_ok TYPE('x::len)" "plic_ok p" "length v = 4"
  shows "(plic_word p plic_claim_complete 0 < 256 \<longrightarrow> (let c = plic_word p plic_claim_complete 0 in
      \<exists>q. plic_bus_access p l bus_read_access (PLIC_PRIO_CLAIM_ADDR_OFFS :: 'x word) v 4 = Inr (q, rv_ok, bytes_of 4 c) \<and>
        plic_ok q \<and> (\<forall>g k. k < plic_count g \<longrightarrow> plic_word q g k =
          (if g = plic_claimed_bits \<and> k = unat (c div 32) \<and> bit (plic_word p plic_pending_bits k) (unat (c mod 32))
           then assign_u32_bit (plic_word p g k) (unat (c mod 32)) 1 else plic_word p g k)))) \<and>
    (w < 256 \<longrightarrow> (\<exists>q. plic_bus_access p l bus_write_access (PLIC_PRIO_CLAIM_ADDR_OFFS :: 'x word) (bytes_of 4 w) 4 =
      Inr (q, rv_ok, bytes_of 4 w) \<and> plic_ok q \<and> (\<forall>g k. k < plic_count g \<longrightarrow> plic_word q g k =
        (if g = plic_claim_complete then w else if g = plic_claimed_bits \<and> k = unat (w div 32)
         then assign_u32_bit (plic_word p g k) (unat (w mod 32)) 0 else plic_word p g k)))) \<and>
    (256 \<le> (w :: u32) \<longrightarrow> plic_bus_access p l bus_write_access (PLIC_PRIO_CLAIM_ADDR_OFFS :: 'x word) (bytes_of 4 w) 4 =
      Inl OutOfBounds)"
  using plic_claim_read [OF assms refl] plic_complete_write [OF assms(1,2)] unfolding Let_def by blast

theorem plic_claim_complete_protocol_witness:
  "plic_bus_access plic_zero machine_mode bus_write_access (0x200004 :: u32) [0, 1, 0, 0] 4 = Inl OutOfBounds"
proof -
  have "bytes_of 4 (256 :: u32) = [0, 1, 0, 0]" by (simp add: bytes_of_def upt_rec)
  then show ?thesis
    using plic_claim_complete_protocol [where 'x = 32 and p = plic_zero and v = "[0, 0, 0, 0]" and w = 256 and l = machine_mode]
      plic_zero_ok by (simp add: PLIC_PRIO_CLAIM_ADDR_OFFS_def)
qed

end
