(* ===== verification/SimpleUart.thy ===== *)
theory SimpleUart
  imports Fifo
begin

text \<open>
  The two-register UART of \<open>src/peripherals/uart/simple_uart.c\<close> and \<open>simple_uart.h\<close>, the
  peripheral of the builds with \<open>USE_SIMPLE_UART\<close>. Characters that it prints are the list
  returned by the update. The mutex makes every operation atomic with respect to the receiving
  thread, so the operations are single steps here and the thread's \<open>simple_uart_add_rx_char\<close> one more.
\<close>

section \<open>State\<close>

record simple_uart_td =
  su_rx_triggered :: u8
  su_rx_fifo :: fifo_t
  su_rx_irq_enabled :: u8
  su_tx_triggered :: u8
  su_tx_fifo :: fifo_t
  su_tx_irq_enabled :: u8
  su_tx_needs_flush :: u8

definition SIMPLE_UART_FIFO_SIZE :: u32 where "SIMPLE_UART_FIFO_SIZE = 1"
definition SIMPLE_UART_TX_RX_REG :: "'x::len word" where "SIMPLE_UART_TX_RX_REG = 0"
definition SIMPLE_UART_STATUS_REG :: "'x::len word" where "SIMPLE_UART_STATUS_REG = 1"
definition SIMPLE_UART_RXEMPTY_BIT :: nat where "SIMPLE_UART_RXEMPTY_BIT = 0"
definition SIMPLE_UART_RXIEN_BIT :: nat where "SIMPLE_UART_RXIEN_BIT = 1"
definition SIMPLE_UART_TXEMPTY_BIT :: nat where "SIMPLE_UART_TXEMPTY_BIT = 2"
definition SIMPLE_UART_TXIEN_BIT :: nat where "SIMPLE_UART_TXIEN_BIT = 3"

definition simple_uart_init :: simple_uart_td where
  "simple_uart_init = \<lparr>su_rx_triggered = 0,
     su_rx_fifo = fifo_init (replicate (unat SIMPLE_UART_FIFO_SIZE) 0) SIMPLE_UART_FIFO_SIZE,
     su_rx_irq_enabled = 0, su_tx_triggered = 0,
     su_tx_fifo = fifo_init (replicate (unat SIMPLE_UART_FIFO_SIZE) 0) SIMPLE_UART_FIFO_SIZE,
     su_tx_irq_enabled = 0, su_tx_needs_flush = 0\<rparr>"

section \<open>Operations\<close>

text \<open>\<open>fifo_out(fifo, &c, 1)\<close>: the variable keeps its value when the queue is empty.\<close>

definition fifo_out_char :: "fifo_t \<Rightarrow> u8 \<Rightarrow> (fifo_t \<times> u8) res" where
  "fifo_out_char f c = res_bind (fifo_out f 1) (\<lambda>(f, d, n). Inr (f, case d of [] \<Rightarrow> c | b # _ \<Rightarrow> b))"

definition simple_uart_bus_access :: "('x::len, simple_uart_td) bus_access_func" where
  "simple_uart_bus_access uart priv_level access_type address value len =
    (if len \<noteq> 1 then Inl Die
     else if access_type = bus_write_access then
       res_bind (arr_get value 0) (\<lambda>val_u8.
         if address = SIMPLE_UART_TX_RX_REG then
           res_bind (fifo_in (su_tx_fifo uart) [val_u8] 1) (\<lambda>(f, _).
             Inr (uart\<lparr>su_tx_fifo := f,
                su_tx_needs_flush := (if val_u8 = 10 then 1 else su_tx_needs_flush uart),
                su_tx_triggered := 0\<rparr>, rv_ok, value))
         else if address = SIMPLE_UART_STATUS_REG then
           Inr (uart\<lparr>su_rx_irq_enabled := extract8 val_u8 SIMPLE_UART_RXIEN_BIT 1,
              su_tx_irq_enabled := extract8 val_u8 SIMPLE_UART_TXIEN_BIT 1\<rparr>, rv_ok, value)
         else Inl Die)
     else
       if address = SIMPLE_UART_TX_RX_REG then
         res_bind (fifo_out_char (su_rx_fifo uart) 0) (\<lambda>(f, val_u8).
         res_bind (arr_write value 0 [val_u8]) (\<lambda>value.
           Inr (uart\<lparr>su_rx_fifo := f\<rparr>, rv_ok, value)))
       else if address = SIMPLE_UART_STATUS_REG then
         let val_u8 = push_bit SIMPLE_UART_RXEMPTY_BIT (of_bool (fifo_is_empty (su_rx_fifo uart)))
               OR push_bit SIMPLE_UART_TXEMPTY_BIT (of_bool (fifo_is_empty (su_tx_fifo uart)))
               OR push_bit SIMPLE_UART_RXIEN_BIT (su_rx_irq_enabled uart)
               OR push_bit SIMPLE_UART_TXIEN_BIT (su_tx_irq_enabled uart)
         in res_bind (arr_write value 0 [val_u8]) (\<lambda>value. Inr (uart, rv_ok, value))
       else Inl Die)"

text \<open>The flush loop: \<open>n\<close> more characters are taken and printed.\<close>

primrec fifo_drain :: "nat \<Rightarrow> fifo_t \<Rightarrow> u8 \<Rightarrow> (fifo_t \<times> u8 list) res" where
  "fifo_drain 0 f tmp_char = Inr (f, [])"
| "fifo_drain (Suc n) f tmp_char =
     res_bind (fifo_out_char f tmp_char) (\<lambda>(f, c).
     res_bind (fifo_drain n f c) (\<lambda>(f, printed). Inr (f, c # printed)))"

definition simple_uart_update :: "simple_uart_td \<Rightarrow> (simple_uart_td \<times> u8 \<times> u8 list) res" where
  "simple_uart_update uart =
     res_bind
       (if fifo_is_full (su_tx_fifo uart) \<or> su_tx_needs_flush uart \<noteq> 0 then
          let tmp_fifo_len = (ucast (fifo_len (su_tx_fifo uart)) :: u8) in
          res_bind (fifo_drain (unat tmp_fifo_len) (su_tx_fifo uart) 0) (\<lambda>(f, printed).
            Inr (uart\<lparr>su_tx_fifo := f, su_tx_needs_flush := 0\<rparr>, printed))
        else Inr (uart, []))
       (\<lambda>(uart, printed).
         if su_rx_irq_enabled uart \<noteq> 0 \<and> fifo_is_full (su_rx_fifo uart) then
           Inr (uart\<lparr>su_rx_triggered := 1\<rparr>, 1, printed)
         else if su_tx_irq_enabled uart \<noteq> 0 \<and> fifo_is_empty (su_tx_fifo uart) then
           Inr (uart\<lparr>su_tx_triggered := 1\<rparr>, 1, printed)
         else Inr (uart, 0, printed))"

definition simple_uart_add_rx_char :: "simple_uart_td \<Rightarrow> u8 \<Rightarrow> simple_uart_td res" where
  "simple_uart_add_rx_char uart x =
     res_bind (fifo_in (su_rx_fifo uart) [x] 1) (\<lambda>(f, _). Inr (uart\<lparr>su_rx_fifo := f\<rparr>))"

end
