(* ===== verification/Uart8250.thy ===== *)
theory Uart8250
  imports SimpleUart
begin

text \<open>
  The 8250-style UART of \<open>src/peripherals/uart/uart_8250.c\<close> and \<open>uart_8250.h\<close>, the peripheral of
  the builds without \<open>USE_SIMPLE_UART\<close>. The read branch stores its result through a pointer to a
  register-wide integer although the bus asks for one byte; \<open>uart_read_reg\<close> is the value it stores and
  \<open>uart_bus_access\<close> the store into the caller's buffer.
\<close>

section \<open>State\<close>

definition UART_NS8250_NR_REGS :: nat where "UART_NS8250_NR_REGS = 12"
definition UART_NS8250_FIFO_SIZE :: u32 where "UART_NS8250_FIFO_SIZE = 16"
definition NO_IRQ_PENDING :: u8 where "NO_IRQ_PENDING = 1"

definition REG_RX_TX_DIV_LATCH_LO :: nat where "REG_RX_TX_DIV_LATCH_LO = 0"
definition REG_IER_LATCH_HI :: nat where "REG_IER_LATCH_HI = 1"
definition REG_IIR :: nat where "REG_IIR = 2"
definition REG_FCR :: nat where "REG_FCR = 2"
definition REG_LCR :: nat where "REG_LCR = 3"
definition REG_MCR :: nat where "REG_MCR = 4"
definition REG_LSR :: nat where "REG_LSR = 5"
definition REG_MSR :: nat where "REG_MSR = 6"

lemmas uart_reg_defs = REG_RX_TX_DIV_LATCH_LO_def REG_IER_LATCH_HI_def REG_IIR_def REG_FCR_def REG_LCR_def
  REG_MCR_def REG_LSR_def REG_MSR_def

record uart_ns8250_td =
  u_dlab :: u8
  u_irq_enabled_rx_data_available :: u8
  u_irq_enabled_tx_holding_reg_empty :: u8
  u_irq_enabled_rlsr_change :: u8
  u_irq_enabled_msr_change :: u8
  u_irq_enabled_sleep :: u8
  u_irq_enabled_low_power :: u8
  u_fifo_enabled :: u8
  u_tx_fifo :: fifo_t
  u_tx_needs_flush :: u8
  u_tx_stop_triggering :: u8
  u_rx_fifo :: fifo_t
  u_rx_irq_fifo_level :: u8
  u_lsr_change :: u8
  u_curr_iir_id :: u8
  u_regs :: "u8 list"

definition uart_init :: uart_ns8250_td where
  "uart_init = \<lparr>u_dlab = 0, u_irq_enabled_rx_data_available = 0, u_irq_enabled_tx_holding_reg_empty = 0,
     u_irq_enabled_rlsr_change = 0, u_irq_enabled_msr_change = 0, u_irq_enabled_sleep = 0,
     u_irq_enabled_low_power = 0, u_fifo_enabled = 0,
     u_tx_fifo = fifo_init (replicate (unat UART_NS8250_FIFO_SIZE) 0) UART_NS8250_FIFO_SIZE,
     u_tx_needs_flush = 0, u_tx_stop_triggering = 0,
     u_rx_fifo = fifo_init (replicate (unat UART_NS8250_FIFO_SIZE) 0) UART_NS8250_FIFO_SIZE,
     u_rx_irq_fifo_level = 1, u_lsr_change = 0, u_curr_iir_id = 1,
     u_regs = replicate UART_NS8250_NR_REGS 0\<rparr>"

section \<open>Operations\<close>

definition uart_set_reg :: "uart_ns8250_td \<Rightarrow> nat \<Rightarrow> u8 \<Rightarrow> uart_ns8250_td res" where
  "uart_set_reg uart i v = res_bind (arr_set (u_regs uart) i v) (\<lambda>r. Inr (uart\<lparr>u_regs := r\<rparr>))"

text \<open>The write branch of the bus access: the register number and the byte.\<close>

definition uart_write_reg :: "uart_ns8250_td \<Rightarrow> nat \<Rightarrow> u8 \<Rightarrow> uart_ns8250_td res" where
  "uart_write_reg uart address val_u8 =
    (if address = REG_RX_TX_DIV_LATCH_LO then
       if u_dlab uart = 0 then
         res_bind (fifo_in (u_tx_fifo uart) [val_u8] 1) (\<lambda>(f, _).
         let uart = uart\<lparr>u_tx_fifo := f\<rparr>;
             uart = (if u_fifo_enabled uart = 0 \<or> val_u8 = 10 then uart\<lparr>u_tx_needs_flush := 1\<rparr> else uart)
         in res_bind (arr_get (u_regs uart) REG_IIR) (\<lambda>iir.
           Inr (if iir = 2 then uart\<lparr>u_tx_stop_triggering := 0\<rparr> else uart)))
       else Inr uart
     else if address = REG_IER_LATCH_HI then
       if u_dlab uart = 0 then
         uart_set_reg (uart\<lparr>u_irq_enabled_rx_data_available := extract8 val_u8 0 1,
            u_irq_enabled_tx_holding_reg_empty := extract8 val_u8 1 1,
            u_irq_enabled_rlsr_change := extract8 val_u8 2 1,
            u_irq_enabled_msr_change := extract8 val_u8 3 1,
            u_irq_enabled_sleep := extract8 val_u8 4 1,
            u_irq_enabled_low_power := extract8 val_u8 5 1\<rparr>) REG_IER_LATCH_HI val_u8
       else Inr uart
     else if address = REG_FCR then
       if CHECK_BIT val_u8 3 then Inl Die
       else
         let uart = (if CHECK_BIT val_u8 1 then uart\<lparr>u_rx_fifo := fifo_reset (u_rx_fifo uart)\<rparr> else uart);
             uart = (if CHECK_BIT val_u8 2 then uart\<lparr>u_tx_fifo := fifo_reset (u_tx_fifo uart)\<rparr> else uart);
             tmp_bits = extract8 val_u8 6 2
         in Inr (uart\<lparr>u_fifo_enabled := extract8 val_u8 0 1,
              u_rx_irq_fifo_level := (if tmp_bits = 3 then 14 else if tmp_bits = 2 then 8
                else if tmp_bits = 1 then 4 else 1)\<rparr>)
     else if address = REG_LCR then
       res_bind (uart_set_reg uart REG_LCR val_u8) (\<lambda>uart. Inr (uart\<lparr>u_dlab := extract8 val_u8 7 1\<rparr>))
     else if address = REG_MCR then uart_set_reg uart REG_MCR val_u8
     else Inl Die)"

text \<open>The read branch: the new state and the value that is stored, \<open>None\<close> when nothing is stored.\<close>

definition uart_read_reg :: "uart_ns8250_td \<Rightarrow> nat \<Rightarrow> (uart_ns8250_td \<times> u8 option) res" where
  "uart_read_reg uart address =
    (if address = REG_RX_TX_DIV_LATCH_LO then
       if u_dlab uart = 0 then
         res_bind (fifo_out_char (u_rx_fifo uart) 0) (\<lambda>(f, tmp). Inr (uart\<lparr>u_rx_fifo := f\<rparr>, Some tmp))
       else Inr (uart, None)
     else if address = REG_IER_LATCH_HI then
       if u_dlab uart = 0 then
         Inr (uart, Some (u_irq_enabled_rx_data_available uart
            OR push_bit 1 (u_irq_enabled_tx_holding_reg_empty uart)
            OR push_bit 2 (u_irq_enabled_rlsr_change uart)
            OR push_bit 3 (u_irq_enabled_msr_change uart)
            OR push_bit 4 (u_irq_enabled_sleep uart)
            OR push_bit 5 (u_irq_enabled_low_power uart)))
       else Inr (uart, None)
     else if address = REG_IIR then
       res_bind (arr_get (u_regs uart) REG_IIR) (\<lambda>iir.
         Inr (if iir = 2 then uart\<lparr>u_curr_iir_id := NO_IRQ_PENDING, u_tx_stop_triggering := 1\<rparr> else uart, Some iir))
     else if address = REG_LSR then
       let data_avail = (of_bool (\<not> fifo_is_empty (u_rx_fifo uart)) :: u8);
           thr_empty = of_bool (fifo_is_empty (u_tx_fifo uart))
       in Inr (uart\<lparr>u_lsr_change := 0\<rparr>, Some (data_avail OR push_bit 5 thr_empty OR push_bit 6 thr_empty))
     else if address = REG_LCR then
       res_bind (arr_get (u_regs uart) REG_LCR) (\<lambda>lcr. Inr (uart, Some lcr))
     else if address = REG_MSR then Inr (uart, Some 0xb0)
     else if address = REG_MCR then Inr (uart, Some 0x8)
     else Inl Die)"

definition uart_bus_access :: "('x::len, uart_ns8250_td) bus_access_func" where
  "uart_bus_access uart priv_level access_type address value len =
    (if len \<noteq> 1 then Inl Die
     else if access_type = bus_write_access then
       res_bind (arr_get value 0) (\<lambda>val_u8.
       res_bind (uart_write_reg uart (unat address) val_u8) (\<lambda>uart. Inr (uart, rv_ok, value)))
     else
       res_bind (uart_read_reg uart (unat address)) (\<lambda>(uart, outval).
         case outval of
           None \<Rightarrow> Inr (uart, rv_ok, value)
         | Some v \<Rightarrow> res_bind (obj_write (LENGTH('x) div 8) value 0 (ucast v :: 'x word)) (\<lambda>value.
             Inr (uart, rv_ok, value))))"

text \<open>The flush flag is not cleared after the flush.\<close>

definition uart_update :: "uart_ns8250_td \<Rightarrow> (uart_ns8250_td \<times> u8 \<times> u8 list) res" where
  "uart_update uart =
     res_bind
       (if fifo_is_full (u_tx_fifo uart) \<or> u_tx_needs_flush uart \<noteq> 0 then
          let tmp_fifo_len = (ucast (fifo_len (u_tx_fifo uart)) :: u8) in
          res_bind (fifo_drain (unat tmp_fifo_len) (u_tx_fifo uart) 0) (\<lambda>(f, printed).
            Inr (uart\<lparr>u_tx_fifo := f\<rparr>, printed))
        else Inr (uart, []))
       (\<lambda>(uart, printed).
         let (uart, irq_trigger) =
           (if (u_irq_enabled_rlsr_change uart \<noteq> 0 \<or> u_irq_enabled_rx_data_available uart \<noteq> 0) \<and> u_lsr_change uart \<noteq> 0
            then (uart\<lparr>u_curr_iir_id := 0xC\<rparr>, 1)
            else if u_irq_enabled_rx_data_available uart \<noteq> 0 \<and>
                fifo_len (u_rx_fifo uart) \<ge> ucast (u_rx_irq_fifo_level uart)
            then (uart\<lparr>u_curr_iir_id := 0x4\<rparr>, 1)
            else if u_irq_enabled_tx_holding_reg_empty uart \<noteq> 0 \<and> fifo_is_empty (u_tx_fifo uart) \<and>
                u_tx_stop_triggering uart = 0
            then (uart\<lparr>u_curr_iir_id := 0x2\<rparr>, 1)
            else (uart, 0))
         in res_bind (uart_set_reg uart REG_IIR (u_curr_iir_id uart)) (\<lambda>uart. Inr (uart, irq_trigger, printed)))"

definition uart_add_rx_char :: "uart_ns8250_td \<Rightarrow> u8 \<Rightarrow> uart_ns8250_td res" where
  "uart_add_rx_char uart x =
     res_bind (fifo_in (u_rx_fifo uart) [x] 1) (\<lambda>(f, _). Inr (uart\<lparr>u_rx_fifo := f, u_lsr_change := 1\<rparr>))"

end
