(* ===== verification/UartSpec.thy ===== *)
theory UartSpec
  imports SimpleUart Uart8250
begin

text \<open>
  What the two UARTs promise: their queues stay well-formed, the periodic update and the reception of a character
  never fail, and the characters written to the transmitter are printed in their order.
\<close>

section \<open>Invariants\<close>

definition simple_uart_wf :: "simple_uart_td \<Rightarrow> bool" where
  "simple_uart_wf u \<longleftrightarrow> fifo_wf (su_rx_fifo u) \<and> fifo_wf (su_tx_fifo u) \<and> fifo_cap (su_tx_fifo u) < 256"

definition uart8250_wf :: "uart_ns8250_td \<Rightarrow> bool" where
  "uart8250_wf u \<longleftrightarrow> fifo_wf (u_rx_fifo u) \<and> fifo_wf (u_tx_fifo u) \<and> fifo_cap (u_tx_fifo u) < 256 \<and>
     length (u_regs u) = UART_NS8250_NR_REGS"

lemma fifo_in1_wf: "fifo_in f [x] 1 = Inr (f', k) \<Longrightarrow> fifo_wf f \<Longrightarrow> fifo_wf f' \<and> fifo_cap f' = fifo_cap f"
  using fifo_in1_spec [of f x] by auto

lemma fifo_out_char_ok: "fifo_wf f \<Longrightarrow> \<exists>f' c'. fifo_out_char f c = Inr (f', c') \<and> fifo_wf f'"
  using fifo_out1_spec [of f] by (auto simp: fifo_out_char_def split: list.splits)

lemma fifo_out_char_wf: "fifo_out_char f c = Inr (f', c') \<Longrightarrow> fifo_wf f \<Longrightarrow> fifo_wf f'"
  using fifo_out_char_ok [of f c] by auto

lemma uart_set_reg_wf: "uart_set_reg u i v = Inr u' \<Longrightarrow> uart8250_wf u \<Longrightarrow> uart8250_wf u'"
  by (auto simp: uart_set_reg_def uart8250_wf_def arr_set_def res_bind_eq_Inr_iff split: if_splits)

text \<open>The register writes of the 8250, one by one.\<close>

lemma uart_write_reg_at:
  "uart_write_reg u 0 v = (if u_dlab u = 0 then
     res_bind (fifo_in (u_tx_fifo u) [v] 1) (\<lambda>(f, _). res_bind (arr_get (u_regs u) 2) (\<lambda>iir.
       Inr (u\<lparr>u_tx_fifo := f, u_tx_needs_flush := (if u_fifo_enabled u = 0 \<or> v = 10 then 1 else u_tx_needs_flush u),
         u_tx_stop_triggering := (if iir = 2 then 0 else u_tx_stop_triggering u)\<rparr>))) else Inr u)"
  "uart_write_reg u 2 v = (if CHECK_BIT v 3 then Inl Die else
     Inr (u\<lparr>u_rx_fifo := (if CHECK_BIT v 1 then fifo_reset (u_rx_fifo u) else u_rx_fifo u),
       u_tx_fifo := (if CHECK_BIT v 2 then fifo_reset (u_tx_fifo u) else u_tx_fifo u),
       u_fifo_enabled := extract8 v 0 1, u_rx_irq_fifo_level := (let b = extract8 v 6 2 in
         if b = 3 then 14 else if b = 2 then 8 else if b = 1 then 4 else 1)\<rparr>))"
  "i \<notin> {0, 1, 2, 3, 4} \<Longrightarrow> uart_write_reg u i v = Inl Die"
  unfolding uart_write_reg_def uart_reg_defs Let_def by (auto simp: fun_eq_iff intro!: arg_cong [where f = "res_bind _"])

lemma uart_write_reg_wf:
  assumes "uart_write_reg u i v = Inr u'" "uart8250_wf u"
  shows "uart8250_wf u'"
proof -
  note wf = assms(2) [unfolded uart8250_wf_def]
  consider "i = 0" | "i = 1" | "i = 2" | "i = 3" | "i = 4"
    using assms(1) uart_write_reg_at(3) [of i u v] by fastforce
  then show ?thesis
  proof cases
    case 1
    obtain f n where "fifo_in (u_tx_fifo u) [v] 1 = Inr (f, n)" "fifo_wf f" "fifo_cap f = fifo_cap (u_tx_fifo u)"
      using fifo_in1_spec [of "u_tx_fifo u" v] wf by auto
    then show ?thesis
      using assms(1) wf 1 by (auto simp: uart_write_reg_at uart8250_wf_def arr_get_def split: if_splits)
  next
    case 3
    then show ?thesis using assms(1) wf by (auto simp: uart_write_reg_at uart8250_wf_def fifo_reset_wf split: if_splits)
  qed (use assms wf in \<open>auto simp: uart_write_reg_def uart_reg_defs Let_def res_bind_eq_Inr_iff uart_set_reg_def
      arr_set_def uart8250_wf_def split: if_splits\<close>)
qed

lemma uart_read_reg_wf: "uart_read_reg u i = Inr (u', v) \<Longrightarrow> uart8250_wf u \<Longrightarrow> uart8250_wf u'"
  by (auto simp: uart_read_reg_def Let_def res_bind_eq_Inr_iff uart8250_wf_def split: if_splits dest: fifo_out_char_wf)

section \<open>Transmission\<close>

lemma fifo_out_char_cons:
  "fifo_wf f \<Longrightarrow> fifo_contents f = b # bs \<Longrightarrow> \<exists>f'. fifo_out_char f c = Inr (f', b) \<and> fifo_wf f' \<and> fifo_cap f' = fifo_cap f \<and>
    fifo_contents f' = bs"
  using fifo_out1_spec [of f] by (auto simp: fifo_out_char_def)

text \<open>Draining as many characters as there are empties the queue, in its order.\<close>

lemma fifo_drain_all:
  "fifo_wf f \<Longrightarrow> n = length (fifo_contents f) \<Longrightarrow> \<exists>f'. fifo_drain n f c = Inr (f', fifo_contents f) \<and> fifo_wf f' \<and>
    fifo_cap f' = fifo_cap f \<and> fifo_contents f' = []"
proof (induction n arbitrary: f c)
  case (Suc n)
  then obtain b bs where b: "fifo_contents f = b # bs" by (cases "fifo_contents f") auto
  obtain f1 where f1: "fifo_out_char f c = Inr (f1, b)" "fifo_wf f1" "fifo_cap f1 = fifo_cap f" "fifo_contents f1 = bs"
    using fifo_out_char_cons [OF Suc.prems(1) b] by blast
  then show ?case using Suc.IH [OF f1(2), of b] Suc.prems(2) b f1(3,4) by auto
qed (auto simp: fifo_contents_def)

lemma fifo_drain_flush:
  assumes "fifo_wf f" "fifo_cap f < 256"
  shows "\<exists>f'. fifo_drain (unat (ucast (fifo_len f) :: u8)) f c = Inr (f', fifo_contents f) \<and> fifo_wf f' \<and>
    fifo_cap f' = fifo_cap f \<and> fifo_contents f' = []"
proof -
  have "length (fifo_contents f) < 256" using fifo_free_nat(2) [OF assms(1)] assms(2) by simp
  then have "unat (ucast (fifo_len f) :: u8) = length (fifo_contents f)"
    by (simp add: unsigned_ucast_eq take_bit_nat_eq_self)
  then show ?thesis using fifo_drain_all [OF assms(1) refl] by simp
qed

text \<open>
  The interface of a transmitter: a write appends to its queue unless that is full, and an update prints a
  first part of the queue, all of it when it is full.
\<close>

locale transmitter =
  fixes tx_write :: "'u \<Rightarrow> u8 \<Rightarrow> 'u res" and tx_update :: "'u \<Rightarrow> ('u \<times> u8 \<times> u8 list) res"
    and tx_queue :: "'u \<Rightarrow> u8 list" and tx_cap :: "'u \<Rightarrow> nat" and tx_ok :: "'u \<Rightarrow> bool"
  assumes tx_write_law: "tx_ok u \<Longrightarrow> \<exists>u'. tx_write u b = Inr u' \<and> tx_ok u' \<and> tx_cap u' = tx_cap u \<and>
      tx_queue u' = (if length (tx_queue u) < tx_cap u then tx_queue u @ [b] else tx_queue u)"
    and tx_update_law: "tx_ok u \<Longrightarrow> \<exists>u' irq printed. tx_update u = Inr (u', irq, printed) \<and> tx_ok u' \<and> tx_cap u' = tx_cap u \<and>
      tx_queue u = printed @ tx_queue u' \<and> (length (tx_queue u) = tx_cap u \<longrightarrow> tx_queue u' = [])"
begin

text \<open>\<open>Some b\<close> writes a character, \<open>None\<close> is an update; the results are the accepted and the printed characters.\<close>

primrec run :: "'u \<Rightarrow> u8 option list \<Rightarrow> ('u \<times> u8 list \<times> u8 list) res" where
  "run u [] = Inr (u, [], [])"
| "run u (opr # oprs) = (case opr of
     Some b \<Rightarrow> res_bind (tx_write u b) (\<lambda>u'. res_bind (run u' oprs) (\<lambda>(u'', acc, printed).
       Inr (u'', (if length (tx_queue u) < tx_cap u then b # acc else acc), printed)))
   | None \<Rightarrow> res_bind (tx_update u) (\<lambda>(u', _, p). res_bind (run u' oprs) (\<lambda>(u'', acc, printed). Inr (u'', acc, p @ printed))))"

lemma run_order:
  "tx_ok u \<Longrightarrow> \<exists>u' acc printed. run u oprs = Inr (u', acc, printed) \<and> tx_ok u' \<and> tx_cap u' = tx_cap u \<and>
    tx_queue u @ acc = printed @ tx_queue u'"
proof (induction oprs arbitrary: u)
  case (Cons opr oprs)
  show ?case
  proof (cases opr)
    case None
    obtain u1 irq p where u1: "tx_update u = Inr (u1, irq, p)" "tx_ok u1" "tx_cap u1 = tx_cap u" "tx_queue u = p @ tx_queue u1"
      using tx_update_law [OF Cons.prems] by blast
    then show ?thesis using Cons.IH [OF u1(2)] None by auto
  next
    case (Some b)
    obtain u1 where u1: "tx_write u b = Inr u1" "tx_ok u1" "tx_cap u1 = tx_cap u"
      "tx_queue u1 = (if length (tx_queue u) < tx_cap u then tx_queue u @ [b] else tx_queue u)"
      using tx_write_law [OF Cons.prems] by blast
    obtain u2 acc printed where "run u1 oprs = Inr (u2, acc, printed)" "tx_ok u2" "tx_cap u2 = tx_cap u1"
      "tx_queue u1 @ acc = printed @ tx_queue u2" using Cons.IH [OF u1(2)] by blast
    then show ?thesis using u1 Some by (auto split: if_splits)
  qed
qed simp

text \<open>A transmitter with room for one character prints each one at the next update.\<close>

lemma run_alternating:
  "tx_ok u \<Longrightarrow> tx_cap u = 1 \<Longrightarrow> tx_queue u = [] \<Longrightarrow>
    \<exists>u'. run u (concat (map (\<lambda>b. [Some b, None]) bs)) = Inr (u', bs, bs) \<and> tx_ok u' \<and> tx_queue u' = []"
proof (induction bs arbitrary: u)
  case (Cons b bs)
  obtain u1 where u1: "tx_write u b = Inr u1" "tx_ok u1" "tx_cap u1 = 1" "tx_queue u1 = [b]"
    using tx_write_law [OF Cons.prems(1), of b] Cons.prems(2,3) by auto
  obtain u2 irq where u2: "tx_update u1 = Inr (u2, irq, [b])" "tx_ok u2" "tx_cap u2 = 1" "tx_queue u2 = []"
    using tx_update_law [OF u1(2)] u1(3,4) by auto
  then show ?case using Cons.IH [OF u2(2-4)] Cons.prems u1 by auto
qed simp

end

text \<open>A character written to the transmit register, by a one-byte bus access.\<close>

definition simple_uart_tx :: "simple_uart_td \<Rightarrow> u8 \<Rightarrow> simple_uart_td res" where
  "simple_uart_tx u b = res_bind (simple_uart_bus_access u machine_mode bus_write_access (SIMPLE_UART_TX_RX_REG :: u32) [b] 1)
     (\<lambda>(u, _, _). Inr u)"

definition uart_tx :: "uart_ns8250_td \<Rightarrow> u8 \<Rightarrow> uart_ns8250_td res" where
  "uart_tx u b = res_bind (uart_bus_access u machine_mode bus_write_access (0 :: u32) [b] 1) (\<lambda>(u, _, _). Inr u)"

lemma simple_uart_tx_ok:
  assumes "simple_uart_wf u"
  shows "\<exists>u'. simple_uart_tx u b = Inr u' \<and> simple_uart_wf u' \<and> fifo_cap (su_tx_fifo u') = fifo_cap (su_tx_fifo u) \<and>
    fifo_contents (su_tx_fifo u') = (if length (fifo_contents (su_tx_fifo u)) < fifo_cap (su_tx_fifo u)
      then fifo_contents (su_tx_fifo u) @ [b] else fifo_contents (su_tx_fifo u))"
proof -
  obtain f n where "fifo_in (su_tx_fifo u) [b] 1 = Inr (f, n)" "fifo_wf f" "fifo_cap f = fifo_cap (su_tx_fifo u)"
    "fifo_contents f = (if length (fifo_contents (su_tx_fifo u)) < fifo_cap (su_tx_fifo u)
      then fifo_contents (su_tx_fifo u) @ [b] else fifo_contents (su_tx_fifo u))"
    using fifo_in1_spec [of "su_tx_fifo u" b] assms by (auto simp: simple_uart_wf_def)
  then show ?thesis
    using assms by (auto simp: simple_uart_tx_def simple_uart_bus_access_def arr_get_def simple_uart_wf_def)
qed

lemma uart_tx_ok:
  assumes "uart8250_wf u \<and> u_dlab u = 0"
  shows "\<exists>u'. uart_tx u b = Inr u' \<and> (uart8250_wf u' \<and> u_dlab u' = 0) \<and> fifo_cap (u_tx_fifo u') = fifo_cap (u_tx_fifo u) \<and>
    fifo_contents (u_tx_fifo u') = (if length (fifo_contents (u_tx_fifo u)) < fifo_cap (u_tx_fifo u)
      then fifo_contents (u_tx_fifo u) @ [b] else fifo_contents (u_tx_fifo u))"
proof -
  obtain f n where "fifo_in (u_tx_fifo u) [b] 1 = Inr (f, n)" "fifo_wf f" "fifo_cap f = fifo_cap (u_tx_fifo u)"
    "fifo_contents f = (if length (fifo_contents (u_tx_fifo u)) < fifo_cap (u_tx_fifo u)
      then fifo_contents (u_tx_fifo u) @ [b] else fifo_contents (u_tx_fifo u))"
    using fifo_in1_spec [of "u_tx_fifo u" b] assms by (auto simp: uart8250_wf_def)
  then show ?thesis
    using assms by (auto simp: uart_tx_def uart_bus_access_def arr_get_def uart8250_wf_def uart_write_reg_at
      UART_NS8250_NR_REGS_def)
qed

text \<open>The updates never fail. They print the whole queue, or nothing when it is neither full nor to be flushed.\<close>

lemma simple_uart_update_ok:
  assumes "simple_uart_wf u"
  shows "\<exists>u' irq printed. simple_uart_update u = Inr (u', irq, printed) \<and> simple_uart_wf u' \<and>
    fifo_cap (su_tx_fifo u') = fifo_cap (su_tx_fifo u) \<and> fifo_contents (su_tx_fifo u) = printed @ fifo_contents (su_tx_fifo u') \<and>
    (length (fifo_contents (su_tx_fifo u)) = fifo_cap (su_tx_fifo u) \<longrightarrow> fifo_contents (su_tx_fifo u') = [])"
proof -
  note wf = assms [unfolded simple_uart_wf_def]
  obtain f where "fifo_drain (unat (ucast (fifo_len (su_tx_fifo u)) :: u8)) (su_tx_fifo u) 0 = Inr (f, fifo_contents (su_tx_fifo u))"
    "fifo_wf f" "fifo_cap f = fifo_cap (su_tx_fifo u)" "fifo_contents f = []"
    using fifo_drain_flush [of "su_tx_fifo u" 0] wf by blast
  then show ?thesis
    using wf fifo_tests(2) [of "su_tx_fifo u"] by (auto simp: simple_uart_update_def simple_uart_wf_def Let_def)
qed

lemma uart_update_ok:
  assumes "uart8250_wf u"
  shows "\<exists>u' irq printed. uart_update u = Inr (u', irq, printed) \<and> uart8250_wf u' \<and> u_dlab u' = u_dlab u \<and>
    fifo_cap (u_tx_fifo u') = fifo_cap (u_tx_fifo u) \<and> fifo_contents (u_tx_fifo u) = printed @ fifo_contents (u_tx_fifo u') \<and>
    (length (fifo_contents (u_tx_fifo u)) = fifo_cap (u_tx_fifo u) \<longrightarrow> fifo_contents (u_tx_fifo u') = [])"
proof -
  note wf = assms [unfolded uart8250_wf_def]
  obtain f where "fifo_drain (unat (ucast (fifo_len (u_tx_fifo u)) :: u8)) (u_tx_fifo u) 0 = Inr (f, fifo_contents (u_tx_fifo u))"
    "fifo_wf f" "fifo_cap f = fifo_cap (u_tx_fifo u)" "fifo_contents f = []"
    using fifo_drain_flush [of "u_tx_fifo u" 0] wf by blast
  then show ?thesis
    using wf fifo_tests(2) [of "u_tx_fifo u"]
    by (auto simp: uart_update_def uart8250_wf_def Let_def uart_set_reg_def arr_set_def UART_NS8250_NR_REGS_def REG_IIR_def)
qed

lemma simple_uart_add_rx_char_ok: "simple_uart_wf u \<Longrightarrow> \<exists>u'. simple_uart_add_rx_char u x = Inr u' \<and> simple_uart_wf u'"
  using fifo_in1_spec [of "su_rx_fifo u" x] by (auto simp: simple_uart_add_rx_char_def simple_uart_wf_def)

lemma uart_add_rx_char_ok: "uart8250_wf u \<Longrightarrow> \<exists>u'. uart_add_rx_char u x = Inr u' \<and> uart8250_wf u'"
  using fifo_in1_spec [of "u_rx_fifo u" x] by (auto simp: uart_add_rx_char_def uart8250_wf_def)

interpretation simple_tx: transmitter simple_uart_tx simple_uart_update "\<lambda>u. fifo_contents (su_tx_fifo u)"
    "\<lambda>u. fifo_cap (su_tx_fifo u)" simple_uart_wf
  by unfold_locales (rule simple_uart_tx_ok simple_uart_update_ok; assumption)+

interpretation ns8250_tx: transmitter uart_tx uart_update "\<lambda>u. fifo_contents (u_tx_fifo u)"
    "\<lambda>u. fifo_cap (u_tx_fifo u)" "\<lambda>u. uart8250_wf u \<and> u_dlab u = 0"
proof unfold_locales
  fix u b assume ok: "uart8250_wf u \<and> u_dlab u = 0"
  from uart_tx_ok [OF ok] show "\<exists>u'. uart_tx u b = Inr u' \<and> (uart8250_wf u' \<and> u_dlab u' = 0) \<and>
    fifo_cap (u_tx_fifo u') = fifo_cap (u_tx_fifo u) \<and>
    fifo_contents (u_tx_fifo u') = (if length (fifo_contents (u_tx_fifo u)) < fifo_cap (u_tx_fifo u)
      then fifo_contents (u_tx_fifo u) @ [b] else fifo_contents (u_tx_fifo u))" .
  from uart_update_ok ok show "\<exists>u' irq printed. uart_update u = Inr (u', irq, printed) \<and> (uart8250_wf u' \<and> u_dlab u' = 0) \<and>
    fifo_cap (u_tx_fifo u') = fifo_cap (u_tx_fifo u) \<and> fifo_contents (u_tx_fifo u) = printed @ fifo_contents (u_tx_fifo u') \<and>
    (length (fifo_contents (u_tx_fifo u)) = fifo_cap (u_tx_fifo u) \<longrightarrow> fifo_contents (u_tx_fifo u') = [])"
    by metis
qed

lemma uart_init_wf: "simple_uart_wf simple_uart_init" "uart8250_wf uart_init"
  using fifo_init_wf(1) [of 0 "[0]"] fifo_init_wf(1) [of 4 "replicate 16 0"]
  by (simp_all add: simple_uart_wf_def uart8250_wf_def simple_uart_init_def uart_init_def SIMPLE_UART_FIFO_SIZE_def
    UART_NS8250_FIFO_SIZE_def fifo_init_wf(3))

section \<open>Properties\<close>

text \<open>
  C33. The initial UARTs never fail on a sequence of character writes and periodic updates, in any order, and print
  the accepted characters in the order in which they were written; a character that was accepted and not yet
  printed is still in the queue.
\<close>

theorem uart_transmit_order:
  "(\<exists>u acc printed. simple_tx.run simple_uart_init oprs = Inr (u, acc, printed) \<and> acc = printed @ fifo_contents (su_tx_fifo u)) \<and>
   (\<exists>u acc printed. ns8250_tx.run uart_init oprs = Inr (u, acc, printed) \<and> acc = printed @ fifo_contents (u_tx_fifo u))"
proof (intro conjI)
  have e: "fifo_contents (su_tx_fifo simple_uart_init) = []" "fifo_contents (u_tx_fifo uart_init) = []" "u_dlab uart_init = 0"
    by (simp_all add: simple_uart_init_def uart_init_def fifo_init_wf)
  show "\<exists>u acc printed. simple_tx.run simple_uart_init oprs = Inr (u, acc, printed) \<and> acc = printed @ fifo_contents (su_tx_fifo u)"
    using simple_tx.run_order [OF uart_init_wf(1), of oprs] e by auto
  show "\<exists>u acc printed. ns8250_tx.run uart_init oprs = Inr (u, acc, printed) \<and> acc = printed @ fifo_contents (u_tx_fifo u)"
    using ns8250_tx.run_order [of uart_init oprs] uart_init_wf(2) e by auto
qed

text \<open>
  With an update after each write, as in the main loop, the simple UART accepts and prints every character
  exactly once: what is written is what is printed.
\<close>

theorem simple_uart_prints_all:
  "\<exists>u. simple_tx.run simple_uart_init (concat (map (\<lambda>b. [Some b, None]) bs)) = Inr (u, bs, bs)"
proof -
  have "fifo_contents (su_tx_fifo simple_uart_init) = []" "fifo_cap (su_tx_fifo simple_uart_init) = 1"
    by (simp_all add: simple_uart_init_def fifo_init_wf SIMPLE_UART_FIFO_SIZE_def)
  then show ?thesis using simple_tx.run_alternating [OF uart_init_wf(1)] by blast
qed

end
