(* ===== verification/CoreState.thy ===== *)
theory CoreState
  imports Csr Trap Pmp Mmu
begin

text \<open>
  The state of the processor core, \<open>rv_core_td\<close> of \<open>src/core/core.h\<close>, and the functions of
  \<open>src/core/core.c\<close> between the instructions and the bus: the pending synchronous trap, and the
  memory accesses that pass the PMP check and the address translation.

  The core is hooked to its system by a function pointer \<open>bus_access\<close> and the state \<open>priv\<close> behind it;
  the function is an argument \<open>bus\<close> of every operation that uses it, and the state, of type \<open>'p\<close>,
  is the field \<open>c_priv\<close>. The instruction to run next (\<open>execute_cb\<close>) is an element of \<open>instr\<close>, one
  for each function \<open>instr_*\<close>, grouped as the source groups them.
\<close>

section \<open>State\<close>

datatype instr_base = NOP | LUI | AUIPC | JAL | JALR | BEQ | BNE | BLT | BGE | BLTU | BGEU

datatype instr_alu =
    ADDI | SLTI | SLTIU | XORI | ORI | ANDI | SLLI | SRAI | SRLI
  | ADD | SUB | SLL | SLT | SLTU | XOR_i | SRL | OR_i | AND_i | SRA

datatype instr_mem = LB | LH | LW | LBU | LHU | SB | SH | SW | LWU | LD | SD

datatype instr_word = SRAIW | ADDIW | SLLIW | SRLIW | SRLW | SRAW | SLLW | ADDW | SUBW

datatype instr_system =
  CSRRW | CSRRS | CSRRC | CSRRWI | CSRRSI | CSRRCI | ECALL | EBREAK | MRET | SRET | URET

datatype instr_amo =
  LR | SC | AMOSWAP | AMOADD | AMOXOR | AMOAND | AMOOR | AMOMIN | AMOMAX | AMOMINU | AMOMAXU

datatype instr_mul = DIV_i | DIVU | REM | REMU | MUL_i | MULH | MULHU | MULHSU_i | MULW | DIVW | DIVUW | REMW | REMUW

datatype instr =
    i_base instr_base | i_alu instr_alu | i_mem instr_mem | i_word instr_word | i_system instr_system
  | i_amo_w instr_amo | i_amo_d instr_amo | i_mul instr_mul

text \<open>The three components that CSR callbacks reach through their \<open>priv\<close> pointers.\<close>

type_synonym 'x csr_dev = "'x trap_td \<times> 'x pmp_td \<times> 'x mmu_td"

record (overloaded) ('x, 'p) rv_core_td =
  curr_priv_mode :: privilege_level
  curr_cycle :: u64
  c_x :: "u8 \<Rightarrow> 'x word"
  c_pc :: "'x word"
  c_next_pc :: "'x word"
  c_instruction :: u32
  c_opcode :: u8
  c_rd :: u8
  c_rs1 :: u8
  c_rs2 :: u8
  c_func3 :: u8
  c_func7 :: u8
  c_func6 :: u8
  c_func5 :: u8
  c_immediate :: "'x word"
  c_jump_offset :: "'x word"
  sync_trap_pending :: bool
  sync_trap_cause :: "'x word"
  sync_trap_tval :: "'x word"
  execute_cb :: "instr option"
  c_priv :: 'p
  csr_regs :: "('x, 'x csr_dev) csr_file"
  c_pmp :: "'x pmp_td"
  c_trap :: "'x trap_td"
  c_mmu :: "'x mmu_td"
  lr_valid :: bool
  lr_address :: "'x word"

definition set_x :: "u8 \<Rightarrow> 'x::len word \<Rightarrow> ('x, 'p) rv_core_td \<Rightarrow> ('x, 'p) rv_core_td" where
  "set_x r v c = c\<lparr>c_x := (c_x c)(r := v)\<rparr>"

definition ADDR_MISALIGNED :: "'x::len word \<Rightarrow> bool" where
  "ADDR_MISALIGNED addr = (addr AND 0x3 \<noteq> 0)"

definition exc_word :: "trap_cause_exception \<Rightarrow> 'x::len word" where
  "exc_word e = of_nat (exc_code e)"

section \<open>Traps and memory accesses\<close>

definition prepare_sync_trap :: "'x::len word \<Rightarrow> 'x word \<Rightarrow> ('x, 'p) rv_core_td \<Rightarrow> ('x, 'p) rv_core_td" where
  "prepare_sync_trap cause tval c =
    (if \<not> sync_trap_pending c
     then c\<lparr>sync_trap_pending := True, sync_trap_cause := cause, sync_trap_tval := tval\<rparr> else c)"

definition check_mprv_override :: "('x::len, 'p) rv_core_td \<Rightarrow> bus_access_type \<Rightarrow> privilege_level" where
  "check_mprv_override c access_type =
    (if access_type = bus_instr_access then curr_priv_mode c
     else
       let status = regs_data (c_trap c) (trap_m_regs trap_reg_status);
           mprv = extractxlen status TRAP_XSTATUS_MPRV_BIT 1;
           ret_val = priv_of_bits (extractxlen status TRAP_XSTATUS_MPP_BIT 2)
       in if mprv \<noteq> 0 then ret_val else curr_priv_mode c)"

definition pmp_checked_bus_access ::
  "('x::len, 'p) bus_access_func \<Rightarrow> ('x, ('x, 'p) rv_core_td) bus_access_func" where
  "pmp_checked_bus_access bus c priv_level access_type addr value len =
    (let trap_cause = (if access_type = bus_instr_access then exc_word trap_cause_instr_access_fault
           else if access_type = bus_read_access then exc_word trap_cause_load_access_fault
           else exc_word trap_cause_store_amo_access_fault)
     in res_bind (pmp_mem_check (c_pmp c) priv_level addr len access_type) (\<lambda>ret.
       if ret \<noteq> rv_ok then Inr (prepare_sync_trap trap_cause addr c, rv_err, value)
       else res_bind (bus (c_priv c) priv_level access_type addr value len) (\<lambda>(p, r, value).
         Inr (c\<lparr>c_priv := p\<rparr>, r, value))))"

text \<open>The copy of \<open>value\<close> handed to the translation serves its debug output only.\<close>

definition mmu_checked_bus_access ::
  "('x::len, 'p) bus_access_func \<Rightarrow> ('x, ('x, 'p) rv_core_td) bus_access_func" where
  "mmu_checked_bus_access bus c priv_level access_type addr value len =
    (let internal_priv_level = check_mprv_override c access_type;
         trap_cause = (if access_type = bus_instr_access then exc_word trap_cause_instr_page_fault
           else if access_type = bus_read_access then exc_word trap_cause_load_page_fault
           else exc_word trap_cause_store_amo_page_fault);
         status = regs_data (c_trap c) (trap_m_regs trap_reg_status);
         mxr = (if CHECK_BIT status TRAP_XSTATUS_MXR_BIT then 1 else 0);
         sum_flag = (if CHECK_BIT status TRAP_XSTATUS_SUM_BIT then 1 else 0)
     in res_bind (mmu_virt_to_phys (pmp_checked_bus_access bus) (c_mmu c) c internal_priv_level addr access_type
           mxr sum_flag) (\<lambda>(mmu, c, mmu_ret_val, phys_addr).
       let c = c\<lparr>c_mmu := mmu\<rparr> in
       if mmu_ret_val \<noteq> mmu_ok then Inr (prepare_sync_trap trap_cause addr c, rv_err, value)
       else pmp_checked_bus_access bus c internal_priv_level access_type (ucast phys_addr) value len))"

text \<open>CSR accesses of the core: the callbacks work on the core's own components.\<close>

definition core_csr_read ::
  "('x::len, 'p) rv_core_td \<Rightarrow> u16 \<Rightarrow> 'x word \<Rightarrow> (rv_ret \<times> 'x word) res" where
  "core_csr_read c address out_val =
     csr_read_reg (csr_regs c) (c_trap c, c_pmp c, c_mmu c) (curr_priv_mode c) address out_val"

definition core_csr_write ::
  "('x::len, 'p) rv_core_td \<Rightarrow> u16 \<Rightarrow> 'x word \<Rightarrow> (('x, 'p) rv_core_td \<times> rv_ret) res" where
  "core_csr_write c address val =
     res_bind (csr_write_reg (csr_regs c) (c_trap c, c_pmp c, c_mmu c) (curr_priv_mode c) address val)
       (\<lambda>(csr, (trap, pmp, mmu), ret). Inr (c\<lparr>csr_regs := csr, c_trap := trap, c_pmp := pmp, c_mmu := mmu\<rparr>, ret))"

text \<open>A concrete core, from which the examples of the other theories start.\<close>

definition example_core :: "'p \<Rightarrow> (32, 'p) rv_core_td" where
  "example_core p = \<lparr>curr_priv_mode = machine_mode, curr_cycle = 0,
     c_x = (\<lambda>r. if r = 2 then 0x80000000 else if r = 3 then 0xFFFFFFFF else 0), c_pc = 0x1000, c_next_pc = 0,
     c_instruction = 0, c_opcode = 0, c_rd = 1, c_rs1 = 2, c_rs2 = 3, c_func3 = 0, c_func7 = 0, c_func6 = 0,
     c_func5 = 0, c_immediate = 0xFFC, c_jump_offset = 0, sync_trap_pending = False, sync_trap_cause = 0,
     sync_trap_tval = 0, execute_cb = None, c_priv = p, csr_regs = (\<lambda>_. csr_reg_zero), c_pmp = pmp_zero,
     c_trap = trap_init, c_mmu = mmu_init, lr_valid = False, lr_address = 0\<rparr>"

end
