(* ===== verification/Instr.thy ===== *)
theory Instr
  imports CoreState WideMul
begin

text \<open>
  The instructions of \<open>src/core/core.c\<close>: one definition for each function \<open>instr_*\<close>, with the
  integer conversions of the C code written out. An \<open>int32_t\<close> variable is a \<open>u32\<close> that is read with
  its sign (\<open>scast\<close>, \<open>sint\<close>), an \<open>rv_int_xlen\<close> one a word of the register width. Instructions that
  cannot fail return the new core; those that access memory or may stop return a fallible result.
\<close>

section \<open>Upper immediates, jumps and branches\<close>

definition instr_NOP :: "('x::len, 'p) rv_core_td \<Rightarrow> ('x, 'p) rv_core_td" where
  "instr_NOP c = c"

definition instr_LUI :: "('x::len, 'p) rv_core_td \<Rightarrow> ('x, 'p) rv_core_td" where
  "instr_LUI c = set_x (c_rd c) (push_bit 12 (c_immediate c)) c"

definition instr_AUIPC :: "('x::len, 'p) rv_core_td \<Rightarrow> ('x, 'p) rv_core_td" where
  "instr_AUIPC c = set_x (c_rd c) (c_pc c + push_bit 12 (c_immediate c)) c"

definition instr_JAL :: "('x::len, 'p) rv_core_td \<Rightarrow> ('x, 'p) rv_core_td res" where
  "instr_JAL c =
    (let c = set_x (c_rd c) (c_pc c + 4) c in
     if ADDR_MISALIGNED (c_jump_offset c) then Inl Die
     else Inr (c\<lparr>c_next_pc := c_pc c + c_jump_offset c\<rparr>))"

definition instr_JALR :: "('x::len, 'p) rv_core_td \<Rightarrow> ('x, 'p) rv_core_td res" where
  "instr_JALR c =
    (let cur_pc = c_pc c + 4;
         c = c\<lparr>c_jump_offset := SIGNEX_BIT 11 (c_immediate c)\<rparr>;
         c = c\<lparr>c_next_pc := c_x c (c_rs1 c) + c_jump_offset c\<rparr>;
         c = c\<lparr>c_next_pc := c_next_pc c AND NOT 1\<rparr>
     in if ADDR_MISALIGNED (c_next_pc c) then Inl Die
     else Inr (set_x (c_rd c) cur_pc c))"

text \<open>The common body of the six branches.\<close>

definition branch_if :: "bool \<Rightarrow> ('x::len, 'p) rv_core_td \<Rightarrow> ('x, 'p) rv_core_td res" where
  "branch_if taken c =
    (if taken then
       if ADDR_MISALIGNED (c_jump_offset c) then Inl Die
       else Inr (c\<lparr>c_next_pc := c_pc c + c_jump_offset c\<rparr>)
     else Inr c)"

definition instr_BEQ :: "('x::len, 'p) rv_core_td \<Rightarrow> ('x, 'p) rv_core_td res" where
  "instr_BEQ c = branch_if (c_x c (c_rs1 c) = c_x c (c_rs2 c)) c"

definition instr_BNE :: "('x::len, 'p) rv_core_td \<Rightarrow> ('x, 'p) rv_core_td res" where
  "instr_BNE c = branch_if (c_x c (c_rs1 c) \<noteq> c_x c (c_rs2 c)) c"

definition instr_BLT :: "('x::len, 'p) rv_core_td \<Rightarrow> ('x, 'p) rv_core_td res" where
  "instr_BLT c = branch_if (sint (c_x c (c_rs1 c)) < sint (c_x c (c_rs2 c))) c"

definition instr_BGE :: "('x::len, 'p) rv_core_td \<Rightarrow> ('x, 'p) rv_core_td res" where
  "instr_BGE c = branch_if (sint (c_x c (c_rs1 c)) \<ge> sint (c_x c (c_rs2 c))) c"

definition instr_BLTU :: "('x::len, 'p) rv_core_td \<Rightarrow> ('x, 'p) rv_core_td res" where
  "instr_BLTU c = branch_if (c_x c (c_rs1 c) < c_x c (c_rs2 c)) c"

definition instr_BGEU :: "('x::len, 'p) rv_core_td \<Rightarrow> ('x, 'p) rv_core_td res" where
  "instr_BGEU c = branch_if (c_x c (c_rs1 c) \<ge> c_x c (c_rs2 c)) c"

section \<open>Arithmetic with an immediate\<close>

definition instr_ADDI :: "('x::len, 'p) rv_core_td \<Rightarrow> ('x, 'p) rv_core_td" where
  "instr_ADDI c = set_x (c_rd c) (SIGNEX_BIT 11 (c_immediate c) + c_x c (c_rs1 c)) c"

definition instr_SLTI :: "('x::len, 'p) rv_core_td \<Rightarrow> ('x, 'p) rv_core_td" where
  "instr_SLTI c =
    (if sint (c_x c (c_rs1 c)) < sint (SIGNEX_BIT 11 (c_immediate c)) then set_x (c_rd c) 1 c else set_x (c_rd c) 0 c)"

definition instr_SLTIU :: "('x::len, 'p) rv_core_td \<Rightarrow> ('x, 'p) rv_core_td" where
  "instr_SLTIU c =
    (if c_x c (c_rs1 c) < SIGNEX_BIT 11 (c_immediate c) then set_x (c_rd c) 1 c else set_x (c_rd c) 0 c)"

definition instr_XORI :: "('x::len, 'p) rv_core_td \<Rightarrow> ('x, 'p) rv_core_td" where
  "instr_XORI c =
    (let signed_immediate = SIGNEX_BIT 11 (c_immediate c);
         c = c\<lparr>c_immediate := signed_immediate\<rparr>
     in if signed_immediate = - 1 then set_x (c_rd c) (c_x c (c_rs1 c) XOR - 1) c
        else set_x (c_rd c) (c_x c (c_rs1 c) XOR c_immediate c) c)"

definition instr_ORI :: "('x::len, 'p) rv_core_td \<Rightarrow> ('x, 'p) rv_core_td" where
  "instr_ORI c =
    (let c = c\<lparr>c_immediate := SIGNEX_BIT 11 (c_immediate c)\<rparr>
     in set_x (c_rd c) (c_x c (c_rs1 c) OR c_immediate c) c)"

definition instr_ANDI :: "('x::len, 'p) rv_core_td \<Rightarrow> ('x, 'p) rv_core_td" where
  "instr_ANDI c =
    (let c = c\<lparr>c_immediate := SIGNEX_BIT 11 (c_immediate c)\<rparr>
     in set_x (c_rd c) (c_x c (c_rs1 c) AND c_immediate c) c)"

definition instr_SLLI :: "('x::len, 'p) rv_core_td \<Rightarrow> ('x, 'p) rv_core_td" where
  "instr_SLLI c = set_x (c_rd c) (push_bit (unat (c_immediate c AND SHIFT_OP_MASK)) (c_x c (c_rs1 c))) c"

definition instr_SRAI :: "('x::len, 'p) rv_core_td \<Rightarrow> ('x, 'p) rv_core_td" where
  "instr_SRAI c = set_x (c_rd c) (signed_drop_bit (unat (c_immediate c AND SHIFT_OP_MASK)) (c_x c (c_rs1 c))) c"

definition instr_SRLI :: "('x::len, 'p) rv_core_td \<Rightarrow> ('x, 'p) rv_core_td" where
  "instr_SRLI c = set_x (c_rd c) (drop_bit (unat (c_immediate c AND SHIFT_OP_MASK)) (c_x c (c_rs1 c))) c"

section \<open>Arithmetic on registers\<close>

definition instr_ADD :: "('x::len, 'p) rv_core_td \<Rightarrow> ('x, 'p) rv_core_td" where
  "instr_ADD c = set_x (c_rd c) (c_x c (c_rs1 c) + c_x c (c_rs2 c)) c"

definition instr_SUB :: "('x::len, 'p) rv_core_td \<Rightarrow> ('x, 'p) rv_core_td" where
  "instr_SUB c = set_x (c_rd c) (c_x c (c_rs1 c) - c_x c (c_rs2 c)) c"

definition instr_SLL :: "('x::len, 'p) rv_core_td \<Rightarrow> ('x, 'p) rv_core_td" where
  "instr_SLL c = set_x (c_rd c) (push_bit (unat (c_x c (c_rs2 c) AND SHIFT_OP_MASK)) (c_x c (c_rs1 c))) c"

definition instr_SLT :: "('x::len, 'p) rv_core_td \<Rightarrow> ('x, 'p) rv_core_td" where
  "instr_SLT c =
    (if sint (c_x c (c_rs1 c)) < sint (c_x c (c_rs2 c)) then set_x (c_rd c) 1 c else set_x (c_rd c) 0 c)"

definition instr_SLTU :: "('x::len, 'p) rv_core_td \<Rightarrow> ('x, 'p) rv_core_td" where
  "instr_SLTU c =
    (if c_rs1 c = 0 then
       if c_x c (c_rs2 c) \<noteq> 0 then set_x (c_rd c) 1 c else set_x (c_rd c) 0 c
     else
       if c_x c (c_rs1 c) < c_x c (c_rs2 c) then set_x (c_rd c) 1 c else set_x (c_rd c) 0 c)"

definition instr_XOR :: "('x::len, 'p) rv_core_td \<Rightarrow> ('x, 'p) rv_core_td" where
  "instr_XOR c = set_x (c_rd c) (c_x c (c_rs1 c) XOR c_x c (c_rs2 c)) c"

definition instr_SRL :: "('x::len, 'p) rv_core_td \<Rightarrow> ('x, 'p) rv_core_td" where
  "instr_SRL c = set_x (c_rd c) (drop_bit (unat (c_x c (c_rs2 c) AND SHIFT_OP_MASK)) (c_x c (c_rs1 c))) c"

definition instr_OR :: "('x::len, 'p) rv_core_td \<Rightarrow> ('x, 'p) rv_core_td" where
  "instr_OR c = set_x (c_rd c) (c_x c (c_rs1 c) OR c_x c (c_rs2 c)) c"

definition instr_AND :: "('x::len, 'p) rv_core_td \<Rightarrow> ('x, 'p) rv_core_td" where
  "instr_AND c = set_x (c_rd c) (c_x c (c_rs1 c) AND c_x c (c_rs2 c)) c"

definition instr_SRA :: "('x::len, 'p) rv_core_td \<Rightarrow> ('x, 'p) rv_core_td" where
  "instr_SRA c = set_x (c_rd c) (signed_drop_bit (unat (c_x c (c_rs2 c) AND SHIFT_OP_MASK)) (c_x c (c_rs1 c))) c"

section \<open>Loads and stores\<close>

text \<open>
  \<open>load_to bus n f\<close>: a local variable of \<open>n\<close> bytes, zero at first, receives the bytes at the address;
  if the access succeeds the register gets \<open>f\<close> of it.
\<close>

definition load_to ::
  "('x::len, 'p) bus_access_func \<Rightarrow> nat \<Rightarrow> (u8 list \<Rightarrow> 'x word) \<Rightarrow> ('x, 'p) rv_core_td \<Rightarrow> ('x, 'p) rv_core_td res" where
  "load_to bus n f c =
    (let address = c_x c (c_rs1 c) + SIGNEX_BIT 11 (c_immediate c) in
     res_bind (mmu_checked_bus_access bus c (curr_priv_mode c) bus_read_access address (replicate n 0) (of_nat n))
       (\<lambda>(c, r, tmp_load_val). Inr (if r = rv_ok then set_x (c_rd c) (f tmp_load_val) c else c)))"

text \<open>\<open>store_from bus n buf\<close>: \<open>n\<close> bytes are written from the local variable with the bytes \<open>buf\<close>.\<close>

definition store_from ::
  "('x::len, 'p) bus_access_func \<Rightarrow> nat \<Rightarrow> u8 list \<Rightarrow> ('x, 'p) rv_core_td \<Rightarrow> ('x, 'p) rv_core_td res" where
  "store_from bus n buf c =
    (let address = c_x c (c_rs1 c) + SIGNEX_BIT 11 (c_immediate c) in
     res_bind (mmu_checked_bus_access bus c (curr_priv_mode c) bus_write_access address buf (of_nat n))
       (\<lambda>(c, r, _). Inr c))"

definition instr_LB :: "('x::len, 'p) bus_access_func \<Rightarrow> ('x, 'p) rv_core_td \<Rightarrow> ('x, 'p) rv_core_td res" where
  "instr_LB bus c = load_to bus 1 (\<lambda>v. SIGNEX_BIT 7 (ucast (word_of_bytes v :: u8))) c"

definition instr_LH :: "('x::len, 'p) bus_access_func \<Rightarrow> ('x, 'p) rv_core_td \<Rightarrow> ('x, 'p) rv_core_td res" where
  "instr_LH bus c = load_to bus 2 (\<lambda>v. SIGNEX_BIT 15 (ucast (word_of_bytes v :: u16))) c"

definition instr_LW :: "('x::len, 'p) bus_access_func \<Rightarrow> ('x, 'p) rv_core_td \<Rightarrow> ('x, 'p) rv_core_td res" where
  "instr_LW bus c = load_to bus 4 (\<lambda>v. scast (word_of_bytes v :: u32)) c"

definition instr_LBU :: "('x::len, 'p) bus_access_func \<Rightarrow> ('x, 'p) rv_core_td \<Rightarrow> ('x, 'p) rv_core_td res" where
  "instr_LBU bus c = load_to bus 1 (\<lambda>v. ucast (word_of_bytes v :: u8)) c"

definition instr_LHU :: "('x::len, 'p) bus_access_func \<Rightarrow> ('x, 'p) rv_core_td \<Rightarrow> ('x, 'p) rv_core_td res" where
  "instr_LHU bus c = load_to bus 2 (\<lambda>v. ucast (word_of_bytes v :: u16)) c"

definition instr_SB :: "('x::len, 'p) bus_access_func \<Rightarrow> ('x, 'p) rv_core_td \<Rightarrow> ('x, 'p) rv_core_td res" where
  "instr_SB bus c = store_from bus 1 (bytes_of 1 (ucast (c_x c (c_rs2 c)) :: u8)) c"

definition instr_SH :: "('x::len, 'p) bus_access_func \<Rightarrow> ('x, 'p) rv_core_td \<Rightarrow> ('x, 'p) rv_core_td res" where
  "instr_SH bus c = store_from bus 2 (bytes_of 2 (ucast (c_x c (c_rs2 c)) :: u16)) c"

definition instr_SW :: "('x::len, 'p) bus_access_func \<Rightarrow> ('x, 'p) rv_core_td \<Rightarrow> ('x, 'p) rv_core_td res" where
  "instr_SW bus c = store_from bus 4 (bytes_of (XLEN_BYTES TYPE('x)) (c_x c (c_rs2 c))) c"

definition instr_LWU :: "('x::len, 'p) bus_access_func \<Rightarrow> ('x, 'p) rv_core_td \<Rightarrow> ('x, 'p) rv_core_td res" where
  "instr_LWU bus c = load_to bus 4 (\<lambda>v. ucast (word_of_bytes v :: u32)) c"

definition instr_LD :: "('x::len, 'p) bus_access_func \<Rightarrow> ('x, 'p) rv_core_td \<Rightarrow> ('x, 'p) rv_core_td res" where
  "instr_LD bus c = load_to bus 8 word_of_bytes c"

definition instr_SD :: "('x::len, 'p) bus_access_func \<Rightarrow> ('x, 'p) rv_core_td \<Rightarrow> ('x, 'p) rv_core_td res" where
  "instr_SD bus c = store_from bus 8 (bytes_of (XLEN_BYTES TYPE('x)) (c_x c (c_rs2 c))) c"

section \<open>Word arithmetic of RV64\<close>

definition instr_SRAIW :: "('x::len, 'p) rv_core_td \<Rightarrow> ('x, 'p) rv_core_td" where
  "instr_SRAIW c = set_x (c_rd c) (scast (signed_drop_bit (unat (c_immediate c AND 0x1F)) (ucast (c_x c (c_rs1 c)) :: u32))) c"

definition instr_ADDIW :: "('x::len, 'p) rv_core_td \<Rightarrow> ('x, 'p) rv_core_td" where
  "instr_ADDIW c = set_x (c_rd c) (scast ((ucast (c_x c (c_rs1 c)) :: u32) + ucast (SIGNEX_BIT 11 (c_immediate c)))) c"

definition instr_SLLIW :: "('x::len, 'p) rv_core_td \<Rightarrow> ('x, 'p) rv_core_td" where
  "instr_SLLIW c = set_x (c_rd c) (scast (ucast (push_bit (unat (c_immediate c AND 0x1F)) (c_x c (c_rs1 c)) AND 0xFFFFFFFF) :: u32)) c"

definition instr_SRLIW :: "('x::len, 'p) rv_core_td \<Rightarrow> ('x, 'p) rv_core_td" where
  "instr_SRLIW c = set_x (c_rd c) (scast (drop_bit (unat (c_immediate c AND 0x1F)) (ucast (c_x c (c_rs1 c)) :: u32))) c"

definition instr_SRLW :: "('x::len, 'p) rv_core_td \<Rightarrow> ('x, 'p) rv_core_td" where
  "instr_SRLW c = set_x (c_rd c) (scast (drop_bit (unat (ucast (c_x c (c_rs2 c) AND 0x1F) :: u32)) (ucast (c_x c (c_rs1 c)) :: u32))) c"

definition instr_SRAW :: "('x::len, 'p) rv_core_td \<Rightarrow> ('x, 'p) rv_core_td" where
  "instr_SRAW c = set_x (c_rd c) (scast (signed_drop_bit (unat (ucast (c_x c (c_rs2 c) AND 0x1F) :: u32)) (ucast (c_x c (c_rs1 c)) :: u32))) c"

definition instr_SLLW :: "('x::len, 'p) rv_core_td \<Rightarrow> ('x, 'p) rv_core_td" where
  "instr_SLLW c = set_x (c_rd c) (scast (push_bit (unat (ucast (c_x c (c_rs2 c) AND 0x1F) :: u32)) (ucast (c_x c (c_rs1 c)) :: u32))) c"

definition instr_ADDW :: "('x::len, 'p) rv_core_td \<Rightarrow> ('x, 'p) rv_core_td" where
  "instr_ADDW c = set_x (c_rd c) (scast ((ucast (c_x c (c_rs1 c)) :: u32) + ucast (c_x c (c_rs2 c)))) c"

definition instr_SUBW :: "('x::len, 'p) rv_core_td \<Rightarrow> ('x, 'p) rv_core_td" where
  "instr_SUBW c = set_x (c_rd c) (scast ((ucast (c_x c (c_rs1 c)) :: u32) - ucast (c_x c (c_rs2 c)))) c"

section \<open>Control and status registers\<close>

text \<open>A failed register access raises the illegal instruction exception.\<close>

definition CSRRWx :: "'x::len word \<Rightarrow> ('x, 'p) rv_core_td \<Rightarrow> ('x, 'p) rv_core_td res" where
  "CSRRWx new_val c =
    (let csr_addr = (ucast (c_immediate c) :: u16) in
     res_bind (csr_get_mask (csr_regs c) csr_addr) (\<lambda>csr_mask.
     res_bind (if c_rd c \<noteq> 0 then core_csr_read c csr_addr 0 else Inr (rv_ok, 0)) (\<lambda>(ret, csr_val).
       if ret \<noteq> rv_ok then Inr (prepare_sync_trap (exc_word trap_cause_illegal_instr) 0 c)
       else
         let not_allowed_bits = csr_val AND NOT csr_mask;
             new_csr_val = not_allowed_bits OR (new_val AND csr_mask)
         in res_bind (core_csr_write c csr_addr new_csr_val) (\<lambda>(c, ret).
           if ret \<noteq> rv_ok then Inr (prepare_sync_trap (exc_word trap_cause_illegal_instr) 0 c)
           else Inr (set_x (c_rd c) (csr_val AND csr_mask) c)))))"

definition CSRRSx :: "'x::len word \<Rightarrow> ('x, 'p) rv_core_td \<Rightarrow> ('x, 'p) rv_core_td res" where
  "CSRRSx new_val c =
    (let csr_addr = (ucast (c_immediate c) :: u16) in
     res_bind (csr_get_mask (csr_regs c) csr_addr) (\<lambda>csr_mask.
     res_bind (core_csr_read c csr_addr 0) (\<lambda>(ret, csr_val).
       if ret \<noteq> rv_ok then Inr (prepare_sync_trap (exc_word trap_cause_illegal_instr) 0 c)
       else
         let new_csr_val = new_val AND csr_mask in
         res_bind (if c_rs1 c \<noteq> 0 then core_csr_write c csr_addr (csr_val OR new_csr_val) else Inr (c, rv_ok)) (\<lambda>(c, ret).
           if ret \<noteq> rv_ok then Inr (prepare_sync_trap (exc_word trap_cause_illegal_instr) 0 c)
           else Inr (set_x (c_rd c) (csr_val AND csr_mask) c)))))"

definition CSRRCx :: "'x::len word \<Rightarrow> ('x, 'p) rv_core_td \<Rightarrow> ('x, 'p) rv_core_td res" where
  "CSRRCx new_val c =
    (let csr_addr = (ucast (c_immediate c) :: u16) in
     res_bind (csr_get_mask (csr_regs c) csr_addr) (\<lambda>csr_mask.
     res_bind (core_csr_read c csr_addr 0) (\<lambda>(ret, csr_val).
       if ret \<noteq> rv_ok then Inr (prepare_sync_trap (exc_word trap_cause_illegal_instr) 0 c)
       else
         let new_csr_val = new_val AND csr_mask in
         res_bind (if c_rs1 c \<noteq> 0 then core_csr_write c csr_addr (csr_val AND NOT new_csr_val) else Inr (c, rv_ok)) (\<lambda>(c, ret).
           if ret \<noteq> rv_ok then Inr (prepare_sync_trap (exc_word trap_cause_illegal_instr) 0 c)
           else Inr (set_x (c_rd c) (csr_val AND csr_mask) c)))))"

definition instr_CSRRW :: "('x::len, 'p) rv_core_td \<Rightarrow> ('x, 'p) rv_core_td res" where
  "instr_CSRRW c = CSRRWx (c_x c (c_rs1 c)) c"

definition instr_CSRRS :: "('x::len, 'p) rv_core_td \<Rightarrow> ('x, 'p) rv_core_td res" where
  "instr_CSRRS c = CSRRSx (c_x c (c_rs1 c)) c"

definition instr_CSRRC :: "('x::len, 'p) rv_core_td \<Rightarrow> ('x, 'p) rv_core_td res" where
  "instr_CSRRC c = CSRRCx (c_x c (c_rs1 c)) c"

definition instr_CSRRWI :: "('x::len, 'p) rv_core_td \<Rightarrow> ('x, 'p) rv_core_td res" where
  "instr_CSRRWI c = CSRRWx (ucast (c_rs1 c)) c"

definition instr_CSRRSI :: "('x::len, 'p) rv_core_td \<Rightarrow> ('x, 'p) rv_core_td res" where
  "instr_CSRRSI c = CSRRSx (ucast (c_rs1 c)) c"

definition instr_CSRRCI :: "('x::len, 'p) rv_core_td \<Rightarrow> ('x, 'p) rv_core_td res" where
  "instr_CSRRCI c = CSRRCx (ucast (c_rs1 c)) c"

definition instr_ECALL :: "('x::len, 'p) rv_core_td \<Rightarrow> ('x, 'p) rv_core_td" where
  "instr_ECALL c =
     prepare_sync_trap (of_int (int (exc_code trap_cause_user_ecall) + priv_code (curr_priv_mode c))) 0 c"

definition instr_EBREAK :: "('x::len, 'p) rv_core_td \<Rightarrow> ('x, 'p) rv_core_td" where
  "instr_EBREAK c = c"

definition instr_MRET :: "('x::len, 'p) rv_core_td \<Rightarrow> ('x, 'p) rv_core_td res" where
  "instr_MRET c =
     res_bind (trap_restore_irq_settings (c_trap c) (curr_priv_mode c)) (\<lambda>(trap, restored_priv_level).
     let c = c\<lparr>c_trap := trap, curr_priv_mode := restored_priv_level\<rparr>
     in Inr (c\<lparr>c_next_pc := regs_data (c_trap c) (trap_m_regs trap_reg_epc)\<rparr>))"

definition instr_SRET :: "('x::len, 'p) rv_core_td \<Rightarrow> ('x, 'p) rv_core_td res" where
  "instr_SRET c =
     res_bind (trap_restore_irq_settings (c_trap c) (curr_priv_mode c)) (\<lambda>(trap, restored_priv_level).
     let c = c\<lparr>c_trap := trap, curr_priv_mode := restored_priv_level\<rparr>
     in Inr (c\<lparr>c_next_pc := regs_data (c_trap c) (trap_s_regs trap_reg_epc)\<rparr>))"

definition instr_URET :: "('x::len, 'p) rv_core_td \<Rightarrow> ('x, 'p) rv_core_td res" where
  "instr_URET c = Inl Hang"

section \<open>Atomic instructions\<close>

definition instr_LR_W :: "('x::len, 'p) bus_access_func \<Rightarrow> ('x, 'p) rv_core_td \<Rightarrow> ('x, 'p) rv_core_td res" where
  "instr_LR_W bus c = instr_LW bus (c\<lparr>lr_address := c_x c (c_rs1 c), lr_valid := True\<rparr>)"

definition instr_SC_W :: "('x::len, 'p) bus_access_func \<Rightarrow> ('x, 'p) rv_core_td \<Rightarrow> ('x, 'p) rv_core_td res" where
  "instr_SC_W bus c =
     res_bind
       (if lr_valid c \<and> lr_address c = c_x c (c_rs1 c) then
          res_bind (instr_SW bus c) (\<lambda>c. Inr (set_x (c_rd c) 0 c))
        else Inr (set_x (c_rd c) 1 c))
       (\<lambda>c. Inr (c\<lparr>lr_valid := False, lr_address := 0\<rparr>))"

definition instr_LR_D :: "('x::len, 'p) bus_access_func \<Rightarrow> ('x, 'p) rv_core_td \<Rightarrow> ('x, 'p) rv_core_td res" where
  "instr_LR_D bus c = instr_LD bus (c\<lparr>lr_address := c_x c (c_rs1 c), lr_valid := True\<rparr>)"

definition instr_SC_D :: "('x::len, 'p) bus_access_func \<Rightarrow> ('x, 'p) rv_core_td \<Rightarrow> ('x, 'p) rv_core_td res" where
  "instr_SC_D bus c =
     res_bind
       (if lr_valid c \<and> lr_address c = c_x c (c_rs1 c) then
          res_bind (instr_SD bus c) (\<lambda>c. Inr (set_x (c_rd c) 0 c))
        else Inr (set_x (c_rd c) 1 c))
       (\<lambda>c. Inr (c\<lparr>lr_valid := False, lr_address := 0\<rparr>))"

text \<open>
  The read-modify-write instructions share one body. The address and the operand in \<open>rs2\<close> are taken
  first, then the load writes \<open>rd\<close>, and the bytes \<open>f rd rs2\<close> go to the address.
\<close>

definition amo_body ::
  "nat \<Rightarrow> (('x::len, 'p) rv_core_td \<Rightarrow> ('x, 'p) rv_core_td res) \<Rightarrow> ('x word \<Rightarrow> 'x word \<Rightarrow> u8 list)
    \<Rightarrow> ('x, 'p) bus_access_func \<Rightarrow> ('x, 'p) rv_core_td \<Rightarrow> ('x, 'p) rv_core_td res" where
  "amo_body n load f bus c =
    (let address = c_x c (c_rs1 c);
         rs2_val = c_x c (c_rs2 c)
     in res_bind (load c) (\<lambda>c.
        let result = f (c_x c (c_rd c)) rs2_val in
        res_bind (mmu_checked_bus_access bus c (curr_priv_mode c) bus_write_access address result (of_nat n))
          (\<lambda>(c, r, _). Inr c)))"

definition instr_AMOSWAP_W :: "('x::len, 'p) bus_access_func \<Rightarrow> ('x, 'p) rv_core_td \<Rightarrow> ('x, 'p) rv_core_td res" where
  "instr_AMOSWAP_W bus c = amo_body 4 (instr_LW bus) (\<lambda>a b. bytes_of 4 (ucast b :: u32)) bus c"

definition instr_AMOADD_W :: "('x::len, 'p) bus_access_func \<Rightarrow> ('x, 'p) rv_core_td \<Rightarrow> ('x, 'p) rv_core_td res" where
  "instr_AMOADD_W bus c = amo_body 4 (instr_LW bus) (\<lambda>a b. bytes_of 4 ((ucast a :: u32) + ucast b)) bus c"

definition instr_AMOXOR_W :: "('x::len, 'p) bus_access_func \<Rightarrow> ('x, 'p) rv_core_td \<Rightarrow> ('x, 'p) rv_core_td res" where
  "instr_AMOXOR_W bus c = amo_body 4 (instr_LW bus) (\<lambda>a b. bytes_of 4 ((ucast a :: u32) XOR ucast b)) bus c"

definition instr_AMOAND_W :: "('x::len, 'p) bus_access_func \<Rightarrow> ('x, 'p) rv_core_td \<Rightarrow> ('x, 'p) rv_core_td res" where
  "instr_AMOAND_W bus c = amo_body 4 (instr_LW bus) (\<lambda>a b. bytes_of 4 ((ucast a :: u32) AND ucast b)) bus c"

definition instr_AMOOR_W :: "('x::len, 'p) bus_access_func \<Rightarrow> ('x, 'p) rv_core_td \<Rightarrow> ('x, 'p) rv_core_td res" where
  "instr_AMOOR_W bus c = amo_body 4 (instr_LW bus) (\<lambda>a b. bytes_of 4 ((ucast a :: u32) OR ucast b)) bus c"

definition instr_AMOMIN_W :: "('x::len, 'p) bus_access_func \<Rightarrow> ('x, 'p) rv_core_td \<Rightarrow> ('x, 'p) rv_core_td res" where
  "instr_AMOMIN_W bus c = amo_body 4 (instr_LW bus)
     (\<lambda>a b. bytes_of (XLEN_BYTES TYPE('x)) (scast (if sint (ucast a :: u32) < sint (ucast b :: u32) then ucast a else ucast b :: u32) :: 'x word)) bus c"

definition instr_AMOMAX_W :: "('x::len, 'p) bus_access_func \<Rightarrow> ('x, 'p) rv_core_td \<Rightarrow> ('x, 'p) rv_core_td res" where
  "instr_AMOMAX_W bus c = amo_body 4 (instr_LW bus)
     (\<lambda>a b. bytes_of (XLEN_BYTES TYPE('x)) (scast (if sint (ucast a :: u32) > sint (ucast b :: u32) then ucast a else ucast b :: u32) :: 'x word)) bus c"

definition instr_AMOMINU_W :: "('x::len, 'p) bus_access_func \<Rightarrow> ('x, 'p) rv_core_td \<Rightarrow> ('x, 'p) rv_core_td res" where
  "instr_AMOMINU_W bus c = amo_body 4 (instr_LW bus)
     (\<lambda>a b. bytes_of (XLEN_BYTES TYPE('x)) (ucast (if (ucast a :: u32) < ucast b then ucast a else ucast b :: u32) :: 'x word)) bus c"

definition instr_AMOMAXU_W :: "('x::len, 'p) bus_access_func \<Rightarrow> ('x, 'p) rv_core_td \<Rightarrow> ('x, 'p) rv_core_td res" where
  "instr_AMOMAXU_W bus c = amo_body 4 (instr_LW bus)
     (\<lambda>a b. bytes_of (XLEN_BYTES TYPE('x)) (ucast (if (ucast a :: u32) > ucast b then ucast a else ucast b :: u32) :: 'x word)) bus c"

definition instr_AMOSWAP_D :: "('x::len, 'p) bus_access_func \<Rightarrow> ('x, 'p) rv_core_td \<Rightarrow> ('x, 'p) rv_core_td res" where
  "instr_AMOSWAP_D bus c = amo_body 8 (instr_LD bus) (\<lambda>a b. bytes_of (XLEN_BYTES TYPE('x)) (b)) bus c"

definition instr_AMOADD_D :: "('x::len, 'p) bus_access_func \<Rightarrow> ('x, 'p) rv_core_td \<Rightarrow> ('x, 'p) rv_core_td res" where
  "instr_AMOADD_D bus c = amo_body 8 (instr_LD bus) (\<lambda>a b. bytes_of (XLEN_BYTES TYPE('x)) (a + b)) bus c"

definition instr_AMOXOR_D :: "('x::len, 'p) bus_access_func \<Rightarrow> ('x, 'p) rv_core_td \<Rightarrow> ('x, 'p) rv_core_td res" where
  "instr_AMOXOR_D bus c = amo_body 8 (instr_LD bus) (\<lambda>a b. bytes_of (XLEN_BYTES TYPE('x)) (a XOR b)) bus c"

definition instr_AMOAND_D :: "('x::len, 'p) bus_access_func \<Rightarrow> ('x, 'p) rv_core_td \<Rightarrow> ('x, 'p) rv_core_td res" where
  "instr_AMOAND_D bus c = amo_body 8 (instr_LD bus) (\<lambda>a b. bytes_of (XLEN_BYTES TYPE('x)) (a AND b)) bus c"

definition instr_AMOOR_D :: "('x::len, 'p) bus_access_func \<Rightarrow> ('x, 'p) rv_core_td \<Rightarrow> ('x, 'p) rv_core_td res" where
  "instr_AMOOR_D bus c = amo_body 8 (instr_LD bus) (\<lambda>a b. bytes_of (XLEN_BYTES TYPE('x)) (a OR b)) bus c"

definition instr_AMOMIN_D :: "('x::len, 'p) bus_access_func \<Rightarrow> ('x, 'p) rv_core_td \<Rightarrow> ('x, 'p) rv_core_td res" where
  "instr_AMOMIN_D bus c = amo_body 8 (instr_LD bus) (\<lambda>a b. bytes_of (XLEN_BYTES TYPE('x)) (if sint a < sint b then a else b)) bus c"

definition instr_AMOMAX_D :: "('x::len, 'p) bus_access_func \<Rightarrow> ('x, 'p) rv_core_td \<Rightarrow> ('x, 'p) rv_core_td res" where
  "instr_AMOMAX_D bus c = amo_body 8 (instr_LD bus) (\<lambda>a b. bytes_of (XLEN_BYTES TYPE('x)) (if sint a > sint b then a else b)) bus c"

definition instr_AMOMINU_D :: "('x::len, 'p) bus_access_func \<Rightarrow> ('x, 'p) rv_core_td \<Rightarrow> ('x, 'p) rv_core_td res" where
  "instr_AMOMINU_D bus c = amo_body 8 (instr_LD bus) (\<lambda>a b. bytes_of (XLEN_BYTES TYPE('x)) (if a < b then a else b)) bus c"

definition instr_AMOMAXU_D :: "('x::len, 'p) bus_access_func \<Rightarrow> ('x, 'p) rv_core_td \<Rightarrow> ('x, 'p) rv_core_td res" where
  "instr_AMOMAXU_D bus c = amo_body 8 (instr_LD bus) (\<lambda>a b. bytes_of (XLEN_BYTES TYPE('x)) (if a > b then a else b)) bus c"

section \<open>Multiplication and division\<close>

definition instr_DIV :: "('x::len, 'p) rv_core_td \<Rightarrow> ('x, 'p) rv_core_td" where
  "instr_DIV c =
    (let signed_rs = c_x c (c_rs1 c); signed_rs2 = c_x c (c_rs2 c) in
     if signed_rs2 = 0 then set_x (c_rd c) (- 1) c
     else if signed_rs = XLEN_INT_MIN \<and> signed_rs2 = - 1 then set_x (c_rd c) XLEN_INT_MIN c
     else set_x (c_rd c) (of_int (sint signed_rs sdiv sint signed_rs2)) c)"

definition instr_DIVU :: "('x::len, 'p) rv_core_td \<Rightarrow> ('x, 'p) rv_core_td" where
  "instr_DIVU c =
    (let unsigned_rs = c_x c (c_rs1 c); unsigned_rs2 = c_x c (c_rs2 c) in
     if unsigned_rs2 = 0 then set_x (c_rd c) (- 1) c
     else set_x (c_rd c) (unsigned_rs div unsigned_rs2) c)"

definition instr_REM :: "('x::len, 'p) rv_core_td \<Rightarrow> ('x, 'p) rv_core_td" where
  "instr_REM c =
    (let signed_rs = c_x c (c_rs1 c); signed_rs2 = c_x c (c_rs2 c) in
     if signed_rs2 = 0 then set_x (c_rd c) signed_rs c
     else if signed_rs = XLEN_INT_MIN \<and> signed_rs2 = - 1 then set_x (c_rd c) 0 c
     else set_x (c_rd c) (of_int (sint signed_rs smod sint signed_rs2)) c)"

definition instr_REMU :: "('x::len, 'p) rv_core_td \<Rightarrow> ('x, 'p) rv_core_td" where
  "instr_REMU c =
    (let unsigned_rs = c_x c (c_rs1 c); unsigned_rs2 = c_x c (c_rs2 c) in
     if unsigned_rs2 = 0 then set_x (c_rd c) unsigned_rs c
     else set_x (c_rd c) (unsigned_rs mod unsigned_rs2) c)"

definition instr_MUL :: "('x::len, 'p) rv_core_td \<Rightarrow> ('x, 'p) rv_core_td" where
  "instr_MUL c = set_x (c_rd c) (c_x c (c_rs1 c) * c_x c (c_rs2 c)) c"

definition instr_MULH :: "('x::len, 'p) rv_core_td \<Rightarrow> ('x, 'p) rv_core_td" where
  "instr_MULH c = set_x (c_rd c) (fst (MUL (c_x c (c_rs1 c)) (c_x c (c_rs2 c)))) c"

definition instr_MULHU :: "('x::len, 'p) rv_core_td \<Rightarrow> ('x, 'p) rv_core_td" where
  "instr_MULHU c = set_x (c_rd c) (fst (UMUL (c_x c (c_rs1 c)) (c_x c (c_rs2 c)))) c"

definition instr_MULHSU :: "('x::len, 'p) rv_core_td \<Rightarrow> ('x, 'p) rv_core_td" where
  "instr_MULHSU c = set_x (c_rd c) (fst (MULHSU (c_x c (c_rs1 c)) (c_x c (c_rs2 c)))) c"

definition instr_MULW :: "('x::len, 'p) rv_core_td \<Rightarrow> ('x, 'p) rv_core_td" where
  "instr_MULW c = set_x (c_rd c) (scast ((ucast (c_x c (c_rs1 c)) :: u32) * ucast (c_x c (c_rs2 c)))) c"

definition instr_DIVW :: "('x::len, 'p) rv_core_td \<Rightarrow> ('x, 'p) rv_core_td" where
  "instr_DIVW c =
    (let signed_rs = (ucast (c_x c (c_rs1 c)) :: u32); signed_rs2 = (ucast (c_x c (c_rs2 c)) :: u32) in
     if signed_rs2 = 0 then set_x (c_rd c) (- 1) c
     else if signed_rs = 0x80000000 \<and> signed_rs2 = - 1 then set_x (c_rd c) (scast (0x80000000 :: u32)) c
     else set_x (c_rd c) (scast (of_int (sint signed_rs sdiv sint signed_rs2) :: u32)) c)"

definition instr_DIVUW :: "('x::len, 'p) rv_core_td \<Rightarrow> ('x, 'p) rv_core_td" where
  "instr_DIVUW c =
    (let unsigned_rs = (ucast (c_x c (c_rs1 c)) :: u32); unsigned_rs2 = (ucast (c_x c (c_rs2 c)) :: u32) in
     if unsigned_rs2 = 0 then set_x (c_rd c) (- 1) c
     else set_x (c_rd c) (SIGNEX_BIT 31 (ucast (unsigned_rs div unsigned_rs2))) c)"

definition instr_REMW :: "('x::len, 'p) rv_core_td \<Rightarrow> ('x, 'p) rv_core_td" where
  "instr_REMW c =
    (let signed_rs = (ucast (c_x c (c_rs1 c)) :: u32); signed_rs2 = (ucast (c_x c (c_rs2 c)) :: u32) in
     if signed_rs2 = 0 then set_x (c_rd c) (scast signed_rs) c
     else if signed_rs = 0x80000000 \<and> signed_rs2 = - 1 then set_x (c_rd c) 0 c
     else set_x (c_rd c) (scast (of_int (sint signed_rs smod sint signed_rs2) :: u32)) c)"

definition instr_REMUW :: "('x::len, 'p) rv_core_td \<Rightarrow> ('x, 'p) rv_core_td" where
  "instr_REMUW c =
    (let unsigned_rs = (ucast (c_x c (c_rs1 c)) :: u32); unsigned_rs2 = (ucast (c_x c (c_rs2 c)) :: u32) in
     if unsigned_rs2 = 0 then set_x (c_rd c) (SIGNEX_BIT 31 (ucast unsigned_rs)) c
     else set_x (c_rd c) (SIGNEX_BIT 31 (ucast (unsigned_rs mod unsigned_rs2))) c)"

section \<open>Execution\<close>

text \<open>The call through \<open>execute_cb\<close>.\<close>

primrec exec_base :: "instr_base \<Rightarrow> ('x::len, 'p) rv_core_td \<Rightarrow> ('x, 'p) rv_core_td res" where
  "exec_base NOP c = Inr (instr_NOP c)"
| "exec_base LUI c = Inr (instr_LUI c)"
| "exec_base AUIPC c = Inr (instr_AUIPC c)"
| "exec_base JAL c = instr_JAL c"
| "exec_base JALR c = instr_JALR c"
| "exec_base BEQ c = instr_BEQ c"
| "exec_base BNE c = instr_BNE c"
| "exec_base BLT c = instr_BLT c"
| "exec_base BGE c = instr_BGE c"
| "exec_base BLTU c = instr_BLTU c"
| "exec_base BGEU c = instr_BGEU c"

primrec exec_alu :: "instr_alu \<Rightarrow> ('x::len, 'p) rv_core_td \<Rightarrow> ('x, 'p) rv_core_td" where
  "exec_alu ADDI c = instr_ADDI c"
| "exec_alu SLTI c = instr_SLTI c"
| "exec_alu SLTIU c = instr_SLTIU c"
| "exec_alu XORI c = instr_XORI c"
| "exec_alu ORI c = instr_ORI c"
| "exec_alu ANDI c = instr_ANDI c"
| "exec_alu SLLI c = instr_SLLI c"
| "exec_alu SRAI c = instr_SRAI c"
| "exec_alu SRLI c = instr_SRLI c"
| "exec_alu ADD c = instr_ADD c"
| "exec_alu SUB c = instr_SUB c"
| "exec_alu SLL c = instr_SLL c"
| "exec_alu SLT c = instr_SLT c"
| "exec_alu SLTU c = instr_SLTU c"
| "exec_alu XOR_i c = instr_XOR c"
| "exec_alu SRL c = instr_SRL c"
| "exec_alu OR_i c = instr_OR c"
| "exec_alu AND_i c = instr_AND c"
| "exec_alu SRA c = instr_SRA c"

primrec exec_word :: "instr_word \<Rightarrow> ('x::len, 'p) rv_core_td \<Rightarrow> ('x, 'p) rv_core_td" where
  "exec_word SRAIW c = instr_SRAIW c"
| "exec_word ADDIW c = instr_ADDIW c"
| "exec_word SLLIW c = instr_SLLIW c"
| "exec_word SRLIW c = instr_SRLIW c"
| "exec_word SRLW c = instr_SRLW c"
| "exec_word SRAW c = instr_SRAW c"
| "exec_word SLLW c = instr_SLLW c"
| "exec_word ADDW c = instr_ADDW c"
| "exec_word SUBW c = instr_SUBW c"

primrec exec_mul :: "instr_mul \<Rightarrow> ('x::len, 'p) rv_core_td \<Rightarrow> ('x, 'p) rv_core_td" where
  "exec_mul DIV_i c = instr_DIV c"
| "exec_mul DIVU c = instr_DIVU c"
| "exec_mul REM c = instr_REM c"
| "exec_mul REMU c = instr_REMU c"
| "exec_mul MUL_i c = instr_MUL c"
| "exec_mul MULH c = instr_MULH c"
| "exec_mul MULHU c = instr_MULHU c"
| "exec_mul MULHSU_i c = instr_MULHSU c"
| "exec_mul MULW c = instr_MULW c"
| "exec_mul DIVW c = instr_DIVW c"
| "exec_mul DIVUW c = instr_DIVUW c"
| "exec_mul REMW c = instr_REMW c"
| "exec_mul REMUW c = instr_REMUW c"

primrec exec_system :: "instr_system \<Rightarrow> ('x::len, 'p) rv_core_td \<Rightarrow> ('x, 'p) rv_core_td res" where
  "exec_system CSRRW c = instr_CSRRW c"
| "exec_system CSRRS c = instr_CSRRS c"
| "exec_system CSRRC c = instr_CSRRC c"
| "exec_system CSRRWI c = instr_CSRRWI c"
| "exec_system CSRRSI c = instr_CSRRSI c"
| "exec_system CSRRCI c = instr_CSRRCI c"
| "exec_system ECALL c = Inr (instr_ECALL c)"
| "exec_system EBREAK c = Inr (instr_EBREAK c)"
| "exec_system MRET c = instr_MRET c"
| "exec_system SRET c = instr_SRET c"
| "exec_system URET c = instr_URET c"

primrec exec_mem :: "instr_mem \<Rightarrow> ('x::len, 'p) bus_access_func \<Rightarrow> ('x, 'p) rv_core_td \<Rightarrow> ('x, 'p) rv_core_td res" where
  "exec_mem LB bus c = instr_LB bus c"
| "exec_mem LH bus c = instr_LH bus c"
| "exec_mem LW bus c = instr_LW bus c"
| "exec_mem LBU bus c = instr_LBU bus c"
| "exec_mem LHU bus c = instr_LHU bus c"
| "exec_mem SB bus c = instr_SB bus c"
| "exec_mem SH bus c = instr_SH bus c"
| "exec_mem SW bus c = instr_SW bus c"
| "exec_mem LWU bus c = instr_LWU bus c"
| "exec_mem LD bus c = instr_LD bus c"
| "exec_mem SD bus c = instr_SD bus c"

primrec exec_amo_w :: "instr_amo \<Rightarrow> ('x::len, 'p) bus_access_func \<Rightarrow> ('x, 'p) rv_core_td \<Rightarrow> ('x, 'p) rv_core_td res" where
  "exec_amo_w LR bus c = instr_LR_W bus c"
| "exec_amo_w SC bus c = instr_SC_W bus c"
| "exec_amo_w AMOSWAP bus c = instr_AMOSWAP_W bus c"
| "exec_amo_w AMOADD bus c = instr_AMOADD_W bus c"
| "exec_amo_w AMOXOR bus c = instr_AMOXOR_W bus c"
| "exec_amo_w AMOAND bus c = instr_AMOAND_W bus c"
| "exec_amo_w AMOOR bus c = instr_AMOOR_W bus c"
| "exec_amo_w AMOMIN bus c = instr_AMOMIN_W bus c"
| "exec_amo_w AMOMAX bus c = instr_AMOMAX_W bus c"
| "exec_amo_w AMOMINU bus c = instr_AMOMINU_W bus c"
| "exec_amo_w AMOMAXU bus c = instr_AMOMAXU_W bus c"

primrec exec_amo_d :: "instr_amo \<Rightarrow> ('x::len, 'p) bus_access_func \<Rightarrow> ('x, 'p) rv_core_td \<Rightarrow> ('x, 'p) rv_core_td res" where
  "exec_amo_d LR bus c = instr_LR_D bus c"
| "exec_amo_d SC bus c = instr_SC_D bus c"
| "exec_amo_d AMOSWAP bus c = instr_AMOSWAP_D bus c"
| "exec_amo_d AMOADD bus c = instr_AMOADD_D bus c"
| "exec_amo_d AMOXOR bus c = instr_AMOXOR_D bus c"
| "exec_amo_d AMOAND bus c = instr_AMOAND_D bus c"
| "exec_amo_d AMOOR bus c = instr_AMOOR_D bus c"
| "exec_amo_d AMOMIN bus c = instr_AMOMIN_D bus c"
| "exec_amo_d AMOMAX bus c = instr_AMOMAX_D bus c"
| "exec_amo_d AMOMINU bus c = instr_AMOMINU_D bus c"
| "exec_amo_d AMOMAXU bus c = instr_AMOMAXU_D bus c"

primrec exec_instr :: "instr \<Rightarrow> ('x::len, 'p) bus_access_func \<Rightarrow> ('x, 'p) rv_core_td \<Rightarrow> ('x, 'p) rv_core_td res" where
  "exec_instr (i_base i) bus c = exec_base i c"
| "exec_instr (i_alu i) bus c = Inr (exec_alu i c)"
| "exec_instr (i_mem i) bus c = exec_mem i bus c"
| "exec_instr (i_word i) bus c = Inr (exec_word i c)"
| "exec_instr (i_system i) bus c = exec_system i c"
| "exec_instr (i_amo_w i) bus c = exec_amo_w i bus c"
| "exec_instr (i_amo_d i) bus c = exec_amo_d i bus c"
| "exec_instr (i_mul i) bus c = Inr (exec_mul i c)"

end
