(* ===== verification/IsaRef.thy ===== *)
theory IsaRef
  imports Instr
begin

text \<open>
  What the integer instructions have to compute, as arithmetic on the integers that the registers
  stand for, and the proof that the functions of \<open>src/core/core.c\<close> (theory \<open>Instr\<close>) compute it in both
  builds. The C code works on machine words, with conversions between signed and unsigned types and
  with special cases; the reference has none of them.
\<close>

section \<open>Reference\<close>

definition sh_amount :: "'x::len word \<Rightarrow> nat" where
  "sh_amount b = unat b mod LENGTH('x)"

primrec alu_ref :: "instr_alu \<Rightarrow> 'x::len word \<Rightarrow> 'x word \<Rightarrow> 'x word" where
  "alu_ref ADDI a b = word_of_int (sint a + sint b)"
| "alu_ref SLTI a b = of_bool (sint a < sint b)"
| "alu_ref SLTIU a b = of_bool (uint a < uint b)"
| "alu_ref XORI a b = a XOR b"
| "alu_ref ORI a b = a OR b"
| "alu_ref ANDI a b = a AND b"
| "alu_ref SLLI a b = word_of_int (uint a * 2 ^ sh_amount b)"
| "alu_ref SRAI a b = word_of_int (sint a div 2 ^ sh_amount b)"
| "alu_ref SRLI a b = word_of_int (uint a div 2 ^ sh_amount b)"
| "alu_ref ADD a b = word_of_int (sint a + sint b)"
| "alu_ref SUB a b = word_of_int (sint a - sint b)"
| "alu_ref SLL a b = word_of_int (uint a * 2 ^ sh_amount b)"
| "alu_ref SLT a b = of_bool (sint a < sint b)"
| "alu_ref SLTU a b = of_bool (uint a < uint b)"
| "alu_ref XOR_i a b = a XOR b"
| "alu_ref SRL a b = word_of_int (uint a div 2 ^ sh_amount b)"
| "alu_ref OR_i a b = a OR b"
| "alu_ref AND_i a b = a AND b"
| "alu_ref SRA a b = word_of_int (sint a div 2 ^ sh_amount b)"

definition alu_immediate :: "instr_alu \<Rightarrow> bool" where
  "alu_immediate i \<longleftrightarrow> i \<in> {ADDI, SLTI, SLTIU, XORI, ORI, ANDI, SLLI, SRAI, SRLI}"

text \<open>The second operand: the immediate, sign-extended from 12 bits, or a register.\<close>

definition operand2 :: "instr_alu \<Rightarrow> ('x::len, 'p) rv_core_td \<Rightarrow> 'x word" where
  "operand2 i c = (if alu_immediate i then signed_take_bit 11 (c_immediate c) else c_x c (c_rs2 c))"

primrec mul_ref :: "instr_mul \<Rightarrow> 'x::len word \<Rightarrow> 'x word \<Rightarrow> 'x word" where
  "mul_ref DIV_i a b = (if b = 0 then - 1 else word_of_int (sint a sdiv sint b))"
| "mul_ref DIVU a b = (if b = 0 then - 1 else word_of_int (uint a div uint b))"
| "mul_ref REM a b = (if b = 0 then a else word_of_int (sint a smod sint b))"
| "mul_ref REMU a b = (if b = 0 then a else word_of_int (uint a mod uint b))"
| "mul_ref MUL_i a b = word_of_int (sint a * sint b)"
| "mul_ref MULH a b = word_of_int (sint a * sint b div 2 ^ LENGTH('x))"
| "mul_ref MULHU a b = word_of_int (uint a * uint b div 2 ^ LENGTH('x))"
| "mul_ref MULHSU_i a b = word_of_int (sint a * uint b div 2 ^ LENGTH('x))"
| "mul_ref MULW a b = scast (word_of_int (sint a * sint b) :: u32)"
| "mul_ref DIVW a b = (let a = (ucast a :: u32); b = (ucast b :: u32) in
     if b = 0 then - 1 else scast (word_of_int (sint a sdiv sint b) :: u32))"
| "mul_ref DIVUW a b = (let a = (ucast a :: u32); b = (ucast b :: u32) in
     if b = 0 then - 1 else scast (word_of_int (uint a div uint b) :: u32))"
| "mul_ref REMW a b = (let a = (ucast a :: u32); b = (ucast b :: u32) in
     if b = 0 then scast a else scast (word_of_int (sint a smod sint b) :: u32))"
| "mul_ref REMUW a b = (let a = (ucast a :: u32); b = (ucast b :: u32) in
     if b = 0 then scast a else scast (word_of_int (uint a mod uint b) :: u32))"

primrec word_ref :: "instr_word \<Rightarrow> 'x::len word \<Rightarrow> 'x word \<Rightarrow> 'x word" where
  "word_ref SRAIW a b = scast (word_of_int (sint (ucast a :: u32) div 2 ^ unat (take_bit 5 b)) :: u32)"
| "word_ref ADDIW a b = scast (word_of_int (sint a + sint b) :: u32)"
| "word_ref SLLIW a b = scast (word_of_int (uint (ucast a :: u32) * 2 ^ unat (take_bit 5 b)) :: u32)"
| "word_ref SRLIW a b = scast (word_of_int (uint (ucast a :: u32) div 2 ^ unat (take_bit 5 b)) :: u32)"
| "word_ref SRLW a b = scast (word_of_int (uint (ucast a :: u32) div 2 ^ unat (take_bit 5 b)) :: u32)"
| "word_ref SRAW a b = scast (word_of_int (sint (ucast a :: u32) div 2 ^ unat (take_bit 5 b)) :: u32)"
| "word_ref SLLW a b = scast (word_of_int (uint (ucast a :: u32) * 2 ^ unat (take_bit 5 b)) :: u32)"
| "word_ref ADDW a b = scast (word_of_int (sint a + sint b) :: u32)"
| "word_ref SUBW a b = scast (word_of_int (sint a - sint b) :: u32)"

definition word_operand2 :: "instr_word \<Rightarrow> ('x::len, 'p) rv_core_td \<Rightarrow> 'x word" where
  "word_operand2 i c = (if i \<in> {SRAIW, ADDIW, SLLIW, SRLIW} then signed_take_bit 11 (c_immediate c) else c_x c (c_rs2 c))"

section \<open>Words as integers\<close>

lemma word_of_int_sint_add: "(word_of_int (sint a + sint b) :: 'x::len word) = a + b"
  by simp

lemma drop_bit_wi: "drop_bit n (a :: 'x::len word) = word_of_int (uint a div 2 ^ n)"
proof -
  have "uint (drop_bit n a) = uint a div 2 ^ n"
    by (simp only: uint_nat unat_drop of_nat_div of_nat_power of_nat_numeral)
  then have "word_of_int (uint (drop_bit n a)) = (word_of_int (uint a div 2 ^ n) :: 'x word)" by (simp only:)
  then show ?thesis by (simp only: word_of_int_uint)
qed

lemma signed_drop_bit_wi: "signed_drop_bit n (a :: 'x::len word) = word_of_int (sint a div 2 ^ n)"
proof -
  have "sint (signed_drop_bit n a) = sint a div 2 ^ n" by (simp only: sint_signed_drop_bit_eq drop_bit_eq_div)
  then have "word_of_int (sint (signed_drop_bit n a)) = (word_of_int (sint a div 2 ^ n) :: 'x word)" by (simp only:)
  then show ?thesis by simp
qed

lemma push_bit_wi: "push_bit n (a :: 'x::len word) = word_of_int (uint a * 2 ^ n)"
  by (simp add: push_bit_eq_mult)

lemma shift_amount_mask: "unat (b AND mask k :: 'x::len word) = unat b mod 2 ^ k"
  by (simp only: bit_word_and_mask unat_take)

lemma shift_amount:
  assumes "xlen_ok TYPE('x::len)"
  shows "unat (b AND SHIFT_OP_MASK :: 'x word) = sh_amount b"
proof -
  have m: "(0x1F :: 'x word) = mask 5" "(0x3F :: 'x word) = mask 6" by (simp_all add: mask_eq_exp_minus_1)
  have "LENGTH('x) = 32 \<Longrightarrow> ?thesis" "LENGTH('x) = 64 \<Longrightarrow> ?thesis"
    unfolding SHIFT_OP_MASK_def m sh_amount_def using shift_amount_mask [of b 5] shift_amount_mask [of b 6] by simp_all
  with assms show ?thesis by (auto simp only: xlen_ok_def)
qed

text \<open>The immediate shifts use the low bits of the field without extending it.\<close>

lemma sh_amount_signex:
  assumes "xlen_ok TYPE('x::len)"
  shows "sh_amount (signed_take_bit 11 (b :: 'x word)) = sh_amount b"
proof -
  have e: "sh_amount (signed_take_bit 11 b) = sh_amount b" if k: "k \<le> 11" "LENGTH('x) = 2 ^ k" for k
  proof -
    have "take_bit k (signed_take_bit 11 b) = take_bit k b"
      using k(1) by (auto intro!: bit_eqI simp: bit_simps min_def)
    then have "unat (signed_take_bit 11 b) mod 2 ^ k = unat b mod 2 ^ k" by (metis unat_take)
    then show ?thesis by (simp only: sh_amount_def k(2))
  qed
  from assms show ?thesis using e [of 5] e [of 6] by (auto simp: xlen_ok_def)
qed

section \<open>The instructions compute the reference\<close>

lemma c_x_set_x [simp]: "c_x (set_x r v c) = (c_x c)(r := v)"
  by (simp add: set_x_def)

lemma exec_alu_value:
  fixes c :: "('x::len, 'p) rv_core_td"
  assumes "xlen_ok TYPE('x)" "c_x c 0 = 0"
  shows "c_x (exec_alu i c) = (c_x c)(c_rd c := alu_ref i (c_x c (c_rs1 c)) (operand2 i c))"
proof -
  note s = shift_amount [OF assms(1)] sh_amount_signex [OF assms(1)]
  show ?thesis
    by (cases i)
      (simp_all add: operand2_def alu_immediate_def SIGNEX_BIT_def s drop_bit_wi signed_drop_bit_wi push_bit_wi
        instr_ADDI_def instr_SLTI_def instr_SLTIU_def instr_XORI_def instr_ORI_def instr_ANDI_def instr_SLLI_def
        instr_SRAI_def instr_SRLI_def instr_ADD_def instr_SUB_def instr_SLL_def instr_SLT_def instr_SLTU_def
        instr_XOR_def instr_SRL_def instr_OR_def instr_AND_def instr_SRA_def word_less_def Let_def assms(2)
        word_neq_0_conv add.commute)
qed


text \<open>Division truncates towards zero; the special cases of the code are instances of the general rule.\<close>

lemma int_min_sint: "xlen_ok TYPE('x::len) \<Longrightarrow> sint (XLEN_INT_MIN :: 'x word) = - (2 ^ (LENGTH('x) - 1))"
  by (auto simp: xlen_ok_def XLEN_INT_MIN_def)

lemma word_32_min_sint: "sint (0x80000000 :: u32) = - (2 ^ (LENGTH(32) - 1))"
  by simp

lemma sdiv_minus_1: "(k :: int) sdiv - 1 = - k" "k smod - 1 = 0"
  by (cases k "0 :: int" rule: linorder_cases; simp add: signed_divide_int_def signed_modulo_int_def)+

lemma minus_int_min:
  assumes "sint (m :: 'a::len word) = - (2 ^ (LENGTH('a) - 1))"
  shows "- m = m"
proof -
  have "(2::int) ^ LENGTH('a) = 2 * 2 ^ (LENGTH('a) - 1)" by (metis One_nat_def Suc_pred len_gt_0 power_Suc)
  then have "sint m + sint m = - (2 ^ LENGTH('a))" using assms by simp
  then have "(word_of_int (sint m + sint m) :: 'a word) = 0" by simp
  then have "m + m = 0" by simp
  then show ?thesis by (simp add: minus_unique)
qed

lemma sdiv_special:
  assumes "sint (m :: 'a::len word) = - (2 ^ (LENGTH('a) - 1))"
  shows "(if b = 0 then z else if a = m \<and> b = - 1 then m else word_of_int (sint a sdiv sint b)) =
      (if b = 0 then z else word_of_int (sint a sdiv sint b))"
    "(if b = 0 then z else if a = m \<and> b = - 1 then 0 else word_of_int (sint a smod sint b)) =
      (if b = 0 then z else word_of_int (sint a smod sint b))"
proof -
  have m1: "sint (- 1 :: 'a word) = - 1" by simp
  have "(word_of_int (sint m sdiv sint (- 1 :: 'a word)) :: 'a word) = m"
    unfolding m1 sdiv_minus_1 using minus_int_min [OF assms] by simp
  then show "(if b = 0 then z else if a = m \<and> b = - 1 then m else word_of_int (sint a sdiv sint b)) =
      (if b = 0 then z else word_of_int (sint a sdiv sint b))" by auto
  have "(word_of_int (sint m smod sint (- 1 :: 'a word)) :: 'a word) = 0"
    unfolding m1 sdiv_minus_1 by simp
  then show "(if b = 0 then z else if a = m \<and> b = - 1 then 0 else word_of_int (sint a smod sint b)) =
      (if b = 0 then z else word_of_int (sint a smod sint b))" by auto
qed

lemma high_word:
  assumes "(h :: int) * 2 ^ LENGTH('x) + uint (lo :: 'x::len word) = p"
  shows "p div 2 ^ LENGTH('x) = h"
proof -
  have "0 \<le> uint lo" "uint lo < 2 ^ LENGTH('x)" by simp_all
  then show ?thesis using assms by (simp flip: assms)
qed

lemma mulh_value:
  assumes "xlen_ok TYPE('x::len)"
  shows "fst (UMUL a b) = mul_ref MULHU a (b :: 'x word)" "fst (MUL a b) = mul_ref MULH a b"
    "fst (MULHSU a b) = mul_ref MULHSU_i a b"
proof -
  have x: "LENGTH('x) = 32 \<or> LENGTH('x) = 64" using assms by (simp add: xlen_ok_def)
  have h: "uint a * uint b div 2 ^ LENGTH('x) = uint (fst (UMUL a b))"
     "sint a * sint b div 2 ^ LENGTH('x) = sint (fst (MUL a b))"
     "sint a * uint b div 2 ^ LENGTH('x) = sint (fst (MULHSU a b))"
    by (rule high_word, use wide_multiplication_spec [OF x, of a b] in blast)+
  show "fst (UMUL a b) = mul_ref MULHU a b" "fst (MUL a b) = mul_ref MULH a b"
    "fst (MULHSU a b) = mul_ref MULHSU_i a b" by (simp_all add: h)
qed

text \<open>Sign extension from 32 bits, by \<open>SIGNEX_BIT 31\<close> or by a cast from \<open>int32_t\<close>.\<close>

lemma signex_31:
  assumes "32 \<le> LENGTH('x::len)"
  shows "SIGNEX_BIT 31 (ucast (w :: u32)) = (scast w :: 'x word)"
  using assms by (auto intro!: bit_eqI simp: SIGNEX_BIT_def bit_simps min_def)

lemma scast32_arith:
  assumes "32 \<le> LENGTH('x::len)"
  shows "(scast (a :: 'x word) :: u32) = ucast a"
  using assms by (auto intro!: bit_eqI simp: bit_simps)

lemma word_div_wi:
  "(a :: 'a::len word) div b = word_of_int (uint a div uint b)" "a mod b = word_of_int (uint a mod uint b)"
  by (simp_all add: word_div_def word_mod_def)

lemma exec_mul_value:
  fixes c :: "('x::len, 'p) rv_core_td"
  assumes x: "xlen_ok TYPE('x)"
  shows "c_x (exec_mul i c) = (c_x c)(c_rd c := mul_ref i (c_x c (c_rs1 c)) (c_x c (c_rs2 c)))"
proof -
  define a where "a = c_x c (c_rs1 c)"
  define b where "b = c_x c (c_rs2 c)"
  note l = xlen_ok_ge [OF x]
  note sp = sdiv_special [OF int_min_sint [OF x]] sdiv_special [OF word_32_min_sint]
  have v: "c_x (if P then set_x r u d else set_x r w d) = (c_x d)(r := if P then u else w)" for P r u w d
    by simp
  have v2: "c_x (if P then set_x r u d else if Q then set_x r t d else set_x r w d)
      = (c_x d)(r := if P then u else if Q then t else w)" for P Q r u w t d
    by simp
  have sc: "(if P then scast u else if Q then scast t else scast w) = scast (if P then u else if Q then t else w)"
    "(if P then scast u else if Q then 0 else scast w) = scast (if P then u else if Q then 0 else w)"
    "(if P then - 1 else if Q then scast t else scast w) = scast (if P then - 1 else if Q then t else w)"
    "(if P then - 1 else scast w) = scast (if P then - 1 else w)"
    "(if P then scast u else scast w) = scast (if P then u else w)"
    for P Q and u w t :: u32 by simp_all
  note d = v v2 Let_def a_def [symmetric] b_def [symmetric]
  show ?thesis unfolding a_def [symmetric] b_def [symmetric]
  proof (cases i)
    case DIV_i
    then show "c_x (exec_mul i c) = (c_x c)(c_rd c := mul_ref i a b)"
      by (simp only: exec_mul.simps instr_DIV_def d sp mul_ref.simps)
  next
    case REM
    then show "c_x (exec_mul i c) = (c_x c)(c_rd c := mul_ref i a b)"
      by (simp only: exec_mul.simps instr_REM_def d sp mul_ref.simps)
  next
    case DIVW
    then show "c_x (exec_mul i c) = (c_x c)(c_rd c := mul_ref i a b)"
      by (simp only: exec_mul.simps instr_DIVW_def d mul_ref.simps sc sp(3))
  next
    case REMW
    then show "c_x (exec_mul i c) = (c_x c)(c_rd c := mul_ref i a b)"
      by (simp only: exec_mul.simps instr_REMW_def d mul_ref.simps sc sp(4))
  qed (simp_all add: instr_MULH_def instr_MULHU_def instr_MULHSU_def instr_MUL_def instr_MULW_def d
         instr_DIVU_def instr_REMU_def instr_DIVUW_def instr_REMUW_def
         mulh_value [OF x] word_div_wi signex_31 [OF l] scast32_arith [OF l] del: mul_ref.simps(6,7,8))
qed


lemma low_5:
  "unat (b AND 0x1F :: 'x::len word) = unat (take_bit 5 b)"
  "32 \<le> LENGTH('x) \<Longrightarrow> unat (ucast (b AND 0x1F) :: u32) = unat (take_bit 5 b)"
proof -
  have m: "b AND 0x1F = take_bit 5 b" by (simp add: take_bit_eq_mask mask_eq_exp_minus_1)
  then show "unat (b AND 0x1F :: 'x word) = unat (take_bit 5 b)" by simp
  assume "32 \<le> LENGTH('x)"
  show "unat (ucast (b AND 0x1F) :: u32) = unat (take_bit 5 b)"
    unfolding m using \<open>32 \<le> LENGTH('x)\<close>
    by (simp add: unsigned_ucast_eq unsigned_take_bit_eq)
qed

lemma take_5_signex: "take_bit 5 (signed_take_bit 11 b) = take_bit 5 (b :: 'x::len word)"
  by (auto intro!: bit_eqI simp: bit_simps min_def)

lemma low_word_times:
  assumes "32 \<le> LENGTH('x::len)"
  shows "(ucast (a * 2 ^ n AND 0xFFFFFFFF :: 'x word) :: u32) = ucast a * 2 ^ n"
proof -
  have m: "(0xFFFFFFFF :: 'x word) = mask 32" by (simp add: mask_eq_exp_minus_1)
  have "(ucast (push_bit n a AND mask 32) :: u32) = push_bit n (ucast a)"
    using assms by (auto intro!: bit_eqI simp: bit_simps)
  then show ?thesis unfolding m by (simp add: push_bit_eq_mult)
qed

lemma exec_word_value:
  fixes c :: "('x::len, 'p) rv_core_td"
  assumes x: "xlen_ok TYPE('x)"
  shows "c_x (exec_word i c) = (c_x c)(c_rd c := word_ref i (c_x c (c_rs1 c)) (word_operand2 i c))"
  by (cases i)
   (simp_all add: word_operand2_def SIGNEX_BIT_def low_5 xlen_ok_ge [OF x] drop_bit_wi signed_drop_bit_wi push_bit_wi
     take_5_signex low_word_times scast32_arith
     instr_SRAIW_def instr_ADDIW_def instr_SLLIW_def instr_SRLIW_def instr_SRLW_def instr_SRAW_def instr_SLLW_def
     instr_ADDW_def instr_SUBW_def)


text \<open>Nothing but the register \<open>rd\<close> and the scratch field \<open>immediate\<close> changes.\<close>

lemma exec_pure_frame:
  "exec_alu i c = c\<lparr>c_x := c_x (exec_alu i c), c_immediate := c_immediate (exec_alu i c)\<rparr>"
  "exec_word j c = c\<lparr>c_x := c_x (exec_word j c)\<rparr>"
  "exec_mul k c = c\<lparr>c_x := c_x (exec_mul k c)\<rparr>"
  by ((cases i; simp add: set_x_def Let_def instr_ADDI_def instr_SLTI_def instr_SLTIU_def instr_XORI_def instr_ORI_def
      instr_ANDI_def instr_SLLI_def instr_SRAI_def instr_SRLI_def instr_ADD_def instr_SUB_def instr_SLL_def instr_SLT_def
      instr_SLTU_def instr_XOR_def instr_SRL_def instr_OR_def instr_AND_def instr_SRA_def),
    (cases j; simp add: set_x_def instr_SRAIW_def instr_ADDIW_def instr_SLLIW_def instr_SRLIW_def instr_SRLW_def
      instr_SRAW_def instr_SLLW_def instr_ADDW_def instr_SUBW_def),
    (cases k; simp add: set_x_def Let_def instr_MULH_def instr_MULHU_def instr_MULHSU_def instr_MUL_def instr_MULW_def
      instr_DIV_def instr_DIVU_def instr_REM_def instr_REMU_def instr_DIVW_def instr_DIVUW_def instr_REMW_def
      instr_REMUW_def))

text \<open>
  C10. In both builds, every integer instruction with an immediate or on registers, and every 32-bit
  variant of RV64, writes to \<open>rd\<close> the result that the reference gives for the values of \<open>rs1\<close> and
  of the second operand, and changes no other register, no program counter, no CSR and no memory.
  The register x0 must hold zero, which \<open>SLTU\<close> relies on.
\<close>

theorem integer_instructions_reference:
  fixes c :: "('x::len, 'p) rv_core_td"
  assumes "xlen_ok TYPE('x)" "c_x c 0 = 0"
  shows "(\<exists>imm. exec_alu i c = c\<lparr>c_x := (c_x c)(c_rd c := alu_ref i (c_x c (c_rs1 c)) (operand2 i c)), c_immediate := imm\<rparr>)
    \<and> exec_word j c = c\<lparr>c_x := (c_x c)(c_rd c := word_ref j (c_x c (c_rs1 c)) (word_operand2 j c))\<rparr>"
  using exec_pure_frame(1) [of i c] exec_pure_frame(2) [of j c]
  unfolding exec_alu_value [OF assms] exec_word_value [OF assms(1)] by blast

theorem integer_instructions_reference_witness:
  "\<exists>imm. exec_alu SLTI (example_core ()) =
     (example_core ())\<lparr>c_x := (c_x (example_core ()))(1 := 1), c_immediate := imm\<rparr>"
proof -
  have "c_x (example_core ()) 0 = 0" "c_rd (example_core ()) = 1"
    "alu_ref SLTI (c_x (example_core ()) (c_rs1 (example_core ()))) (operand2 SLTI (example_core ())) = 1"
    by (simp_all add: example_core_def operand2_def alu_immediate_def)
  then show ?thesis using integer_instructions_reference [of "example_core ()" SLTI undefined] by simp
qed

text \<open>
  C11. In both builds, every multiplication and division instruction writes to \<open>rd\<close> what the reference
  gives: the low or high half of the exact product, the quotient truncated towards zero, the remainder with the
  sign of the dividend; -1 and the dividend for a division by zero; and the wrapped quotient on overflow.
\<close>

theorem multiply_divide_reference:
  fixes c :: "('x::len, 'p) rv_core_td"
  assumes "xlen_ok TYPE('x)"
  shows "exec_mul i c = c\<lparr>c_x := (c_x c)(c_rd c := mul_ref i (c_x c (c_rs1 c)) (c_x c (c_rs2 c)))\<rparr>"
  using exec_pure_frame(3) [of i c] unfolding exec_mul_value [OF assms] .

theorem multiply_divide_reference_witness:
  "exec_mul DIV_i (example_core ()) = (example_core ())\<lparr>c_x := (c_x (example_core ()))(1 := 0x80000000)\<rparr>"
proof -
  have "c_rd (example_core ()) = 1" "c_x (example_core ()) (c_rs1 (example_core ())) = 0x80000000"
    "c_x (example_core ()) (c_rs2 (example_core ())) = 0xFFFFFFFF" by (simp_all add: example_core_def)
  then show ?thesis
    using multiply_divide_reference [of DIV_i "example_core ()"] by (simp add: sdiv_minus_1)
qed

end
