(* ===== verification/InstrCodes.thy ===== *)
theory InstrCodes
  imports Prelude
begin

text \<open>
  The opcodes and function codes of \<open>src/core/riscv_instr.h\<close>, one constant per macro, in the order of the file.
  They index the decode tables of \<open>src/core/core.c\<close> (theory \<open>Decode\<close>) and rewrite to their values.
\<close>

named_theorems instr_codes

section \<open>R-Type Instructions\<close>

definition INSTR_ADD_SUB_SLL_SLT_SLTU_XOR_SRL_SRA_OR_AND_MUL_MULH_MULHSU_MULHU_DIV_DIVU_REM_REMU :: nat where [simp, instr_codes]: "INSTR_ADD_SUB_SLL_SLT_SLTU_XOR_SRL_SRA_OR_AND_MUL_MULH_MULHSU_MULHU_DIV_DIVU_REM_REMU = 0x33"
definition FUNC3_INSTR_ADD_SUB_MUL :: nat where [simp, instr_codes]: "FUNC3_INSTR_ADD_SUB_MUL = 0x0"
definition FUNC7_INSTR_ADD :: nat where [simp, instr_codes]: "FUNC7_INSTR_ADD = 0x00"
definition FUNC7_INSTR_MUL :: nat where [simp, instr_codes]: "FUNC7_INSTR_MUL = 0x01"
definition FUNC7_INSTR_SUB :: nat where [simp, instr_codes]: "FUNC7_INSTR_SUB = 0x20"
definition FUNC3_INSTR_SLL_MULH :: nat where [simp, instr_codes]: "FUNC3_INSTR_SLL_MULH = 0x1"
definition FUNC7_INSTR_SLL :: nat where [simp, instr_codes]: "FUNC7_INSTR_SLL = 0x00"
definition FUNC7_INSTR_MULH :: nat where [simp, instr_codes]: "FUNC7_INSTR_MULH = 0x01"
definition FUNC3_INSTR_SLT_MULHSU :: nat where [simp, instr_codes]: "FUNC3_INSTR_SLT_MULHSU = 0x2"
definition FUNC7_INSTR_SLT :: nat where [simp, instr_codes]: "FUNC7_INSTR_SLT = 0x00"
definition FUNC7_INSTR_MULHSU :: nat where [simp, instr_codes]: "FUNC7_INSTR_MULHSU = 0x01"
definition FUNC3_INSTR_SLTU_MULHU :: nat where [simp, instr_codes]: "FUNC3_INSTR_SLTU_MULHU = 0x3"
definition FUNC7_INSTR_SLTU :: nat where [simp, instr_codes]: "FUNC7_INSTR_SLTU = 0x00"
definition FUNC7_INSTR_MULHU :: nat where [simp, instr_codes]: "FUNC7_INSTR_MULHU = 0x01"
definition FUNC3_INSTR_XOR_DIV :: nat where [simp, instr_codes]: "FUNC3_INSTR_XOR_DIV = 0x4"
definition FUNC7_INSTR_XOR :: nat where [simp, instr_codes]: "FUNC7_INSTR_XOR = 0x00"
definition FUNC7_INSTR_DIV :: nat where [simp, instr_codes]: "FUNC7_INSTR_DIV = 0x01"
definition FUNC3_INSTR_SRL_SRA_DIVU :: nat where [simp, instr_codes]: "FUNC3_INSTR_SRL_SRA_DIVU = 0x5"
definition FUNC7_INSTR_SRL :: nat where [simp, instr_codes]: "FUNC7_INSTR_SRL = 0x00"
definition FUNC7_INSTR_SRA :: nat where [simp, instr_codes]: "FUNC7_INSTR_SRA = 0x20"
definition FUNC7_INSTR_DIVU :: nat where [simp, instr_codes]: "FUNC7_INSTR_DIVU = 0x01"
definition FUNC3_INSTR_OR_REM :: nat where [simp, instr_codes]: "FUNC3_INSTR_OR_REM = 0x6"
definition FUNC7_INSTR_OR :: nat where [simp, instr_codes]: "FUNC7_INSTR_OR = 0x00"
definition FUNC7_INSTR_REM :: nat where [simp, instr_codes]: "FUNC7_INSTR_REM = 0x01"
definition FUNC3_INSTR_AND_REMU :: nat where [simp, instr_codes]: "FUNC3_INSTR_AND_REMU = 0x7"
definition FUNC7_INSTR_AND :: nat where [simp, instr_codes]: "FUNC7_INSTR_AND = 0x00"
definition FUNC7_INSTR_REMU :: nat where [simp, instr_codes]: "FUNC7_INSTR_REMU = 0x01"

section \<open>I-Type Instructions\<close>

definition INSTR_JALR :: nat where [simp, instr_codes]: "INSTR_JALR = 0x67"
definition FUNC3_INSTR_JALR :: nat where [simp, instr_codes]: "FUNC3_INSTR_JALR = 0x0"
definition INSTR_ADDI_SLTI_SLTIU_XORI_ORI_ANDI_SLLI_SRLI_SRAI :: nat where [simp, instr_codes]: "INSTR_ADDI_SLTI_SLTIU_XORI_ORI_ANDI_SLLI_SRLI_SRAI = 0x13"
definition FUNC3_INSTR_ADDI :: nat where [simp, instr_codes]: "FUNC3_INSTR_ADDI = 0x0"
definition FUNC3_INSTR_SLTI :: nat where [simp, instr_codes]: "FUNC3_INSTR_SLTI = 0x2"
definition FUNC3_INSTR_SLTIU :: nat where [simp, instr_codes]: "FUNC3_INSTR_SLTIU = 0x3"
definition FUNC3_INSTR_XORI :: nat where [simp, instr_codes]: "FUNC3_INSTR_XORI = 0x4"
definition FUNC3_INSTR_ORI :: nat where [simp, instr_codes]: "FUNC3_INSTR_ORI = 0x6"
definition FUNC3_INSTR_ANDI :: nat where [simp, instr_codes]: "FUNC3_INSTR_ANDI = 0x7"
definition FUNC3_INSTR_SLLI :: nat where [simp, instr_codes]: "FUNC3_INSTR_SLLI = 0x1"
definition FUNC3_INSTR_SRLI_SRAI :: nat where [simp, instr_codes]: "FUNC3_INSTR_SRLI_SRAI = 0x5"
definition FUNC7_INSTR_SRLI :: nat where [simp, instr_codes]: "FUNC7_INSTR_SRLI = 0x0"
definition FUNC7_INSTR_SRAI :: nat where [simp, instr_codes]: "FUNC7_INSTR_SRAI = 0x20"
definition FUNC6_INSTR_SRLI :: nat where [simp, instr_codes]: "FUNC6_INSTR_SRLI = 0x0"
definition FUNC6_INSTR_SRAI :: nat where [simp, instr_codes]: "FUNC6_INSTR_SRAI = 0x10"
definition INSTR_LB_LH_LW_LBU_LHU_LWU_LD :: nat where [simp, instr_codes]: "INSTR_LB_LH_LW_LBU_LHU_LWU_LD = 0x03"
definition FUNC3_INSTR_LB :: nat where [simp, instr_codes]: "FUNC3_INSTR_LB = 0x0"
definition FUNC3_INSTR_LH :: nat where [simp, instr_codes]: "FUNC3_INSTR_LH = 0x1"
definition FUNC3_INSTR_LW :: nat where [simp, instr_codes]: "FUNC3_INSTR_LW = 0x2"
definition FUNC3_INSTR_LBU :: nat where [simp, instr_codes]: "FUNC3_INSTR_LBU = 0x4"
definition FUNC3_INSTR_LHU :: nat where [simp, instr_codes]: "FUNC3_INSTR_LHU = 0x5"
definition FUNC3_INSTR_LWU :: nat where [simp, instr_codes]: "FUNC3_INSTR_LWU = 0x6"
definition FUNC3_INSTR_LD :: nat where [simp, instr_codes]: "FUNC3_INSTR_LD = 0x3"

section \<open>S-Type Instructions\<close>

definition INSTR_SB_SH_SW_SD :: nat where [simp, instr_codes]: "INSTR_SB_SH_SW_SD = 0x23"
definition FUNC3_INSTR_SB :: nat where [simp, instr_codes]: "FUNC3_INSTR_SB = 0x0"
definition FUNC3_INSTR_SH :: nat where [simp, instr_codes]: "FUNC3_INSTR_SH = 0x1"
definition FUNC3_INSTR_SW :: nat where [simp, instr_codes]: "FUNC3_INSTR_SW = 0x2"
definition FUNC3_INSTR_SD :: nat where [simp, instr_codes]: "FUNC3_INSTR_SD = 0x3"

section \<open>B-Type Instructions\<close>

definition INSTR_BEQ_BNE_BLT_BGE_BLTU_BGEU :: nat where [simp, instr_codes]: "INSTR_BEQ_BNE_BLT_BGE_BLTU_BGEU = 0x63"
definition FUNC3_INSTR_BEQ :: nat where [simp, instr_codes]: "FUNC3_INSTR_BEQ = 0x0"
definition FUNC3_INSTR_BNE :: nat where [simp, instr_codes]: "FUNC3_INSTR_BNE = 0x1"
definition FUNC3_INSTR_BLT :: nat where [simp, instr_codes]: "FUNC3_INSTR_BLT = 0x4"
definition FUNC3_INSTR_BGE :: nat where [simp, instr_codes]: "FUNC3_INSTR_BGE = 0x5"
definition FUNC3_INSTR_BLTU :: nat where [simp, instr_codes]: "FUNC3_INSTR_BLTU = 0x6"
definition FUNC3_INSTR_BGEU :: nat where [simp, instr_codes]: "FUNC3_INSTR_BGEU = 0x7"

section \<open>U-Type Instructions\<close>

definition INSTR_LUI :: nat where [simp, instr_codes]: "INSTR_LUI = 0x37"
definition INSTR_AUIPC :: nat where [simp, instr_codes]: "INSTR_AUIPC = 0x17"

section \<open>J-Type Instructions\<close>

definition INSTR_JAL :: nat where [simp, instr_codes]: "INSTR_JAL = 0x6F"

section \<open>System level instructions\<close>

definition INSTR_FENCE_FENCE_I :: nat where [simp, instr_codes]: "INSTR_FENCE_FENCE_I = 0x0F"
definition FUNC3_INSTR_FENCE :: nat where [simp, instr_codes]: "FUNC3_INSTR_FENCE = 0x0"
definition FUNC3_INSTR_FENCE_I :: nat where [simp, instr_codes]: "FUNC3_INSTR_FENCE_I = 0x1"
definition INSTR_ECALL_EBREAK_MRET_SRET_URET_WFI_CSRRW_CSRRS_CSRRC_CSRRWI_CSRRSI_CSRRCI_SFENCEVMA :: nat where [simp, instr_codes]: "INSTR_ECALL_EBREAK_MRET_SRET_URET_WFI_CSRRW_CSRRS_CSRRC_CSRRWI_CSRRSI_CSRRCI_SFENCEVMA = 0x73"
definition FUNC3_INSTR_ECALL_EBREAK_MRET_SRET_URET_WFI_SFENCEVMA :: nat where [simp, instr_codes]: "FUNC3_INSTR_ECALL_EBREAK_MRET_SRET_URET_WFI_SFENCEVMA = 0x0"
definition FUNC7_INSTR_ECALL_EBREAK_URET :: nat where [simp, instr_codes]: "FUNC7_INSTR_ECALL_EBREAK_URET = 0x0"
definition FUNC5_INSTR_ECALL :: nat where [simp, instr_codes]: "FUNC5_INSTR_ECALL = 0x0"
definition FUNC5_INSTR_EBREAK :: nat where [simp, instr_codes]: "FUNC5_INSTR_EBREAK = 0x1"
definition FUNC5_INSTR_URET :: nat where [simp, instr_codes]: "FUNC5_INSTR_URET = 0x2"
definition FUNC7_INSTR_SRET_WFI :: nat where [simp, instr_codes]: "FUNC7_INSTR_SRET_WFI = 0x8"
definition FUNC5_INSTR_SRET :: nat where [simp, instr_codes]: "FUNC5_INSTR_SRET = 0x2"
definition FUNC5_INSTR_WFI :: nat where [simp, instr_codes]: "FUNC5_INSTR_WFI = 0x5"
definition FUNC7_INSTR_MRET :: nat where [simp, instr_codes]: "FUNC7_INSTR_MRET = 0x18"
definition FUNC5_INSTR_MRET :: nat where [simp, instr_codes]: "FUNC5_INSTR_MRET = 0x2"
definition FUNC7_INSTR_SFENCEVMA :: nat where [simp, instr_codes]: "FUNC7_INSTR_SFENCEVMA = 0x9"
definition FUNC3_INSTR_CSRRW :: nat where [simp, instr_codes]: "FUNC3_INSTR_CSRRW = 0x1"
definition FUNC3_INSTR_CSRRS :: nat where [simp, instr_codes]: "FUNC3_INSTR_CSRRS = 0x2"
definition FUNC3_INSTR_CSRRC :: nat where [simp, instr_codes]: "FUNC3_INSTR_CSRRC = 0x3"
definition FUNC3_INSTR_CSRRWI :: nat where [simp, instr_codes]: "FUNC3_INSTR_CSRRWI = 0x5"
definition FUNC3_INSTR_CSRRSI :: nat where [simp, instr_codes]: "FUNC3_INSTR_CSRRSI = 0x6"
definition FUNC3_INSTR_CSRRCI :: nat where [simp, instr_codes]: "FUNC3_INSTR_CSRRCI = 0x7"
definition INSTR_ADDIW_SLLIW_SRLIW_SRAIW :: nat where [simp, instr_codes]: "INSTR_ADDIW_SLLIW_SRLIW_SRAIW = 0x1B"
definition FUNC3_INSTR_SLLIW :: nat where [simp, instr_codes]: "FUNC3_INSTR_SLLIW = 0x1"
definition FUNC3_INSTR_SRLIW_SRAIW :: nat where [simp, instr_codes]: "FUNC3_INSTR_SRLIW_SRAIW = 0x5"
definition FUNC7_INSTR_SRLIW :: nat where [simp, instr_codes]: "FUNC7_INSTR_SRLIW = 0x0"
definition FUNC7_INSTR_SRAIW :: nat where [simp, instr_codes]: "FUNC7_INSTR_SRAIW = 0x20"
definition FUNC3_INSTR_ADDIW :: nat where [simp, instr_codes]: "FUNC3_INSTR_ADDIW = 0x0"
definition INSTR_ADDW_SUBW_SLLW_SRLW_SRAW_MULW_DIVW_DIVUW_REMW_REMUW :: nat where [simp, instr_codes]: "INSTR_ADDW_SUBW_SLLW_SRLW_SRAW_MULW_DIVW_DIVUW_REMW_REMUW = 0x3B"
definition FUNC3_INSTR_ADDW_SUBW_MULW :: nat where [simp, instr_codes]: "FUNC3_INSTR_ADDW_SUBW_MULW = 0x0"
definition FUNC7_INSTR_ADDW :: nat where [simp, instr_codes]: "FUNC7_INSTR_ADDW = 0x00"
definition FUNC7_INSTR_SUBW :: nat where [simp, instr_codes]: "FUNC7_INSTR_SUBW = 0x20"
definition FUNC7_INSTR_MULW :: nat where [simp, instr_codes]: "FUNC7_INSTR_MULW = 0x01"
definition FUNC3_INSTR_SLLW :: nat where [simp, instr_codes]: "FUNC3_INSTR_SLLW = 0x1"
definition FUNC3_INSTR_DIVW :: nat where [simp, instr_codes]: "FUNC3_INSTR_DIVW = 0x4"
definition FUNC3_INSTR_SRLW_SRAW_DIVUW :: nat where [simp, instr_codes]: "FUNC3_INSTR_SRLW_SRAW_DIVUW = 0x5"
definition FUNC7_INSTR_SRLW :: nat where [simp, instr_codes]: "FUNC7_INSTR_SRLW = 0x00"
definition FUNC7_INSTR_SRAW :: nat where [simp, instr_codes]: "FUNC7_INSTR_SRAW = 0x20"
definition FUNC7_INSTR_DIVUW :: nat where [simp, instr_codes]: "FUNC7_INSTR_DIVUW = 0x01"
definition FUNC3_INSTR_REMW :: nat where [simp, instr_codes]: "FUNC3_INSTR_REMW = 0x6"
definition FUNC3_INSTR_REMUW :: nat where [simp, instr_codes]: "FUNC3_INSTR_REMUW = 0x7"

section \<open>Atomic Instructions\<close>

definition INSTR_AMO_W_D_LR_SC_SWAP_ADD_XOR_AND_OR_MIN_MAX_MINU_MAXU :: nat where [simp, instr_codes]: "INSTR_AMO_W_D_LR_SC_SWAP_ADD_XOR_AND_OR_MIN_MAX_MINU_MAXU = 0x2F"
definition FUNC3_INSTR_W_LR_SC_SWAP_ADD_XOR_AND_OR_MIN_MAX_MINU_MAXU :: nat where [simp, instr_codes]: "FUNC3_INSTR_W_LR_SC_SWAP_ADD_XOR_AND_OR_MIN_MAX_MINU_MAXU = 0x2"
definition FUNC3_INSTR_D_LR_SC_SWAP_ADD_XOR_AND_OR_MIN_MAX_MINU_MAXU :: nat where [simp, instr_codes]: "FUNC3_INSTR_D_LR_SC_SWAP_ADD_XOR_AND_OR_MIN_MAX_MINU_MAXU = 0x3"
definition FUNC5_INSTR_AMO_LR :: nat where [simp, instr_codes]: "FUNC5_INSTR_AMO_LR = 0x2"
definition FUNC5_INSTR_AMO_SC :: nat where [simp, instr_codes]: "FUNC5_INSTR_AMO_SC = 0x3"
definition FUNC5_INSTR_AMO_SWAP :: nat where [simp, instr_codes]: "FUNC5_INSTR_AMO_SWAP = 0x1"
definition FUNC5_INSTR_AMO_ADD :: nat where [simp, instr_codes]: "FUNC5_INSTR_AMO_ADD = 0x0"
definition FUNC5_INSTR_AMO_XOR :: nat where [simp, instr_codes]: "FUNC5_INSTR_AMO_XOR = 0x4"
definition FUNC5_INSTR_AMO_AND :: nat where [simp, instr_codes]: "FUNC5_INSTR_AMO_AND = 0xC"
definition FUNC5_INSTR_AMO_OR :: nat where [simp, instr_codes]: "FUNC5_INSTR_AMO_OR = 0x8"
definition FUNC5_INSTR_AMO_MIN :: nat where [simp, instr_codes]: "FUNC5_INSTR_AMO_MIN = 0x10"
definition FUNC5_INSTR_AMO_MAX :: nat where [simp, instr_codes]: "FUNC5_INSTR_AMO_MAX = 0x14"
definition FUNC5_INSTR_AMO_MINU :: nat where [simp, instr_codes]: "FUNC5_INSTR_AMO_MINU = 0x18"
definition FUNC5_INSTR_AMO_MAXU :: nat where [simp, instr_codes]: "FUNC5_INSTR_AMO_MAXU = 0x1C"

end
