(* ===== verification/Decode.thy ===== *)
theory Decode
  imports Instr InstrCodes
begin

text \<open>
  Instruction decoding of \<open>src/core/core.c\<close>: the preparation functions, which cut the fields out
  of the instruction, and the tables that lead from the opcode over the function codes to the
  instruction. A table is the list of its designated initialisers; its length as a C array is one
  more than the largest index. The codes are those of \<open>src/core/riscv_instr.h\<close> (theory \<open>InstrCodes\<close>), the builds those with
  \<open>CSR_SUPPORT\<close>, \<open>ATOMIC_SUPPORT\<close> and \<open>MULTIPLY_SUPPORT\<close> (\<open>riscv_config.h\<close>).
\<close>

section \<open>Preparation\<close>

text \<open>Each function returns the core and \<open>next_subcode\<close>; -1 means that there is none.\<close>

datatype preparation = prep_func5 | prep_func6 | prep_func7 | prep_func7_func12_sub5 | prep_R_type | prep_I_type
  | prep_S_type | prep_B_type | prep_U_type | prep_J_type

definition ifield :: "('x::len, 'p) rv_core_td \<Rightarrow> nat \<Rightarrow> u32 \<Rightarrow> u8" where
  "ifield c start msk = ucast (drop_bit start (c_instruction c) AND msk)"

definition preparation_func5 :: "('x::len, 'p) rv_core_td \<Rightarrow> ('x, 'p) rv_core_td \<times> int" where
  "preparation_func5 c =
    (let c = c\<lparr>c_func5 := ifield c 27 0x1F\<rparr> in (c, uint (c_func5 c)))"

definition preparation_func6 :: "('x::len, 'p) rv_core_td \<Rightarrow> ('x, 'p) rv_core_td \<times> int" where
  "preparation_func6 c =
    (let c = c\<lparr>c_func6 := ifield c 26 0x3F\<rparr> in (c, uint (c_func6 c)))"

definition preparation_func7 :: "('x::len, 'p) rv_core_td \<Rightarrow> ('x, 'p) rv_core_td \<times> int" where
  "preparation_func7 c =
    (let c = c\<lparr>c_func7 := ifield c 25 0x7F\<rparr> in (c, uint (c_func7 c)))"

definition preparation_func7_func12_sub5_extended :: "('x::len, 'p) rv_core_td \<Rightarrow> ('x, 'p) rv_core_td \<times> int" where
  "preparation_func7_func12_sub5_extended c =
    (let c = c\<lparr>c_func5 := ifield c 20 0x1F\<rparr> in (c, uint (c_func5 c)))"

definition R_type_preparation :: "('x::len, 'p) rv_core_td \<Rightarrow> ('x, 'p) rv_core_td \<times> int" where
  "R_type_preparation c =
    (let c = c\<lparr>c_rd := ifield c 7 0x1F\<rparr>;
         c = c\<lparr>c_func3 := ifield c 12 0x7\<rparr>;
         c = c\<lparr>c_rs1 := ifield c 15 0x1F\<rparr>;
         c = c\<lparr>c_rs2 := ifield c 20 0x1F\<rparr>
     in (c, uint (c_func3 c)))"

definition I_type_preparation :: "('x::len, 'p) rv_core_td \<Rightarrow> ('x, 'p) rv_core_td \<times> int" where
  "I_type_preparation c =
    (let c = c\<lparr>c_rd := ifield c 7 0x1F\<rparr>;
         c = c\<lparr>c_func3 := ifield c 12 0x7\<rparr>;
         c = c\<lparr>c_rs1 := ifield c 15 0x1F\<rparr>;
         c = c\<lparr>c_immediate := ucast (drop_bit 20 (c_instruction c) AND 0xFFF)\<rparr>
     in (c, uint (c_func3 c)))"

definition S_type_preparation :: "('x::len, 'p) rv_core_td \<Rightarrow> ('x, 'p) rv_core_td \<times> int" where
  "S_type_preparation c =
    (let c = c\<lparr>c_func3 := ifield c 12 0x7\<rparr>;
         c = c\<lparr>c_rs1 := ifield c 15 0x1F\<rparr>;
         c = c\<lparr>c_rs2 := ifield c 20 0x1F\<rparr>;
         c = c\<lparr>c_immediate := ucast (push_bit 5 (drop_bit 25 (c_instruction c))
                OR (drop_bit 7 (c_instruction c) AND 0x1F))\<rparr>
     in (c, uint (c_func3 c)))"

definition B_type_preparation :: "('x::len, 'p) rv_core_td \<Rightarrow> ('x, 'p) rv_core_td \<times> int" where
  "B_type_preparation c =
    (let c = c\<lparr>c_rd := ifield c 7 0x1F\<rparr>;
         c = c\<lparr>c_func3 := ifield c 12 0x7\<rparr>;
         c = c\<lparr>c_rs1 := ifield c 15 0x1F\<rparr>;
         c = c\<lparr>c_rs2 := ifield c 20 0x1F\<rparr>;
         c = c\<lparr>c_jump_offset := ucast (push_bit 1 (extract32 (c_instruction c) 8 4)
                OR push_bit 5 (extract32 (c_instruction c) 25 6)
                OR push_bit 11 (extract32 (c_instruction c) 7 1)
                OR push_bit 12 (extract32 (c_instruction c) 31 1))\<rparr>;
         c = c\<lparr>c_jump_offset := SIGNEX_BIT 12 (c_jump_offset c)\<rparr>
     in (c, uint (c_func3 c)))"

definition U_type_preparation :: "('x::len, 'p) rv_core_td \<Rightarrow> ('x, 'p) rv_core_td \<times> int" where
  "U_type_preparation c =
    (let c = c\<lparr>c_rd := ifield c 7 0x1F\<rparr>;
         c = c\<lparr>c_immediate := ucast (drop_bit 12 (c_instruction c) AND 0xFFFFF)\<rparr>;
         c = c\<lparr>c_immediate := SIGNEX_BIT 19 (c_immediate c)\<rparr>
     in (c, - 1))"

definition J_type_preparation :: "('x::len, 'p) rv_core_td \<Rightarrow> ('x, 'p) rv_core_td \<times> int" where
  "J_type_preparation c =
    (let c = c\<lparr>c_rd := ifield c 7 0x1F\<rparr>;
         c = c\<lparr>c_jump_offset := ucast (push_bit 1 (extract32 (c_instruction c) 21 10)
                OR push_bit 11 (extract32 (c_instruction c) 20 1)
                OR push_bit 12 (extract32 (c_instruction c) 12 8)
                OR push_bit 20 (extract32 (c_instruction c) 31 1))\<rparr>;
         c = c\<lparr>c_jump_offset := SIGNEX_BIT 20 (c_jump_offset c)\<rparr>
     in (c, - 1))"

primrec preparation_cb :: "preparation \<Rightarrow> ('x::len, 'p) rv_core_td \<Rightarrow> ('x, 'p) rv_core_td \<times> int" where
  "preparation_cb prep_func5 = preparation_func5"
| "preparation_cb prep_func6 = preparation_func6"
| "preparation_cb prep_func7 = preparation_func7"
| "preparation_cb prep_func7_func12_sub5 = preparation_func7_func12_sub5_extended"
| "preparation_cb prep_R_type = R_type_preparation"
| "preparation_cb prep_I_type = I_type_preparation"
| "preparation_cb prep_S_type = S_type_preparation"
| "preparation_cb prep_B_type = B_type_preparation"
| "preparation_cb prep_U_type = U_type_preparation"
| "preparation_cb prep_J_type = J_type_preparation"

section \<open>Tables\<close>

datatype instruction_hook = Hook "preparation option" "instr option" "(nat \<times> instruction_hook) list option"

type_synonym instruction_desc = "(nat \<times> instruction_hook) list"

abbreviation exec_hook :: "instr \<Rightarrow> instruction_hook" where
  "exec_hook i \<equiv> Hook None (Some i) None"

abbreviation next_hook :: "preparation \<Rightarrow> instruction_desc \<Rightarrow> instruction_hook" where
  "next_hook p t \<equiv> Hook (Some p) None (Some t)"

definition JALR_func3_subcode_list :: "instruction_desc" where
  "JALR_func3_subcode_list =
    [(FUNC3_INSTR_JALR, exec_hook (i_base JALR))]"

definition BEQ_BNE_BLT_BGE_BLTU_BGEU_func3_subcode_list :: "instruction_desc" where
  "BEQ_BNE_BLT_BGE_BLTU_BGEU_func3_subcode_list =
    [(FUNC3_INSTR_BEQ, exec_hook (i_base BEQ)),
     (FUNC3_INSTR_BNE, exec_hook (i_base BNE)),
     (FUNC3_INSTR_BLT, exec_hook (i_base BLT)),
     (FUNC3_INSTR_BGE, exec_hook (i_base BGE)),
     (FUNC3_INSTR_BLTU, exec_hook (i_base BLTU)),
     (FUNC3_INSTR_BGEU, exec_hook (i_base BGEU))]"

definition LB_LH_LW_LBU_LHU_LWU_LD_func3_subcode_list :: "bool \<Rightarrow> instruction_desc" where
  "LB_LH_LW_LBU_LHU_LWU_LD_func3_subcode_list rv64 =
    [(FUNC3_INSTR_LB, exec_hook (i_mem LB)),
     (FUNC3_INSTR_LH, exec_hook (i_mem LH)),
     (FUNC3_INSTR_LW, exec_hook (i_mem LW)),
     (FUNC3_INSTR_LBU, exec_hook (i_mem LBU)),
     (FUNC3_INSTR_LHU, exec_hook (i_mem LHU))] @
    (if rv64 then [(FUNC3_INSTR_LWU, exec_hook (i_mem LWU)),
     (FUNC3_INSTR_LD, exec_hook (i_mem LD))] else [])"

definition SB_SH_SW_SD_func3_subcode_list :: "bool \<Rightarrow> instruction_desc" where
  "SB_SH_SW_SD_func3_subcode_list rv64 =
    [(FUNC3_INSTR_SB, exec_hook (i_mem SB)),
     (FUNC3_INSTR_SH, exec_hook (i_mem SH)),
     (FUNC3_INSTR_SW, exec_hook (i_mem SW))] @
    (if rv64 then [(FUNC3_INSTR_SD, exec_hook (i_mem SD))] else [])"

definition SRLI_SRAI_func6_subcode_list :: "instruction_desc" where
  "SRLI_SRAI_func6_subcode_list =
    [(FUNC6_INSTR_SRLI, exec_hook (i_alu SRLI)),
     (FUNC6_INSTR_SRAI, exec_hook (i_alu SRAI))]"

definition SRLI_SRAI_func7_subcode_list :: "instruction_desc" where
  "SRLI_SRAI_func7_subcode_list =
    [(FUNC7_INSTR_SRLI, exec_hook (i_alu SRLI)),
     (FUNC7_INSTR_SRAI, exec_hook (i_alu SRAI))]"

definition ADDI_SLTI_SLTIU_XORI_ORI_ANDI_SLLI_SRLI_SRAI_func3_subcode_list :: "bool \<Rightarrow> instruction_desc" where
  "ADDI_SLTI_SLTIU_XORI_ORI_ANDI_SLLI_SRLI_SRAI_func3_subcode_list rv64 =
    [(FUNC3_INSTR_ADDI, exec_hook (i_alu ADDI)),
     (FUNC3_INSTR_SLTI, exec_hook (i_alu SLTI)),
     (FUNC3_INSTR_SLTIU, exec_hook (i_alu SLTIU)),
     (FUNC3_INSTR_XORI, exec_hook (i_alu XORI)),
     (FUNC3_INSTR_ORI, exec_hook (i_alu ORI)),
     (FUNC3_INSTR_ANDI, exec_hook (i_alu ANDI)),
     (FUNC3_INSTR_SLLI, exec_hook (i_alu SLLI))] @
    (if rv64 then [(FUNC3_INSTR_SRLI_SRAI, next_hook prep_func6 SRLI_SRAI_func6_subcode_list)] else []) @
    (if rv64 then [] else [(FUNC3_INSTR_SRLI_SRAI, next_hook prep_func7 SRLI_SRAI_func7_subcode_list)])"

definition ADD_SUB_MUL_func7_subcode_list :: "instruction_desc" where
  "ADD_SUB_MUL_func7_subcode_list =
    [(FUNC7_INSTR_ADD, exec_hook (i_alu ADD)),
     (FUNC7_INSTR_SUB, exec_hook (i_alu SUB)),
     (FUNC7_INSTR_MUL, exec_hook (i_mul MUL_i))]"

definition SLL_MULH_func7_subcode_list :: "instruction_desc" where
  "SLL_MULH_func7_subcode_list =
    [(FUNC7_INSTR_SLL, exec_hook (i_alu SLL)),
     (FUNC7_INSTR_MUL, exec_hook (i_mul MULH))]"

definition SLT_MULHSU_func7_subcode_list :: "instruction_desc" where
  "SLT_MULHSU_func7_subcode_list =
    [(FUNC7_INSTR_SLT, exec_hook (i_alu SLT)),
     (FUNC7_INSTR_MULHSU, exec_hook (i_mul MULHSU_i))]"

definition SLTU_MULHU_func7_subcode_list :: "instruction_desc" where
  "SLTU_MULHU_func7_subcode_list =
    [(FUNC7_INSTR_SLTU, exec_hook (i_alu SLTU)),
     (FUNC7_INSTR_MULHU, exec_hook (i_mul MULHU))]"

definition XOR_DIV_func7_subcode_list :: "instruction_desc" where
  "XOR_DIV_func7_subcode_list =
    [(FUNC7_INSTR_XOR, exec_hook (i_alu XOR_i)),
     (FUNC7_INSTR_DIV, exec_hook (i_mul DIV_i))]"

definition SRL_SRA_DIVU_func7_subcode_list :: "instruction_desc" where
  "SRL_SRA_DIVU_func7_subcode_list =
    [(FUNC7_INSTR_SRL, exec_hook (i_alu SRL)),
     (FUNC7_INSTR_SRA, exec_hook (i_alu SRA)),
     (FUNC7_INSTR_DIVU, exec_hook (i_mul DIVU))]"

definition OR_REM_func7_subcode_list :: "instruction_desc" where
  "OR_REM_func7_subcode_list =
    [(FUNC7_INSTR_OR, exec_hook (i_alu OR_i)),
     (FUNC7_INSTR_REM, exec_hook (i_mul REM))]"

definition AND_REMU_func7_subcode_list :: "instruction_desc" where
  "AND_REMU_func7_subcode_list =
    [(FUNC7_INSTR_AND, exec_hook (i_alu AND_i)),
     (FUNC7_INSTR_REMU, exec_hook (i_mul REMU))]"

definition ADD_SUB_SLL_SLT_SLTU_XOR_SRL_SRA_OR_AND_func3_subcode_list :: "instruction_desc" where
  "ADD_SUB_SLL_SLT_SLTU_XOR_SRL_SRA_OR_AND_func3_subcode_list =
    [(FUNC3_INSTR_ADD_SUB_MUL, next_hook prep_func7 ADD_SUB_MUL_func7_subcode_list),
     (FUNC3_INSTR_SLL_MULH, next_hook prep_func7 SLL_MULH_func7_subcode_list),
     (FUNC3_INSTR_SLT_MULHSU, next_hook prep_func7 SLT_MULHSU_func7_subcode_list),
     (FUNC3_INSTR_SLTU_MULHU, next_hook prep_func7 SLTU_MULHU_func7_subcode_list),
     (FUNC3_INSTR_XOR_DIV, next_hook prep_func7 XOR_DIV_func7_subcode_list),
     (FUNC3_INSTR_SRL_SRA_DIVU, next_hook prep_func7 SRL_SRA_DIVU_func7_subcode_list),
     (FUNC3_INSTR_OR_REM, next_hook prep_func7 OR_REM_func7_subcode_list),
     (FUNC3_INSTR_AND_REMU, next_hook prep_func7 AND_REMU_func7_subcode_list)]"

definition SRLIW_SRAIW_func7_subcode_list :: "instruction_desc" where
  "SRLIW_SRAIW_func7_subcode_list =
    [(FUNC7_INSTR_SRLIW, exec_hook (i_word SRLIW)),
     (FUNC7_INSTR_SRAIW, exec_hook (i_word SRAIW))]"

definition SLLIW_SRLIW_SRAIW_ADDIW_func3_subcode_list :: "instruction_desc" where
  "SLLIW_SRLIW_SRAIW_ADDIW_func3_subcode_list =
    [(FUNC3_INSTR_SLLIW, exec_hook (i_word SLLIW)),
     (FUNC3_INSTR_SRLIW_SRAIW, next_hook prep_func7 SRLIW_SRAIW_func7_subcode_list),
     (FUNC3_INSTR_ADDIW, exec_hook (i_word ADDIW))]"

definition SRLW_SRAW_DIVUW_func7_subcode_list :: "instruction_desc" where
  "SRLW_SRAW_DIVUW_func7_subcode_list =
    [(FUNC7_INSTR_SRLW, exec_hook (i_word SRLW)),
     (FUNC7_INSTR_SRAW, exec_hook (i_word SRAW)),
     (FUNC7_INSTR_DIVUW, exec_hook (i_mul DIVUW))]"

definition ADDW_SUBW_MULW_func7_subcode_list :: "instruction_desc" where
  "ADDW_SUBW_MULW_func7_subcode_list =
    [(FUNC7_INSTR_ADDW, exec_hook (i_word ADDW)),
     (FUNC7_INSTR_SUBW, exec_hook (i_word SUBW)),
     (FUNC7_INSTR_MULW, exec_hook (i_mul MULW))]"

definition ADDW_SUBW_SLLW_SRLW_SRAW_MULW_DIVW_DIVUW_REMW_REMUW_func3_subcode_list :: "instruction_desc" where
  "ADDW_SUBW_SLLW_SRLW_SRAW_MULW_DIVW_DIVUW_REMW_REMUW_func3_subcode_list =
    [(FUNC3_INSTR_ADDW_SUBW_MULW, next_hook prep_func7 ADDW_SUBW_MULW_func7_subcode_list),
     (FUNC3_INSTR_SLLW, exec_hook (i_word SLLW)),
     (FUNC3_INSTR_SRLW_SRAW_DIVUW, next_hook prep_func7 SRLW_SRAW_DIVUW_func7_subcode_list),
     (FUNC3_INSTR_DIVW, exec_hook (i_mul DIVW)),
     (FUNC3_INSTR_REMW, exec_hook (i_mul REMW)),
     (FUNC3_INSTR_REMUW, exec_hook (i_mul REMUW))]"

definition ECALL_EBREAK_URET_func12_sub5_subcode_list :: "instruction_desc" where
  "ECALL_EBREAK_URET_func12_sub5_subcode_list =
    [(FUNC5_INSTR_ECALL, exec_hook (i_system ECALL)),
     (FUNC5_INSTR_EBREAK, exec_hook (i_system EBREAK)),
     (FUNC5_INSTR_URET, exec_hook (i_system URET))]"

definition SRET_WFI_func12_sub5_subcode_list :: "instruction_desc" where
  "SRET_WFI_func12_sub5_subcode_list =
    [(FUNC5_INSTR_SRET, exec_hook (i_system SRET)),
     (FUNC5_INSTR_WFI, exec_hook (i_base NOP))]"

definition ECALL_EBREAK_URET_SRET_MRET_WFI_SFENCEVMA_func7_subcode_list :: "instruction_desc" where
  "ECALL_EBREAK_URET_SRET_MRET_WFI_SFENCEVMA_func7_subcode_list =
    [(FUNC7_INSTR_ECALL_EBREAK_URET, next_hook prep_func7_func12_sub5 ECALL_EBREAK_URET_func12_sub5_subcode_list),
     (FUNC7_INSTR_SRET_WFI, next_hook prep_func7_func12_sub5 SRET_WFI_func12_sub5_subcode_list),
     (FUNC7_INSTR_MRET, exec_hook (i_system MRET)),
     (FUNC7_INSTR_SFENCEVMA, exec_hook (i_base NOP))]"

definition CSRRW_CSRRS_CSRRC_CSRRWI_CSRRSI_CSRRCI_ECALL_EBREAK_URET_SRET_MRET_WFI_SFENCEVMA_func3_subcode_list :: "instruction_desc" where
  "CSRRW_CSRRS_CSRRC_CSRRWI_CSRRSI_CSRRCI_ECALL_EBREAK_URET_SRET_MRET_WFI_SFENCEVMA_func3_subcode_list =
    [(FUNC3_INSTR_CSRRW, exec_hook (i_system CSRRW)),
     (FUNC3_INSTR_CSRRS, exec_hook (i_system CSRRS)),
     (FUNC3_INSTR_CSRRC, exec_hook (i_system CSRRC)),
     (FUNC3_INSTR_CSRRWI, exec_hook (i_system CSRRWI)),
     (FUNC3_INSTR_CSRRSI, exec_hook (i_system CSRRSI)),
     (FUNC3_INSTR_CSRRCI, exec_hook (i_system CSRRCI)),
     (FUNC3_INSTR_ECALL_EBREAK_MRET_SRET_URET_WFI_SFENCEVMA, next_hook prep_func7 ECALL_EBREAK_URET_SRET_MRET_WFI_SFENCEVMA_func7_subcode_list)]"

definition W_LR_SC_SWAP_ADD_XOR_AND_OR_MIN_MAX_MINU_MAXU_func5_subcode_list :: "instruction_desc" where
  "W_LR_SC_SWAP_ADD_XOR_AND_OR_MIN_MAX_MINU_MAXU_func5_subcode_list =
    [(FUNC5_INSTR_AMO_LR, exec_hook (i_amo_w LR)),
     (FUNC5_INSTR_AMO_SC, exec_hook (i_amo_w SC)),
     (FUNC5_INSTR_AMO_SWAP, exec_hook (i_amo_w AMOSWAP)),
     (FUNC5_INSTR_AMO_ADD, exec_hook (i_amo_w AMOADD)),
     (FUNC5_INSTR_AMO_XOR, exec_hook (i_amo_w AMOXOR)),
     (FUNC5_INSTR_AMO_AND, exec_hook (i_amo_w AMOAND)),
     (FUNC5_INSTR_AMO_OR, exec_hook (i_amo_w AMOOR)),
     (FUNC5_INSTR_AMO_MIN, exec_hook (i_amo_w AMOMIN)),
     (FUNC5_INSTR_AMO_MAX, exec_hook (i_amo_w AMOMAX)),
     (FUNC5_INSTR_AMO_MINU, exec_hook (i_amo_w AMOMINU)),
     (FUNC5_INSTR_AMO_MAXU, exec_hook (i_amo_w AMOMAXU))]"

definition D_LR_SC_SWAP_ADD_XOR_AND_OR_MIN_MAX_MINU_MAXU_func5_subcode_list :: "instruction_desc" where
  "D_LR_SC_SWAP_ADD_XOR_AND_OR_MIN_MAX_MINU_MAXU_func5_subcode_list =
    [(FUNC5_INSTR_AMO_LR, exec_hook (i_amo_d LR)),
     (FUNC5_INSTR_AMO_SC, exec_hook (i_amo_d SC)),
     (FUNC5_INSTR_AMO_SWAP, exec_hook (i_amo_d AMOSWAP)),
     (FUNC5_INSTR_AMO_ADD, exec_hook (i_amo_d AMOADD)),
     (FUNC5_INSTR_AMO_XOR, exec_hook (i_amo_d AMOXOR)),
     (FUNC5_INSTR_AMO_AND, exec_hook (i_amo_d AMOAND)),
     (FUNC5_INSTR_AMO_OR, exec_hook (i_amo_d AMOOR)),
     (FUNC5_INSTR_AMO_MIN, exec_hook (i_amo_d AMOMIN)),
     (FUNC5_INSTR_AMO_MAX, exec_hook (i_amo_d AMOMAX)),
     (FUNC5_INSTR_AMO_MINU, exec_hook (i_amo_d AMOMINU)),
     (FUNC5_INSTR_AMO_MAXU, exec_hook (i_amo_d AMOMAXU))]"

definition W_LR_SC_SWAP_ADD_XOR_AND_OR_MIN_MAX_MINU_MAXU_func3_subcode_list :: "bool \<Rightarrow> instruction_desc" where
  "W_LR_SC_SWAP_ADD_XOR_AND_OR_MIN_MAX_MINU_MAXU_func3_subcode_list rv64 =
    [(FUNC3_INSTR_W_LR_SC_SWAP_ADD_XOR_AND_OR_MIN_MAX_MINU_MAXU, next_hook prep_func5 W_LR_SC_SWAP_ADD_XOR_AND_OR_MIN_MAX_MINU_MAXU_func5_subcode_list)] @
    (if rv64 then [(FUNC3_INSTR_D_LR_SC_SWAP_ADD_XOR_AND_OR_MIN_MAX_MINU_MAXU, next_hook prep_func5 D_LR_SC_SWAP_ADD_XOR_AND_OR_MIN_MAX_MINU_MAXU_func5_subcode_list)] else [])"

definition RV_opcode_list :: "bool \<Rightarrow> instruction_desc" where
  "RV_opcode_list rv64 =
    [(INSTR_LUI, Hook (Some prep_U_type) (Some (i_base LUI)) None),
     (INSTR_AUIPC, Hook (Some prep_U_type) (Some (i_base AUIPC)) None),
     (INSTR_JAL, Hook (Some prep_J_type) (Some (i_base JAL)) None),
     (INSTR_JALR, next_hook prep_I_type JALR_func3_subcode_list),
     (INSTR_BEQ_BNE_BLT_BGE_BLTU_BGEU, next_hook prep_B_type BEQ_BNE_BLT_BGE_BLTU_BGEU_func3_subcode_list),
     (INSTR_LB_LH_LW_LBU_LHU_LWU_LD, next_hook prep_I_type (LB_LH_LW_LBU_LHU_LWU_LD_func3_subcode_list rv64)),
     (INSTR_SB_SH_SW_SD, next_hook prep_S_type (SB_SH_SW_SD_func3_subcode_list rv64)),
     (INSTR_ADDI_SLTI_SLTIU_XORI_ORI_ANDI_SLLI_SRLI_SRAI, next_hook prep_I_type (ADDI_SLTI_SLTIU_XORI_ORI_ANDI_SLLI_SRLI_SRAI_func3_subcode_list rv64)),
     (INSTR_ADD_SUB_SLL_SLT_SLTU_XOR_SRL_SRA_OR_AND_MUL_MULH_MULHSU_MULHU_DIV_DIVU_REM_REMU, next_hook prep_R_type ADD_SUB_SLL_SLT_SLTU_XOR_SRL_SRA_OR_AND_func3_subcode_list),
     (INSTR_FENCE_FENCE_I, exec_hook (i_base NOP))] @
    (if rv64 then [(INSTR_ADDIW_SLLIW_SRLIW_SRAIW, next_hook prep_I_type SLLIW_SRLIW_SRAIW_ADDIW_func3_subcode_list),
     (INSTR_ADDW_SUBW_SLLW_SRLW_SRAW_MULW_DIVW_DIVUW_REMW_REMUW, next_hook prep_R_type ADDW_SUBW_SLLW_SRLW_SRAW_MULW_DIVW_DIVUW_REMW_REMUW_func3_subcode_list)] else []) @
    [(INSTR_ECALL_EBREAK_MRET_SRET_URET_WFI_CSRRW_CSRRS_CSRRC_CSRRWI_CSRRSI_CSRRCI_SFENCEVMA, next_hook prep_I_type CSRRW_CSRRS_CSRRC_CSRRWI_CSRRSI_CSRRCI_ECALL_EBREAK_URET_SRET_MRET_WFI_SFENCEVMA_func3_subcode_list),
     (INSTR_AMO_W_D_LR_SC_SWAP_ADD_XOR_AND_OR_MIN_MAX_MINU_MAXU, next_hook prep_R_type (W_LR_SC_SWAP_ADD_XOR_AND_OR_MIN_MAX_MINU_MAXU_func3_subcode_list rv64))]"

section \<open>The walk through the tables\<close>

definition desc_size :: "instruction_desc \<Rightarrow> nat" where
  "desc_size t = (if t = [] then 0 else Suc (Max (set (map fst t))))"

text \<open>
  The entry is looked at before the bound is checked, so a code past the end of its table is a read
  past the array; an entry without callbacks and table ends the program.
\<close>

primrec hook_depth :: "instruction_hook \<Rightarrow> nat" where
  "hook_depth (Hook p e nxt) = (case map_option (map (map_prod id hook_depth)) nxt of
     None \<Rightarrow> 0 | Some ds \<Rightarrow> Suc (Max (insert 0 (snd ` set ds))))"

definition desc_depth :: "instruction_desc \<Rightarrow> nat" where
  "desc_depth t = Max (insert 0 (hook_depth ` snd ` set t))"

lemma desc_depth_next:
  assumes "map_of t i = Some (Hook p e (Some t'))"
  shows "desc_depth t' < desc_depth t"
proof -
  have "hook_depth (Hook p e (Some t')) \<in> hook_depth ` snd ` set t"
    using map_of_SomeD [OF assms] by force
  then have "hook_depth (Hook p e (Some t')) \<le> desc_depth t" unfolding desc_depth_def by (intro Max_ge) auto
  moreover have "hook_depth (Hook p e (Some t')) = Suc (desc_depth t')"
    by (simp add: desc_depth_def image_comp comp_def)
  ultimately show ?thesis by simp
qed

function rv_call_from_opcode_list ::
  "instruction_desc \<Rightarrow> nat \<Rightarrow> ('x::len, 'p) rv_core_td \<Rightarrow> ('x, 'p) rv_core_td res" where
  "rv_call_from_opcode_list opcode_list opcode c =
    (if opcode \<ge> desc_size opcode_list then Inl OutOfBounds
     else case map_of opcode_list opcode of
       None \<Rightarrow> Inl Die
     | Some (Hook prep exec nxt) \<Rightarrow>
         let (c, next_subcode) = (case prep of None \<Rightarrow> (c, - 1) | Some p \<Rightarrow> preparation_cb p c);
             c = (case exec of None \<Rightarrow> c | Some e \<Rightarrow> c\<lparr>execute_cb := Some e\<rparr>)
         in (case nxt of
               None \<Rightarrow> Inr c
             | Some t \<Rightarrow> if next_subcode \<noteq> - 1 then rv_call_from_opcode_list t (nat next_subcode) c else Inr c))"
  by pat_completeness auto
termination
  by (relation "measure (\<lambda>(t, i, c). desc_depth t)") (auto dest: desc_depth_next)

declare rv_call_from_opcode_list.simps [simp del]

definition rv_core_decode :: "('x::len, 'p) rv_core_td \<Rightarrow> ('x, 'p) rv_core_td res" where
  "rv_core_decode c =
    (let c = c\<lparr>c_opcode := ucast (c_instruction c AND 0x7F)\<rparr>;
         c = c\<lparr>c_rd := 0, c_rs1 := 0, c_rs2 := 0, c_func3 := 0, c_func7 := 0, c_immediate := 0, c_jump_offset := 0\<rparr>
     in rv_call_from_opcode_list (RV_opcode_list (is_rv64 TYPE('x))) (unat (c_opcode c)) c)"

end
