(* ===== verification/DecodeSpec.thy ===== *)
theory DecodeSpec
  imports Decode
begin

text \<open>
  Decoding against the instruction formats of the RISC-V manual: an encoder for every instruction
  the emulator has, and the proof that \<open>rv_core_decode\<close> (theory \<open>Decode\<close>) inverts it. An instruction word
  is the concatenation of six fields; the immediate of the branch, jump and store formats is spread over them.
\<close>

section \<open>Formats\<close>

definition word_fields :: "7 word \<Rightarrow> 5 word \<Rightarrow> 3 word \<Rightarrow> 5 word \<Rightarrow> 5 word \<Rightarrow> 7 word \<Rightarrow> u32" where
  "word_fields opcode rd func3 rs1 rs2 func7 =
     ucast opcode OR push_bit 7 (ucast rd) OR push_bit 12 (ucast func3) OR push_bit 15 (ucast rs1) OR
     push_bit 20 (ucast rs2) OR push_bit 25 (ucast func7)"

lemma bit_word_fields:
  "bit (word_fields opc rd f3 rs1 rs2 f7) i \<longleftrightarrow>
     (if i < 7 then bit opc i else if i < 12 then bit rd (i - 7) else if i < 15 then bit f3 (i - 12)
      else if i < 20 then bit rs1 (i - 15) else if i < 25 then bit rs2 (i - 20) else i < 32 \<and> bit f7 (i - 25))"
  by (auto simp: word_fields_def bit_simps dest: bit_imp_le_length)

text \<open>Bounds of bit numbers, and equality of words bit by bit.\<close>

lemma field_bits:
  "bit (w3 :: 3 word) n \<Longrightarrow> n < 3" "bit (w5 :: 5 word) n \<Longrightarrow> n < 5" "bit (w7 :: 7 word) n \<Longrightarrow> n < 7"
  "bit (w12 :: 12 word) n \<Longrightarrow> n < 12" "bit (w20 :: 20 word) n \<Longrightarrow> n < 20"
  by (auto dest: bit_imp_le_length)

lemma field_bit_Suc: "bit (w7 :: 7 word) (Suc n) \<Longrightarrow> n < 6" "bit (w7 :: 7 word) (Suc (Suc n)) \<Longrightarrow> n < 5"
  by (auto dest: bit_imp_le_length)

lemma u32_bits: "[0..<32] =
    [0, 1, 2, 3, 4, 5, 6, 7, 8, 9, 10, 11, 12, 13, 14, 15, 16, 17, 18, 19, 20, 21, 22, 23, 24, 25, 26, 27, 28, 29, 30, 31]"
  by code_simp

lemma u32_eqI:
  assumes "\<forall>i\<in>set [0, 1, 2, 3, 4, 5, 6, 7, 8, 9, 10, 11, 12, 13, 14, 15, 16, 17, 18, 19, 20, 21, 22, 23, 24, 25,
     26, 27, 28, 29, 30, 31]. bit a i \<longleftrightarrow> bit b i"
  shows "a = (b :: u32)"
  using assms unfolding u32_bits [symmetric] by (auto intro!: bit_eqI)

lemma mask_consts:
  "(0x1F :: u32) = mask 5" "(0x3F :: u32) = mask 6" "(0x7F :: u32) = mask 7" "(0x7 :: u32) = mask 3"
  "(0xFFF :: u32) = mask 12" "(0xFFFFF :: u32) = mask 20"
  by (simp_all add: mask_eq_exp_minus_1)

lemma fields_of_word:
  "(ucast (word_fields opc rd f3 rs1 rs2 f7 AND 0x7F) :: u8) = ucast opc"
  "(ucast (drop_bit 7 (word_fields opc rd f3 rs1 rs2 f7) AND 0x1F) :: u8) = ucast rd"
  "(ucast (drop_bit 12 (word_fields opc rd f3 rs1 rs2 f7) AND 0x7) :: u8) = ucast f3"
  "(ucast (drop_bit 15 (word_fields opc rd f3 rs1 rs2 f7) AND 0x1F) :: u8) = ucast rs1"
  "(ucast (drop_bit 20 (word_fields opc rd f3 rs1 rs2 f7) AND 0x1F) :: u8) = ucast rs2"
  "(ucast (drop_bit 25 (word_fields opc rd f3 rs1 rs2 f7) AND 0x7F) :: u8) = ucast f7"
  "(ucast (drop_bit 26 (word_fields opc rd f3 rs1 rs2 f7) AND 0x3F) :: u8) = ucast (drop_bit 1 f7)"
  "(ucast (drop_bit 27 (word_fields opc rd f3 rs1 rs2 f7) AND 0x1F) :: u8) = ucast (drop_bit 2 f7)"
  unfolding mask_consts
  by (auto intro!: bit_eqI simp: bit_word_fields bit_simps dest: field_bits field_bit_Suc)

text \<open>The fields \<open>rs2\<close> and \<open>func7\<close> as one 12-bit immediate, high bits in \<open>func7\<close>.\<close>

definition imm_lo :: "12 word \<Rightarrow> 5 word" where "imm_lo imm = ucast imm"
definition imm_hi :: "12 word \<Rightarrow> 7 word" where "imm_hi imm = ucast (drop_bit 5 imm)"

definition enc_I :: "7 word \<Rightarrow> 3 word \<Rightarrow> 5 word \<Rightarrow> 5 word \<Rightarrow> 12 word \<Rightarrow> u32" where
  "enc_I opc f3 rd rs1 imm = word_fields opc rd f3 rs1 (imm_lo imm) (imm_hi imm)"

definition enc_S :: "7 word \<Rightarrow> 3 word \<Rightarrow> 5 word \<Rightarrow> 5 word \<Rightarrow> 12 word \<Rightarrow> u32" where
  "enc_S opc f3 rs1 rs2 imm = word_fields opc (imm_lo imm) f3 rs1 rs2 (imm_hi imm)"

text \<open>Branch and jump offsets count units of two bytes; \<open>U\<close> holds the upper 20 bits.\<close>

definition enc_B :: "7 word \<Rightarrow> 3 word \<Rightarrow> 5 word \<Rightarrow> 5 word \<Rightarrow> 12 word \<Rightarrow> u32" where
  "enc_B opc f3 rs1 rs2 offs = word_fields opc
     (push_bit 1 (ucast (take_bit 4 offs)) OR of_bool (bit offs 10)) f3 rs1 rs2
     (ucast (take_bit 6 (drop_bit 4 offs)) OR push_bit 6 (of_bool (bit offs 11)))"

definition enc_U :: "7 word \<Rightarrow> 5 word \<Rightarrow> 20 word \<Rightarrow> u32" where
  "enc_U opc rd imm = ucast opc OR push_bit 7 (ucast rd) OR push_bit 12 (ucast imm)"

definition enc_J :: "7 word \<Rightarrow> 5 word \<Rightarrow> 20 word \<Rightarrow> u32" where
  "enc_J opc rd offs = enc_U opc rd
     (ucast (take_bit 8 (drop_bit 11 offs)) OR push_bit 8 (of_bool (bit offs 10)) OR
      push_bit 9 (take_bit 10 offs) OR push_bit 19 (of_bool (bit offs 19)))"

lemma bit_enc_U:
  "bit (enc_U opc rd imm) i \<longleftrightarrow>
     (if i < 7 then bit opc i else if i < 12 then bit rd (i - 7) else i < 32 \<and> bit imm (i - 12))"
  by (auto simp: enc_U_def bit_simps dest: bit_imp_le_length)

lemma fields_of_U:
  "(ucast (enc_U opc rd imm AND 0x7F) :: u8) = ucast opc"
  "(ucast (drop_bit 7 (enc_U opc rd imm) AND 0x1F) :: u8) = ucast rd"
  "drop_bit 12 (enc_U opc rd imm) AND 0xFFFFF = ucast imm"
  unfolding mask_consts
  by (auto intro!: bit_eqI simp: bit_enc_U bit_simps dest: field_bits)

lemma imm_no_bit: "12 \<le> n \<Longrightarrow> \<not> bit (w12 :: 12 word) n" "20 \<le> n \<Longrightarrow> \<not> bit (w20 :: 20 word) n"
  by (auto dest: field_bits)

text \<open>The simplifier turns a shift by one into a multiplication.\<close>

lemma bit_times_2: "bit (w * 2 :: 'a::len word) n \<longleftrightarrow> 0 < n \<and> n < LENGTH('a) \<and> bit w (n - 1)"
proof -
  have "w * 2 = push_bit 1 w" by simp
  then show ?thesis by (simp only: bit_push_bit_iff) auto
qed

lemmas fields_bitwise = imm_no_bit bit_times_2 even_drop_bit_iff_not_bit bit_word_fields bit_enc_U bit_simps bit_1_iff extract32_eq

lemma imm_of_I:
  "drop_bit 20 (enc_I opc f3 rd rs1 imm) AND 0xFFF = ucast imm"
  unfolding mask_consts
  by (rule u32_eqI) (simp add: enc_I_def imm_lo_def imm_hi_def fields_bitwise)

lemma imm_of_S:
  "push_bit 5 (drop_bit 25 (enc_S opc f3 rs1 rs2 imm)) OR (drop_bit 7 (enc_S opc f3 rs1 rs2 imm) AND 0x1F) = ucast imm"
  unfolding mask_consts
  by (rule u32_eqI) (simp add: enc_S_def imm_lo_def imm_hi_def fields_bitwise)

lemma offset_of_B:
  fixes w :: u32
  assumes "w = enc_B opc f3 rs1 rs2 offs"
  shows "push_bit 1 (extract32 w 8 4) OR push_bit 5 (extract32 w 25 6) OR push_bit 11 (extract32 w 7 1)
      OR push_bit 12 (extract32 w 31 1) = push_bit 1 (ucast offs)"
  unfolding assms
  by (rule u32_eqI) (simp add: enc_B_def fields_bitwise)


lemma offset_of_J:
  fixes w :: u32
  assumes "w = enc_J opc rd offs"
  shows "push_bit 1 (extract32 w 21 10) OR push_bit 11 (extract32 w 20 1) OR push_bit 12 (extract32 w 12 8)
      OR push_bit 20 (extract32 w 31 1) = push_bit 1 (ucast offs)"
  unfolding assms
  by (rule u32_eqI) (simp add: enc_J_def fields_bitwise)

text \<open>Sign extension of the offsets.\<close>

lemma signex_shifted:
  assumes "32 \<le> LENGTH('x::len)"
  shows "SIGNEX_BIT 12 (ucast (push_bit 1 (ucast (b :: 12 word)) :: u32)) = (push_bit 1 (scast b) :: 'x word)"
    "SIGNEX_BIT 20 (ucast (push_bit 1 (ucast (j :: 20 word)) :: u32)) = (push_bit 1 (scast j) :: 'x word)"
  using assms by (auto intro!: bit_eqI simp: SIGNEX_BIT_def bit_simps min_def bit_times_2 split: if_splits
    dest: field_bits)

lemma signex_offsets:
  assumes "32 \<le> LENGTH('x::len)"
  shows "SIGNEX_BIT 19 (ucast (ucast j :: u32)) = (scast (j :: 20 word) :: 'x word)"
    "SIGNEX_BIT 11 (ucast (ucast b :: u32)) = (scast (b :: 12 word) :: 'x word)"
  using assms by (auto intro!: bit_eqI simp: SIGNEX_BIT_def bit_simps min_def)


section \<open>Encoder\<close>

record operands =
  o_rd :: "5 word"
  o_rs1 :: "5 word"
  o_rs2 :: "5 word"
  o_imm :: "12 word"
  o_imm20 :: "20 word"

text \<open>The immediate of a shift: the code of the operation above the shift amount of 5 or 6 bits.\<close>

definition shift_imm :: "bool \<Rightarrow> bool \<Rightarrow> 12 word \<Rightarrow> 12 word" where
  "shift_imm six arith imm = (take_bit (if six then 6 else 5) imm) OR push_bit 10 (of_bool arith)"

primrec enc_base :: "instr_base \<Rightarrow> operands \<Rightarrow> u32" where
  "enc_base NOP r = enc_I 0x0F 0 (o_rd r) (o_rs1 r) (o_imm r)"
| "enc_base LUI r = enc_U 0x37 (o_rd r) (o_imm20 r)"
| "enc_base AUIPC r = enc_U 0x17 (o_rd r) (o_imm20 r)"
| "enc_base JAL r = enc_J 0x6F (o_rd r) (o_imm20 r)"
| "enc_base JALR r = enc_I 0x67 0 (o_rd r) (o_rs1 r) (o_imm r)"
| "enc_base BEQ r = enc_B 0x63 0 (o_rs1 r) (o_rs2 r) (o_imm r)"
| "enc_base BNE r = enc_B 0x63 1 (o_rs1 r) (o_rs2 r) (o_imm r)"
| "enc_base BLT r = enc_B 0x63 4 (o_rs1 r) (o_rs2 r) (o_imm r)"
| "enc_base BGE r = enc_B 0x63 5 (o_rs1 r) (o_rs2 r) (o_imm r)"
| "enc_base BLTU r = enc_B 0x63 6 (o_rs1 r) (o_rs2 r) (o_imm r)"
| "enc_base BGEU r = enc_B 0x63 7 (o_rs1 r) (o_rs2 r) (o_imm r)"

abbreviation enc_op :: "7 word \<Rightarrow> 3 word \<Rightarrow> 7 word \<Rightarrow> operands \<Rightarrow> u32" where
  "enc_op opc f3 f7 r \<equiv> word_fields opc (o_rd r) f3 (o_rs1 r) (o_rs2 r) f7"

abbreviation enc_opi :: "7 word \<Rightarrow> 3 word \<Rightarrow> operands \<Rightarrow> u32" where
  "enc_opi opc f3 r \<equiv> enc_I opc f3 (o_rd r) (o_rs1 r) (o_imm r)"

abbreviation enc_shift :: "bool \<Rightarrow> 7 word \<Rightarrow> 3 word \<Rightarrow> bool \<Rightarrow> operands \<Rightarrow> u32" where
  "enc_shift six opc f3 arith r \<equiv> enc_I opc f3 (o_rd r) (o_rs1 r) (shift_imm six arith (o_imm r))"

primrec enc_alu :: "bool \<Rightarrow> instr_alu \<Rightarrow> operands \<Rightarrow> u32" where
  "enc_alu rv64 ADDI r = enc_opi 0x13 0 r"
| "enc_alu rv64 SLTI r = enc_opi 0x13 2 r"
| "enc_alu rv64 SLTIU r = enc_opi 0x13 3 r"
| "enc_alu rv64 XORI r = enc_opi 0x13 4 r"
| "enc_alu rv64 ORI r = enc_opi 0x13 6 r"
| "enc_alu rv64 ANDI r = enc_opi 0x13 7 r"
| "enc_alu rv64 SLLI r = enc_shift rv64 0x13 1 False r"
| "enc_alu rv64 SRLI r = enc_shift rv64 0x13 5 False r"
| "enc_alu rv64 SRAI r = enc_shift rv64 0x13 5 True r"
| "enc_alu rv64 ADD r = enc_op 0x33 0 0 r"
| "enc_alu rv64 SUB r = enc_op 0x33 0 0x20 r"
| "enc_alu rv64 SLL r = enc_op 0x33 1 0 r"
| "enc_alu rv64 SLT r = enc_op 0x33 2 0 r"
| "enc_alu rv64 SLTU r = enc_op 0x33 3 0 r"
| "enc_alu rv64 XOR_i r = enc_op 0x33 4 0 r"
| "enc_alu rv64 SRL r = enc_op 0x33 5 0 r"
| "enc_alu rv64 SRA r = enc_op 0x33 5 0x20 r"
| "enc_alu rv64 OR_i r = enc_op 0x33 6 0 r"
| "enc_alu rv64 AND_i r = enc_op 0x33 7 0 r"

primrec enc_mem :: "instr_mem \<Rightarrow> operands \<Rightarrow> u32" where
  "enc_mem LB r = enc_opi 0x03 0 r"
| "enc_mem LH r = enc_opi 0x03 1 r"
| "enc_mem LW r = enc_opi 0x03 2 r"
| "enc_mem LD r = enc_opi 0x03 3 r"
| "enc_mem LBU r = enc_opi 0x03 4 r"
| "enc_mem LHU r = enc_opi 0x03 5 r"
| "enc_mem LWU r = enc_opi 0x03 6 r"
| "enc_mem SB r = enc_S 0x23 0 (o_rs1 r) (o_rs2 r) (o_imm r)"
| "enc_mem SH r = enc_S 0x23 1 (o_rs1 r) (o_rs2 r) (o_imm r)"
| "enc_mem SW r = enc_S 0x23 2 (o_rs1 r) (o_rs2 r) (o_imm r)"
| "enc_mem SD r = enc_S 0x23 3 (o_rs1 r) (o_rs2 r) (o_imm r)"

primrec enc_word :: "instr_word \<Rightarrow> operands \<Rightarrow> u32" where
  "enc_word ADDIW r = enc_opi 0x1B 0 r"
| "enc_word SLLIW r = enc_shift False 0x1B 1 False r"
| "enc_word SRLIW r = enc_shift False 0x1B 5 False r"
| "enc_word SRAIW r = enc_shift False 0x1B 5 True r"
| "enc_word ADDW r = enc_op 0x3B 0 0 r"
| "enc_word SUBW r = enc_op 0x3B 0 0x20 r"
| "enc_word SLLW r = enc_op 0x3B 1 0 r"
| "enc_word SRLW r = enc_op 0x3B 5 0 r"
| "enc_word SRAW r = enc_op 0x3B 5 0x20 r"

primrec enc_mul :: "instr_mul \<Rightarrow> operands \<Rightarrow> u32" where
  "enc_mul MUL_i r = enc_op 0x33 0 1 r"
| "enc_mul MULH r = enc_op 0x33 1 1 r"
| "enc_mul MULHSU_i r = enc_op 0x33 2 1 r"
| "enc_mul MULHU r = enc_op 0x33 3 1 r"
| "enc_mul DIV_i r = enc_op 0x33 4 1 r"
| "enc_mul DIVU r = enc_op 0x33 5 1 r"
| "enc_mul REM r = enc_op 0x33 6 1 r"
| "enc_mul REMU r = enc_op 0x33 7 1 r"
| "enc_mul MULW r = enc_op 0x3B 0 1 r"
| "enc_mul DIVW r = enc_op 0x3B 4 1 r"
| "enc_mul DIVUW r = enc_op 0x3B 5 1 r"
| "enc_mul REMW r = enc_op 0x3B 6 1 r"
| "enc_mul REMUW r = enc_op 0x3B 7 1 r"

primrec enc_system :: "instr_system \<Rightarrow> operands \<Rightarrow> u32" where
  "enc_system CSRRW r = enc_opi 0x73 1 r"
| "enc_system CSRRS r = enc_opi 0x73 2 r"
| "enc_system CSRRC r = enc_opi 0x73 3 r"
| "enc_system CSRRWI r = enc_opi 0x73 5 r"
| "enc_system CSRRSI r = enc_opi 0x73 6 r"
| "enc_system CSRRCI r = enc_opi 0x73 7 r"
| "enc_system ECALL r = word_fields 0x73 0 0 0 0 0"
| "enc_system EBREAK r = word_fields 0x73 0 0 0 1 0"
| "enc_system URET r = word_fields 0x73 0 0 0 2 0"
| "enc_system SRET r = word_fields 0x73 0 0 0 2 0x08"
| "enc_system MRET r = word_fields 0x73 0 0 0 2 0x18"

text \<open>The two lowest bits of \<open>func7\<close> are the ordering bits of an atomic instruction.\<close>

definition enc_amo :: "3 word \<Rightarrow> 5 word \<Rightarrow> operands \<Rightarrow> u32" where
  "enc_amo f3 f5 r = enc_op 0x2F f3 (push_bit 2 (ucast f5) OR ucast (take_bit 2 (o_imm r))) r"

primrec amo_code :: "instr_amo \<Rightarrow> 5 word" where
  "amo_code LR = 0x02"
| "amo_code SC = 0x03"
| "amo_code AMOSWAP = 0x01"
| "amo_code AMOADD = 0x00"
| "amo_code AMOXOR = 0x04"
| "amo_code AMOAND = 0x0C"
| "amo_code AMOOR = 0x08"
| "amo_code AMOMIN = 0x10"
| "amo_code AMOMAX = 0x14"
| "amo_code AMOMINU = 0x18"
| "amo_code AMOMAXU = 0x1C"

primrec encode :: "bool \<Rightarrow> instr \<Rightarrow> operands \<Rightarrow> u32" where
  "encode rv64 (i_base i) r = enc_base i r"
| "encode rv64 (i_alu i) r = enc_alu rv64 i r"
| "encode rv64 (i_mem i) r = enc_mem i r"
| "encode rv64 (i_word i) r = enc_word i r"
| "encode rv64 (i_system i) r = enc_system i r"
| "encode rv64 (i_amo_w i) r = enc_amo 2 (amo_code i) r"
| "encode rv64 (i_amo_d i) r = enc_amo 3 (amo_code i) r"
| "encode rv64 (i_mul i) r = enc_mul i r"

text \<open>The instructions that only the RV64 build has.\<close>

definition rv64_only :: "instr \<Rightarrow> bool" where
  "rv64_only i = (case i of
     i_word _ \<Rightarrow> True | i_amo_d _ \<Rightarrow> True | i_mem m \<Rightarrow> m \<in> {LWU, LD, SD}
   | i_mul m \<Rightarrow> m \<in> {MULW, DIVW, DIVUW, REMW, REMUW} | _ \<Rightarrow> False)"

section \<open>What the fields have to be after decoding\<close>

definition fields_R :: "operands \<Rightarrow> ('x::len, 'p) rv_core_td \<Rightarrow> bool" where
  "fields_R r c \<longleftrightarrow> c_rd c = ucast (o_rd r) \<and> c_rs1 c = ucast (o_rs1 r) \<and> c_rs2 c = ucast (o_rs2 r) \<and> c_immediate c = 0"

definition fields_I :: "operands \<Rightarrow> 12 word \<Rightarrow> ('x::len, 'p) rv_core_td \<Rightarrow> bool" where
  "fields_I r imm c \<longleftrightarrow> c_rd c = ucast (o_rd r) \<and> c_rs1 c = ucast (o_rs1 r) \<and> c_immediate c = ucast imm"

definition fields_S :: "operands \<Rightarrow> ('x::len, 'p) rv_core_td \<Rightarrow> bool" where
  "fields_S r c \<longleftrightarrow> c_rs1 c = ucast (o_rs1 r) \<and> c_rs2 c = ucast (o_rs2 r) \<and> c_immediate c = ucast (o_imm r)"

definition fields_B :: "operands \<Rightarrow> ('x::len, 'p) rv_core_td \<Rightarrow> bool" where
  "fields_B r c \<longleftrightarrow> c_rs1 c = ucast (o_rs1 r) \<and> c_rs2 c = ucast (o_rs2 r) \<and> c_jump_offset c = push_bit 1 (scast (o_imm r))"

definition fields_U :: "operands \<Rightarrow> ('x::len, 'p) rv_core_td \<Rightarrow> bool" where
  "fields_U r c \<longleftrightarrow> c_rd c = ucast (o_rd r) \<and> c_immediate c = scast (o_imm20 r)"

definition fields_J :: "operands \<Rightarrow> ('x::len, 'p) rv_core_td \<Rightarrow> bool" where
  "fields_J r c \<longleftrightarrow> c_rd c = ucast (o_rd r) \<and> c_jump_offset c = push_bit 1 (scast (o_imm20 r))"

primrec fields_base :: "instr_base \<Rightarrow> operands \<Rightarrow> ('x::len, 'p) rv_core_td \<Rightarrow> bool" where
  "fields_base NOP r c = True"
| "fields_base LUI r c = fields_U r c"
| "fields_base AUIPC r c = fields_U r c"
| "fields_base JAL r c = fields_J r c"
| "fields_base JALR r c = fields_I r (o_imm r) c"
| "fields_base BEQ r c = fields_B r c"
| "fields_base BNE r c = fields_B r c"
| "fields_base BLT r c = fields_B r c"
| "fields_base BGE r c = fields_B r c"
| "fields_base BLTU r c = fields_B r c"
| "fields_base BGEU r c = fields_B r c"

definition fields_ok :: "bool \<Rightarrow> instr \<Rightarrow> operands \<Rightarrow> ('x::len, 'p) rv_core_td \<Rightarrow> bool" where
  "fields_ok rv64 i r c = (case i of
     i_base b \<Rightarrow> fields_base b r c
   | i_alu a \<Rightarrow> (if a \<in> {ADDI, SLTI, SLTIU, XORI, ORI, ANDI} then fields_I r (o_imm r) c
       else if a \<in> {SLLI, SRLI} then fields_I r (shift_imm rv64 False (o_imm r)) c
       else if a = SRAI then fields_I r (shift_imm rv64 True (o_imm r)) c
       else fields_R r c)
   | i_mem m \<Rightarrow> (if m \<in> {SB, SH, SW, SD} then fields_S r c else fields_I r (o_imm r) c)
   | i_word w \<Rightarrow> (if w = ADDIW then fields_I r (o_imm r) c
       else if w \<in> {SLLIW, SRLIW} then fields_I r (shift_imm False False (o_imm r)) c
       else if w = SRAIW then fields_I r (shift_imm False True (o_imm r)) c
       else fields_R r c)
   | i_system s \<Rightarrow> (if s \<in> {ECALL, EBREAK, URET, SRET, MRET} then True else fields_I r (o_imm r) c)
   | i_mul _ \<Rightarrow> fields_R r c | i_amo_w _ \<Rightarrow> fields_R r c | i_amo_d _ \<Rightarrow> fields_R r c)"

section \<open>Decoding inverts the encoder\<close>

text \<open>One level of the tables; the branches are only looked at once the entry is known.\<close>

lemma call_level:
  "rv_call_from_opcode_list t i c =
    (case map_of t i of
       None \<Rightarrow> if i \<ge> desc_size t then Inl OutOfBounds else Inl Die
     | Some h \<Rightarrow> (case h of Hook prep exec nxt \<Rightarrow>
         case (case prep of None \<Rightarrow> (c, - 1) | Some p \<Rightarrow> preparation_cb p c) of (c, next_subcode) \<Rightarrow>
           case nxt of
             None \<Rightarrow> Inr (case exec of None \<Rightarrow> c | Some e \<Rightarrow> c\<lparr>execute_cb := Some e\<rparr>)
           | Some t' \<Rightarrow> if next_subcode \<noteq> - 1
               then rv_call_from_opcode_list t' (nat next_subcode) (case exec of None \<Rightarrow> c | Some e \<Rightarrow> c\<lparr>execute_cb := Some e\<rparr>)
               else Inr (case exec of None \<Rightarrow> c | Some e \<Rightarrow> c\<lparr>execute_cb := Some e\<rparr>)))"
proof (cases "map_of t i")
  case None
  then show ?thesis by (simp add: rv_call_from_opcode_list.simps [of t i])
next
  case (Some h)
  then have "i \<in> set (map fst t)" by (force dest!: map_of_SomeD)
  then have "i < desc_size t" by (auto simp: desc_size_def less_Suc_eq_le)
  with Some show ?thesis
    by (simp add: rv_call_from_opcode_list.simps [of t i] Let_def split: instruction_hook.splits option.splits prod.splits)
qed


lemmas fields_of_I [simp] = fields_of_word [of opc rd f3 rs1 "imm_lo imm" "imm_hi imm" for opc rd f3 rs1 imm, folded enc_I_def]
lemmas fields_of_S [simp] = fields_of_word [of opc "imm_lo imm" f3 rs1 rs2 "imm_hi imm" for opc f3 rs1 rs2 imm, folded enc_S_def]
lemma fields_of_B [simp]:
  "(ucast (enc_B opc f3 rs1 rs2 offs AND 0x7F) :: u8) = ucast opc"
  "(ucast (drop_bit 12 (enc_B opc f3 rs1 rs2 offs) AND 0x7) :: u8) = ucast f3"
  "(ucast (drop_bit 15 (enc_B opc f3 rs1 rs2 offs) AND 0x1F) :: u8) = ucast rs1"
  "(ucast (drop_bit 20 (enc_B opc f3 rs1 rs2 offs) AND 0x1F) :: u8) = ucast rs2"
  unfolding enc_B_def by (rule fields_of_word)+
lemmas fields_of_J [simp] = fields_of_U [of opc rd
     "ucast (take_bit 8 (drop_bit 11 offs)) OR push_bit 8 (of_bool (bit offs 10)) OR
      push_bit 9 (take_bit 10 offs) OR push_bit 19 (of_bool (bit offs 19))" for opc rd offs, folded enc_J_def]
declare fields_of_word [simp] fields_of_U [simp] imm_of_I [simp] imm_of_S [simp]

lemma shift_imm_codes [simp]:
  "imm_hi (shift_imm False False imm) = 0" "imm_hi (shift_imm False True imm) = 0x20"
  "drop_bit (Suc 0) (imm_hi (shift_imm True False imm)) = 0"
  "drop_bit (Suc 0) (imm_hi (shift_imm True True imm)) = 0x10"
proof -
  have e: "(0x20 :: 7 word) = push_bit 5 1" "(0x10 :: 7 word) = push_bit 4 1" by simp_all
  show "imm_hi (shift_imm False False imm) = 0" "imm_hi (shift_imm False True imm) = 0x20"
    "drop_bit (Suc 0) (imm_hi (shift_imm True False imm)) = 0"
    "drop_bit (Suc 0) (imm_hi (shift_imm True True imm)) = 0x10"
    unfolding e by (auto intro!: bit_eqI simp: imm_hi_def shift_imm_def bit_simps bit_1_iff simp del: push_bit_of_1)
qed

lemma amo_f5: "drop_bit 2 (push_bit 2 (ucast f5) OR ucast (take_bit 2 imm) :: 7 word) = ucast (f5 :: 5 word)"
  by (auto intro!: bit_eqI simp: bit_simps dest: field_bits)

lemma fields_of_amo [simp]:
  "(ucast (enc_amo f3 f5 r AND 0x7F) :: u8) = 0x2F"
  "(ucast (drop_bit 7 (enc_amo f3 f5 r) AND 0x1F) :: u8) = ucast (o_rd r)"
  "(ucast (drop_bit 12 (enc_amo f3 f5 r) AND 0x7) :: u8) = ucast f3"
  "(ucast (drop_bit 15 (enc_amo f3 f5 r) AND 0x1F) :: u8) = ucast (o_rs1 r)"
  "(ucast (drop_bit 20 (enc_amo f3 f5 r) AND 0x1F) :: u8) = ucast (o_rs2 r)"
  "(ucast (drop_bit 27 (enc_amo f3 f5 r) AND 0x1F) :: u8) = ucast f5"
proof -
  have u: "(ucast (ucast f5 :: 7 word) :: u8) = ucast f5"
    by (rule bit_eqI) (use field_bits(2) [of f5] in \<open>force simp: bit_simps\<close>)
  show "(ucast (enc_amo f3 f5 r AND 0x7F) :: u8) = 0x2F"
    "(ucast (drop_bit 7 (enc_amo f3 f5 r) AND 0x1F) :: u8) = ucast (o_rd r)"
    "(ucast (drop_bit 12 (enc_amo f3 f5 r) AND 0x7) :: u8) = ucast f3"
    "(ucast (drop_bit 15 (enc_amo f3 f5 r) AND 0x1F) :: u8) = ucast (o_rs1 r)"
    "(ucast (drop_bit 20 (enc_amo f3 f5 r) AND 0x1F) :: u8) = ucast (o_rs2 r)"
    "(ucast (drop_bit 27 (enc_amo f3 f5 r) AND 0x1F) :: u8) = ucast f5"
    unfolding enc_amo_def fields_of_word amo_f5 by (simp_all add: u)
qed

lemma imm_u32 [simp]: "(ucast (ucast (w :: 12 word) :: u32) :: 'x::len word) = ucast w"
  by (rule bit_eqI) (use field_bits(4) [of w] in \<open>force simp: bit_simps\<close>)

text \<open>All tables, and the preparation functions.\<close>

lemmas decode_defs = rv_core_decode_def Let_def RV_opcode_list_def ifield_def
  preparation_func5_def preparation_func6_def preparation_func7_def preparation_func7_func12_sub5_extended_def
  R_type_preparation_def I_type_preparation_def S_type_preparation_def B_type_preparation_def
  U_type_preparation_def J_type_preparation_def JALR_func3_subcode_list_def
  BEQ_BNE_BLT_BGE_BLTU_BGEU_func3_subcode_list_def
  LB_LH_LW_LBU_LHU_LWU_LD_func3_subcode_list_def
  SB_SH_SW_SD_func3_subcode_list_def
  SRLI_SRAI_func6_subcode_list_def
  SRLI_SRAI_func7_subcode_list_def
  ADDI_SLTI_SLTIU_XORI_ORI_ANDI_SLLI_SRLI_SRAI_func3_subcode_list_def
  ADD_SUB_MUL_func7_subcode_list_def
  SLL_MULH_func7_subcode_list_def
  SLT_MULHSU_func7_subcode_list_def
  SLTU_MULHU_func7_subcode_list_def
  XOR_DIV_func7_subcode_list_def
  SRL_SRA_DIVU_func7_subcode_list_def
  OR_REM_func7_subcode_list_def
  AND_REMU_func7_subcode_list_def
  ADD_SUB_SLL_SLT_SLTU_XOR_SRL_SRA_OR_AND_func3_subcode_list_def
  SRLIW_SRAIW_func7_subcode_list_def
  SLLIW_SRLIW_SRAIW_ADDIW_func3_subcode_list_def
  SRLW_SRAW_DIVUW_func7_subcode_list_def
  ADDW_SUBW_MULW_func7_subcode_list_def
  ADDW_SUBW_SLLW_SRLW_SRAW_MULW_DIVW_DIVUW_REMW_REMUW_func3_subcode_list_def
  ECALL_EBREAK_URET_func12_sub5_subcode_list_def
  SRET_WFI_func12_sub5_subcode_list_def
  ECALL_EBREAK_URET_SRET_MRET_WFI_SFENCEVMA_func7_subcode_list_def
  CSRRW_CSRRS_CSRRC_CSRRWI_CSRRSI_CSRRCI_ECALL_EBREAK_URET_SRET_MRET_WFI_SFENCEVMA_func3_subcode_list_def
  W_LR_SC_SWAP_ADD_XOR_AND_OR_MIN_MAX_MINU_MAXU_func5_subcode_list_def
  D_LR_SC_SWAP_ADD_XOR_AND_OR_MIN_MAX_MINU_MAXU_func5_subcode_list_def
  W_LR_SC_SWAP_ADD_XOR_AND_OR_MIN_MAX_MINU_MAXU_func3_subcode_list_def

lemmas field_specs = fields_ok_def fields_I_def fields_R_def fields_S_def fields_B_def fields_U_def fields_J_def

lemma decode_alu:
  fixes c :: "('x::len, 'p) rv_core_td"
  assumes "rv64 = is_rv64 TYPE('x)"
  shows "\<exists>c'. rv_core_decode (c\<lparr>c_instruction := encode rv64 (i_alu i) r\<rparr>) = Inr c' \<and> execute_cb c' = Some (i_alu i)
    \<and> fields_ok rv64 (i_alu i) r c'"
  by (cases i; cases rv64) (use assms in \<open>simp_all add: decode_defs call_level field_specs\<close>)

text \<open>The two formats with a scattered offset.\<close>

lemma B_type_prepared:
  fixes c :: "('x::len, 'p) rv_core_td"
  assumes "c_instruction c = enc_B opc f3 rs1 rs2 offs" "32 \<le> LENGTH('x)"
  shows "\<exists>rd. B_type_preparation c =
    (c\<lparr>c_rd := rd, c_func3 := ucast f3, c_rs1 := ucast rs1, c_rs2 := ucast rs2, c_jump_offset := push_bit 1 (scast offs)\<rparr>,
     uint (ucast f3 :: u8))"
proof -
  note o = offset_of_B [OF assms(1)] and s = signex_shifted(1) [OF assms(2)]
  show ?thesis unfolding B_type_preparation_def Let_def ifield_def
    by (rule exI [of _ "ifield c 7 0x1F"])
      (simp add: o s del: One_nat_def push_bit_Suc, simp add: assms(1) ifield_def)
qed

lemma J_type_prepared:
  fixes c :: "('x::len, 'p) rv_core_td"
  assumes "c_instruction c = enc_J opc rd offs" "32 \<le> LENGTH('x)"
  shows "J_type_preparation c = (c\<lparr>c_rd := ucast rd, c_jump_offset := push_bit 1 (scast offs)\<rparr>, - 1)"
proof -
  note o = offset_of_J [OF assms(1)] and s = signex_shifted(2) [OF assms(2)]
  show ?thesis unfolding J_type_preparation_def Let_def ifield_def
    by (simp add: o s del: One_nat_def push_bit_Suc) (simp add: assms(1))
qed

lemma decode_B:
  fixes c :: "('x::len, 'p) rv_core_td"
  assumes x: "32 \<le> LENGTH('x)"
    and t: "map_of BEQ_BNE_BLT_BGE_BLTU_BGEU_func3_subcode_list (unat (ucast f3 :: u8)) = Some (exec_hook i)"
  shows "\<exists>c'. rv_core_decode (c\<lparr>c_instruction := enc_B 0x63 f3 (o_rs1 r) (o_rs2 r) (o_imm r)\<rparr>) = Inr c' \<and>
    execute_cb c' = Some i \<and> fields_B r c'"
proof -
  let ?w = "enc_B 0x63 f3 (o_rs1 r) (o_rs2 r) (o_imm r)"
  let ?c0 = "c\<lparr>c_instruction := ?w, c_opcode := 0x63, c_rd := 0, c_rs1 := 0, c_rs2 := 0, c_func3 := 0, c_func7 := 0,
    c_immediate := 0, c_jump_offset := 0\<rparr>"
  have d: "rv_core_decode (c\<lparr>c_instruction := ?w\<rparr>) = rv_call_from_opcode_list (RV_opcode_list (is_rv64 TYPE('x))) 0x63 ?c0"
    by (simp add: rv_core_decode_def Let_def)
  have b: "0 \<le> uint (ucast f3 :: u8)" by simp
  obtain rd where p: "B_type_preparation ?c0 = (?c0\<lparr>c_rd := rd, c_func3 := ucast f3, c_rs1 := ucast (o_rs1 r),
     c_rs2 := ucast (o_rs2 r), c_jump_offset := push_bit 1 (scast (o_imm r))\<rparr>, uint (ucast f3 :: u8))"
    using B_type_prepared [of ?c0 "0x63" f3 "o_rs1 r" "o_rs2 r" "o_imm r", OF _ x] by auto
  have "uint (ucast f3 :: u8) \<noteq> - 1" using b by linarith
  then show ?thesis unfolding d call_level [of "RV_opcode_list _"]
    by (simp add: RV_opcode_list_def p call_level [of BEQ_BNE_BLT_BGE_BLTU_BGEU_func3_subcode_list] t fields_B_def
        del: One_nat_def push_bit_Suc)
qed

lemma decode_J:
  fixes c :: "('x::len, 'p) rv_core_td"
  assumes x: "32 \<le> LENGTH('x)"
  shows "\<exists>c'. rv_core_decode (c\<lparr>c_instruction := enc_J 0x6F (o_rd r) (o_imm20 r)\<rparr>) = Inr c' \<and>
    execute_cb c' = Some (i_base JAL) \<and> fields_J r c'"
proof -
  let ?w = "enc_J 0x6F (o_rd r) (o_imm20 r)"
  let ?c0 = "c\<lparr>c_instruction := ?w, c_opcode := 0x6F, c_rd := 0, c_rs1 := 0, c_rs2 := 0, c_func3 := 0, c_func7 := 0,
    c_immediate := 0, c_jump_offset := 0\<rparr>"
  have d: "rv_core_decode (c\<lparr>c_instruction := ?w\<rparr>) = rv_call_from_opcode_list (RV_opcode_list (is_rv64 TYPE('x))) 0x6F ?c0"
    by (simp add: rv_core_decode_def Let_def)
  have p: "J_type_preparation ?c0 = (?c0\<lparr>c_rd := ucast (o_rd r), c_jump_offset := push_bit 1 (scast (o_imm20 r))\<rparr>, - 1)"
    by (rule J_type_prepared [OF _ x]) simp
  show ?thesis unfolding d call_level [of "RV_opcode_list _"]
    by (simp add: RV_opcode_list_def p fields_J_def del: One_nat_def push_bit_Suc)
qed

lemma decode_base:
  fixes c :: "('x::len, 'p) rv_core_td"
  assumes "rv64 = is_rv64 TYPE('x)" "32 \<le> LENGTH('x)"
  shows "\<exists>c'. rv_core_decode (c\<lparr>c_instruction := encode rv64 (i_base i) r\<rparr>) = Inr c' \<and> execute_cb c' = Some (i_base i)
    \<and> fields_ok rv64 (i_base i) r c'"
proof (cases "i \<in> {BEQ, BNE, BLT, BGE, BLTU, BGEU, JAL}")
  case True
  have "map_of BEQ_BNE_BLT_BGE_BLTU_BGEU_func3_subcode_list (unat (ucast f3 :: u8)) = Some (exec_hook (i_base b))"
    if "(f3, b) \<in> {(0 :: 3 word, BEQ), (1, BNE), (4, BLT), (5, BGE), (6, BLTU), (7, BGEU)}" for f3 b
    using that by (auto simp: BEQ_BNE_BLT_BGE_BLTU_BGEU_func3_subcode_list_def)
  note b = decode_B [OF assms(2) this, of _ _ r c]
  show ?thesis using True b decode_J [OF assms(2), of r c] unfolding fields_ok_def
    by (auto simp del: One_nat_def push_bit_Suc)
next
  case False
  then show ?thesis
    by (cases i) (use assms in \<open>simp_all add: decode_defs call_level fields_ok_def fields_U_def fields_I_def signex_offsets\<close>)
qed

lemma decode_mem_system:
  fixes c :: "('x::len, 'p) rv_core_td"
  assumes "rv64 = is_rv64 TYPE('x)"
  shows "rv64 \<or> \<not> rv64_only (i_mem i) \<Longrightarrow>
     \<exists>c'. rv_core_decode (c\<lparr>c_instruction := encode rv64 (i_mem i) r\<rparr>) = Inr c' \<and> execute_cb c' = Some (i_mem i)
    \<and> fields_ok rv64 (i_mem i) r c'"
   "\<exists>c'. rv_core_decode (c\<lparr>c_instruction := encode rv64 (i_system j) r\<rparr>) = Inr c' \<and> execute_cb c' = Some (i_system j)
    \<and> fields_ok rv64 (i_system j) r c'"
  by (cases i; use assms in \<open>simp_all add: decode_defs call_level field_specs rv64_only_def\<close>)
   (cases j; use assms in \<open>simp_all add: decode_defs call_level field_specs\<close>)

lemma decode_mul:
  fixes c :: "('x::len, 'p) rv_core_td"
  assumes "rv64 = is_rv64 TYPE('x)" "rv64 \<or> \<not> rv64_only (i_mul i)"
  shows "\<exists>c'. rv_core_decode (c\<lparr>c_instruction := encode rv64 (i_mul i) r\<rparr>) = Inr c' \<and> execute_cb c' = Some (i_mul i)
    \<and> fields_ok rv64 (i_mul i) r c'"
  by (cases i) (use assms in \<open>simp_all add: decode_defs call_level field_specs rv64_only_def\<close>)

lemma decode_word:
  fixes c :: "('x::len, 'p) rv_core_td"
  assumes "rv64 = is_rv64 TYPE('x)" "rv64"
  shows "\<exists>c'. rv_core_decode (c\<lparr>c_instruction := encode rv64 (i_word i) r\<rparr>) = Inr c' \<and> execute_cb c' = Some (i_word i)
    \<and> fields_ok rv64 (i_word i) r c'"
  by (cases i) (use assms in \<open>simp_all add: decode_defs call_level field_specs\<close>)

lemma decode_amo_w:
  fixes c :: "('x::len, 'p) rv_core_td"
  assumes "rv64 = is_rv64 TYPE('x)"
  shows "\<exists>c'. rv_core_decode (c\<lparr>c_instruction := encode rv64 (i_amo_w i) r\<rparr>) = Inr c' \<and> execute_cb c' = Some (i_amo_w i)
    \<and> fields_ok rv64 (i_amo_w i) r c'"
  by (cases i) (use assms in \<open>simp_all add: decode_defs call_level field_specs\<close>)

lemma decode_amo_d:
  fixes c :: "('x::len, 'p) rv_core_td"
  assumes "rv64 = is_rv64 TYPE('x)" "rv64"
  shows "\<exists>c'. rv_core_decode (c\<lparr>c_instruction := encode rv64 (i_amo_d i) r\<rparr>) = Inr c' \<and> execute_cb c' = Some (i_amo_d i)
    \<and> fields_ok rv64 (i_amo_d i) r c'"
  by (cases i) (use assms in \<open>simp_all add: decode_defs call_level field_specs\<close>)

lemma decode_encode:
  fixes c :: "('x::len, 'p) rv_core_td"
  assumes x: "xlen_ok TYPE('x)" and a: "rv64_only i \<Longrightarrow> is_rv64 TYPE('x)"
  shows "\<exists>c'. rv_core_decode (c\<lparr>c_instruction := encode (is_rv64 TYPE('x)) i r\<rparr>) = Inr c' \<and>
    execute_cb c' = Some i \<and> fields_ok (is_rv64 TYPE('x)) i r c'"
proof (cases i)
  case (i_base b)
  then show ?thesis using decode_base [OF refl xlen_ok_ge [OF x]] by blast
next
  case (i_mem m)
  then show ?thesis using decode_mem_system(1) [OF refl, of m] a by blast
next
  case (i_mul m)
  then show ?thesis using decode_mul [OF refl, of m] a by blast
next
  case (i_word w)
  then show ?thesis using decode_word [OF refl, where c = c] a by (simp add: rv64_only_def)
next
  case (i_amo_d m)
  then show ?thesis using decode_amo_d [OF refl, where c = c] a by (simp add: rv64_only_def)
qed (use decode_alu [OF refl] decode_mem_system(2) [OF refl] decode_amo_w [OF refl] in blast)+

text \<open>
  C12. Decoding inverts the encoder of the instruction formats: for every instruction of the build and any
  operands, \<open>rv_core_decode\<close> selects the function of that instruction, and the fields of the core that the
  instruction uses hold the register numbers and the immediate, with the scattered and sign-extended offsets of
  branches and jumps put together again.
\<close>

theorem decode_encode_round_trip:
  fixes c :: "('x::len, 'p) rv_core_td"
  assumes x: "xlen_ok TYPE('x)" and a: "rv64_only i \<Longrightarrow> is_rv64 TYPE('x)"
  shows "\<exists>c'. rv_core_decode (c\<lparr>c_instruction := encode (is_rv64 TYPE('x)) i r\<rparr>) = Inr c' \<and>
    execute_cb c' = Some i \<and> fields_ok (is_rv64 TYPE('x)) i r c'"
  using assms by (rule decode_encode)

theorem decode_encode_round_trip_witness:
  "\<exists>c'. rv_core_decode ((example_core ())\<lparr>c_instruction := 0xFE208EE3\<rparr>) = Inr c' \<and>
    execute_cb c' = Some (i_base BEQ) \<and> c_rs1 c' = 1 \<and> c_rs2 c' = 2 \<and> c_jump_offset c' = - 4"
proof -
  let ?r = "\<lparr>o_rd = 0, o_rs1 = 1, o_rs2 = 2, o_imm = - 2, o_imm20 = 0\<rparr> :: operands"
  have e: "encode False (i_base BEQ) ?r = 0xFE208EE3" by code_simp
  have x: "xlen_ok TYPE(32)" and n: "\<not> rv64_only (i_base BEQ)" by (simp_all add: rv64_only_def)
  obtain c' where c': "rv_core_decode ((example_core ())\<lparr>c_instruction := 0xFE208EE3\<rparr>) = Inr c'"
    "execute_cb c' = Some (i_base BEQ)" "fields_ok False (i_base BEQ) ?r c'"
    using decode_encode_round_trip [OF x, where i = "i_base BEQ" and c = "example_core ()" and r = ?r] n e by auto
  then show ?thesis by (simp add: fields_ok_def fields_B_def)
qed

text \<open>
  An instruction whose seven opcode bits are 0x74 or more is looked up beyond the end of the first table before the
  bound is checked: the read past the array comes before the message for unknown instructions.
\<close>

theorem opcode_read_past_table:
  fixes c :: "('x::len, 'p) rv_core_td"
  assumes "0x73 < c_instruction c AND 0x7F"
  shows "rv_core_decode c = Inl OutOfBounds"
proof -
  have u: "unat (ucast (c_instruction c AND 0x7F) :: u8) = unat (c_instruction c AND 0x7F)"
  proof -
    have "unat (c_instruction c AND 0x7F) < 2 ^ 7"
      by (simp only: mask_consts bit_word_and_mask unat_take) simp
    then show ?thesis by (simp add: unsigned_ucast_eq take_bit_nat_eq_self)
  qed
  have "desc_size (RV_opcode_list b) = 0x74" for b
    by (cases b) (simp_all add: desc_size_def RV_opcode_list_def)
  moreover have "0x74 \<le> unat (c_instruction c AND 0x7F)" using assms by (simp add: word_less_nat_alt)
  ultimately show ?thesis by (simp add: rv_core_decode_def Let_def u rv_call_from_opcode_list.simps)
qed

theorem opcode_read_past_table_witness:
  "rv_core_decode ((example_core ())\<lparr>c_instruction := 0xFFFFFFFF\<rparr>) = Inl OutOfBounds"
  by (rule opcode_read_past_table) simp

end
