(* ===== verification/DecodeTable.thy ===== *)
theory DecodeTable
  imports DecodeSpec
begin

text \<open>
  The decode tables of \<open>core.c\<close> as a set of bit patterns. A leaf of the tables is reached by the words that carry its codes
  in the fields looked at on the way: it has a pattern \<open>(m, k)\<close>, and a word \<open>w\<close> is in it if \<open>w AND k = m\<close>.
  The first part shows that decoding is membership in these leaves, the second decodes words of which only
  the bits under a mask are known.
\<close>

section \<open>The field a preparation leads to\<close>

definition prep_field :: "preparation option \<Rightarrow> (nat \<times> u32) option" where
  "prep_field p = (case p of
     Some prep_func5 \<Rightarrow> Some (27, 0x1F) | Some prep_func6 \<Rightarrow> Some (26, 0x3F) | Some prep_func7 \<Rightarrow> Some (25, 0x7F)
   | Some prep_func7_func12_sub5 \<Rightarrow> Some (20, 0x1F) | Some prep_R_type \<Rightarrow> Some (12, 0x7) | Some prep_I_type \<Rightarrow> Some (12, 0x7)
   | Some prep_S_type \<Rightarrow> Some (12, 0x7) | Some prep_B_type \<Rightarrow> Some (12, 0x7) | _ \<Rightarrow> None)"

abbreviation field_of :: "nat \<Rightarrow> u32 \<Rightarrow> u32 \<Rightarrow> nat" where
  "field_of sh msk w \<equiv> unat (drop_bit sh w AND msk)"

definition prepared :: "preparation option \<Rightarrow> ('x::len, 'p) rv_core_td \<Rightarrow> ('x, 'p) rv_core_td \<times> int" where
  "prepared p c = (case p of None \<Rightarrow> (c, - 1) | Some q \<Rightarrow> preparation_cb q c)"

lemma small_field:
  assumes "msk \<le> 0xFF"
  shows "unat (ucast (x AND msk :: u32) :: u8) = unat (x AND msk)"
proof -
  have "x AND msk \<le> 0xFF" using word_and_le1 assms by (rule order_trans)
  then have "unat (x AND msk) < 2 ^ 8" by (simp add: word_le_nat_alt)
  moreover have "unat (ucast (x AND msk) :: u8) = take_bit 8 (unat (x AND msk))"
    by (simp add: unsigned_ucast_eq unsigned_take_bit_eq)
  ultimately show ?thesis by (simp only: take_bit_nat_eq_self)
qed

lemma prepared_field:
  assumes "prepared p c = (c', n)"
  shows "c_instruction c' = c_instruction c \<and>
    (case prep_field p of None \<Rightarrow> n = - 1 | Some (sh, msk) \<Rightarrow> 0 \<le> n \<and> nat n = field_of sh msk (c_instruction c))"
  using assms
  by (cases p; cases "the p")
     (auto simp: prepared_def prep_field_def Let_def ifield_def small_field preparation_func5_def preparation_func6_def
       preparation_func7_def preparation_func7_func12_sub5_extended_def R_type_preparation_def I_type_preparation_def
       S_type_preparation_def B_type_preparation_def U_type_preparation_def J_type_preparation_def)

text \<open>One step of the walk, without the order of its case distinctions.\<close>

lemma desc_size_gt: "map_of t i = Some h \<Longrightarrow> i < desc_size t"
proof -
  assume "map_of t i = Some h"
  then have "i \<in> set (map fst t)" by (force dest: map_of_SomeD)
  then have "t \<noteq> []" "i \<le> Max (set (map fst t))" by auto
  then show ?thesis by (simp add: desc_size_def)
qed

lemma call_none: "map_of t i = None \<Longrightarrow> \<exists>e. rv_call_from_opcode_list t i c = Inl e"
  by (simp add: rv_call_from_opcode_list.simps)

lemma call_some:
  assumes "map_of t i = Some (Hook p e nxt)" "prepared p c = (c1, n)"
    and "c2 = (case e of None \<Rightarrow> c1 | Some x \<Rightarrow> c1\<lparr>execute_cb := Some x\<rparr>)"
  shows "rv_call_from_opcode_list t i c =
    (case nxt of None \<Rightarrow> Inr c2 | Some t' \<Rightarrow> if n \<noteq> - 1 then rv_call_from_opcode_list t' (nat n) c2 else Inr c2)"
  using assms desc_size_gt [OF assms(1)]
  by (cases nxt) (simp_all add: rv_call_from_opcode_list.simps [of t i c] prepared_def not_le Let_def)

section \<open>Leaves\<close>

lemma hook_depth_in:
  assumes "(v, Hook p e (Some t')) \<in> set t"
  shows "desc_depth t' < desc_depth t"
proof -
  have "hook_depth (Hook p e (Some t')) \<in> hook_depth ` snd ` set t" using assms by force
  then have "hook_depth (Hook p e (Some t')) \<le> desc_depth t" unfolding desc_depth_def by (intro Max_ge) auto
  moreover have "hook_depth (Hook p e (Some t')) = Suc (desc_depth t')"
    by (simp add: desc_depth_def image_comp comp_def)
  ultimately show ?thesis by simp
qed

text \<open>The leaves of a table that is entered with the field \<open>(sh, msk)\<close> by the words with \<open>w AND k = m\<close>.\<close>

function table_leaves :: "instruction_desc \<Rightarrow> nat \<Rightarrow> u32 \<Rightarrow> u32 \<Rightarrow> u32 \<Rightarrow> (u32 \<times> u32 \<times> instr option) list" where
  "table_leaves t sh msk m k =
    concat (map (\<lambda>(v, h). case h of Hook p e nxt \<Rightarrow>
      (case (nxt, prep_field p) of
         (Some t', Some (sh', msk')) \<Rightarrow>
           table_leaves t' sh' msk' (m OR push_bit sh (of_nat v)) (k OR push_bit sh msk)
       | _ \<Rightarrow> [(m OR push_bit sh (of_nat v), k OR push_bit sh msk, e)])) t)"
  by pat_completeness auto
termination
  by (relation "measure (\<lambda>(t, sh, msk, m, k). desc_depth t)") (auto dest: hook_depth_in)

declare table_leaves.simps [simp del]

definition decode_leaves :: "bool \<Rightarrow> (u32 \<times> u32 \<times> instr option) list" where
  "decode_leaves rv64 = table_leaves (RV_opcode_list rv64) 0 0x7F 0 0"

lemma and_field:
  fixes w :: u32
  shows "w AND push_bit sh msk = push_bit sh (of_nat (field_of sh msk w))"
proof -
  have "w AND push_bit sh msk = push_bit sh (drop_bit sh w AND msk)"
    by (rule bit_eqI) (auto simp only: bit_and_iff bit_push_bit_iff bit_drop_bit_eq comp_def le_add_diff_inverse)
  then show ?thesis by simp
qed

text \<open>What one entry of a table contributes to its leaves.\<close>

definition branch_leaves :: "nat \<Rightarrow> u32 \<Rightarrow> u32 \<Rightarrow> u32 \<Rightarrow> nat \<times> instruction_hook \<Rightarrow> (u32 \<times> u32 \<times> instr option) list" where
  "branch_leaves sh msk m k = (\<lambda>(v, h). case h of Hook p e nxt \<Rightarrow>
      (case (nxt, prep_field p) of
         (Some t', Some (sh', msk')) \<Rightarrow>
           table_leaves t' sh' msk' (m OR push_bit sh (of_nat v)) (k OR push_bit sh msk)
       | _ \<Rightarrow> [(m OR push_bit sh (of_nat v), k OR push_bit sh msk, e)]))"

lemma leaf_of_branch:
  assumes "x \<in> set (branch_leaves sh msk m k b)" "b \<in> set t"
  shows "x \<in> set (table_leaves t sh msk m k)"
proof -
  have "table_leaves t sh msk m k = concat (map (branch_leaves sh msk m k) t)"
    unfolding branch_leaves_def by (rule table_leaves.simps)
  with assms show ?thesis by auto
qed

lemma call_in_leaf:
  assumes "rv_call_from_opcode_list t i c = Inr c'" "i = field_of sh msk (c_instruction c)"
    and "c_instruction c AND k = m"
  shows "\<exists>(m', k', e)\<in>set (table_leaves t sh msk m k). c_instruction c AND k' = m' \<and>
    (\<forall>x. e = Some x \<longrightarrow> execute_cb c' = Some x)"
  using assms
proof (induction t i c arbitrary: sh msk m k rule: rv_call_from_opcode_list.induct)
  case (1 t i c)
  obtain h where h: "map_of t i = Some h" using 1 call_none [of t i c] by (cases "map_of t i") auto
  obtain p e nxt where [simp]: "h = Hook p e nxt" by (cases h)
  obtain c1 n where pc: "prepared p c = (c1, n)" by fastforce
  define c2 where "c2 = (case e of None \<Rightarrow> c1 | Some x \<Rightarrow> c1\<lparr>execute_cb := Some x\<rparr>)"
  note call = call_some [OF h [simplified] pc c2_def]
  have word: "c_instruction c AND (k OR push_bit sh msk) = m OR push_bit sh (of_nat i)"
    using 1(3,4) and_field [of "c_instruction c" sh msk] by (simp only: bit.conj_disj_distrib)
  have instr: "c_instruction c2 = c_instruction c"
    using prepared_field [OF pc] by (simp add: c2_def split: option.splits)
  have mem: "(i, h) \<in> set t" using h by (simp add: map_of_SomeD)
  show ?case
  proof (cases "nxt = None \<or> prep_field p = None")
    case True
    then have "c' = c2" using 1(2) call prepared_field [OF pc] by (auto split: option.splits)
    then have "\<forall>x. e = Some x \<longrightarrow> execute_cb c' = Some x" by (simp add: c2_def)
    moreover have "(m OR push_bit sh (of_nat i), k OR push_bit sh msk, e) \<in> set (branch_leaves sh msk m k (i, h))"
      using True by (auto simp: branch_leaves_def split: option.splits)
    from leaf_of_branch [OF this mem] have "(m OR push_bit sh (of_nat i), k OR push_bit sh msk, e) \<in> set (table_leaves t sh msk m k)" .
    ultimately show ?thesis using word by (intro bexI) auto
  next
    case False
    then obtain t' sh' msk' where nx: "nxt = Some t'" "prep_field p = Some (sh', msk')" by auto
    have n: "0 \<le> n" "nat n = field_of sh' msk' (c_instruction c2)"
      using prepared_field [OF pc] nx instr by auto
    have leaves: "branch_leaves sh msk m k (i, h) =
        table_leaves t' sh' msk' (m OR push_bit sh (of_nat i)) (k OR push_bit sh msk)"
      by (simp add: branch_leaves_def nx)
    have rec: "rv_call_from_opcode_list t' (nat n) c2 = Inr c'" using 1(2) call nx n(1) by simp
    have "\<exists>(m', k', e)\<in>set (branch_leaves sh msk m k (i, h)).
        c_instruction c2 AND k' = m' \<and> (\<forall>x. e = Some x \<longrightarrow> execute_cb c' = Some x)"
      unfolding leaves using h desc_size_gt [OF h] pc nx n rec instr word
      by (intro "1.IH" [OF _ h _ pc [unfolded prepared_def, symmetric]]) (auto simp: c2_def split: option.splits)
    then obtain m' k' e' where x: "(m', k', e') \<in> set (branch_leaves sh msk m k (i, h))"
      "c_instruction c2 AND k' = m'" "\<forall>x. e' = Some x \<longrightarrow> execute_cb c' = Some x" by blast
    show ?thesis by (rule bexI [OF _ leaf_of_branch [OF x(1) mem]]) (use x instr in simp)
  qed
qed


section \<open>Words known under a mask\<close>

datatype known = Accepted instr | Rejected | Unknown

text \<open>Decoding a word of which \<open>w AND k = m\<close> is known: a table entered with an unknown field rejects if every code of it contradicts \<open>m\<close>.\<close>

function known_walk :: "instruction_desc \<Rightarrow> nat \<Rightarrow> u32 \<Rightarrow> u32 \<Rightarrow> u32 \<Rightarrow> known" where
  "known_walk t sh msk m k =
    (if push_bit sh msk AND k = push_bit sh msk then
       (case map_of t (field_of sh msk m) of
          None \<Rightarrow> Rejected
        | Some (Hook p e nxt) \<Rightarrow>
            (case (nxt, prep_field p) of
               (Some t', Some (sh', msk')) \<Rightarrow> known_walk t' sh' msk' m k
             | _ \<Rightarrow> (case e of None \<Rightarrow> Unknown | Some i \<Rightarrow> Accepted i)))
     else if list_all (\<lambda>(v, h). m AND push_bit sh msk \<noteq> k AND push_bit sh (of_nat v)) t then Rejected else Unknown)"
  by pat_completeness auto
termination
  by (relation "measure (\<lambda>(t, sh, msk, m, k). desc_depth t)") (auto dest: desc_depth_next)

declare known_walk.simps [simp del]

definition known_decode :: "bool \<Rightarrow> u32 \<Rightarrow> u32 \<Rightarrow> known" where
  "known_decode rv64 m k = known_walk (RV_opcode_list rv64) 0 0x7F m k"

lemma field_known:
  fixes w :: u32
  assumes "w AND k = m" "push_bit sh msk AND k = push_bit sh msk"
  shows "field_of sh msk w = field_of sh msk m"
proof -
  have "bit w (sh + i) \<longleftrightarrow> bit m (sh + i)" if "bit msk i" for i
  proof (cases "sh + i < 32")
    case True
    then have "bit (push_bit sh msk) (sh + i)" using that by (simp add: bit_push_bit_iff)
    then have "bit k (sh + i)" using assms(2) by (metis bit_and_iff)
    then show ?thesis unfolding assms(1) [symmetric] by (simp add: bit_and_iff)
  next
    case False
    then show ?thesis using bit_imp_le_length [of w "sh + i"] bit_imp_le_length [of m "sh + i"] by auto
  qed
  then have "drop_bit sh w AND msk = drop_bit sh m AND msk"
    by (intro bit_eqI) (auto simp: bit_and_iff bit_drop_bit_eq)
  then show ?thesis by simp
qed

lemma field_conflict:
  fixes w :: u32
  assumes "w AND k = m" "list_all (\<lambda>(v, h). m AND push_bit sh msk \<noteq> k AND push_bit sh (of_nat v)) t"
  shows "map_of t (field_of sh msk w) = None"
proof (rule ccontr)
  assume "map_of t (field_of sh msk w) \<noteq> None"
  then obtain h where "(field_of sh msk w, h) \<in> set t" by (auto dest: map_of_SomeD)
  then have "m AND push_bit sh msk \<noteq> k AND push_bit sh (of_nat (field_of sh msk w))"
    using assms(2) unfolding list_all_iff by blast
  moreover have "m AND push_bit sh msk = k AND (w AND push_bit sh msk)"
    unfolding assms(1) [symmetric] by (simp only: ac_simps)
  ultimately show False by (simp only: and_field)
qed

primrec agrees :: "known \<Rightarrow> ('x::len, 'p) rv_core_td res \<Rightarrow> bool" where
  "agrees (Accepted i) r \<longleftrightarrow> (\<exists>c. r = Inr c \<and> execute_cb c = Some i)"
| "agrees Rejected r \<longleftrightarrow> (\<exists>e. r = Inl e)"
| "agrees Unknown r \<longleftrightarrow> True"

lemma known_walk_agrees:
  "c_instruction c AND k = m \<Longrightarrow>
     agrees (known_walk t sh msk m k) (rv_call_from_opcode_list t (field_of sh msk (c_instruction c)) c)"
proof (induction t sh msk m k arbitrary: c rule: known_walk.induct)
  case (1 t sh msk m k)
  let ?w = "c_instruction c"
  show ?case
  proof (cases "push_bit sh msk AND k = push_bit sh msk")
    case False
    then show ?thesis
      using field_conflict [OF 1(2), of sh msk t] call_none [of t "field_of sh msk ?w" c]
      by (auto simp: known_walk.simps [of t sh msk])
  next
    case True
    note f = field_known [OF 1(2) True]
    show ?thesis
    proof (cases "map_of t (field_of sh msk m)")
      case None
      then show ?thesis using True call_none [of t "field_of sh msk ?w" c] f by (simp add: known_walk.simps [of t sh msk])
    next
      case (Some h)
      obtain p e nxt where h: "h = Hook p e nxt" by (cases h)
      obtain c1 n where pc: "prepared p c = (c1, n)" by fastforce
      define c2 where "c2 = (case e of None \<Rightarrow> c1 | Some x \<Rightarrow> c1\<lparr>execute_cb := Some x\<rparr>)"
      note call = call_some [OF Some [unfolded h] pc c2_def]
      have c2: "c_instruction c2 = ?w" "\<And>x. e = Some x \<Longrightarrow> execute_cb c2 = Some x"
        using prepared_field [OF pc] by (auto simp: c2_def split: option.splits)
      show ?thesis
      proof (cases "nxt = None \<or> prep_field p = None")
        case leaf: True
        then have "rv_call_from_opcode_list t (field_of sh msk m) c = Inr c2"
          using call prepared_field [OF pc] by (auto split: option.splits)
        moreover have "known_walk t sh msk m k = (case e of None \<Rightarrow> Unknown | Some i \<Rightarrow> Accepted i)"
          using leaf True Some h by (auto simp: known_walk.simps [of t sh msk] split: option.splits)
        ultimately show ?thesis using c2 f by (auto split: option.splits)
      next
        case False
        then obtain t' sh' msk' where nx: "nxt = Some t'" "prep_field p = Some (sh', msk')" by auto
        have n: "0 \<le> n" "nat n = field_of sh' msk' (c_instruction c2)"
          using prepared_field [OF pc] nx c2 by auto
        have "agrees (known_walk t' sh' msk' m k) (rv_call_from_opcode_list t' (field_of sh' msk' (c_instruction c2)) c2)"
          using 1(2) c2 nx True Some h by (intro "1.IH") auto
        moreover have "known_walk t sh msk m k = known_walk t' sh' msk' m k"
          using True Some h nx by (simp add: known_walk.simps [of t sh msk])
        ultimately show ?thesis using call nx n f by simp
      qed
    qed
  qed
qed

end
