(* ===== verification/CoreInit.thy ===== *)
theory CoreInit
  imports CoreState CsrMap
begin

text \<open>
  The initialisation of the core, \<open>rv_core_init\<close> and \<open>rv_core_init_csr_regs\<close> of
  \<open>src/core/core.c\<close>: which CSRs exist, who may access them, what their write masks and callbacks are.
  The initialisers are lists in the order of the source, applied one after the other.
\<close>

section \<open>Callbacks\<close>

text \<open>
  The callback pointers of the table come with a \<open>priv\<close> pointer to one of the three components of the
  core; these functions apply a callback to that component.
\<close>

definition trap_cb_r ::
  "('x trap_td \<Rightarrow> privilege_level \<Rightarrow> u16 \<Rightarrow> (rv_ret \<times> 'x word) res) \<Rightarrow> ('x::len, 'x csr_dev) csr_read_cb" where
  "trap_cb_r f d p r = (case d of (trap, _, _) \<Rightarrow> f trap p r)"

definition trap_cb_w ::
  "('x trap_td \<Rightarrow> privilege_level \<Rightarrow> u16 \<Rightarrow> 'x word \<Rightarrow> ('x trap_td \<times> rv_ret) res)
    \<Rightarrow> ('x::len, 'x csr_dev) csr_write_cb" where
  "trap_cb_w f d p r v = (case d of (trap, pmp, mmu) \<Rightarrow>
     res_bind (f trap p r v) (\<lambda>(trap, ret). Inr ((trap, pmp, mmu), ret)))"

definition pmp_cb_r ::
  "('x pmp_td \<Rightarrow> privilege_level \<Rightarrow> u16 \<Rightarrow> (rv_ret \<times> 'x word) res) \<Rightarrow> ('x::len, 'x csr_dev) csr_read_cb" where
  "pmp_cb_r f d p r = (case d of (_, pmp, _) \<Rightarrow> f pmp p r)"

definition pmp_cb_w ::
  "('x pmp_td \<Rightarrow> privilege_level \<Rightarrow> u16 \<Rightarrow> 'x word \<Rightarrow> ('x pmp_td \<times> rv_ret) res)
    \<Rightarrow> ('x::len, 'x csr_dev) csr_write_cb" where
  "pmp_cb_w f d p r v = (case d of (trap, pmp, mmu) \<Rightarrow>
     res_bind (f pmp p r v) (\<lambda>(pmp, ret). Inr ((trap, pmp, mmu), ret)))"

definition mmu_cb_r ::
  "('x mmu_td \<Rightarrow> privilege_level \<Rightarrow> u16 \<Rightarrow> (rv_ret \<times> 'x word) res) \<Rightarrow> ('x::len, 'x csr_dev) csr_read_cb" where
  "mmu_cb_r f d p r = (case d of (_, _, mmu) \<Rightarrow> f mmu p r)"

definition mmu_cb_w ::
  "('x mmu_td \<Rightarrow> privilege_level \<Rightarrow> u16 \<Rightarrow> 'x word \<Rightarrow> ('x mmu_td \<times> rv_ret) res)
    \<Rightarrow> ('x::len, 'x csr_dev) csr_write_cb" where
  "mmu_cb_w f d p r v = (case d of (trap, pmp, mmu) \<Rightarrow>
     res_bind (f mmu p r v) (\<lambda>(mmu, ret). Inr ((trap, pmp, mmu), ret)))"

section \<open>The table\<close>

abbreviation CSR_MS_RW :: u16 where
  "CSR_MS_RW \<equiv> CSR_ACCESS_RW machine_mode OR CSR_ACCESS_RW supervisor_mode"

abbreviation CSR_MSU_RO :: u16 where
  "CSR_MSU_RO \<equiv> CSR_ACCESS_RO machine_mode OR CSR_ACCESS_RO supervisor_mode OR CSR_ACCESS_RO user_mode"

definition xstatus_warl_bits :: "'x::len word" where
  "xstatus_warl_bits = (if is_rv64 TYPE('x)
     then push_bit CSR_UXL_BIT_BASE CSR_XLEN_64_BIT OR push_bit CSR_SXL_BIT_BASE CSR_XLEN_64_BIT else 0)"

definition csr_init_machine :: "(('x::len, 'x csr_dev) csr_file \<Rightarrow> ('x, 'x csr_dev) csr_file) list" where
  "csr_init_machine =
    [INIT_CSR_REG_DEFAULT CSR_ADDR_MVENDORID (CSR_ACCESS_RO machine_mode) 0 CSR_MASK_ZERO CSR_MASK_ZERO,
     INIT_CSR_REG_DEFAULT CSR_ADDR_MARCHID (CSR_ACCESS_RO machine_mode) 0 CSR_MASK_ZERO CSR_MASK_ZERO,
     INIT_CSR_REG_DEFAULT CSR_ADDR_MIMPID (CSR_ACCESS_RO machine_mode) 0 CSR_MASK_ZERO CSR_MASK_ZERO,
     INIT_CSR_REG_DEFAULT CSR_ADDR_MHARTID (CSR_ACCESS_RO machine_mode) 0 CSR_MASK_ZERO CSR_MASK_ZERO,
     INIT_CSR_REG_SPECIAL CSR_ADDR_MSTATUS (CSR_ACCESS_RW machine_mode) CSR_MSTATUS_MASK xstatus_warl_bits
        (trap_cb_r trap_m_read) (trap_cb_w trap_m_write) (trap_reg_code trap_reg_status),
     INIT_CSR_REG_SPECIAL CSR_ADDR_MISA (CSR_ACCESS_RO machine_mode) CSR_MASK_WR_ALL CSR_MASK_ZERO
        (trap_cb_r trap_m_read) (trap_cb_w trap_m_write) (trap_reg_code trap_reg_isa),
     INIT_CSR_REG_SPECIAL CSR_ADDR_MEDELEG (CSR_ACCESS_RW machine_mode) CSR_MEDELEG_MASK CSR_MASK_ZERO
        (trap_cb_r trap_m_read) (trap_cb_w trap_m_write) (trap_reg_code trap_reg_edeleg),
     INIT_CSR_REG_SPECIAL CSR_ADDR_MIDELEG (CSR_ACCESS_RW machine_mode) CSR_MIDELEG_MASK CSR_MASK_ZERO
        (trap_cb_r trap_m_read) (trap_cb_w trap_m_write) (trap_reg_code trap_reg_ideleg),
     INIT_CSR_REG_SPECIAL CSR_ADDR_MIE (CSR_ACCESS_RW machine_mode) CSR_MIP_MIE_MASK CSR_MASK_ZERO
        (trap_cb_r trap_m_read) (trap_cb_w trap_m_write) (trap_reg_code trap_reg_ie),
     INIT_CSR_REG_SPECIAL CSR_ADDR_MTVEC (CSR_ACCESS_RW machine_mode) CSR_MTVEC_MASK CSR_MASK_ZERO
        (trap_cb_r trap_m_read) (trap_cb_w trap_m_write) (trap_reg_code trap_reg_tvec),
     INIT_CSR_REG_DEFAULT CSR_ADDR_MCOUNTEREN (CSR_ACCESS_RW machine_mode) 0 CSR_MASK_ZERO CSR_MASK_ZERO,
     INIT_CSR_REG_SPECIAL CSR_ADDR_MSCRATCH (CSR_ACCESS_RW machine_mode) CSR_MASK_WR_ALL CSR_MASK_ZERO
        (trap_cb_r trap_m_read) (trap_cb_w trap_m_write) (trap_reg_code trap_reg_scratch),
     INIT_CSR_REG_SPECIAL CSR_ADDR_MEPC (CSR_ACCESS_RW machine_mode) CSR_MASK_WR_ALL CSR_MASK_ZERO
        (trap_cb_r trap_m_read) (trap_cb_w trap_m_write) (trap_reg_code trap_reg_epc),
     INIT_CSR_REG_SPECIAL CSR_ADDR_MCAUSE (CSR_ACCESS_RW machine_mode) CSR_MASK_WR_ALL CSR_MASK_ZERO
        (trap_cb_r trap_m_read) (trap_cb_w trap_m_write) (trap_reg_code trap_reg_cause),
     INIT_CSR_REG_SPECIAL CSR_ADDR_MTVAL (CSR_ACCESS_RW machine_mode) CSR_MASK_WR_ALL CSR_MASK_ZERO
        (trap_cb_r trap_m_read) (trap_cb_w trap_m_write) (trap_reg_code trap_reg_tval),
     INIT_CSR_REG_SPECIAL CSR_ADDR_MIP (CSR_ACCESS_RW machine_mode) CSR_MIP_MIE_MASK CSR_MASK_ZERO
        (trap_cb_r trap_m_read) (trap_cb_w trap_m_write) (trap_reg_code trap_reg_ip)]"

text \<open>PMP registers; in the register file \<open>i\<close> counts the registers of one kind.\<close>

definition PMP_NR_CFG_REGS_WARL_MAX :: nat where "PMP_NR_CFG_REGS_WARL_MAX = 16"
definition PMP_NR_ADDR_REGS_WARL_MAX :: nat where "PMP_NR_ADDR_REGS_WARL_MAX = 64"

definition csr_init_pmp :: "(('x::len, 'x csr_dev) csr_file \<Rightarrow> ('x, 'x csr_dev) csr_file) list" where
  "csr_init_pmp =
    map (\<lambda>i. INIT_CSR_REG_SPECIAL (CSR_PMPCFG0 + i) (CSR_ACCESS_RW machine_mode) CSR_MASK_WR_ALL CSR_MASK_ZERO
        (pmp_cb_r pmp_read_csr_cfg) (pmp_cb_w pmp_write_csr_cfg) (of_nat i))
      [0..<PMP_NR_CFG_REGS TYPE('x)] @
    map (\<lambda>i. INIT_CSR_REG_DEFAULT (CSR_PMPCFG0 + i) (CSR_ACCESS_RO machine_mode) 0 CSR_MASK_ZERO CSR_MASK_ZERO)
      [PMP_NR_CFG_REGS TYPE('x)..<PMP_NR_CFG_REGS_WARL_MAX] @
    map (\<lambda>i. INIT_CSR_REG_SPECIAL (CSR_PMPADDR0 + i) (CSR_ACCESS_RW machine_mode) CSR_MASK_WR_ALL CSR_MASK_ZERO
        (pmp_cb_r pmp_read_csr_addr) (pmp_cb_w pmp_write_csr_addr) (of_nat i))
      [0..<PMP_NR_ADDR_REGS] @
    map (\<lambda>i. INIT_CSR_REG_DEFAULT (CSR_PMPADDR0 + i) (CSR_ACCESS_RO machine_mode) 0 CSR_MASK_ZERO CSR_MASK_ZERO)
      [PMP_NR_ADDR_REGS..<PMP_NR_ADDR_REGS_WARL_MAX]"

definition csr_init_supervisor :: "(('x::len, 'x csr_dev) csr_file \<Rightarrow> ('x, 'x csr_dev) csr_file) list" where
  "csr_init_supervisor =
    [INIT_CSR_REG_SPECIAL CSR_ADDR_SSTATUS CSR_MS_RW CSR_SSTATUS_MASK CSR_MASK_ZERO
        (trap_cb_r trap_s_read) (trap_cb_w trap_s_write) (trap_reg_code trap_reg_status),
     INIT_CSR_REG_SPECIAL CSR_ADDR_SEDELEG CSR_MS_RW CSR_SEDELEG_MASK CSR_MASK_ZERO
        (trap_cb_r trap_s_read) (trap_cb_w trap_s_write) (trap_reg_code trap_reg_edeleg),
     INIT_CSR_REG_SPECIAL CSR_ADDR_SIDELEG CSR_MS_RW CSR_SIDELEG_MASK CSR_MASK_ZERO
        (trap_cb_r trap_s_read) (trap_cb_w trap_s_write) (trap_reg_code trap_reg_ideleg),
     INIT_CSR_REG_SPECIAL CSR_ADDR_SIE CSR_MS_RW CSR_SIP_SIE_MASK CSR_MASK_ZERO
        (trap_cb_r trap_s_read) (trap_cb_w trap_s_write) (trap_reg_code trap_reg_ie),
     INIT_CSR_REG_SPECIAL CSR_ADDR_STVEC CSR_MS_RW CSR_STVEC_MASK CSR_MASK_ZERO
        (trap_cb_r trap_s_read) (trap_cb_w trap_s_write) (trap_reg_code trap_reg_tvec),
     INIT_CSR_REG_DEFAULT CSR_ADDR_SCOUNTEREN CSR_MS_RW 0 CSR_MASK_ZERO CSR_MASK_ZERO,
     INIT_CSR_REG_SPECIAL CSR_ADDR_SSCRATCH CSR_MS_RW CSR_MASK_WR_ALL CSR_MASK_ZERO
        (trap_cb_r trap_s_read) (trap_cb_w trap_s_write) (trap_reg_code trap_reg_scratch),
     INIT_CSR_REG_SPECIAL CSR_ADDR_SEPC CSR_MS_RW CSR_MASK_WR_ALL CSR_MASK_ZERO
        (trap_cb_r trap_s_read) (trap_cb_w trap_s_write) (trap_reg_code trap_reg_epc),
     INIT_CSR_REG_SPECIAL CSR_ADDR_SCAUSE CSR_MS_RW CSR_MASK_WR_ALL CSR_MASK_ZERO
        (trap_cb_r trap_s_read) (trap_cb_w trap_s_write) (trap_reg_code trap_reg_cause),
     INIT_CSR_REG_SPECIAL CSR_ADDR_STVAL CSR_MS_RW CSR_MASK_WR_ALL CSR_MASK_ZERO
        (trap_cb_r trap_s_read) (trap_cb_w trap_s_write) (trap_reg_code trap_reg_tval),
     INIT_CSR_REG_SPECIAL CSR_ADDR_SIP CSR_MS_RW CSR_SIP_SIE_MASK CSR_MASK_ZERO
        (trap_cb_r trap_s_read) (trap_cb_w trap_s_write) (trap_reg_code trap_reg_ip),
     INIT_CSR_REG_SPECIAL CSR_ADDR_SATP CSR_MS_RW CSR_SATP_MASK CSR_MASK_ZERO
        (mmu_cb_r mmu_read_csr) (mmu_cb_w mmu_write_csr) 0]"

text \<open>
  The two loops at the end have one statement each; the second initialiser, indented under the
  loop, runs once after it, with \<open>i = CSR_HPMCOUNTER_WARL_MAX\<close>.
\<close>

definition csr_init_counters :: "(('x::len, 'x csr_dev) csr_file \<Rightarrow> ('x, 'x csr_dev) csr_file) list" where
  "csr_init_counters =
    [INIT_CSR_REG_DEFAULT CSR_ADDR_MCYCLE (CSR_ACCESS_RW machine_mode) 0 CSR_MASK_WR_ALL CSR_MASK_ZERO,
     INIT_CSR_REG_DEFAULT CSR_ADDR_MCYCLEH (CSR_ACCESS_RW machine_mode) 0 CSR_MASK_WR_ALL CSR_MASK_ZERO,
     INIT_CSR_REG_DEFAULT CSR_ADDR_MINSTRET (CSR_ACCESS_RW machine_mode) 0 CSR_MASK_WR_ALL CSR_MASK_ZERO,
     INIT_CSR_REG_DEFAULT CSR_ADDR_MINSTRETH (CSR_ACCESS_RW machine_mode) 0 CSR_MASK_WR_ALL CSR_MASK_ZERO,
     INIT_CSR_REG_DEFAULT CSR_ADDR_CYCLE CSR_MSU_RO 0 CSR_MASK_WR_ALL CSR_MASK_ZERO,
     INIT_CSR_REG_DEFAULT CSR_ADDR_CYCLEH CSR_MSU_RO 0 CSR_MASK_WR_ALL CSR_MASK_ZERO,
     INIT_CSR_REG_DEFAULT CSR_ADDR_TIME CSR_MSU_RO 0 CSR_MASK_WR_ALL CSR_MASK_ZERO,
     INIT_CSR_REG_DEFAULT CSR_ADDR_TIMEH CSR_MSU_RO 0 CSR_MASK_WR_ALL CSR_MASK_ZERO] @
    map (\<lambda>i. INIT_CSR_REG_DEFAULT (CSR_ADDR_MCYCLE + i) (CSR_ACCESS_RO machine_mode) 0 CSR_MASK_ZERO CSR_MASK_ZERO) [3..<CSR_HPMCOUNTER_WARL_MAX] @
    [INIT_CSR_REG_DEFAULT (CSR_ADDR_CYCLE + CSR_HPMCOUNTER_WARL_MAX) CSR_MSU_RO 0 CSR_MASK_ZERO CSR_MASK_ZERO] @
    map (\<lambda>i. INIT_CSR_REG_DEFAULT (CSR_ADDR_MCYCLEH + i) (CSR_ACCESS_RW machine_mode) 0 CSR_MASK_ZERO CSR_MASK_ZERO) [3..<CSR_HPMCOUNTER_WARL_MAX] @
    [INIT_CSR_REG_DEFAULT (CSR_ADDR_CYCLEH + CSR_HPMCOUNTER_WARL_MAX) CSR_MSU_RO 0 CSR_MASK_ZERO CSR_MASK_ZERO]"

definition core_csr_table :: "(('x::len, 'x csr_dev) csr_file \<Rightarrow> ('x, 'x csr_dev) csr_file) list" where
  "core_csr_table = csr_init_machine @ csr_init_pmp @ csr_init_supervisor @ csr_init_counters"

definition rv_core_init_csr_regs :: "('x::len, 'p) rv_core_td \<Rightarrow> ('x, 'p) rv_core_td" where
  "rv_core_init_csr_regs c =
    (let isa = RV_SUPPORTED_EXTENSIONS OR
           (if is_rv64 TYPE('x) then push_bit (LENGTH('x) - 2) CSR_XLEN_64_BIT
            else push_bit (LENGTH('x) - 2) CSR_XLEN_32_BIT)
     in c\<lparr>csr_regs := fold (\<lambda>f. f) core_csr_table (csr_regs c),
          c_trap := trap_put (trap_m_regs trap_reg_isa) isa (c_trap c)\<rparr>)"

section \<open>The core\<close>

text \<open>After the \<open>memset\<close>.\<close>

definition rv_core_zero :: "'p \<Rightarrow> ('x::len, 'p) rv_core_td" where
  "rv_core_zero p = \<lparr>curr_priv_mode = user_mode, curr_cycle = 0, c_x = (\<lambda>_. 0), c_pc = 0, c_next_pc = 0,
     c_instruction = 0, c_opcode = 0, c_rd = 0, c_rs1 = 0, c_rs2 = 0, c_func3 = 0, c_func7 = 0, c_func6 = 0,
     c_func5 = 0, c_immediate = 0, c_jump_offset = 0, sync_trap_pending = False, sync_trap_cause = 0,
     sync_trap_tval = 0, execute_cb = None, c_priv = p, csr_regs = (\<lambda>_. csr_reg_zero), c_pmp = pmp_zero,
     c_trap = trap_init, c_mmu = mmu_init, lr_valid = False, lr_address = 0\<rparr>"

definition rv_core_init :: "'p \<Rightarrow> ('x::len, 'p) rv_core_td" where
  "rv_core_init priv = rv_core_init_csr_regs
     ((rv_core_zero priv)\<lparr>curr_priv_mode := machine_mode, c_pc := MROM_BASE_ADDR, c_trap := trap_init, c_mmu := mmu_init\<rparr>)"

end
