(* ===== verification/IsaTable.thy ===== *)
theory IsaTable
  imports DecodeTable CoreInit
begin

text \<open>
  The decoder against the opcode table of the ISA tests, \<open>isa_test_env/encoding.h\<close>: for every instruction the table has a
  match word \<open>MATCH_x\<close> and a mask \<open>MASK_x\<close>, and \<open>w\<close> encodes \<open>x\<close> if \<open>w AND MASK_x = MATCH_x\<close>. The
  entries are \<open>(name, MATCH, MASK)\<close>, in the order of the file, under the names of its \<open>DECLARE_INSN\<close> lines.
\<close>

type_synonym isa_insn = "string \<times> u32 \<times> u32"

section \<open>The opcode table\<close>

definition insns_I :: "isa_insn list" where
  "insns_I =
    [(''beq'', 0x63, 0x707f),
     (''bne'', 0x1063, 0x707f),
     (''blt'', 0x4063, 0x707f),
     (''bge'', 0x5063, 0x707f),
     (''bltu'', 0x6063, 0x707f),
     (''bgeu'', 0x7063, 0x707f),
     (''jalr'', 0x67, 0x707f),
     (''jal'', 0x6f, 0x7f),
     (''lui'', 0x37, 0x7f),
     (''auipc'', 0x17, 0x7f),
     (''addi'', 0x13, 0x707f),
     (''slli'', 0x1013, 0xfc00707f),
     (''slti'', 0x2013, 0x707f),
     (''sltiu'', 0x3013, 0x707f),
     (''xori'', 0x4013, 0x707f),
     (''srli'', 0x5013, 0xfc00707f),
     (''srai'', 0x40005013, 0xfc00707f),
     (''ori'', 0x6013, 0x707f),
     (''andi'', 0x7013, 0x707f),
     (''add'', 0x33, 0xfe00707f),
     (''sub'', 0x40000033, 0xfe00707f),
     (''sll'', 0x1033, 0xfe00707f),
     (''slt'', 0x2033, 0xfe00707f),
     (''sltu'', 0x3033, 0xfe00707f),
     (''xor'', 0x4033, 0xfe00707f),
     (''srl'', 0x5033, 0xfe00707f),
     (''sra'', 0x40005033, 0xfe00707f),
     (''or'', 0x6033, 0xfe00707f),
     (''and'', 0x7033, 0xfe00707f),
     (''addiw'', 0x1b, 0x707f),
     (''slliw'', 0x101b, 0xfe00707f),
     (''srliw'', 0x501b, 0xfe00707f),
     (''sraiw'', 0x4000501b, 0xfe00707f),
     (''addw'', 0x3b, 0xfe00707f),
     (''subw'', 0x4000003b, 0xfe00707f),
     (''sllw'', 0x103b, 0xfe00707f),
     (''srlw'', 0x503b, 0xfe00707f),
     (''sraw'', 0x4000503b, 0xfe00707f),
     (''lb'', 0x3, 0x707f),
     (''lh'', 0x1003, 0x707f),
     (''lw'', 0x2003, 0x707f),
     (''ld'', 0x3003, 0x707f),
     (''lbu'', 0x4003, 0x707f),
     (''lhu'', 0x5003, 0x707f),
     (''lwu'', 0x6003, 0x707f),
     (''sb'', 0x23, 0x707f),
     (''sh'', 0x1023, 0x707f),
     (''sw'', 0x2023, 0x707f),
     (''sd'', 0x3023, 0x707f),
     (''fence'', 0xf, 0x707f),
     (''fence_i'', 0x100f, 0x707f)]"

definition insns_M :: "isa_insn list" where
  "insns_M =
    [(''mul'', 0x2000033, 0xfe00707f),
     (''mulh'', 0x2001033, 0xfe00707f),
     (''mulhsu'', 0x2002033, 0xfe00707f),
     (''mulhu'', 0x2003033, 0xfe00707f),
     (''div'', 0x2004033, 0xfe00707f),
     (''divu'', 0x2005033, 0xfe00707f),
     (''rem'', 0x2006033, 0xfe00707f),
     (''remu'', 0x2007033, 0xfe00707f),
     (''mulw'', 0x200003b, 0xfe00707f),
     (''divw'', 0x200403b, 0xfe00707f),
     (''divuw'', 0x200503b, 0xfe00707f),
     (''remw'', 0x200603b, 0xfe00707f),
     (''remuw'', 0x200703b, 0xfe00707f)]"

definition insns_A :: "isa_insn list" where
  "insns_A =
    [(''amoadd_w'', 0x202f, 0xf800707f),
     (''amoxor_w'', 0x2000202f, 0xf800707f),
     (''amoor_w'', 0x4000202f, 0xf800707f),
     (''amoand_w'', 0x6000202f, 0xf800707f),
     (''amomin_w'', 0x8000202f, 0xf800707f),
     (''amomax_w'', 0xa000202f, 0xf800707f),
     (''amominu_w'', 0xc000202f, 0xf800707f),
     (''amomaxu_w'', 0xe000202f, 0xf800707f),
     (''amoswap_w'', 0x800202f, 0xf800707f),
     (''lr_w'', 0x1000202f, 0xf9f0707f),
     (''sc_w'', 0x1800202f, 0xf800707f),
     (''amoadd_d'', 0x302f, 0xf800707f),
     (''amoxor_d'', 0x2000302f, 0xf800707f),
     (''amoor_d'', 0x4000302f, 0xf800707f),
     (''amoand_d'', 0x6000302f, 0xf800707f),
     (''amomin_d'', 0x8000302f, 0xf800707f),
     (''amomax_d'', 0xa000302f, 0xf800707f),
     (''amominu_d'', 0xc000302f, 0xf800707f),
     (''amomaxu_d'', 0xe000302f, 0xf800707f),
     (''amoswap_d'', 0x800302f, 0xf800707f),
     (''lr_d'', 0x1000302f, 0xf9f0707f),
     (''sc_d'', 0x1800302f, 0xf800707f)]"

definition insns_system :: "isa_insn list" where
  "insns_system =
    [(''ecall'', 0x73, 0xffffffff),
     (''ebreak'', 0x100073, 0xffffffff),
     (''uret'', 0x200073, 0xffffffff),
     (''sret'', 0x10200073, 0xffffffff),
     (''mret'', 0x30200073, 0xffffffff),
     (''dret'', 0x7b200073, 0xffffffff),
     (''sfence_vma'', 0x12000073, 0xfe007fff),
     (''wfi'', 0x10500073, 0xffffffff),
     (''csrrw'', 0x1073, 0x707f),
     (''csrrs'', 0x2073, 0x707f),
     (''csrrc'', 0x3073, 0x707f),
     (''csrrwi'', 0x5073, 0x707f),
     (''csrrsi'', 0x6073, 0x707f),
     (''csrrci'', 0x7073, 0x707f)]"

definition insns_float_arith :: "isa_insn list" where
  "insns_float_arith =
    [(''fadd_s'', 0x53, 0xfe00007f),
     (''fsub_s'', 0x8000053, 0xfe00007f),
     (''fmul_s'', 0x10000053, 0xfe00007f),
     (''fdiv_s'', 0x18000053, 0xfe00007f),
     (''fsgnj_s'', 0x20000053, 0xfe00707f),
     (''fsgnjn_s'', 0x20001053, 0xfe00707f),
     (''fsgnjx_s'', 0x20002053, 0xfe00707f),
     (''fmin_s'', 0x28000053, 0xfe00707f),
     (''fmax_s'', 0x28001053, 0xfe00707f),
     (''fsqrt_s'', 0x58000053, 0xfff0007f),
     (''fadd_d'', 0x2000053, 0xfe00007f),
     (''fsub_d'', 0xa000053, 0xfe00007f),
     (''fmul_d'', 0x12000053, 0xfe00007f),
     (''fdiv_d'', 0x1a000053, 0xfe00007f),
     (''fsgnj_d'', 0x22000053, 0xfe00707f),
     (''fsgnjn_d'', 0x22001053, 0xfe00707f),
     (''fsgnjx_d'', 0x22002053, 0xfe00707f),
     (''fmin_d'', 0x2a000053, 0xfe00707f),
     (''fmax_d'', 0x2a001053, 0xfe00707f),
     (''fcvt_s_d'', 0x40100053, 0xfff0007f),
     (''fcvt_d_s'', 0x42000053, 0xfff0007f),
     (''fsqrt_d'', 0x5a000053, 0xfff0007f),
     (''fadd_q'', 0x6000053, 0xfe00007f),
     (''fsub_q'', 0xe000053, 0xfe00007f),
     (''fmul_q'', 0x16000053, 0xfe00007f),
     (''fdiv_q'', 0x1e000053, 0xfe00007f),
     (''fsgnj_q'', 0x26000053, 0xfe00707f),
     (''fsgnjn_q'', 0x26001053, 0xfe00707f),
     (''fsgnjx_q'', 0x26002053, 0xfe00707f),
     (''fmin_q'', 0x2e000053, 0xfe00707f),
     (''fmax_q'', 0x2e001053, 0xfe00707f),
     (''fcvt_s_q'', 0x40300053, 0xfff0007f),
     (''fcvt_q_s'', 0x46000053, 0xfff0007f),
     (''fcvt_d_q'', 0x42300053, 0xfff0007f),
     (''fcvt_q_d'', 0x46100053, 0xfff0007f),
     (''fsqrt_q'', 0x5e000053, 0xfff0007f)]"

definition insns_float_convert :: "isa_insn list" where
  "insns_float_convert =
    [(''fle_s'', 0xa0000053, 0xfe00707f),
     (''flt_s'', 0xa0001053, 0xfe00707f),
     (''feq_s'', 0xa0002053, 0xfe00707f),
     (''fle_d'', 0xa2000053, 0xfe00707f),
     (''flt_d'', 0xa2001053, 0xfe00707f),
     (''feq_d'', 0xa2002053, 0xfe00707f),
     (''fle_q'', 0xa6000053, 0xfe00707f),
     (''flt_q'', 0xa6001053, 0xfe00707f),
     (''feq_q'', 0xa6002053, 0xfe00707f),
     (''fcvt_w_s'', 0xc0000053, 0xfff0007f),
     (''fcvt_wu_s'', 0xc0100053, 0xfff0007f),
     (''fcvt_l_s'', 0xc0200053, 0xfff0007f),
     (''fcvt_lu_s'', 0xc0300053, 0xfff0007f),
     (''fmv_x_w'', 0xe0000053, 0xfff0707f),
     (''fclass_s'', 0xe0001053, 0xfff0707f),
     (''fcvt_w_d'', 0xc2000053, 0xfff0007f),
     (''fcvt_wu_d'', 0xc2100053, 0xfff0007f),
     (''fcvt_l_d'', 0xc2200053, 0xfff0007f),
     (''fcvt_lu_d'', 0xc2300053, 0xfff0007f),
     (''fmv_x_d'', 0xe2000053, 0xfff0707f),
     (''fclass_d'', 0xe2001053, 0xfff0707f),
     (''fcvt_w_q'', 0xc6000053, 0xfff0007f),
     (''fcvt_wu_q'', 0xc6100053, 0xfff0007f),
     (''fcvt_l_q'', 0xc6200053, 0xfff0007f),
     (''fcvt_lu_q'', 0xc6300053, 0xfff0007f),
     (''fmv_x_q'', 0xe6000053, 0xfff0707f),
     (''fclass_q'', 0xe6001053, 0xfff0707f),
     (''fcvt_s_w'', 0xd0000053, 0xfff0007f),
     (''fcvt_s_wu'', 0xd0100053, 0xfff0007f),
     (''fcvt_s_l'', 0xd0200053, 0xfff0007f),
     (''fcvt_s_lu'', 0xd0300053, 0xfff0007f),
     (''fmv_w_x'', 0xf0000053, 0xfff0707f),
     (''fcvt_d_w'', 0xd2000053, 0xfff0007f),
     (''fcvt_d_wu'', 0xd2100053, 0xfff0007f),
     (''fcvt_d_l'', 0xd2200053, 0xfff0007f),
     (''fcvt_d_lu'', 0xd2300053, 0xfff0007f),
     (''fmv_d_x'', 0xf2000053, 0xfff0707f),
     (''fcvt_q_w'', 0xd6000053, 0xfff0007f),
     (''fcvt_q_wu'', 0xd6100053, 0xfff0007f),
     (''fcvt_q_l'', 0xd6200053, 0xfff0007f),
     (''fcvt_q_lu'', 0xd6300053, 0xfff0007f),
     (''fmv_q_x'', 0xf6000053, 0xfff0707f)]"

definition insns_float_memory :: "isa_insn list" where
  "insns_float_memory =
    [(''flw'', 0x2007, 0x707f),
     (''fld'', 0x3007, 0x707f),
     (''flq'', 0x4007, 0x707f),
     (''fsw'', 0x2027, 0x707f),
     (''fsd'', 0x3027, 0x707f),
     (''fsq'', 0x4027, 0x707f),
     (''fmadd_s'', 0x43, 0x600007f),
     (''fmsub_s'', 0x47, 0x600007f),
     (''fnmsub_s'', 0x4b, 0x600007f),
     (''fnmadd_s'', 0x4f, 0x600007f),
     (''fmadd_d'', 0x2000043, 0x600007f),
     (''fmsub_d'', 0x2000047, 0x600007f),
     (''fnmsub_d'', 0x200004b, 0x600007f),
     (''fnmadd_d'', 0x200004f, 0x600007f),
     (''fmadd_q'', 0x6000043, 0x600007f),
     (''fmsub_q'', 0x6000047, 0x600007f),
     (''fnmsub_q'', 0x600004b, 0x600007f),
     (''fnmadd_q'', 0x600004f, 0x600007f)]"

definition insns_C :: "isa_insn list" where
  "insns_C =
    [(''c_nop'', 0x1, 0xffff),
     (''c_addi16sp'', 0x6101, 0xef83),
     (''c_jr'', 0x8002, 0xf07f),
     (''c_jalr'', 0x9002, 0xf07f),
     (''c_ebreak'', 0x9002, 0xffff),
     (''c_ld'', 0x6000, 0xe003),
     (''c_sd'', 0xe000, 0xe003),
     (''c_addiw'', 0x2001, 0xe003),
     (''c_ldsp'', 0x6002, 0xe003),
     (''c_sdsp'', 0xe002, 0xe003),
     (''c_addi4spn'', 0x0, 0xe003),
     (''c_fld'', 0x2000, 0xe003),
     (''c_lw'', 0x4000, 0xe003),
     (''c_flw'', 0x6000, 0xe003),
     (''c_fsd'', 0xa000, 0xe003),
     (''c_sw'', 0xc000, 0xe003),
     (''c_fsw'', 0xe000, 0xe003),
     (''c_addi'', 0x1, 0xe003),
     (''c_jal'', 0x2001, 0xe003),
     (''c_li'', 0x4001, 0xe003),
     (''c_lui'', 0x6001, 0xe003),
     (''c_srli'', 0x8001, 0xec03),
     (''c_srai'', 0x8401, 0xec03),
     (''c_andi'', 0x8801, 0xec03),
     (''c_sub'', 0x8c01, 0xfc63),
     (''c_xor'', 0x8c21, 0xfc63),
     (''c_or'', 0x8c41, 0xfc63),
     (''c_and'', 0x8c61, 0xfc63),
     (''c_subw'', 0x9c01, 0xfc63),
     (''c_addw'', 0x9c21, 0xfc63),
     (''c_j'', 0xa001, 0xe003),
     (''c_beqz'', 0xc001, 0xe003),
     (''c_bnez'', 0xe001, 0xe003),
     (''c_slli'', 0x2, 0xe003),
     (''c_fldsp'', 0x2002, 0xe003),
     (''c_lwsp'', 0x4002, 0xe003),
     (''c_flwsp'', 0x6002, 0xe003),
     (''c_mv'', 0x8002, 0xf003),
     (''c_add'', 0x9002, 0xf003),
     (''c_fsdsp'', 0xa002, 0xe003),
     (''c_swsp'', 0xc002, 0xe003),
     (''c_fswsp'', 0xe002, 0xe003)]"

definition insns_custom :: "isa_insn list" where
  "insns_custom =
    [(''custom0'', 0xb, 0x707f),
     (''custom0_rs1'', 0x200b, 0x707f),
     (''custom0_rs1_rs2'', 0x300b, 0x707f),
     (''custom0_rd'', 0x400b, 0x707f),
     (''custom0_rd_rs1'', 0x600b, 0x707f),
     (''custom0_rd_rs1_rs2'', 0x700b, 0x707f),
     (''custom1'', 0x2b, 0x707f),
     (''custom1_rs1'', 0x202b, 0x707f),
     (''custom1_rs1_rs2'', 0x302b, 0x707f),
     (''custom1_rd'', 0x402b, 0x707f),
     (''custom1_rd_rs1'', 0x602b, 0x707f),
     (''custom1_rd_rs1_rs2'', 0x702b, 0x707f),
     (''custom2'', 0x5b, 0x707f),
     (''custom2_rs1'', 0x205b, 0x707f),
     (''custom2_rs1_rs2'', 0x305b, 0x707f),
     (''custom2_rd'', 0x405b, 0x707f),
     (''custom2_rd_rs1'', 0x605b, 0x707f),
     (''custom2_rd_rs1_rs2'', 0x705b, 0x707f),
     (''custom3'', 0x7b, 0x707f),
     (''custom3_rs1'', 0x207b, 0x707f),
     (''custom3_rs1_rs2'', 0x307b, 0x707f),
     (''custom3_rd'', 0x407b, 0x707f),
     (''custom3_rd_rs1'', 0x607b, 0x707f),
     (''custom3_rd_rs1_rs2'', 0x707b, 0x707f)]"

definition isa_insns :: "isa_insn list" where
  "isa_insns = insns_I @ insns_M @ insns_A @ insns_system @ insns_float_arith @ insns_float_convert @ insns_float_memory @
     insns_C @ insns_custom"

text \<open>
  The instruction of the emulator for each entry: fences and \<open>WFI\<close> do nothing; \<open>DRET\<close>, the floating-point, the compressed
  and the custom instructions are not implemented.
\<close>

definition impl_I :: "instr option list" where
  "impl_I =
    [Some (i_base BEQ), Some (i_base BNE), Some (i_base BLT), Some (i_base BGE), Some (i_base BLTU),
     Some (i_base BGEU), Some (i_base JALR), Some (i_base JAL), Some (i_base LUI), Some (i_base AUIPC),
     Some (i_alu ADDI), Some (i_alu SLLI), Some (i_alu SLTI), Some (i_alu SLTIU), Some (i_alu XORI),
     Some (i_alu SRLI), Some (i_alu SRAI), Some (i_alu ORI), Some (i_alu ANDI), Some (i_alu ADD),
     Some (i_alu SUB), Some (i_alu SLL), Some (i_alu SLT), Some (i_alu SLTU), Some (i_alu XOR_i),
     Some (i_alu SRL), Some (i_alu SRA), Some (i_alu OR_i), Some (i_alu AND_i), Some (i_word ADDIW),
     Some (i_word SLLIW), Some (i_word SRLIW), Some (i_word SRAIW), Some (i_word ADDW), Some (i_word SUBW),
     Some (i_word SLLW), Some (i_word SRLW), Some (i_word SRAW), Some (i_mem LB), Some (i_mem LH),
     Some (i_mem LW), Some (i_mem LD), Some (i_mem LBU), Some (i_mem LHU), Some (i_mem LWU),
     Some (i_mem SB), Some (i_mem SH), Some (i_mem SW), Some (i_mem SD), Some (i_base NOP),
     Some (i_base NOP)]"

definition impl_M :: "instr option list" where
  "impl_M =
    [Some (i_mul MUL_i), Some (i_mul MULH), Some (i_mul MULHSU_i), Some (i_mul MULHU), Some (i_mul DIV_i),
     Some (i_mul DIVU), Some (i_mul REM), Some (i_mul REMU), Some (i_mul MULW), Some (i_mul DIVW),
     Some (i_mul DIVUW), Some (i_mul REMW), Some (i_mul REMUW)]"

definition impl_A :: "instr option list" where
  "impl_A =
    [Some (i_amo_w AMOADD), Some (i_amo_w AMOXOR), Some (i_amo_w AMOOR), Some (i_amo_w AMOAND), Some (i_amo_w AMOMIN),
     Some (i_amo_w AMOMAX), Some (i_amo_w AMOMINU), Some (i_amo_w AMOMAXU), Some (i_amo_w AMOSWAP), Some (i_amo_w LR),
     Some (i_amo_w SC), Some (i_amo_d AMOADD), Some (i_amo_d AMOXOR), Some (i_amo_d AMOOR), Some (i_amo_d AMOAND),
     Some (i_amo_d AMOMIN), Some (i_amo_d AMOMAX), Some (i_amo_d AMOMINU), Some (i_amo_d AMOMAXU), Some (i_amo_d AMOSWAP),
     Some (i_amo_d LR), Some (i_amo_d SC)]"

definition impl_system :: "instr option list" where
  "impl_system =
    [Some (i_system ECALL), Some (i_system EBREAK), Some (i_system URET), Some (i_system SRET), Some (i_system MRET),
     None, Some (i_base NOP), Some (i_base NOP), Some (i_system CSRRW), Some (i_system CSRRS),
     Some (i_system CSRRC), Some (i_system CSRRWI), Some (i_system CSRRSI), Some (i_system CSRRCI)]"

definition isa_table :: "(isa_insn \<times> instr option) list" where
  "isa_table = zip insns_I impl_I @ zip insns_M impl_M @ zip insns_A impl_A @ zip insns_system impl_system @
     map (\<lambda>x. (x, None)) (insns_float_arith @ insns_float_convert @ insns_float_memory @ insns_C @ insns_custom)"

lemma impl_lengths:
  "length impl_I = length insns_I" "length impl_M = length insns_M" "length impl_A = length insns_A"
  "length impl_system = length insns_system"
  by (simp_all add: impl_I_def insns_I_def impl_M_def insns_M_def impl_A_def insns_A_def impl_system_def insns_system_def)

lemma isa_table_insns: "map fst isa_table = isa_insns"
  by (simp add: isa_table_def isa_insns_def impl_lengths comp_def)

section \<open>The patterns of the decoder\<close>

lemma decode_call:
  fixes c :: "('x::len, 'p) rv_core_td"
  obtains c0 where "c_instruction c0 = c_instruction c"
    "rv_core_decode c = rv_call_from_opcode_list (RV_opcode_list (is_rv64 TYPE('x))) (field_of 0 0x7F (c_instruction c)) c0"
proof -
  have "unat (ucast (c_instruction c AND 0x7F) :: u8) = field_of 0 0x7F (c_instruction c)"
    by (subst small_field) simp_all
  then show ?thesis
    by (intro that [of "c\<lparr>c_opcode := ucast (c_instruction c AND 0x7F), c_rd := 0, c_rs1 := 0, c_rs2 := 0, c_func3 := 0,
       c_func7 := 0, c_immediate := 0, c_jump_offset := 0\<rparr>"]) (simp_all add: rv_core_decode_def Let_def)
qed

lemma known_decode_agrees:
  fixes c :: "('x::len, 'p) rv_core_td"
  assumes "c_instruction c AND k = m"
  shows "agrees (known_decode (is_rv64 TYPE('x)) m k) (rv_core_decode c)"
proof -
  obtain c0 where c0: "c_instruction c0 = c_instruction c"
    "rv_core_decode c = rv_call_from_opcode_list (RV_opcode_list (is_rv64 TYPE('x))) (field_of 0 0x7F (c_instruction c)) c0"
    by (rule decode_call)
  show ?thesis unfolding known_decode_def c0(2) c0(1) [symmetric] by (rule known_walk_agrees) (simp only: assms c0(1))
qed

text \<open>The complete list of the patterns under which the RV64 decoder recognises an instruction.\<close>

definition patterns :: "(u32 \<times> u32 \<times> instr option) list" where
  "patterns =
    [(0x37, 0x7F, Some (i_base LUI)),
     (0x17, 0x7F, Some (i_base AUIPC)),
     (0x6F, 0x7F, Some (i_base JAL)),
     (0x67, 0x707F, Some (i_base JALR)),
     (0x63, 0x707F, Some (i_base BEQ)),
     (0x1063, 0x707F, Some (i_base BNE)),
     (0x4063, 0x707F, Some (i_base BLT)),
     (0x5063, 0x707F, Some (i_base BGE)),
     (0x6063, 0x707F, Some (i_base BLTU)),
     (0x7063, 0x707F, Some (i_base BGEU)),
     (0x3, 0x707F, Some (i_mem LB)),
     (0x1003, 0x707F, Some (i_mem LH)),
     (0x2003, 0x707F, Some (i_mem LW)),
     (0x4003, 0x707F, Some (i_mem LBU)),
     (0x5003, 0x707F, Some (i_mem LHU)),
     (0x6003, 0x707F, Some (i_mem LWU)),
     (0x3003, 0x707F, Some (i_mem LD)),
     (0x23, 0x707F, Some (i_mem SB)),
     (0x1023, 0x707F, Some (i_mem SH)),
     (0x2023, 0x707F, Some (i_mem SW)),
     (0x3023, 0x707F, Some (i_mem SD)),
     (0x13, 0x707F, Some (i_alu ADDI)),
     (0x2013, 0x707F, Some (i_alu SLTI)),
     (0x3013, 0x707F, Some (i_alu SLTIU)),
     (0x4013, 0x707F, Some (i_alu XORI)),
     (0x6013, 0x707F, Some (i_alu ORI)),
     (0x7013, 0x707F, Some (i_alu ANDI)),
     (0x1013, 0x707F, Some (i_alu SLLI)),
     (0x5013, 0xFC00707F, Some (i_alu SRLI)),
     (0x40005013, 0xFC00707F, Some (i_alu SRAI)),
     (0x33, 0xFE00707F, Some (i_alu ADD)),
     (0x40000033, 0xFE00707F, Some (i_alu SUB)),
     (0x2000033, 0xFE00707F, Some (i_mul MUL_i)),
     (0x1033, 0xFE00707F, Some (i_alu SLL)),
     (0x2001033, 0xFE00707F, Some (i_mul MULH)),
     (0x2033, 0xFE00707F, Some (i_alu SLT)),
     (0x2002033, 0xFE00707F, Some (i_mul MULHSU_i)),
     (0x3033, 0xFE00707F, Some (i_alu SLTU)),
     (0x2003033, 0xFE00707F, Some (i_mul MULHU)),
     (0x4033, 0xFE00707F, Some (i_alu XOR_i)),
     (0x2004033, 0xFE00707F, Some (i_mul DIV_i)),
     (0x5033, 0xFE00707F, Some (i_alu SRL)),
     (0x40005033, 0xFE00707F, Some (i_alu SRA)),
     (0x2005033, 0xFE00707F, Some (i_mul DIVU)),
     (0x6033, 0xFE00707F, Some (i_alu OR_i)),
     (0x2006033, 0xFE00707F, Some (i_mul REM)),
     (0x7033, 0xFE00707F, Some (i_alu AND_i)),
     (0x2007033, 0xFE00707F, Some (i_mul REMU)),
     (0xF, 0x7F, Some (i_base NOP)),
     (0x101B, 0x707F, Some (i_word SLLIW)),
     (0x501B, 0xFE00707F, Some (i_word SRLIW)),
     (0x4000501B, 0xFE00707F, Some (i_word SRAIW)),
     (0x1B, 0x707F, Some (i_word ADDIW)),
     (0x3B, 0xFE00707F, Some (i_word ADDW)),
     (0x4000003B, 0xFE00707F, Some (i_word SUBW)),
     (0x200003B, 0xFE00707F, Some (i_mul MULW)),
     (0x103B, 0x707F, Some (i_word SLLW)),
     (0x503B, 0xFE00707F, Some (i_word SRLW)),
     (0x4000503B, 0xFE00707F, Some (i_word SRAW)),
     (0x200503B, 0xFE00707F, Some (i_mul DIVUW)),
     (0x403B, 0x707F, Some (i_mul DIVW)),
     (0x603B, 0x707F, Some (i_mul REMW)),
     (0x703B, 0x707F, Some (i_mul REMUW)),
     (0x1073, 0x707F, Some (i_system CSRRW)),
     (0x2073, 0x707F, Some (i_system CSRRS)),
     (0x3073, 0x707F, Some (i_system CSRRC)),
     (0x5073, 0x707F, Some (i_system CSRRWI)),
     (0x6073, 0x707F, Some (i_system CSRRSI)),
     (0x7073, 0x707F, Some (i_system CSRRCI)),
     (0x73, 0xFFF0707F, Some (i_system ECALL)),
     (0x100073, 0xFFF0707F, Some (i_system EBREAK)),
     (0x200073, 0xFFF0707F, Some (i_system URET)),
     (0x10200073, 0xFFF0707F, Some (i_system SRET)),
     (0x10500073, 0xFFF0707F, Some (i_base NOP)),
     (0x30000073, 0xFE00707F, Some (i_system MRET)),
     (0x12000073, 0xFE00707F, Some (i_base NOP)),
     (0x1000202F, 0xF800707F, Some (i_amo_w LR)),
     (0x1800202F, 0xF800707F, Some (i_amo_w SC)),
     (0x800202F, 0xF800707F, Some (i_amo_w AMOSWAP)),
     (0x202F, 0xF800707F, Some (i_amo_w AMOADD)),
     (0x2000202F, 0xF800707F, Some (i_amo_w AMOXOR)),
     (0x6000202F, 0xF800707F, Some (i_amo_w AMOAND)),
     (0x4000202F, 0xF800707F, Some (i_amo_w AMOOR)),
     (0x8000202F, 0xF800707F, Some (i_amo_w AMOMIN)),
     (0xA000202F, 0xF800707F, Some (i_amo_w AMOMAX)),
     (0xC000202F, 0xF800707F, Some (i_amo_w AMOMINU)),
     (0xE000202F, 0xF800707F, Some (i_amo_w AMOMAXU)),
     (0x1000302F, 0xF800707F, Some (i_amo_d LR)),
     (0x1800302F, 0xF800707F, Some (i_amo_d SC)),
     (0x800302F, 0xF800707F, Some (i_amo_d AMOSWAP)),
     (0x302F, 0xF800707F, Some (i_amo_d AMOADD)),
     (0x2000302F, 0xF800707F, Some (i_amo_d AMOXOR)),
     (0x6000302F, 0xF800707F, Some (i_amo_d AMOAND)),
     (0x4000302F, 0xF800707F, Some (i_amo_d AMOOR)),
     (0x8000302F, 0xF800707F, Some (i_amo_d AMOMIN)),
     (0xA000302F, 0xF800707F, Some (i_amo_d AMOMAX)),
     (0xC000302F, 0xF800707F, Some (i_amo_d AMOMINU)),
     (0xE000302F, 0xF800707F, Some (i_amo_d AMOMAXU))]"

lemma leaves_patterns: "decode_leaves True = patterns" by code_simp

lemma patterns_some: "list_all (\<lambda>(m, k, e). e \<noteq> None) patterns"
  by (simp add: patterns_def)

lemma decoded_pattern:
  fixes c :: "(64, 'p) rv_core_td"
  assumes "rv_core_decode c = Inr c'" "execute_cb c' = Some i"
  shows "\<exists>m k. (m, k, Some i) \<in> set patterns \<and> c_instruction c AND k = m"
proof -
  obtain c0 where c0: "c_instruction c0 = c_instruction c"
    "rv_core_decode c = rv_call_from_opcode_list (RV_opcode_list (is_rv64 TYPE(64))) (field_of 0 0x7F (c_instruction c)) c0"
    by (rule decode_call)
  have call: "rv_call_from_opcode_list (RV_opcode_list True) (field_of 0 0x7F (c_instruction c)) c0 = Inr c'"
    using assms(1) c0(2) by simp
  have "\<exists>(m, k, e)\<in>set patterns. c_instruction c AND k = m \<and> (\<forall>x. e = Some x \<longrightarrow> execute_cb c' = Some x)"
    unfolding leaves_patterns [symmetric] decode_leaves_def c0(1) [symmetric]
    by (rule call_in_leaf [OF call]) (simp_all only: c0(1) and_zero_eq)
  then obtain m k e where leaf: "(m, k, e) \<in> set patterns" "c_instruction c AND k = m"
    "\<forall>x. e = Some x \<longrightarrow> execute_cb c' = Some x" by blast
  moreover obtain j where "e = Some j" using patterns_some leaf(1) unfolding list_all_iff by fast
  ultimately show ?thesis using assms(2) by auto
qed

section \<open>The opcode table against the patterns\<close>

text \<open>
  The instructions that the decoder also recognises in words the table does not give them, since it does not look at all the
  fields the mask covers.
\<close>

definition lenient :: "instr list" where
  "lenient = [i_alu SLLI, i_word SLLIW, i_word SLLW, i_mul DIVW, i_mul REMW, i_mul REMUW, i_base NOP, i_amo_w LR, i_amo_d LR,
     i_system ECALL, i_system EBREAK, i_system URET, i_system SRET, i_system MRET]"

lemmas known_eval = known_decode_def known_walk.simps RV_opcode_list_def decode_defs prep_field_def push_bit_eq_mult drop_bit_eq_div

definition entry_known :: "isa_insn \<times> instr option \<Rightarrow> bool" where
  "entry_known = (\<lambda>((name, m, k), e). known_decode True m k = (case e of None \<Rightarrow> Rejected | Some i \<Rightarrow> Accepted i))"

definition entry_only :: "isa_insn \<times> instr option \<Rightarrow> bool" where
  "entry_only = (\<lambda>((name, m, k), e). case e of None \<Rightarrow> True
     | Some i \<Rightarrow> i \<in> set lenient \<or> filter (\<lambda>(m', k', e'). e' = Some i) patterns = [(m, k, Some i)])"

lemma known_I: "list_all entry_known (zip insns_I impl_I)"
  by (simp add: entry_known_def insns_I_def impl_I_def known_eval)
lemma only_I: "list_all entry_only (zip insns_I impl_I)" by code_simp
lemma known_M: "list_all entry_known (zip insns_M impl_M)"
  by (simp add: entry_known_def insns_M_def impl_M_def known_eval)
lemma only_M: "list_all entry_only (zip insns_M impl_M)" by code_simp
lemma known_A: "list_all entry_known (zip insns_A impl_A)"
  by (simp add: entry_known_def insns_A_def impl_A_def known_eval)
lemma only_A: "list_all entry_only (zip insns_A impl_A)" by code_simp
lemma known_system: "list_all entry_known (zip insns_system impl_system)"
  by (simp add: entry_known_def insns_system_def impl_system_def known_eval)
lemma only_system: "list_all entry_only (zip insns_system impl_system)" by code_simp
lemma known_float_arith: "list_all entry_known (map (\<lambda>x. (x, None)) insns_float_arith)" by code_simp
lemma known_float_convert: "list_all entry_known (map (\<lambda>x. (x, None)) insns_float_convert)" by code_simp
lemma known_float_memory: "list_all entry_known (map (\<lambda>x. (x, None)) insns_float_memory)" by code_simp
lemma known_C: "list_all entry_known (map (\<lambda>x. (x, None)) insns_C)" by code_simp
lemma known_custom: "list_all entry_known (map (\<lambda>x. (x, None)) insns_custom)" by code_simp

lemma only_none: "list_all entry_only (map (\<lambda>x. (x, None)) xs)"
  by (auto simp: list_all_iff entry_only_def)

lemma isa_table_known: "list_all entry_known isa_table"
  unfolding isa_table_def
  by (simp only: list_all_append map_append known_I known_M known_A known_system known_float_arith known_float_convert
     known_float_memory known_C known_custom simp_thms)

lemma isa_table_only: "list_all entry_only isa_table"
  unfolding isa_table_def
  by (simp only: list_all_append only_none only_I only_M only_A only_system simp_thms)

lemma decode_table_spec:
  fixes c :: "(64, 'p) rv_core_td"
  assumes "((name, m, k), e) \<in> set isa_table" "c_instruction c AND k = m"
  shows "agrees (case e of Some i \<Rightarrow> Accepted i | None \<Rightarrow> Rejected) (rv_core_decode c)"
proof -
  have "entry_known ((name, m, k), e)" using isa_table_known assms(1) unfolding list_all_iff by blast
  then have "known_decode True m k = (case e of Some i \<Rightarrow> Accepted i | None \<Rightarrow> Rejected)"
    unfolding entry_known_def by simp
  then show ?thesis using known_decode_agrees [OF assms(2)] by simp
qed

lemma decode_exact_spec:
  fixes c :: "(64, 'p) rv_core_td"
  assumes "((name, m, k), Some i) \<in> set isa_table" "i \<notin> set lenient"
  shows "(\<exists>c'. rv_core_decode c = Inr c' \<and> execute_cb c' = Some i) \<longleftrightarrow> c_instruction c AND k = m"
proof -
  have "entry_only ((name, m, k), Some i)" using isa_table_only assms(1) unfolding list_all_iff by blast
  then have only: "filter (\<lambda>(m', k', e'). e' = Some i) patterns = [(m, k, Some i)]"
    unfolding entry_only_def using assms(2) by simp
  have "m' = m \<and> k' = k" if "(m', k', Some i) \<in> set patterns" for m' k'
  proof -
    have "(m', k', Some i) \<in> set (filter (\<lambda>(m', k', e'). e' = Some i) patterns)" using that by simp
    then show ?thesis unfolding only by simp
  qed
  then show ?thesis using decoded_pattern [of c _ i] decode_table_spec [OF assms(1), of c] by fastforce
qed

text \<open>
  C13. The decoder implements the opcode table of the ISA tests: in the RV64 build a word that encodes an instruction of the table
  is decoded to that instruction if the emulator has it, and decoding fails if it does not (floating point, compressed, custom, \<open>DRET\<close>).
\<close>

theorem decoder_implements_opcode_table:
  fixes c :: "(64, 'p) rv_core_td"
  assumes "((name, m, k), e) \<in> set isa_table" "c_instruction c AND k = m"
  shows "case e of
      Some i \<Rightarrow> \<exists>c'. rv_core_decode c = Inr c' \<and> execute_cb c' = Some i
    | None \<Rightarrow> \<exists>e. rv_core_decode c = Inl e"
  using decode_table_spec [OF assms] by (simp split: option.splits)

definition amoor_core :: "(64, unit) rv_core_td" where
  "amoor_core = (rv_core_zero ())\<lparr>c_instruction := 0x4620AAAF\<rparr>"

theorem decoder_implements_opcode_table_witness:
  "((''amoor_w'', 0x4000202F, 0xF800707F), Some (i_amo_w AMOOR)) \<in> set isa_table \<and>
   (\<exists>c'. rv_core_decode amoor_core = Inr c' \<and> execute_cb c' = Some (i_amo_w AMOOR))"
proof -
  have a: "((''amoor_w'', 0x4000202F, 0xF800707F), Some (i_amo_w AMOOR)) \<in> set isa_table"
    by (simp add: isa_table_def insns_A_def impl_A_def)
  have "c_instruction amoor_core AND 0xF800707F = 0x4000202F" by (simp add: amoor_core_def)
  with a show ?thesis using decoder_implements_opcode_table [OF a, of amoor_core] by simp
qed

text \<open>
  C14. The decoder of the RV64 build recognises no other words: apart from the instructions of \<open>lenient\<close>, a word is decoded to
  an instruction of the table exactly if it matches its entry. (The RV32 build refuses the instructions of RV64 and shifts by
  more than 31, whose words match their entries all the same.)
\<close>

theorem decoder_exact:
  fixes c :: "(64, 'p) rv_core_td"
  assumes "((name, m, k), Some i) \<in> set isa_table" "i \<notin> set lenient"
  shows "(\<exists>c'. rv_core_decode c = Inr c' \<and> execute_cb c' = Some i) \<longleftrightarrow> c_instruction c AND k = m"
  using assms by (rule decode_exact_spec)

theorem decoder_exact_witness:
  "\<not> (\<exists>c'. rv_core_decode amoor_core = Inr c' \<and> execute_cb c' = Some (i_alu ADD))"
proof -
  have a: "((''add'', 0x33, 0xFE00707F), Some (i_alu ADD)) \<in> set isa_table"
    by (simp add: isa_table_def insns_I_def impl_I_def)
  have "i_alu ADD \<notin> set lenient" by (simp add: lenient_def)
  from decoder_exact [OF a this, of amoor_core] show ?thesis by (simp add: amoor_core_def)
qed

text \<open>Words that encode no instruction of the table.\<close>

definition no_entry :: "u32 \<Rightarrow> bool" where
  "no_entry w = list_all (\<lambda>(name, m, k). w AND k \<noteq> m) isa_insns"

lemmas isa_insns_defs = isa_insns_def insns_I_def insns_M_def insns_A_def insns_system_def insns_float_arith_def
  insns_float_convert_def insns_float_memory_def insns_C_def insns_custom_def

lemma reserved_no_entry: "no_entry 0x0200103B" "no_entry 0x0000403B" "no_entry 0x30000073"
  by (simp_all add: no_entry_def isa_insns_defs)

lemma reserved_decode:
  "known_decode True 0x0200103B (- 1) = Accepted (i_word SLLW)" "known_decode True 0x0000403B (- 1) = Accepted (i_mul DIVW)"
  "known_decode True 0x30000073 (- 1) = Accepted (i_system MRET)"
  by (simp_all add: known_eval)

definition decodes_to :: "u32 \<Rightarrow> instr \<Rightarrow> bool" where
  "decodes_to w i = (case rv_core_decode (amoor_core\<lparr>c_instruction := w\<rparr>) of Inl e \<Rightarrow> False | Inr c \<Rightarrow> execute_cb c = Some i)"

lemma known_decodes_to:
  assumes "known_decode True w (- 1) = Accepted i"
  shows "decodes_to w i"
proof -
  have "c_instruction (amoor_core\<lparr>c_instruction := w\<rparr>) AND - 1 = w" by simp
  from known_decode_agrees [OF this] assms show ?thesis by (auto simp: decodes_to_def)
qed

text \<open>
  The decoder executes reserved encodings: \<open>SLLW\<close> with the function code of the multiplications, \<open>DIVW\<close> without it, and
  \<open>MRET\<close> with the operand field of \<open>ECALL\<close> match no entry of the opcode table and are decoded to these instructions.
\<close>

theorem decoder_accepts_reserved_words:
  "no_entry 0x0200103B \<and> decodes_to 0x0200103B (i_word SLLW) \<and>
   no_entry 0x0000403B \<and> decodes_to 0x0000403B (i_mul DIVW) \<and>
   no_entry 0x30000073 \<and> decodes_to 0x30000073 (i_system MRET)"
  using reserved_no_entry reserved_decode [THEN known_decodes_to] by blast

end
