(* ===== verification/CoreRun.thy ===== *)
theory CoreRun
  imports Decode CsrMap
begin

text \<open>
  The step of the processor core, \<open>rv_core_run\<close> and \<open>rv_core_process_interrupts\<close> of
  \<open>src/core/core.c\<close>: fetch, decode, execute, advance, count, and then take a pending trap.
\<close>

section \<open>Interrupts\<close>

definition rv_core_update_interrupts ::
  "u8 \<Rightarrow> u8 \<Rightarrow> u8 \<Rightarrow> ('x::len, 'p) rv_core_td \<Rightarrow> ('x, 'p) rv_core_td" where
  "rv_core_update_interrupts mei mti msi c = c\<lparr>c_trap := trap_set_pending_bits mei mti msi (c_trap c)\<rparr>"

definition core_serve ::
  "privilege_level \<Rightarrow> 'x::len word \<Rightarrow> 'x word \<Rightarrow> ('x, 'p) rv_core_td \<Rightarrow> ('x, 'p) rv_core_td res" where
  "core_serve serving_priv_level is_interrupt cause c =
     res_bind (trap_serve_interrupt (c_trap c) serving_priv_level (curr_priv_mode c) is_interrupt cause
       (c_pc c) (sync_trap_tval c)) (\<lambda>(t, pc).
     Inr (c\<lparr>c_trap := t, c_pc := pc, curr_priv_mode := serving_priv_level\<rparr>))"

text \<open>The causes in the order of the counting loop.\<close>

definition irqs_down :: "trap_cause_interrupt list" where
  "irqs_down = [trap_cause_machine_exti, trap_cause_rsvd_2, trap_cause_super_exti, trap_cause_user_exti,
     trap_cause_machine_ti, trap_cause_rsvd_1, trap_cause_super_ti, trap_cause_user_ti,
     trap_cause_machine_swi, trap_cause_rsvd_0, trap_cause_super_swi, trap_cause_user_swi]"

primrec irq_loop :: "trap_cause_interrupt list \<Rightarrow> ('x::len, 'p) rv_core_td \<Rightarrow> (('x, 'p) rv_core_td \<times> u8) res" where
  "irq_loop [] c = Inr (c, 0)"
| "irq_loop (irq # irqs) c =
     res_bind (trap_check_interrupt_pending (c_trap c) (curr_priv_mode c) irq)
       (\<lambda>(trap_retval, serving_priv_level).
         if trap_retval \<noteq> trap_ret_none then
           res_bind (core_serve serving_priv_level 1 (of_nat (irq_code irq)) c) (\<lambda>c. Inr (c, 1))
         else irq_loop irqs c)"

definition rv_core_prepare_interrupts :: "('x::len, 'p) rv_core_td \<Rightarrow> (('x, 'p) rv_core_td \<times> u8) res" where
  "rv_core_prepare_interrupts c =
    (if sync_trap_pending c then
       res_bind (trap_check_exception_delegation (c_trap c) (curr_priv_mode c) (sync_trap_cause c))
         (\<lambda>serving_priv_level.
           res_bind (core_serve serving_priv_level 0 (sync_trap_cause c) c) (\<lambda>c.
             Inr (c\<lparr>sync_trap_pending := False, sync_trap_cause := 0, sync_trap_tval := 0\<rparr>, 1)))
     else irq_loop irqs_down c)"

definition rv_core_process_interrupts ::
  "u8 \<Rightarrow> u8 \<Rightarrow> u8 \<Rightarrow> ('x::len, 'p) rv_core_td \<Rightarrow> ('x, 'p) rv_core_td res" where
  "rv_core_process_interrupts mei mti msi c =
     res_bind (rv_core_prepare_interrupts (rv_core_update_interrupts mei mti msi c)) (\<lambda>(c, _). Inr c)"

section \<open>One instruction\<close>

text \<open>
  The fetch asks the bus for \<open>sizeof(rv_uint_xlen)\<close> bytes at \<open>&rv_core->instruction\<close>, a member of four
  bytes; on RV64 the other four are the members that follow it in the structure.
\<close>

definition fetch_buffer :: "('x::len, 'p) rv_core_td \<Rightarrow> u8 list" where
  "fetch_buffer c = take (XLEN_BYTES TYPE('x))
     (bytes_of 4 (c_instruction c) @ [c_opcode c, c_rd c, c_rs1 c, c_rs2 c])"

definition fetch_store :: "u8 list \<Rightarrow> ('x::len, 'p) rv_core_td \<Rightarrow> ('x, 'p) rv_core_td" where
  "fetch_store buf c =
    (let c = c\<lparr>c_instruction := word_of_bytes (take 4 buf)\<rparr>
     in case drop 4 buf of
          [b0, b1, b2, b3] \<Rightarrow> c\<lparr>c_opcode := b0, c_rd := b1, c_rs1 := b2, c_rs2 := b3\<rparr>
        | _ \<Rightarrow> c)"

definition rv_core_fetch ::
  "('x::len, 'p) bus_access_func \<Rightarrow> ('x, 'p) rv_core_td \<Rightarrow> (('x, 'p) rv_core_td \<times> rv_ret) res" where
  "rv_core_fetch bus c =
     res_bind (mmu_checked_bus_access bus c (curr_priv_mode c) bus_instr_access (c_pc c) (fetch_buffer c)
       (of_nat (XLEN_BYTES TYPE('x)))) (\<lambda>(c, ret, buf). Inr (fetch_store buf c, ret))"

text \<open>The call through \<open>execute_cb\<close>, then x0 is cleared.\<close>

definition rv_core_execute ::
  "('x::len, 'p) bus_access_func \<Rightarrow> ('x, 'p) rv_core_td \<Rightarrow> ('x, 'p) rv_core_td res" where
  "rv_core_execute bus c =
    (case execute_cb c of
       None \<Rightarrow> Inl NullDeref
     | Some i \<Rightarrow> res_bind (exec_instr i bus c) (\<lambda>c. Inr (set_x 0 0 c)))"

definition csr_set_value :: "nat \<Rightarrow> 'x::len word \<Rightarrow> ('x, 'd) csr_file \<Rightarrow> ('x, 'd) csr_file" where
  "csr_set_value a v csr = csr(a := (csr a)\<lparr>csr_value := v\<rparr>)"

text \<open>The counters that mirror \<open>curr_cycle\<close>.\<close>

definition core_count :: "('x::len, 'p) rv_core_td \<Rightarrow> ('x, 'p) rv_core_td" where
  "core_count c =
    (let c = c\<lparr>curr_cycle := curr_cycle c + 1\<rparr>;
         lo = ucast (curr_cycle c) :: 'x word;
         hi = ucast (drop_bit 32 (curr_cycle c)) :: 'x word;
         csr = csr_set_value CSR_ADDR_TIME lo (csr_set_value CSR_ADDR_CYCLE lo
                 (csr_set_value CSR_ADDR_MINSTRET lo (csr_set_value CSR_ADDR_MCYCLE lo (csr_regs c))));
         csr = (if is_rv64 TYPE('x) then csr
                else csr_set_value CSR_ADDR_TIMEH hi (csr_set_value CSR_ADDR_CYCLEH hi
                  (csr_set_value CSR_ADDR_MINSTRETH hi (csr_set_value CSR_ADDR_MCYCLEH hi csr))))
     in c\<lparr>csr_regs := csr\<rparr>)"

definition core_advance_pc :: "('x::len, 'p) rv_core_td \<Rightarrow> ('x, 'p) rv_core_td" where
  "core_advance_pc c = c\<lparr>c_pc := (if c_next_pc c \<noteq> 0 then c_next_pc c else c_pc c + 4)\<rparr>"

definition rv_core_run ::
  "('x::len, 'p) bus_access_func \<Rightarrow> ('x, 'p) rv_core_td \<Rightarrow> ('x, 'p) rv_core_td res" where
  "rv_core_run bus c =
     res_bind (rv_core_fetch bus (c\<lparr>c_next_pc := 0\<rparr>)) (\<lambda>(c, ret).
     res_bind (if ret = rv_ok then res_bind (rv_core_decode c) (rv_core_execute bus) else Inr c) (\<lambda>c.
       Inr (core_count (core_advance_pc c))))"

end
