(* ===== verification/CoreLaws.thy ===== *)
theory CoreLaws
  imports CoreRun
begin

text \<open>
  What executing an instruction can do to the core, for any bus. The lemmas are proved once, inside
  locales whose assumptions are the elementary effects an instruction is made of: a relation on
  cores that allows each of them relates the core before to the core after every instruction of
  the theory \<open>Instr\<close>, and, with the temporary fields of decoding, after every step of
  \<open>rv_core_run\<close>. The interpretations are the frame of the register file here, and the isolation of
  user mode and the invariant of the system in later theories.
\<close>

section \<open>Buses\<close>

text \<open>
  \<open>S\<close> relates the states before and after a sequence of accesses at a level \<open>l\<close> that the first state allows.
\<close>

definition access_sizes :: "'x::len itself \<Rightarrow> u8 set" where
  "access_sizes _ = {1, 2, 4, 8, of_nat (LENGTH('x) div 8)}"

lemma access_sizes_simps [simp]: "1 \<in> access_sizes TYPE('x::len)" "2 \<in> access_sizes TYPE('x)"
  "4 \<in> access_sizes TYPE('x)" "8 \<in> access_sizes TYPE('x)" "of_nat (LENGTH('x) div 8) \<in> access_sizes TYPE('x)"
  "of_nat (XLEN_BYTES TYPE('x)) \<in> access_sizes TYPE('x)"
  by (simp_all add: access_sizes_def XLEN_BYTES_def)

lemma access_sizes_le: "n \<in> access_sizes TYPE('x::len) \<Longrightarrow> xlen_ok TYPE('x) \<Longrightarrow> n \<le> 8"
  by (auto simp: access_sizes_def xlen_ok_def)

locale bus_effect =
  fixes bus :: "('x::len, 'p) bus_access_func"
    and P :: "'p \<Rightarrow> privilege_level \<Rightarrow> bool"
    and S :: "'p \<Rightarrow> 'p \<Rightarrow> bool"
  assumes S_refl: "S p p"
    and S_access: "P p l \<Longrightarrow> S p q \<Longrightarrow> n \<in> access_sizes TYPE('x) \<Longrightarrow>
      post (bus q l a addr v n) (\<lambda>(s, _, _). S p s)"
begin

lemma walk: "P p l \<Longrightarrow> S p q \<Longrightarrow> post (mmu_walk bus l vpn levels q a pte) (\<lambda>(s, _). S p s)"
proof (induction levels arbitrary: q a pte)
  case Nil
  then show ?case by simp
next
  case (Cons i levels)
  have "post (bus q l bus_read_access (a + vpn i * SV32_PTESIZE) (bytes_of (LENGTH('x) div 8) pte)
      (of_nat (LENGTH('x) div 8))) (\<lambda>(s, _, _). S p s)" by (rule S_access [OF Cons.prems]) simp
  then show ?case using Cons.IH [OF Cons.prems(1)] by (auto simp: Let_def wp elim!: post_mono)
qed

lemma virt_to_phys:
  assumes "P p l"
  shows "post (mmu_virt_to_phys bus mmu p l va acc mxr sm) (\<lambda>(mmu', q, _, _). S p q \<and> satp_reg mmu' = satp_reg mmu)"
proof (cases "mmu_active mmu l")
  case True
  then show ?thesis
    unfolding mmu_virt_to_phys_cases mmu_lookup_def
    by (simp only: not_True_eq_False if_False post_bind, intro post_mono [OF walk [OF assms S_refl]])
      (auto split: option.splits)
qed (simp add: mmu_virt_to_phys_cases S_refl)

end

section \<open>Instructions\<close>

text \<open>
  The accesses of the core. \<open>P c l\<close> holds of the levels \<open>l\<close> at which the core \<open>c\<close> may access the bus; an
  access reaches the bus only if the PMP check passes.
\<close>

locale core_access =
  fixes bus :: "('x::len, 'p) bus_access_func"
    and P :: "('x, 'p) rv_core_td \<Rightarrow> privilege_level \<Rightarrow> bool"
    and R :: "('x, 'p) rv_core_td \<Rightarrow> ('x, 'p) rv_core_td \<Rightarrow> bool"
  assumes R_refl: "R c c"
    and R_trans: "R c d \<Longrightarrow> R d e \<Longrightarrow> R c e"
    and P_level: "P c (curr_priv_mode c)" "P c (check_mprv_override c a)"
    and R_bus: "P c l \<Longrightarrow> R c d \<Longrightarrow> n \<in> access_sizes TYPE('x) \<Longrightarrow> pmp_mem_check (c_pmp d) l addr n a = Inr rv_ok \<Longrightarrow>
      post (bus (c_priv d) l a addr v n) (\<lambda>(p, _, _). R c (d\<lparr>c_priv := p\<rparr>))"
    and R_trap: "R c (prepare_sync_trap cause tval c)"
    and R_mmu: "R c d \<Longrightarrow> satp_reg m = satp_reg (c_mmu c) \<Longrightarrow> R c (d\<lparr>c_mmu := m\<rparr>)"
begin

lemma R_trap': "R c d \<Longrightarrow> R c (prepare_sync_trap cause tval d)"
  using R_trans R_trap by blast

lemma checked_access:
  assumes "P c l" "R c d" "n \<in> access_sizes TYPE('x)"
  shows "post (pmp_checked_bus_access bus d l a addr v n) (\<lambda>(e, _, _). R c e)"
proof (cases "pmp_mem_check (c_pmp d) l addr n a")
  case (Inr r)
  show ?thesis
  proof (cases "r = rv_ok")
    case True
    then have "post (bus (c_priv d) l a addr v n) (\<lambda>(p, _, _). R c (d\<lparr>c_priv := p\<rparr>))"
      using R_bus assms Inr by blast
    then show ?thesis
      using Inr True by (auto simp: pmp_checked_bus_access_def wp elim!: post_mono)
  qed (use Inr assms in \<open>simp add: pmp_checked_bus_access_def R_trap'\<close>)
qed (simp add: pmp_checked_bus_access_def)

end

sublocale core_access \<subseteq> pmp_bus: bus_effect "pmp_checked_bus_access bus" P R
  by unfold_locales (rule R_refl checked_access, assumption?)+

context core_access begin

lemma access:
  assumes n: "n \<in> access_sizes TYPE('x)"
  shows "post (mmu_checked_bus_access bus c l' a addr v n) (\<lambda>(d, _, _). R c d)"
proof -
  let ?l = "check_mprv_override c a"
  have tail: "post (if r \<noteq> mmu_ok then Inr (prepare_sync_trap cause addr d, rv_err, v)
      else pmp_checked_bus_access bus d ?l a pa v n) (\<lambda>(e, _, _). R c e)" if "R c d" for d r cause pa
    using that by (auto intro!: checked_access [OF _ _ n] P_level R_trap')
  show ?thesis
    unfolding mmu_checked_bus_access_def Let_def post_bind
    by (rule post_mono [OF pmp_bus.virt_to_phys [OF P_level(2)]])
      (simp only: split_beta, intro tail R_mmu, simp_all add: split_beta)
qed

lemma access': "R c d \<Longrightarrow> n \<in> access_sizes TYPE('x) \<Longrightarrow> post (mmu_checked_bus_access bus d l a addr v n) (\<lambda>(e, _, _). R c e)"
  by (rule post_mono [OF access]) (auto intro: R_trans)

end

text \<open>With the other elementary effects of instructions.\<close>

locale core_effect = core_access bus P R
  for bus :: "('x::len, 'p) bus_access_func" and P R +
  assumes R_set_x: "R c (set_x (c_rd c) w c)"
    and R_csr: "post (core_csr_write c csr_addr w) (\<lambda>(d, _). R c d)"
    and R_temp: "R c (c\<lparr>c_next_pc := w\<rparr>)" "R c (c\<lparr>c_immediate := w\<rparr>)" "R c (c\<lparr>c_jump_offset := w\<rparr>)"
      "R c (c\<lparr>lr_valid := b\<rparr>)" "R c (c\<lparr>lr_address := w\<rparr>)"
    and R_return: "post (trap_restore_irq_settings (c_trap c) (curr_priv_mode c))
      (\<lambda>(t, l). R c (c\<lparr>c_trap := t, curr_priv_mode := l\<rparr>))"
begin

lemma R_set_x': "R c d \<Longrightarrow> r = c_rd d \<Longrightarrow> R c (set_x r w d)"
  using R_trans R_set_x by blast

lemma R_temp':
  "R c d \<Longrightarrow> R c (d\<lparr>c_next_pc := w\<rparr>)" "R c d \<Longrightarrow> R c (d\<lparr>c_immediate := w\<rparr>)"
  "R c d \<Longrightarrow> R c (d\<lparr>c_jump_offset := w\<rparr>)" "R c d \<Longrightarrow> R c (d\<lparr>lr_valid := b\<rparr>)" "R c d \<Longrightarrow> R c (d\<lparr>lr_address := w\<rparr>)"
  using R_trans R_temp by blast+

lemma R_csr': "R c d \<Longrightarrow> post (core_csr_write d a w) (\<lambda>(e, _). R c e)"
  by (rule post_mono [OF R_csr]) (auto intro: R_trans)

lemmas R_intros = R_refl R_set_x' R_temp' R_trap' R_csr'

lemma load: "R c d \<Longrightarrow> of_nat n \<in> access_sizes TYPE('x) \<Longrightarrow> post (load_to bus n f d) (R c)"
  unfolding load_to_def Let_def post_bind
  by (rule post_mono [OF access']) (auto intro: R_intros)

lemma store: "R c d \<Longrightarrow> of_nat n \<in> access_sizes TYPE('x) \<Longrightarrow> post (store_from bus n buf d) (R c)"
  unfolding store_from_def Let_def post_bind
  by (rule post_mono [OF access']) (auto intro: R_intros)

lemma mem: "R c d \<Longrightarrow> post (exec_mem i bus d) (R c)"
  by (cases i) (simp_all add: instr_LB_def instr_LH_def instr_LW_def instr_LBU_def instr_LHU_def instr_SB_def
    instr_SH_def instr_SW_def instr_LWU_def instr_LD_def instr_SD_def load store)

lemma base: "post (exec_base i c) (R c)"
  by (cases i) (auto simp: instr_NOP_def instr_LUI_def instr_AUIPC_def instr_JAL_def instr_JALR_def instr_BEQ_def
    instr_BNE_def instr_BLT_def instr_BGE_def instr_BLTU_def instr_BGEU_def branch_if_def Let_def intro!: R_intros)

lemma alu: "R c (exec_alu i c)"
  by (cases i) (auto simp: instr_ADDI_def instr_SLTI_def instr_SLTIU_def instr_XORI_def instr_ORI_def instr_ANDI_def
    instr_SLLI_def instr_SRAI_def instr_SRLI_def instr_ADD_def instr_SUB_def instr_SLL_def instr_SLT_def
    instr_SLTU_def instr_XOR_def instr_SRL_def instr_OR_def instr_AND_def instr_SRA_def Let_def intro!: R_intros)

lemma word: "R c (exec_word i c)"
  by (cases i) (auto simp: instr_SRAIW_def instr_ADDIW_def instr_SLLIW_def instr_SRLIW_def instr_SRLW_def
    instr_SRAW_def instr_SLLW_def instr_ADDW_def instr_SUBW_def Let_def intro!: R_intros)

lemma mul: "R c (exec_mul i c)"
  by (cases i) (auto simp: instr_MULH_def instr_MULHU_def instr_MULHSU_def instr_MUL_def instr_MULW_def
    instr_DIV_def instr_DIVU_def instr_REM_def instr_REMU_def instr_DIVW_def instr_DIVUW_def instr_REMW_def
    instr_REMUW_def Let_def intro!: R_intros)

lemma R_csrD: "core_csr_write c a w = Inr (d, r) \<Longrightarrow> R c d"
  using R_csr [of c a w] by simp

lemma csr_instr: "post (CSRRWx v c) (R c)" "post (CSRRSx v c) (R c)" "post (CSRRCx v c) (R c)"
  by (auto simp: CSRRWx_def CSRRSx_def CSRRCx_def Let_def post_bind split_beta prod_eq_iff
    intro!: postI R_intros dest: R_csrD)

lemma restore: "trap_restore_irq_settings (c_trap c) (curr_priv_mode c) = Inr (t, l) \<Longrightarrow>
    R c (c\<lparr>c_trap := t, curr_priv_mode := l\<rparr>)"
  using R_return [of c] by simp

lemma system: "post (exec_system i c) (R c)"
  by (cases i) (auto simp: instr_CSRRW_def instr_CSRRS_def instr_CSRRC_def instr_CSRRWI_def instr_CSRRSI_def
    instr_CSRRCI_def instr_ECALL_def instr_EBREAK_def instr_MRET_def instr_SRET_def instr_URET_def csr_instr
    post_bind split_beta intro!: postI R_intros restore)

lemma amo: "of_nat n \<in> access_sizes TYPE('x) \<Longrightarrow> (\<And>d. R c d \<Longrightarrow> post (ld d) (R c)) \<Longrightarrow> post (amo_body n ld f bus c) (R c)"
  unfolding amo_body_def Let_def post_bind
  by (rule post_mono [of "ld c" "R c"]) (auto simp: split_beta intro!: R_refl post_mono [OF access'])

lemma mem_uses:
  "R c d \<Longrightarrow> post (instr_LW bus d) (R c)" "R c d \<Longrightarrow> post (instr_LD bus d) (R c)"
  "(\<And>e. R c e \<Longrightarrow> Q e) \<Longrightarrow> post (instr_SW bus c) Q" "(\<And>e. R c e \<Longrightarrow> Q e) \<Longrightarrow> post (instr_SD bus c) Q"
  using mem [of c d LW] mem [of c d LD] mem [OF R_refl, where i = SW] mem [OF R_refl, where i = SD]
  by (auto intro: post_mono [where Q = "R c"])

lemma amo_w: "post (exec_amo_w i bus c) (R c)"
  by (cases i) (auto simp: instr_LR_W_def instr_SC_W_def instr_AMOSWAP_W_def instr_AMOADD_W_def instr_AMOXOR_W_def
    instr_AMOAND_W_def instr_AMOOR_W_def instr_AMOMIN_W_def instr_AMOMAX_W_def instr_AMOMINU_W_def
    instr_AMOMAXU_W_def post_bind intro!: R_intros amo mem_uses)

lemma amo_d: "post (exec_amo_d i bus c) (R c)"
  by (cases i) (auto simp: instr_LR_D_def instr_SC_D_def instr_AMOSWAP_D_def instr_AMOADD_D_def instr_AMOXOR_D_def
    instr_AMOAND_D_def instr_AMOOR_D_def instr_AMOMIN_D_def instr_AMOMAX_D_def instr_AMOMINU_D_def
    instr_AMOMAXU_D_def post_bind intro!: R_intros amo mem_uses)

lemma instr: "post (exec_instr i bus c) (R c)"
  using amo_w amo_d mem [OF R_refl] base system alu word mul by (cases i) auto

end

section \<open>Decoding\<close>

text \<open>Cores that differ only in the decoded fields of an instruction.\<close>

definition core_same :: "('x::len, 'p) rv_core_td \<Rightarrow> ('x, 'p) rv_core_td \<Rightarrow> bool" where
  "core_same c d \<longleftrightarrow> curr_priv_mode d = curr_priv_mode c \<and> curr_cycle d = curr_cycle c \<and> c_x d = c_x c \<and>
     c_pc d = c_pc c \<and> c_next_pc d = c_next_pc c \<and> sync_trap_pending d = sync_trap_pending c \<and> sync_trap_cause d = sync_trap_cause c \<and>
     sync_trap_tval d = sync_trap_tval c \<and> c_priv d = c_priv c \<and> csr_regs d = csr_regs c \<and> c_pmp d = c_pmp c \<and>
     c_trap d = c_trap c \<and> c_mmu d = c_mmu c \<and> lr_valid d = lr_valid c \<and> lr_address d = lr_address c"

text \<open>The register numbers of an instruction are indices of the register file.\<close>

definition core_regs_ok :: "('x::len, 'p) rv_core_td \<Rightarrow> bool" where
  "core_regs_ok c \<longleftrightarrow> c_rd c < 32 \<and> c_rs1 c < 32 \<and> c_rs2 c < 32"

lemma core_same_refl [simp]: "core_same c c"
  by (simp add: core_same_def)

lemma core_same_trans: "core_same c d \<Longrightarrow> core_same d e \<Longrightarrow> core_same c e"
  by (simp add: core_same_def)

lemma ifield_less: "ifield c k 0x1F < 32"
proof -
  have "unat (drop_bit k (c_instruction c) AND 0x1F) < 2 ^ 5"
    using unat_and_mask [of "drop_bit k (c_instruction c)" 5] by (simp add: mask_eq_exp_minus_1)
  then have "unat (ucast (drop_bit k (c_instruction c) AND 0x1F) :: u8) < 32"
    by (simp add: unsigned_ucast_eq take_bit_nat_eq_self)
  then show ?thesis by (simp add: ifield_def word_less_nat_alt)
qed

lemma preparation_same: "preparation_cb p c = (d, k) \<Longrightarrow> core_same c d \<and> (core_regs_ok c \<longrightarrow> core_regs_ok d)"
  by (cases p) (auto simp: core_same_def core_regs_ok_def Let_def ifield_less preparation_func5_def preparation_func6_def
    preparation_func7_def preparation_func7_func12_sub5_extended_def R_type_preparation_def I_type_preparation_def
    S_type_preparation_def B_type_preparation_def U_type_preparation_def J_type_preparation_def)

lemma walk_same:
  "rv_call_from_opcode_list t i c = Inr d \<Longrightarrow> core_same c d \<and> (core_regs_ok c \<longrightarrow> core_regs_ok d)"
proof (induction t i c arbitrary: d rule: rv_call_from_opcode_list.induct)
  case (1 t i c)
  from "1.prems" obtain prep exec nxt where h: "i < desc_size t" "map_of t i = Some (Hook prep exec nxt)"
    by (auto simp: rv_call_from_opcode_list.simps [of t i] split: if_splits option.splits instruction_hook.splits)
  obtain c1 k where p: "(case prep of None \<Rightarrow> (c, - 1) | Some p \<Rightarrow> preparation_cb p c) = (c1, k)"
    by (cases "case prep of None \<Rightarrow> (c, - 1) | Some p \<Rightarrow> preparation_cb p c")
  have p1: "core_same c c1 \<and> (core_regs_ok c \<longrightarrow> core_regs_ok c1)"
    using p preparation_same by (cases prep) auto
  define c2 where "c2 = (case exec of None \<Rightarrow> c1 | Some e \<Rightarrow> c1\<lparr>execute_cb := Some e\<rparr>)"
  have p2: "core_same c c2 \<and> (core_regs_ok c \<longrightarrow> core_regs_ok c2)"
    using p1 by (cases exec) (simp_all add: c2_def core_same_def core_regs_ok_def)
  have d: "(case nxt of None \<Rightarrow> Inr c2 | Some t' \<Rightarrow> if k \<noteq> - 1 then rv_call_from_opcode_list t' (nat k) c2 else Inr c2) = Inr d"
    using "1.prems" h p unfolding c2_def by (simp add: rv_call_from_opcode_list.simps [of t i] Let_def)
  show ?case
  proof (cases "nxt = None \<or> k = - 1")
    case True
    then show ?thesis using d p2 by (auto split: option.splits)
  next
    case False
    then obtain t' where t': "nxt = Some t'" "k \<noteq> - 1" by auto
    have "core_same c2 d \<and> (core_regs_ok c2 \<longrightarrow> core_regs_ok d)"
      using "1.IH" [OF _ h(2) refl p [symmetric] refl c2_def t'] d t' h(1) by simp
    then show ?thesis using p2 core_same_trans by blast
  qed
qed

lemma decode_same: "rv_core_decode c = Inr d \<Longrightarrow> core_same c d \<and> core_regs_ok d"
  unfolding rv_core_decode_def Let_def by (drule walk_same) (simp add: core_same_def core_regs_ok_def)

lemma fetch_store_same: "core_same c (fetch_store buf c)"
  by (simp add: core_same_def fetch_store_def Let_def split: list.splits)

section \<open>Steps\<close>

locale core_step_effect = core_effect bus P R
  for bus :: "('x::len, 'p) bus_access_func" and P R +
  assumes R_same: "core_same c d \<Longrightarrow> R c d"
    and R_pc: "R c (c\<lparr>c_pc := w\<rparr>)"
    and R_x0: "R c (set_x 0 0 c)"
    and R_count: "R c (core_count c)"
begin

lemma R_same': "R c d \<Longrightarrow> core_same d e \<Longrightarrow> R c e"
  using R_trans R_same by blast

lemma fetch: "post (rv_core_fetch bus c) (\<lambda>(d, _). R c d)"
  unfolding rv_core_fetch_def post_bind
  by (rule post_mono [OF access]) (auto intro: R_same' [OF _ fetch_store_same])

lemma decode: "post (rv_core_decode c) (R c)"
  by (rule postI) (auto dest: decode_same intro: R_same)

lemma execute: "post (rv_core_execute bus c) (R c)"
  unfolding rv_core_execute_def
  by (auto simp: post_bind split: option.splits intro!: post_mono [OF instr] intro: R_trans R_x0)

lemma run: "post (rv_core_run bus c) (R c)"
proof -
  have adv: "R c (core_count (core_advance_pc d))" if "R c d" for d
  proof -
    have "R d (core_advance_pc d)" by (simp add: core_advance_pc_def R_pc)
    then show ?thesis using that R_count R_trans by blast
  qed
  have de: "post (res_bind (rv_core_decode d) (rv_core_execute bus)) (R c)" if "R c d" for d
    unfolding post_bind
    by (rule post_mono [OF decode]) (auto intro!: post_mono [OF execute] intro: R_trans that)
  have "post (rv_core_fetch bus (c\<lparr>c_next_pc := 0\<rparr>)) (\<lambda>(d, _). R c d)"
    by (rule post_mono [OF fetch]) (auto intro: R_trans R_temp)
  then show ?thesis
    unfolding rv_core_run_def post_bind [of "rv_core_fetch _ _"]
    by (rule post_mono) (auto simp: post_bind [of "if _ then _ else _"] intro!: post_mono [OF de] adv)
qed

end

section \<open>Frames\<close>

text \<open>An access changes only what is behind the bus, the pending trap and the addresses that the MMU remembers.\<close>

definition trap_kept :: "('x::len, 'p) rv_core_td \<Rightarrow> ('x, 'p) rv_core_td \<Rightarrow> bool" where
  "trap_kept c d \<longleftrightarrow> (sync_trap_pending c \<longrightarrow> sync_trap_pending d \<and> sync_trap_cause d = sync_trap_cause c \<and>
     sync_trap_tval d = sync_trap_tval c)"

definition access_frame :: "('x::len, 'p) rv_core_td \<Rightarrow> ('x, 'p) rv_core_td \<Rightarrow> bool" where
  "access_frame c d \<longleftrightarrow> c_x d = c_x c \<and> c_pc d = c_pc c \<and> curr_cycle d = curr_cycle c \<and> c_next_pc d = c_next_pc c \<and>
     curr_priv_mode d = curr_priv_mode c \<and> c_trap d = c_trap c \<and> c_pmp d = c_pmp c \<and> csr_regs d = csr_regs c \<and>
     satp_reg (c_mmu d) = satp_reg (c_mmu c) \<and> c_rd d = c_rd c \<and> c_rs1 d = c_rs1 c \<and> c_rs2 d = c_rs2 c \<and>
     c_immediate d = c_immediate c \<and> lr_valid d = lr_valid c \<and> lr_address d = lr_address c \<and> trap_kept c d"

text \<open>An instruction writes no register but \<open>rd\<close>, and leaves the program counter and the decoded fields alone.\<close>

definition reg_frame :: "('x::len, 'p) rv_core_td \<Rightarrow> ('x, 'p) rv_core_td \<Rightarrow> bool" where
  "reg_frame c d \<longleftrightarrow> (\<forall>r. r \<noteq> c_rd c \<longrightarrow> c_x d r = c_x c r) \<and> c_rd d = c_rd c \<and> c_rs1 d = c_rs1 c \<and> c_rs2 d = c_rs2 c \<and>
     c_pc d = c_pc c \<and> curr_cycle d = curr_cycle c \<and> c_instruction d = c_instruction c \<and> execute_cb d = execute_cb c \<and>
     trap_kept c d"

lemma core_csr_write_frame:
  "core_csr_write c a w = Inr (d, r) \<Longrightarrow> \<exists>csr t p m. d = c\<lparr>csr_regs := csr, c_trap := t, c_pmp := p, c_mmu := m\<rparr>"
  by (auto simp: core_csr_write_def res_bind_eq_Inr_iff)

interpretation quiet: core_access bus "\<lambda>_ _. True" access_frame for bus
proof unfold_locales
  show "access_frame c d \<Longrightarrow> access_frame d e \<Longrightarrow> access_frame c e" for c d e
    by (auto simp: access_frame_def trap_kept_def)
qed (auto intro!: postI simp: access_frame_def trap_kept_def prepare_sync_trap_def)

interpretation frame: core_effect bus "\<lambda>_ _. True" reg_frame for bus
proof unfold_locales
  show "reg_frame c d \<Longrightarrow> reg_frame d e \<Longrightarrow> reg_frame c e" for c d e
    by (auto simp: reg_frame_def trap_kept_def)
  show "post (core_csr_write c a w) (\<lambda>(d, _). reg_frame c d)" for c a w
    by (auto intro!: postI dest!: core_csr_write_frame simp: reg_frame_def trap_kept_def)
qed (auto simp: reg_frame_def trap_kept_def prepare_sync_trap_def set_x_def intro!: postI)

lemma fetch_frame:
  assumes "rv_core_fetch bus c = Inr (d, r)"
  shows "c_x d = c_x c \<and> c_pc d = c_pc c \<and> curr_cycle d = curr_cycle c \<and> c_next_pc d = c_next_pc c \<and>
    curr_priv_mode d = curr_priv_mode c \<and> trap_kept c d"
proof -
  obtain e buf where e: "mmu_checked_bus_access bus c (curr_priv_mode c) bus_instr_access (c_pc c) (fetch_buffer c)
      (of_nat (XLEN_BYTES TYPE('a))) = Inr (e, r, buf)" "d = fetch_store buf e"
    using assms by (auto simp: rv_core_fetch_def res_bind_eq_Inr_iff)
  then show ?thesis
    using postD [OF quiet.access e(1)] fetch_store_same [of e buf]
    by (simp add: access_frame_def core_same_def trap_kept_def)
qed

text \<open>One step: the register file, the program counter, the pending trap and the cycle counter.\<close>

lemma step_frame:
  assumes "rv_core_run bus c = Inr d"
  shows "\<exists>rd < 32. (\<forall>r. r \<noteq> rd \<and> r \<noteq> 0 \<longrightarrow> c_x d r = c_x c r) \<and> (c_x c 0 = 0 \<longrightarrow> c_x d 0 = 0) \<and>
    trap_kept c d \<and> curr_cycle d = curr_cycle c + 1 \<and>
    c_pc d = (if c_next_pc d = 0 then c_pc c + 4 else c_next_pc d)"
proof -
  obtain c1 r c2 where f: "rv_core_fetch bus (c\<lparr>c_next_pc := 0\<rparr>) = Inr (c1, r)"
    and x: "(if r = rv_ok then res_bind (rv_core_decode c1) (rv_core_execute bus) else Inr c1) = Inr c2"
    and d: "d = core_count (core_advance_pc c2)"
    using assms by (auto simp: rv_core_run_def res_bind_eq_Inr_iff)
  have e: "\<exists>rd < 32. (\<forall>r. r \<noteq> rd \<and> r \<noteq> 0 \<longrightarrow> c_x c2 r = c_x c1 r) \<and> (c_x c1 0 = 0 \<longrightarrow> c_x c2 0 = 0) \<and>
    trap_kept c1 c2 \<and> curr_cycle c2 = curr_cycle c1 \<and> c_pc c2 = c_pc c1"
  proof (cases "r = rv_ok")
    case True
    then obtain c3 i c4 where "rv_core_decode c1 = Inr c3" "execute_cb c3 = Some i"
      "exec_instr i bus c3 = Inr c4" "c2 = set_x 0 0 c4"
      using x by (auto simp: res_bind_eq_Inr_iff rv_core_execute_def split: option.splits)
    then show ?thesis
      using decode_same [of c1 c3] postD [OF frame.instr, of i bus c3 c4]
      by (intro exI [of _ "c_rd c3"]) (auto simp: core_same_def core_regs_ok_def reg_frame_def trap_kept_def set_x_def)
  qed (use x in \<open>auto simp: trap_kept_def intro!: exI [of _ 0]\<close>)
  have a: "c_x d = c_x c2" "c_next_pc d = c_next_pc c2" "curr_cycle d = curr_cycle c2 + 1" "trap_kept c2 d"
    "c_pc d = (if c_next_pc c2 = 0 then c_pc c2 + 4 else c_next_pc c2)"
    by (simp_all add: d core_count_def core_advance_pc_def trap_kept_def Let_def)
  have "c_x c1 = c_x c" "c_pc c1 = c_pc c" "curr_cycle c1 = curr_cycle c" "trap_kept c c1"
    using fetch_frame [OF f] by (simp_all add: trap_kept_def)
  then show ?thesis using e a by (auto simp: trap_kept_def)
qed

text \<open>A bus on which every word is the instruction \<open>i\<close>, and a step with \<open>addi x1, x1, 5\<close>, for the examples.\<close>

definition rom_bus :: "u32 \<Rightarrow> (32, unit) bus_access_func" where
  "rom_bus i p l a addr v n = Inr (p, rv_ok, bytes_of 4 i)"

lemma example_step:
  obtains d where "rv_core_run (rom_bus 0x00508093) (example_core ()) = Inr d" "c_pc d = 0x1004" "c_x d 1 = 5"
proof -
  have "map_sum id (\<lambda>d. (c_pc d, c_x d 1)) (rv_core_run (rom_bus 0x00508093) (example_core ())) = Inr (0x1004, 5)"
    by code_simp
  then show thesis using that by (cases "rv_core_run (rom_bus 0x00508093) (example_core ())") auto
qed

section \<open>Properties\<close>

text \<open>
  C24. For any bus, one step of the core writes at most one register, with a number from 1 to 31, and x0
  stays zero; it counts one cycle; a trap that is already pending keeps its cause and value, so the first
  one of a step is the one that is served; and the program counter moves to the address that a jump has left, or to the
  next word (an address of zero counts as no jump).
\<close>

theorem step_writes_one_register:
  assumes "rv_core_run bus c = Inr d"
  shows "\<exists>rd < 32. (\<forall>r. r \<noteq> rd \<and> r \<noteq> 0 \<longrightarrow> c_x d r = c_x c r) \<and> (c_x c 0 = 0 \<longrightarrow> c_x d 0 = 0) \<and>
    (sync_trap_pending c \<longrightarrow> sync_trap_pending d \<and> sync_trap_cause d = sync_trap_cause c \<and>
       sync_trap_tval d = sync_trap_tval c) \<and>
    curr_cycle d = curr_cycle c + 1 \<and> c_pc d = (if c_next_pc d = 0 then c_pc c + 4 else c_next_pc d)"
  using step_frame [OF assms] by (auto simp: trap_kept_def)

theorem step_writes_one_register_witness:
  "\<exists>d. rv_core_run (rom_bus 0x00508093) (example_core ()) = Inr d \<and> c_x d 0 = 0 \<and> curr_cycle d = 1"
proof -
  obtain d where d: "rv_core_run (rom_bus 0x00508093) (example_core ()) = Inr d" by (rule example_step)
  then show ?thesis using step_writes_one_register [OF d] by (auto simp: example_core_def)
qed

text \<open>
  Whatever the instruction word is, the register numbers that decoding leaves are indices of the
  register file, and decoding changes nothing but the decoded fields.
\<close>

theorem decode_register_bounds:
  assumes "rv_core_decode c = Inr d"
  shows "c_rd d < 32 \<and> c_rs1 d < 32 \<and> c_rs2 d < 32 \<and> c_x d = c_x c \<and> c_pc d = c_pc c \<and> c_priv d = c_priv c \<and>
    curr_priv_mode d = curr_priv_mode c \<and> csr_regs d = csr_regs c \<and> c_trap d = c_trap c \<and> c_pmp d = c_pmp c \<and>
    c_mmu d = c_mmu c"
  using decode_same [OF assms] by (simp add: core_same_def core_regs_ok_def)

theorem decode_register_bounds_witness:
  "\<exists>d. rv_core_decode ((example_core ())\<lparr>c_instruction := 0xFFFFF0B7\<rparr>) = Inr d \<and> c_rd d < 32"
proof -
  have "map_sum id (\<lambda>_. ()) (rv_core_decode ((example_core ())\<lparr>c_instruction := 0xFFFFF0B7\<rparr>)) = Inr ()" by code_simp
  then obtain d where d: "rv_core_decode ((example_core ())\<lparr>c_instruction := 0xFFFFF0B7\<rparr>) = Inr d"
    by (cases "rv_core_decode ((example_core ())\<lparr>c_instruction := 0xFFFFF0B7\<rparr>)") auto
  then show ?thesis using decode_register_bounds [OF d] by blast
qed

end
