(* ===== verification/CoreTrap.thy ===== *)
theory CoreTrap
  imports CoreLaws
begin

text \<open>
  How the core takes traps between two instructions: an exception before any interrupt, the served interrupt of
  highest priority otherwise, and what the handler finds.
\<close>

section \<open>Entering a handler\<close>

text \<open>The core \<open>d\<close> is \<open>c\<close> in the handler of level \<open>p\<close>, for an interrupt or an exception with the code \<open>k\<close>.\<close>

definition core_entered ::
  "privilege_level \<Rightarrow> bool \<Rightarrow> 'x word \<Rightarrow> ('x::len, 'p) rv_core_td \<Rightarrow> ('x, 'p) rv_core_td \<Rightarrow> bool" where
  "core_entered p irq k c d \<longleftrightarrow> proper_priv p \<and> curr_priv_mode d = p \<and>
     (\<exists>x. get_priv_regs p = Some x \<and> c_pc d = regs_data (c_trap c) (x trap_reg_tvec) \<and>
       regs_data (c_trap d) (x trap_reg_epc) = (if irq then c_pc c else c_pc c - 4) \<and>
       regs_data (c_trap d) (x trap_reg_cause) = (if irq then push_bit (LENGTH('x) - 1) 1 OR k else k) \<and>
       regs_data (c_trap d) (x trap_reg_tval) = sync_trap_tval c \<and>
       (\<forall>i. bit (regs_data (c_trap d) shared_status) i \<longleftrightarrow>
         serve_status_bit p (curr_priv_mode c) (regs_data (c_trap c) shared_status) i) \<and>
       (\<forall>r. r \<notin> {shared_status, x trap_reg_epc, x trap_reg_cause, x trap_reg_tval} \<longrightarrow>
         regs_data (c_trap d) r = regs_data (c_trap c) r)) \<and>
     c_x d = c_x c \<and> c_priv d = c_priv c \<and> csr_regs d = csr_regs c \<and> c_pmp d = c_pmp c \<and> c_mmu d = c_mmu c"

lemma core_serve_spec:
  fixes c :: "('x::len, 'p) rv_core_td"
  assumes "proper_priv p" "32 \<le> LENGTH('x)"
  shows "\<exists>d. core_serve p (of_bool irq) k c = Inr d \<and> core_entered p irq k c d \<and> sync_trap_pending d = sync_trap_pending c"
proof -
  obtain t' x where "get_priv_regs p = Some x"
    "trap_serve_interrupt (c_trap c) p (curr_priv_mode c) (of_bool irq) k (c_pc c) (sync_trap_tval c) =
      Inr (t', regs_data (c_trap c) (x trap_reg_tvec))"
    "\<forall>i. bit (regs_data t' shared_status) i \<longleftrightarrow> serve_status_bit p (curr_priv_mode c) (regs_data (c_trap c) shared_status) i"
    "regs_data t' (x trap_reg_epc) = (if irq then c_pc c else c_pc c - 4)"
    "regs_data t' (x trap_reg_cause) = push_bit (LENGTH('x) - 1) (of_bool irq) OR k"
    "regs_data t' (x trap_reg_tval) = sync_trap_tval c"
    "\<forall>r. r \<notin> {shared_status, x trap_reg_epc, x trap_reg_cause, x trap_reg_tval} \<longrightarrow> regs_data t' r = regs_data (c_trap c) r"
    using serve_effect [OF assms, of "c_trap c" "curr_priv_mode c" "of_bool irq" k "c_pc c" "sync_trap_tval c"]
    by (cases irq) auto
  then show ?thesis using assms(1) by (cases irq) (auto simp: core_serve_def core_entered_def)
qed

section \<open>The loop over the causes\<close>

text \<open>The first cause of the list that is served at the level of the core, with the level that serves it.\<close>

fun irq_first :: "trap_cause_interrupt list \<Rightarrow> 'x::len trap_td \<Rightarrow> privilege_level \<Rightarrow> (trap_cause_interrupt \<times> privilege_level) option" where
  "irq_first [] t cur = None"
| "irq_first (irq # irqs) t cur = (case irq_served t cur (irq_code irq) of
     Some p \<Rightarrow> Some (irq, p) | None \<Rightarrow> irq_first irqs t cur)"

lemma irq_first_cases:
  "irq_first irqs t cur = None \<longleftrightarrow> (\<forall>irq \<in> set irqs. irq_served t cur (irq_code irq) = None)"
  "irq_first irqs t cur = Some (irq, p) \<Longrightarrow> irq \<in> set irqs \<and> irq_served t cur (irq_code irq) = Some p \<and>
    (\<forall>irq' \<in> set (takeWhile (\<lambda>i. i \<noteq> irq) irqs). irq_served t cur (irq_code irq') = None)"
  by (induction irqs) (auto split: option.splits if_splits)

lemma irq_served_proper: "irq_served t cur k = Some p \<Longrightarrow> proper_priv p"
  by (auto simp: irq_served_def irq_target_def proper_priv_def split: if_splits)

lemma irq_loop_spec:
  fixes c :: "('x::len, 'p) rv_core_td"
  assumes "proper_priv (curr_priv_mode c)" "32 \<le> LENGTH('x)"
  shows "irq_first irqs (c_trap c) (curr_priv_mode c) = None \<Longrightarrow> irq_loop irqs c = Inr (c, 0)"
    and "irq_first irqs (c_trap c) (curr_priv_mode c) = Some (irq, p) \<Longrightarrow>
      \<exists>d. irq_loop irqs c = Inr (d, 1) \<and> core_entered p True (of_nat (irq_code irq)) c d"
proof (induction irqs)
  case (Cons irq' irqs)
  show "irq_first (irq' # irqs) (c_trap c) (curr_priv_mode c) = None \<Longrightarrow> irq_loop (irq' # irqs) c = Inr (c, 0)"
    using Cons.IH(1) by (auto simp: irq_check_spec [OF assms] split: option.splits)
  assume i: "irq_first (irq' # irqs) (c_trap c) (curr_priv_mode c) = Some (irq, p)"
  show "\<exists>d. irq_loop (irq' # irqs) c = Inr (d, 1) \<and> core_entered p True (of_nat (irq_code irq)) c d"
  proof (cases "irq_served (c_trap c) (curr_priv_mode c) (irq_code irq')")
    case None
    then show ?thesis using Cons.IH(2) i by (simp add: irq_check_spec [OF assms])
  next
    case (Some p')
    then have "p' = p" "irq' = irq" using i by auto
    moreover obtain d where "core_serve p' 1 (of_nat (irq_code irq')) c = Inr d" "core_entered p' True (of_nat (irq_code irq')) c d"
      using core_serve_spec [OF irq_served_proper [OF Some] assms(2), of True _ c] by auto
    ultimately show ?thesis using Some by (simp add: irq_check_spec [OF assms])
  qed
qed simp_all

text \<open>In the order of the loop: external before timer before software, and for each machine, supervisor, user.\<close>

lemma irqs_down_sorted: "sorted_wrt (\<lambda>i j. irq_code i > irq_code j) irqs_down" "irq \<in> set irqs_down"
  by (simp add: irqs_down_def) (cases irq; simp add: irqs_down_def)

lemma irq_first_max:
  assumes "irq_first irqs t cur = Some (irq, p)" "sorted_wrt (\<lambda>i j. irq_code i > irq_code j) irqs"
    "irq' \<in> set irqs" "irq_code irq' > irq_code irq"
  shows "irq_served t cur (irq_code irq') = None"
  using assms by (induction irqs) (fastforce split: option.splits)+

lemma no_exception_interrupt:
  fixes c :: "('x::len, 'p) rv_core_td"
  assumes "proper_priv (curr_priv_mode c)" "32 \<le> LENGTH('x)" "\<not> sync_trap_pending c"
  shows "(\<exists>irq p d. rv_core_prepare_interrupts c = Inr (d, 1) \<and> core_entered p True (of_nat (irq_code irq)) c d \<and>
      irq_served (c_trap c) (curr_priv_mode c) (irq_code irq) = Some p \<and>
      (\<forall>irq'. irq_code irq' > irq_code irq \<longrightarrow> irq_served (c_trap c) (curr_priv_mode c) (irq_code irq') = None)) \<or>
    rv_core_prepare_interrupts c = Inr (c, 0) \<and> (\<forall>irq. irq_served (c_trap c) (curr_priv_mode c) (irq_code irq) = None)"
proof (cases "irq_first irqs_down (c_trap c) (curr_priv_mode c)")
  case None
  then show ?thesis
    using irq_loop_spec(1) [OF assms(1,2) None] irqs_down_sorted(2) assms(3) irq_first_cases(1)
    by (metis rv_core_prepare_interrupts_def)
next
  case (Some ip)
  obtain irq p where ip: "ip = (irq, p)" by (cases ip)
  obtain d where "rv_core_prepare_interrupts c = Inr (d, 1)" "core_entered p True (of_nat (irq_code irq)) c d"
    using irq_loop_spec(2) [OF assms(1,2) Some [unfolded ip]] assms(3) by (auto simp: rv_core_prepare_interrupts_def)
  moreover have "irq_served (c_trap c) (curr_priv_mode c) (irq_code irq) = Some p"
    using irq_first_cases(2) [OF Some [unfolded ip]] by simp
  moreover have "\<forall>irq'. irq_code irq' > irq_code irq \<longrightarrow> irq_served (c_trap c) (curr_priv_mode c) (irq_code irq') = None"
    using irq_first_max [OF Some [unfolded ip] irqs_down_sorted(1) irqs_down_sorted(2)] by blast
  ultimately show ?thesis by blast
qed

lemma exception_spec:
  fixes c :: "('x::len, 'p) rv_core_td"
  assumes "proper_priv (curr_priv_mode c)" "32 \<le> LENGTH('x)" "sync_trap_pending c" "unat (ucast (sync_trap_cause c) :: u32) = k" "k < 31"
  shows "\<exists>d. rv_core_prepare_interrupts c = Inr (d, 1) \<and> \<not> sync_trap_pending d \<and>
    core_entered (exc_target (c_trap c) (curr_priv_mode c) k) False (sync_trap_cause c) c d"
proof -
  note e = exc_delegation_spec [OF assms(1,5,2,4), of "c_trap c"]
  obtain d where "core_serve (exc_target (c_trap c) (curr_priv_mode c) k) 0 (sync_trap_cause c) c = Inr d"
    "core_entered (exc_target (c_trap c) (curr_priv_mode c) k) False (sync_trap_cause c) c d"
    using core_serve_spec [of "exc_target (c_trap c) (curr_priv_mode c) k" False "sync_trap_cause c" c] e assms(2) by auto
  then show ?thesis using e assms(3) by (simp add: rv_core_prepare_interrupts_def core_entered_def)
qed

lemma reserved_halts:
  fixes c :: "('x::len, 'p) rv_core_td"
  assumes "curr_priv_mode c = reserved_mode" "\<not> sync_trap_pending c"
  shows "rv_core_prepare_interrupts c = Inl NullDeref"
  using assms by (simp add: rv_core_prepare_interrupts_def irqs_down_def trap_check_interrupt_pending_def get_priv_regs_def deref_regs_def)

section \<open>Properties\<close>

text \<open>
  C15. Interrupts. At one of the three privilege levels and without a pending exception, the core takes the enabled pending
  interrupt with the highest number (external before timer before software; machine before supervisor before user), and
  no other: the handler of the level that serves it starts at that level's trap vector with the interrupted
  program counter and the cause with its top bit set, registers and memory untouched. Without such an
  interrupt nothing changes. The processing never fails.
\<close>

theorem interrupt_priority:
  fixes c :: "('x::len, 'p) rv_core_td"
  assumes "proper_priv (curr_priv_mode c)" "32 \<le> LENGTH('x)" "\<not> sync_trap_pending c"
  shows "(\<exists>irq p d. rv_core_prepare_interrupts c = Inr (d, 1) \<and> core_entered p True (of_nat (irq_code irq)) c d \<and>
      irq_served (c_trap c) (curr_priv_mode c) (irq_code irq) = Some p \<and>
      (\<forall>irq'. irq_code irq' > irq_code irq \<longrightarrow> irq_served (c_trap c) (curr_priv_mode c) (irq_code irq') = None)) \<or>
    rv_core_prepare_interrupts c = Inr (c, 0) \<and> (\<forall>irq. irq_served (c_trap c) (curr_priv_mode c) (irq_code irq) = None)"
  using assms by (rule no_exception_interrupt)

text \<open>A core in machine mode with timer and external interrupts enabled and pending.\<close>

definition irq_example_core :: "(32, unit) rv_core_td" where
  "irq_example_core = (example_core ())\<lparr>c_trap := trap_put shared_status 8 (trap_put shared_ip 0x880
     (trap_put shared_ie 0x880 (trap_put m_tvec 0x100 trap_init)))\<rparr>"

theorem interrupt_priority_witness:
  "\<exists>d. rv_core_prepare_interrupts irq_example_core = Inr (d, 1) \<and> c_pc d = 0x100 \<and>
     regs_data (c_trap d) m_cause = 0x8000000B"
proof -
  have h: "proper_priv (curr_priv_mode irq_example_core)" "32 \<le> LENGTH(32)" "\<not> sync_trap_pending irq_example_core"
    by (simp_all add: irq_example_core_def example_core_def proper_priv_def)
  have s: "irq_served (c_trap irq_example_core) (curr_priv_mode irq_example_core) 11 = Some machine_mode"
    by (auto simp: irq_served_def irq_target_def irq_example_core_def example_core_def trap_init_def)
  have "irq_code trap_cause_machine_exti = 11" by simp
  then obtain irq p d where d: "rv_core_prepare_interrupts irq_example_core = Inr (d, 1)"
      "core_entered p True (of_nat (irq_code irq)) irq_example_core d"
      "irq_served (c_trap irq_example_core) (curr_priv_mode irq_example_core) (irq_code irq) = Some p" "\<not> irq_code irq < 11"
    using interrupt_priority [OF h] s by (metis option.distinct(1))
  then have "irq_code irq = 11" using irq_code_less [of irq] by simp
  then show ?thesis
    using d s by (auto simp: core_entered_def get_priv_regs_def irq_example_core_def)
qed

text \<open>
  C16. Exceptions. A pending exception is served before any interrupt, by the level that its delegation registers
  choose; the handler finds the address of the instruction that raised it, its cause and its value, and the
  exception is no longer pending.
\<close>

theorem exception_entry:
  fixes c :: "('x::len, 'p) rv_core_td"
  assumes "proper_priv (curr_priv_mode c)" "32 \<le> LENGTH('x)" "sync_trap_pending c" "unat (ucast (sync_trap_cause c) :: u32) = k" "k < 31"
  shows "\<exists>d. rv_core_prepare_interrupts c = Inr (d, 1) \<and> \<not> sync_trap_pending d \<and>
    core_entered (exc_target (c_trap c) (curr_priv_mode c) k) False (sync_trap_cause c) c d"
  using assms by (rule exception_spec)

theorem exception_entry_witness:
  "\<exists>d. rv_core_prepare_interrupts ((example_core ())\<lparr>sync_trap_pending := True, sync_trap_cause := 2\<rparr>) = Inr (d, 1) \<and>
     regs_data (c_trap d) m_epc = 0xFFC"
proof -
  let ?c = "(example_core ())\<lparr>sync_trap_pending := True, sync_trap_cause := 2\<rparr>"
  have "unat (ucast (sync_trap_cause ?c) :: u32) = 2" by (simp add: example_core_def)
  then obtain d where "rv_core_prepare_interrupts ?c = Inr (d, 1)" "core_entered machine_mode False 2 ?c d"
    using exception_entry [of ?c 2] by (auto simp: example_core_def proper_priv_def exc_target_def)
  then show ?thesis by (auto simp: core_entered_def get_priv_regs_def example_core_def)
qed

text \<open>
  C40. A machine-mode handler that returns while the previous level in its status register is the reserved
  encoding 2 brings the core into the reserved mode, and the interrupt processing of the same iteration, when no exception
  is pending, reads the register table of that mode, which is a null pointer.
\<close>

theorem mret_reserved_mode_crash:
  fixes c :: "('x::len, 'p) rv_core_td"
  assumes "curr_priv_mode c = machine_mode" "32 \<le> LENGTH('x)" "\<not> sync_trap_pending c"
    and "bit (regs_data (c_trap c) shared_status) 12" "\<not> bit (regs_data (c_trap c) shared_status) 11"
  shows "\<exists>d. exec_instr (i_system MRET) bus c = Inr d \<and> curr_priv_mode d = reserved_mode \<and>
    rv_core_process_interrupts mei mti msi (core_count (core_advance_pc d)) = Inl NullDeref"
proof -
  have p: "proper_priv (curr_priv_mode c)" using assms(1) by (simp add: proper_priv_def)
  obtain t where "trap_restore_irq_settings (c_trap c) (curr_priv_mode c) = Inr (t, reserved_mode)"
    using restore_effect [OF p assms(2), of "c_trap c"] assms(1,4,5) by (auto simp: restored_level_def)
  then obtain d where d: "instr_MRET c = Inr d" "curr_priv_mode d = reserved_mode" "\<not> sync_trap_pending d"
    using assms(3) by (auto simp: instr_MRET_def)
  have "rv_core_prepare_interrupts (rv_core_update_interrupts mei mti msi (core_count (core_advance_pc d))) = Inl NullDeref"
    using d(2,3) by (intro reserved_halts) (simp_all add: rv_core_update_interrupts_def core_count_def core_advance_pc_def Let_def)
  then show ?thesis using d by (simp add: rv_core_process_interrupts_def)
qed

theorem mret_reserved_mode_crash_witness:
  "\<exists>d. exec_instr (i_system MRET) (rom_bus 0) ((example_core ())\<lparr>c_trap := trap_put shared_status 0x1000 trap_init\<rparr>) = Inr d \<and>
     rv_core_process_interrupts 0 0 0 (core_count (core_advance_pc d)) = Inl NullDeref"
  using mret_reserved_mode_crash [of "(example_core ())\<lparr>c_trap := trap_put shared_status 0x1000 trap_init\<rparr>" "rom_bus 0" 0 0 0]
  by (auto simp: example_core_def)

end
