(* ===== verification/Soc.thy ===== *)
theory Soc
  imports CoreRun CoreInit Clint Plic Uart8250
begin

text \<open>
  The system on chip of \<open>src/soc/riscv_example_soc.c\<close>: memories, the table of address
  regions, the bus, the loader (with the file functions of \<open>src/helpers/file_helper.c\<close>) and the main loop.

  The structure \<open>rv_soc_td\<close> holds the core, and the core's \<open>priv\<close> pointer leads back to it; here what the
  bus can reach, \<open>rv_soc_dev\<close>, is the \<open>c_priv\<close> of the core. Characters that the UART prints are
  appended to \<open>soc_out\<close>.
\<close>

section \<open>State\<close>

text \<open>A static byte array with its size.\<close>

record soc_mem =
  mem_cells :: bytemem
  mem_len :: nat

datatype soc_uart = simple_uart simple_uart_td | uart8250 uart_ns8250_td

datatype soc_device = dev_ram | dev_clint | dev_plic | dev_uart | dev_mrom | dev_from

text \<open>An entry of the region table: the function and \<open>priv\<close> pointers are the device, \<open>None\<close> when \<open>NULL\<close>.\<close>

record (overloaded) 'x rv_soc_mem_access_cb_td =
  cb_device :: "soc_device option"
  addr_start :: "'x word"
  mem_size :: "'x word"

record (overloaded) 'x rv_soc_dev =
  soc_mrom :: soc_mem
  soc_ram :: soc_mem
  soc_from :: soc_mem
  soc_clint :: clint_td
  soc_plic :: plic_td
  soc_uart :: soc_uart
  mem_access_cbs :: "'x rv_soc_mem_access_cb_td list"

record (overloaded) 'x rv_soc_td =
  rv_core0 :: "('x, 'x rv_soc_dev) rv_core_td"
  soc_out :: "u8 list"

section \<open>Bus\<close>

definition memory_bus_access :: "('x::len, soc_mem) bus_access_func" where
  "memory_bus_access m priv_level access_type address value len =
    (if len = 0 then Inr (m, rv_ok, value)
     else if unat address + unat len > mem_len m then Inl OutOfBounds
     else if access_type = bus_write_access then
       res_bind (arr_read value 0 (unat len)) (\<lambda>bs.
         Inr (m\<lparr>mem_cells := mem_store (mem_cells m) (unat address) bs\<rparr>, rv_ok, value))
     else
       res_bind (arr_write value 0 (mem_load (mem_cells m) (unat address) (unat len))) (\<lambda>value.
         Inr (m, rv_ok, value)))"

primrec soc_uart_access :: "soc_uart \<Rightarrow> privilege_level \<Rightarrow> bus_access_type \<Rightarrow> 'x::len word \<Rightarrow> u8 list \<Rightarrow> u8
    \<Rightarrow> (soc_uart \<times> rv_ret \<times> u8 list) res" where
  "soc_uart_access (simple_uart u) l a addr v len =
     res_bind (simple_uart_bus_access u l a addr v len) (\<lambda>(u, r, v). Inr (simple_uart u, r, v))"
| "soc_uart_access (uart8250 u) l a addr v len =
     res_bind (uart_bus_access u l a addr v len) (\<lambda>(u, r, v). Inr (uart8250 u, r, v))"

primrec soc_device_access :: "soc_device \<Rightarrow> ('x::len, 'x rv_soc_dev) bus_access_func" where
  "soc_device_access dev_ram d l a addr v len =
     res_bind (memory_bus_access (soc_ram d) l a addr v len) (\<lambda>(m, r, v). Inr (d\<lparr>soc_ram := m\<rparr>, r, v))"
| "soc_device_access dev_clint d l a addr v len =
     res_bind (clint_bus_access (soc_clint d) l a addr v len) (\<lambda>(m, r, v). Inr (d\<lparr>soc_clint := m\<rparr>, r, v))"
| "soc_device_access dev_plic d l a addr v len =
     res_bind (plic_bus_access (soc_plic d) l a addr v len) (\<lambda>(m, r, v). Inr (d\<lparr>soc_plic := m\<rparr>, r, v))"
| "soc_device_access dev_uart d l a addr v len =
     res_bind (soc_uart_access (soc_uart d) l a addr v len) (\<lambda>(m, r, v). Inr (d\<lparr>soc_uart := m\<rparr>, r, v))"
| "soc_device_access dev_mrom d l a addr v len =
     res_bind (memory_bus_access (soc_mrom d) l a addr v len) (\<lambda>(m, r, v). Inr (d\<lparr>soc_mrom := m\<rparr>, r, v))"
| "soc_device_access dev_from d l a addr v len =
     res_bind (memory_bus_access (soc_from d) l a addr v len) (\<lambda>(m, r, v). Inr (d\<lparr>soc_from := m\<rparr>, r, v))"

text \<open>The loop over the table; an address in no region ends the program.\<close>

primrec soc_bus_scan ::
  "'x::len rv_soc_mem_access_cb_td list \<Rightarrow> ('x, 'x rv_soc_dev) bus_access_func" where
  "soc_bus_scan [] d l a address v len = Inl Die"
| "soc_bus_scan (cb # cbs) d l a address v len =
    (if ADDR_WITHIN_LEN address len (addr_start cb) (mem_size cb) then
       (case cb_device cb of
          None \<Rightarrow> Inl NullDeref
        | Some dev \<Rightarrow> soc_device_access dev d l a (address - addr_start cb) v len)
     else soc_bus_scan cbs d l a address v len)"

definition rv_soc_bus_access :: "('x::len, 'x rv_soc_dev) bus_access_func" where
  "rv_soc_bus_access d l a address v len = soc_bus_scan (mem_access_cbs d) d l a address v len"

section \<open>Initialisation\<close>

definition INIT_MEM_ACCESS_STRUCT ::
  "nat \<Rightarrow> soc_device \<Rightarrow> 'x::len word \<Rightarrow> 'x word \<Rightarrow> 'x rv_soc_mem_access_cb_td list
    \<Rightarrow> 'x rv_soc_mem_access_cb_td list res" where
  "INIT_MEM_ACCESS_STRUCT entry dev start sz cbs =
    (if entry \<ge> length cbs then Inl Die
     else Inr (cbs[entry := \<lparr>cb_device = Some dev, addr_start = start, mem_size = sz\<rparr>]))"

definition rv_soc_init_mem_access_cbs :: "'x::len rv_soc_dev \<Rightarrow> 'x rv_soc_dev res" where
  "rv_soc_init_mem_access_cbs d =
     res_bind (INIT_MEM_ACCESS_STRUCT 0 dev_ram RAM_BASE_ADDR RAM_SIZE_BYTES (mem_access_cbs d)) (\<lambda>cbs.
     res_bind (INIT_MEM_ACCESS_STRUCT 1 dev_clint CLINT_BASE_ADDR CLINT_SIZE_BYTES cbs) (\<lambda>cbs.
     res_bind (INIT_MEM_ACCESS_STRUCT 2 dev_plic PLIC_BASE_ADDR PLIC_SIZE_BYTES cbs) (\<lambda>cbs.
     res_bind (case soc_uart d of
         simple_uart _ \<Rightarrow> INIT_MEM_ACCESS_STRUCT 3 dev_uart SIMPLE_UART_TX_REG_ADDR SIMPLE_UART_SIZE_BYTES cbs
       | uart8250 _ \<Rightarrow> INIT_MEM_ACCESS_STRUCT 3 dev_uart UART8250_TX_REG_ADDR (of_nat UART_NS8250_NR_REGS) cbs) (\<lambda>cbs.
     res_bind (INIT_MEM_ACCESS_STRUCT 4 dev_mrom MROM_BASE_ADDR MROM_SIZE_BYTES cbs) (\<lambda>cbs.
     res_bind (INIT_MEM_ACCESS_STRUCT 5 dev_from FROM_BASE_ADDR FROM_SIZE_BYTES cbs) (\<lambda>cbs.
       Inr (d\<lparr>mem_access_cbs := cbs\<rparr>)))))))"

text \<open>
  The files by name, \<open>None\<close> for one that cannot be opened; every error of the file functions ends
  the program. A file is written into an array at an offset, \<open>&memory[off]\<close>.
\<close>

type_synonym file_system = "string \<Rightarrow> u8 list option"

definition get_file_size :: "file_system \<Rightarrow> string \<Rightarrow> u64 res" where
  "get_file_size fs file_name = (case fs file_name of None \<Rightarrow> Inl Die | Some c \<Rightarrow> Inr (of_nat (length c)))"

definition write_mem_from_file :: "file_system \<Rightarrow> string \<Rightarrow> soc_mem \<Rightarrow> u64 \<Rightarrow> u64 \<Rightarrow> soc_mem res" where
  "write_mem_from_file fs file_name m off sz =
     res_bind (get_file_size fs file_name) (\<lambda>lsize.
       if sint lsize > sint sz then Inl Die
       else case fs file_name of
         None \<Rightarrow> Inl Die
       | Some c \<Rightarrow>
           if unat off + length c > mem_len m then Inl OutOfBounds
           else Inr (m\<lparr>mem_cells := mem_store (mem_cells m) (unat off) c\<rparr>))"

definition reset_vec :: "'x::len itself \<Rightarrow> u64 \<Rightarrow> u64 \<Rightarrow> u32 list" where
  "reset_vec _ start_addr fdt_addr =
    [0x00000297, 0x02828613, 0xf1402573,
     if is_rv64 TYPE('x) then 0x0202b583 else 0x0202a583,
     if is_rv64 TYPE('x) then 0x0182b283 else 0x0182a283,
     0x00028067, ucast start_addr, 0x00000000, ucast fdt_addr, 0x00000000]"

definition MiB :: u64 where "MiB = 0x100000"

text \<open>Address and offset in RAM of a device tree of \<open>fdt_size\<close> bytes.\<close>

definition fdt_place :: "u64 \<Rightarrow> u64 \<times> u64" where
  "fdt_place fdt_size =
    (let fdt_addr = ADDR_ALIGN_DOWN (RAM_BASE_ADDR + RAM_SIZE_BYTES - fdt_size) (16 * MiB)
     in (fdt_addr, fdt_addr - RAM_BASE_ADDR))"

definition zero_mem :: "nat \<Rightarrow> soc_mem" where
  "zero_mem n = \<lparr>mem_cells = (\<lambda>_. 0), mem_len = n\<rparr>"

definition soc_zero :: "bool \<Rightarrow> 'x::len rv_soc_dev" where
  "soc_zero use_simple_uart =
    \<lparr>soc_mrom = zero_mem 0xf000, soc_ram = zero_mem 0x8000000, soc_from = zero_mem 0xc800000,
     soc_clint = clint_zero, soc_plic = plic_zero,
     soc_uart = (if use_simple_uart then simple_uart simple_uart_init else uart8250 uart_init),
     mem_access_cbs = replicate 6 \<lparr>cb_device = None, addr_start = 0, mem_size = 0\<rparr>\<rparr>"

definition rv_soc_init ::
  "bool \<Rightarrow> file_system \<Rightarrow> string \<Rightarrow> string option \<Rightarrow> string option \<Rightarrow> 'x::len rv_soc_td res" where
  "rv_soc_init use_simple_uart fs fw_file_name dtb_file_name initrd_file_name =
    (let d = soc_zero use_simple_uart in
     res_bind (case dtb_file_name of
         None \<Rightarrow> Inr (0, soc_ram d)
       | Some f \<Rightarrow> res_bind (get_file_size fs f) (\<lambda>fdt_size.
           let (fdt_addr, tmp) = fdt_place fdt_size
           in res_bind (write_mem_from_file fs f (soc_ram d) tmp (RAM_SIZE_BYTES - tmp)) (\<lambda>m. Inr (fdt_addr, m))))
       (\<lambda>(fdt_addr, ram).
     res_bind (write_mem_from_file fs fw_file_name ram 0 RAM_SIZE_BYTES) (\<lambda>ram.
     res_bind (case initrd_file_name of
         None \<Rightarrow> Inr (soc_from d)
       | Some f \<Rightarrow> write_mem_from_file fs f (soc_from d) 0 FROM_SIZE_BYTES) (\<lambda>from_mem.
     let mrom = (soc_mrom d)\<lparr>mem_cells := fold (\<lambda>(i, w) m. mem_store m (4 * i) (bytes_of 4 w))
             (List.enumerate 0 (reset_vec TYPE('x) RAM_BASE_ADDR fdt_addr)) (mem_cells (soc_mrom d))\<rparr>
     in res_bind (rv_soc_init_mem_access_cbs (d\<lparr>soc_ram := ram, soc_from := from_mem, soc_mrom := mrom\<rparr>)) (\<lambda>d.
       Inr \<lparr>rv_core0 = rv_core_init d, soc_out = []\<rparr>)))))"

section \<open>Main loop\<close>

primrec soc_uart_poll :: "soc_uart \<Rightarrow> (soc_uart \<times> u8 \<times> u8 list) res" where
  "soc_uart_poll (simple_uart u) =
     res_bind (simple_uart_update u) (\<lambda>(u, irq, out). Inr (simple_uart u, irq, out))"
| "soc_uart_poll (uart8250 u) =
     res_bind (uart_update u) (\<lambda>(u, irq, out). Inr (uart8250 u, irq, out))"

primrec soc_uart_rx :: "soc_uart \<Rightarrow> u8 \<Rightarrow> soc_uart res" where
  "soc_uart_rx (simple_uart u) x = res_bind (simple_uart_add_rx_char u x) (\<lambda>u. Inr (simple_uart u))"
| "soc_uart_rx (uart8250 u) x = res_bind (uart_add_rx_char u x) (\<lambda>u. Inr (uart8250 u))"

text \<open>The peripherals' part of an iteration; the results are the three interrupt lines.\<close>

definition soc_update_devices :: "'x::len rv_soc_dev \<Rightarrow> ('x rv_soc_dev \<times> u8 list \<times> u8 \<times> u8 \<times> u8) res" where
  "soc_update_devices d =
     res_bind (soc_uart_poll (soc_uart d)) (\<lambda>(u, uart_irq_pending, out).
     res_bind (plic_update_pending (soc_plic d) 10 uart_irq_pending) (\<lambda>plic.
     res_bind (plic_update plic) (\<lambda>(plic, mei).
     res_bind (clint_update (soc_clint d)) (\<lambda>(clint, msi, mti).
       Inr (d\<lparr>soc_uart := u, soc_plic := plic, soc_clint := clint\<rparr>, out, mei, mti, msi)))))"

definition soc_iteration :: "'x::len rv_soc_td \<Rightarrow> 'x rv_soc_td res" where
  "soc_iteration soc =
     res_bind (rv_core_run rv_soc_bus_access (rv_core0 soc)) (\<lambda>c.
     res_bind (soc_update_devices (c_priv c)) (\<lambda>(d, out, mei, mti, msi).
     res_bind (rv_core_process_interrupts mei mti msi (c\<lparr>c_priv := d\<rparr>)) (\<lambda>c.
       Inr (soc\<lparr>rv_core0 := c, soc_out := soc_out soc @ out\<rparr>))))"

text \<open>
  The loop: \<open>None\<close> when it never returns, because it goes on forever or because an instruction does, the endless loop
  of \<open>instr_URET\<close>.
\<close>

partial_function (option) rv_soc_run ::
  "'x::len word \<Rightarrow> u64 \<Rightarrow> 'x rv_soc_td \<Rightarrow> ('x rv_soc_td res) option" where
  "rv_soc_run success_pc num_cycles soc =
    (case soc_iteration soc of
       Inl h \<Rightarrow> if h = Hang then None else Some (Inl h)
     | Inr soc \<Rightarrow>
         if c_pc (rv_core0 soc) = success_pc then Some (Inr soc)
         else if num_cycles \<noteq> 0 \<and> curr_cycle (rv_core0 soc) \<ge> num_cycles then Some (Inr soc)
         else rv_soc_run success_pc num_cycles soc)"

declare rv_soc_run.simps [code]

text \<open>A character that arrives from the receiving thread of \<open>src/main.c\<close>.\<close>

definition soc_rx_char :: "u8 \<Rightarrow> 'x::len rv_soc_td \<Rightarrow> 'x rv_soc_td res" where
  "soc_rx_char x soc =
    (let c = rv_core0 soc in
     res_bind (soc_uart_rx (soc_uart (c_priv c)) x) (\<lambda>u.
       Inr (soc\<lparr>rv_core0 := c\<lparr>c_priv := (c_priv c)\<lparr>soc_uart := u\<rparr>\<rparr>\<rparr>)))"

text \<open>The two threads: iterations of the loop, and characters that arrive between them.\<close>

inductive soc_step :: "'x::len rv_soc_td \<Rightarrow> 'x rv_soc_td \<Rightarrow> bool" where
  iteration: "soc_iteration soc = Inr soc' \<Longrightarrow> soc_step soc soc'"
| rx_char: "soc_rx_char x soc = Inr soc' \<Longrightarrow> soc_step soc soc'"

inductive_cases soc_stepE: "soc_step soc soc'"

end
