(* ===== verification/CsrTable.thy ===== *)
theory CsrTable
  imports Soc
begin

text \<open>
  What the CSR table of \<open>rv_core_init_csr_regs\<close> promises: the access flags follow the address
  convention of the privileged architecture, no register can be written by user mode, and every write callback keeps the PMP
  registers well-formed.
\<close>

section \<open>The convention\<close>

text \<open>Bits 9 and 8 of an address are the lowest level with access, and bits 11 and 10 are ones for read-only registers.\<close>

definition csr_level :: "nat \<Rightarrow> nat" where
  "csr_level i = i div 256 mod 4"

definition csr_read_only :: "nat \<Rightarrow> bool" where
  "csr_read_only i \<longleftrightarrow> i div 1024 = 3"

definition flags_conform :: "nat \<Rightarrow> u16 \<Rightarrow> bool" where
  "flags_conform i flags \<longleftrightarrow> (\<forall>p. proper_priv p \<longrightarrow>
     (CSR_ACCESS_READ_GRANTED p flags \<longrightarrow> csr_level i \<le> priv_nat p) \<and>
     (CSR_ACCESS_WRITE_GRANTED p flags \<longrightarrow> csr_level i \<le> priv_nat p \<and> p \<noteq> user_mode \<and> \<not> csr_read_only i))"

lemma csr_level_le: "csr_level i \<le> 3"
  unfolding csr_level_def by linarith

lemma flags_conform_simps:
  "flags_conform i 0"
  "flags_conform i (CSR_ACCESS_RO machine_mode)"
  "\<not> csr_read_only i \<Longrightarrow> flags_conform i (CSR_ACCESS_RW machine_mode)"
  "csr_level i \<le> 1 \<Longrightarrow> \<not> csr_read_only i \<Longrightarrow> flags_conform i CSR_MS_RW"
  "csr_level i = 0 \<Longrightarrow> flags_conform i CSR_MSU_RO"
  using csr_level_le [of i]
  by (auto simp: flags_conform_def proper_priv_def CSR_ACCESS_READ_GRANTED_def CSR_ACCESS_WRITE_GRANTED_def
    CSR_ACCESS_RO_def CSR_ACCESS_WO_def CSR_ACCESS_RW_def CSR_ACCESS_READ_def CSR_ACCESS_WRITE_def)

section \<open>The invariant of the table\<close>

text \<open>A callback that keeps the PMP component well-formed.\<close>

definition cb_ok :: "('x::len, 'x csr_dev) csr_write_cb \<Rightarrow> bool" where
  "cb_ok cb \<longleftrightarrow> (\<forall>t p m l reg v t' p' m' ret. cb (t, p, m) l reg v = Inr ((t', p', m'), ret) \<longrightarrow> pmp_wf p \<longrightarrow> pmp_wf p')"

definition csr_reg_ok :: "nat \<Rightarrow> ('x::len, 'x csr_dev) csr_reg_td \<Rightarrow> bool" where
  "csr_reg_ok i r \<longleftrightarrow> flags_conform i (access_flags r) \<and> (\<forall>cb. write_cb r = Some cb \<longrightarrow> cb_ok cb)"

definition csr_file_ok :: "('x::len, 'x csr_dev) csr_file \<Rightarrow> bool" where
  "csr_file_ok csr \<longleftrightarrow> (\<forall>i. csr_reg_ok i (csr i))"

text \<open>An initialiser that keeps the invariant.\<close>

definition init_ok :: "(('x::len, 'x csr_dev) csr_file \<Rightarrow> ('x, 'x csr_dev) csr_file) \<Rightarrow> bool" where
  "init_ok f \<longleftrightarrow> (\<forall>csr. csr_file_ok csr \<longrightarrow> csr_file_ok (f csr))"

lemma trap_cb_ok: "cb_ok (trap_cb_w f)"
  by (auto simp: cb_ok_def trap_cb_w_def res_bind_eq_Inr_iff)

lemma mmu_cb_ok: "cb_ok (mmu_cb_w f)"
  by (auto simp: cb_ok_def mmu_cb_w_def res_bind_eq_Inr_iff)

lemma pmp_write_csr_cfg_wf:
  assumes "pmp_write_csr_cfg p l reg v = Inr (p', r)" "pmp_wf (p :: 'x::len pmp_td)"
  shows "pmp_wf p'"
proof (cases "unat reg < PMP_NR_CFG_REGS TYPE('x)")
  case True
  then show ?thesis using pmp_write_csr_cfg_effect [OF assms(2) True, of l v] assms(1) by auto
qed (use assms in \<open>auto simp: pmp_write_csr_cfg_def split: if_splits\<close>)

lemma pmp_write_csr_addr_wf: "pmp_write_csr_addr p l reg v = Inr (p', r) \<Longrightarrow> pmp_wf p \<Longrightarrow> pmp_wf p'"
  by (auto simp: pmp_write_csr_addr_def pmp_wf_def Let_def res_bind_eq_Inr_iff arr_set_def split: if_splits)

lemma pmp_cb_ok: "cb_ok (pmp_cb_w pmp_write_csr_cfg)" "cb_ok (pmp_cb_w pmp_write_csr_addr)"
  by (auto simp: cb_ok_def pmp_cb_w_def res_bind_eq_Inr_iff dest: pmp_write_csr_cfg_wf pmp_write_csr_addr_wf)

lemma init_default_ok: "flags_conform i flags \<Longrightarrow> init_ok (INIT_CSR_REG_DEFAULT i flags v msk warl)"
  by (simp add: init_ok_def csr_file_ok_def csr_reg_ok_def INIT_CSR_REG_DEFAULT_def)

lemma init_special_ok: "flags_conform i flags \<Longrightarrow> cb_ok wcb \<Longrightarrow> init_ok (INIT_CSR_REG_SPECIAL i flags msk warl rcb wcb ireg)"
  by (simp add: init_ok_def csr_file_ok_def csr_reg_ok_def INIT_CSR_REG_SPECIAL_def)

lemma init_fold_ok: "\<forall>f \<in> set fs. init_ok f \<Longrightarrow> csr_file_ok csr \<Longrightarrow> csr_file_ok (fold (\<lambda>f. f) fs csr)"
  by (induction fs arbitrary: csr) (auto simp: init_ok_def)

lemmas init_ok_intros = init_default_ok init_special_ok trap_cb_ok mmu_cb_ok pmp_cb_ok flags_conform_simps

text \<open>Addresses in a block of 256.\<close>

lemma csr_block: "256 * k \<le> i \<Longrightarrow> i < 256 * k + 256 \<Longrightarrow> csr_level i = k mod 4 \<and> (csr_read_only i \<longleftrightarrow> k div 4 = 3)"
proof -
  assume "256 * k \<le> i" "i < 256 * k + 256"
  then have k: "i div 256 = k" by (intro div_nat_eqI) simp_all
  have "i div 1024 = i div 256 div 4" by (simp add: div_mult2_eq [symmetric])
  then show ?thesis by (simp add: csr_level_def csr_read_only_def k)
qed

lemma table_machine_ok: "\<forall>f \<in> set (csr_init_machine :: (('x::len, 'x csr_dev) csr_file \<Rightarrow> _) list). init_ok f"
  unfolding csr_init_machine_def
  by (auto intro!: init_ok_intros simp: csr_addr_defs csr_read_only_def)

lemma table_pmp_ok: "\<forall>f \<in> set (csr_init_pmp :: (('x::len, 'x csr_dev) csr_file \<Rightarrow> _) list). xlen_ok TYPE('x) \<longrightarrow> init_ok f"
proof -
  have "csr_level (CSR_PMPCFG0 + i) = 3 \<and> \<not> csr_read_only (CSR_PMPCFG0 + i)" if "i < 16" for i
    using csr_block [of 3 "CSR_PMPCFG0 + i"] that by (simp add: csr_addr_defs)
  moreover have "csr_level (CSR_PMPADDR0 + i) = 3 \<and> \<not> csr_read_only (CSR_PMPADDR0 + i)" if "i < 16" for i
    using csr_block [of 3 "CSR_PMPADDR0 + i"] that by (simp add: csr_addr_defs)
  moreover have "PMP_NR_CFG_REGS TYPE('x) \<le> 16" if "xlen_ok TYPE('x)"
    using that by (auto simp: xlen_ok_def PMP_NR_CFG_REGS_def)
  ultimately show ?thesis
    by (auto simp: csr_init_pmp_def PMP_NR_ADDR_REGS_def intro!: init_ok_intros)
qed

lemma table_supervisor_ok: "\<forall>f \<in> set (csr_init_supervisor :: (('x::len, 'x csr_dev) csr_file \<Rightarrow> _) list). init_ok f"
  unfolding csr_init_supervisor_def
  by (auto intro!: init_ok_intros simp: csr_addr_defs csr_read_only_def csr_level_def)

lemma table_counters_ok: "\<forall>f \<in> set (csr_init_counters :: (('x::len, 'x csr_dev) csr_file \<Rightarrow> _) list). init_ok f"
proof -
  have "\<not> csr_read_only (CSR_ADDR_MCYCLE + i)" "\<not> csr_read_only (CSR_ADDR_MCYCLEH + i)" if "i < 32" for i
    using csr_block [of 11 "CSR_ADDR_MCYCLE + i"] csr_block [of 11 "CSR_ADDR_MCYCLEH + i"] that by (simp_all add: csr_addr_defs)
  then show ?thesis
    unfolding csr_init_counters_def
    by (auto intro!: init_ok_intros simp: csr_addr_defs csr_read_only_def csr_level_def CSR_HPMCOUNTER_WARL_MAX_def)
qed

text \<open>The table that the initialisation builds.\<close>

definition core_csr_file :: "('x::len, 'x csr_dev) csr_file" where
  "core_csr_file = fold (\<lambda>f. f) core_csr_table (\<lambda>_. csr_reg_zero)"

lemma core_csr_file_ok: "xlen_ok TYPE('x::len) \<Longrightarrow> csr_file_ok (core_csr_file :: ('x, 'x csr_dev) csr_file)"
  unfolding core_csr_file_def core_csr_table_def
  using table_machine_ok [where 'x = 'x] table_pmp_ok [where 'x = 'x] table_supervisor_ok [where 'x = 'x]
    table_counters_ok [where 'x = 'x]
  by (intro init_fold_ok) (auto simp: csr_file_ok_def csr_reg_ok_def csr_reg_zero_def flags_conform_simps)

lemma csr_static_ok: "csr_static r = csr_static s \<Longrightarrow> csr_reg_ok i s \<Longrightarrow> csr_reg_ok i r"
  by (simp add: csr_static_def csr_reg_ok_def)

end
