(* ===== verification/ControlRef.thy ===== *)
theory ControlRef
  imports CoreLaws IsaRef CsrTable
begin

text \<open>
  Jumps and branches against a reference on integers, with the step's update of the program counter; and the
  CSR instructions against the read, modify and write that they stand for.
\<close>

section \<open>Reference\<close>

definition control_instr :: "instr_base \<Rightarrow> bool" where
  "control_instr i \<longleftrightarrow> i \<in> {JAL, JALR, BEQ, BNE, BLT, BGE, BLTU, BGEU}"

primrec taken_ref :: "instr_base \<Rightarrow> 'x::len word \<Rightarrow> 'x word \<Rightarrow> bool" where
  "taken_ref JAL a b = True" | "taken_ref JALR a b = True"
| "taken_ref BEQ a b = (a = b)" | "taken_ref BNE a b = (a \<noteq> b)"
| "taken_ref BLT a b = (sint a < sint b)" | "taken_ref BGE a b = (sint b \<le> sint a)"
| "taken_ref BLTU a b = (uint a < uint b)" | "taken_ref BGEU a b = (uint b \<le> uint a)"
| "taken_ref NOP a b = False" | "taken_ref LUI a b = False" | "taken_ref AUIPC a b = False"

definition link_ref :: "instr_base \<Rightarrow> bool" where
  "link_ref i \<longleftrightarrow> i \<in> {JAL, JALR}"

text \<open>The target; for \<open>JALR\<close> the lowest bit of the sum is cleared.\<close>

definition target_ref :: "instr_base \<Rightarrow> ('x::len, 'p) rv_core_td \<Rightarrow> 'x word" where
  "target_ref i c = (if i = JALR then word_of_int ((sint (c_x c (c_rs1 c)) + sint (signed_take_bit 11 (c_immediate c))) div 2 * 2)
     else word_of_int (uint (c_pc c) + sint (c_jump_offset c)))"

lemma and_not_1: "(word_of_int k :: 'x::len word) AND NOT 1 = word_of_int (k div 2 * 2)"
proof -
  have e: "k div 2 * 2 = push_bit 1 (drop_bit 1 k)" by (simp add: push_bit_eq_mult drop_bit_eq_div)
  have b: "bit (push_bit 1 (drop_bit 1 k)) n \<longleftrightarrow> n \<noteq> 0 \<and> bit k n" for n
    by (cases n) (simp_all only: bit_push_bit_iff bit_drop_bit_eq comp_def possible_bit_int, simp_all)
  show ?thesis
    unfolding e by (rule bit_word_eqI) (simp only: bit_word_of_int_iff b bit_and_iff bit_not_iff bit_1_iff, auto)
qed

lemma target_word:
  "target_ref i c = (if i = JALR then (c_x c (c_rs1 c) + signed_take_bit 11 (c_immediate c)) AND NOT 1 else c_pc c + c_jump_offset c)"
proof -
  have "c_x c (c_rs1 c) + signed_take_bit 11 (c_immediate c) = word_of_int (sint (c_x c (c_rs1 c)) + sint (signed_take_bit 11 (c_immediate c)))"
    "c_pc c + c_jump_offset c = word_of_int (uint (c_pc c) + sint (c_jump_offset c))"
    by (simp_all only: of_int_add of_int_sint of_int_uint scast_id ucast_id)
  then show ?thesis unfolding target_ref_def by (simp only: and_not_1 [symmetric])
qed

lemma misaligned_nat:
  assumes "2 \<le> LENGTH('x)"
  shows "ADDR_MISALIGNED (w :: 'x::len word) \<longleftrightarrow> \<not> 4 dvd unat w"
proof -
  have "(3 :: 'x word) = mask 2" by (simp add: mask_eq_exp_minus_1)
  moreover have "unat (w AND mask 2) = unat w mod 2 ^ 2" by (rule unat_and_mask)
  ultimately show ?thesis by (simp add: ADDR_MISALIGNED_def unat_eq_0 [symmetric] dvd_eq_mod_eq_0)
qed

text \<open>The address that decides about alignment: the offset of a branch, the target of \<open>JALR\<close>.\<close>

definition aligned_word :: "instr_base \<Rightarrow> ('x::len, 'p) rv_core_td \<Rightarrow> 'x word" where
  "aligned_word i c = (if i = JALR then target_ref i c else c_jump_offset c)"

lemma control_exec:
  fixes c :: "('x::len, 'p) rv_core_td"
  assumes "xlen_ok TYPE('x)" "control_instr i"
  shows "exec_base i c = (if taken_ref i (c_x c (c_rs1 c)) (c_x c (c_rs2 c)) then
      if \<not> 4 dvd unat (aligned_word i c) then Inl Die
      else Inr (c\<lparr>c_x := (if link_ref i then (c_x c)(c_rd c := c_pc c + 4) else c_x c), c_next_pc := target_ref i c,
        c_jump_offset := (if i = JALR then signed_take_bit 11 (c_immediate c) else c_jump_offset c)\<rparr>)
    else Inr c)"
proof -
  have l: "2 \<le> LENGTH('x)" using assms(1) by (auto simp: xlen_ok_def)
  show ?thesis
    using assms(2) unfolding control_instr_def
    by (cases i) (simp_all add: instr_JAL_def instr_JALR_def instr_BEQ_def instr_BNE_def instr_BLT_def instr_BGE_def instr_BLTU_def
      instr_BGEU_def branch_if_def Let_def set_x_def misaligned_nat [OF l] aligned_word_def target_word link_ref_def SIGNEX_BIT_def
      word_less_def word_le_def)
qed

section \<open>CSR instructions\<close>

text \<open>The modification of the old value by the operand, on the bits of the mask.\<close>

primrec csr_modify :: "instr_system \<Rightarrow> 'x::len word \<Rightarrow> 'x word \<Rightarrow> 'x word \<Rightarrow> 'x word" where
  "csr_modify CSRRW old v m = (old AND NOT m) OR (v AND m)"
| "csr_modify CSRRWI old v m = (old AND NOT m) OR (v AND m)"
| "csr_modify CSRRS old v m = old OR (v AND m)"
| "csr_modify CSRRSI old v m = old OR (v AND m)"
| "csr_modify CSRRC old v m = old AND NOT (v AND m)"
| "csr_modify CSRRCI old v m = old AND NOT (v AND m)"
| "csr_modify ECALL old v m = old" | "csr_modify EBREAK old v m = old" | "csr_modify MRET old v m = old"
| "csr_modify SRET old v m = old" | "csr_modify URET old v m = old"

definition csr_operand :: "instr_system \<Rightarrow> ('x::len, 'p) rv_core_td \<Rightarrow> 'x word" where
  "csr_operand i c = (if i \<in> {CSRRWI, CSRRSI, CSRRCI} then ucast (c_rs1 c) else c_x c (c_rs1 c))"

definition csr_instr :: "instr_system \<Rightarrow> bool" where
  "csr_instr i \<longleftrightarrow> i \<in> {CSRRW, CSRRS, CSRRC, CSRRWI, CSRRSI, CSRRCI}"

text \<open>Whether the instruction writes: always for the write form, only with an operand for the others.\<close>

definition csr_writes :: "instr_system \<Rightarrow> ('x::len, 'p) rv_core_td \<Rightarrow> bool" where
  "csr_writes i c \<longleftrightarrow> i \<in> {CSRRW, CSRRWI} \<or> c_rs1 c \<noteq> 0"

lemma csr_exec:
  fixes c :: "('x::len, 'p) rv_core_td"
  assumes "csr_instr i" "a = ucast (c_immediate c)" "unat a < CSR_ADDR_MAX" "i \<in> {CSRRW, CSRRWI} \<longrightarrow> c_rd c \<noteq> 0"
    and "core_csr_read c a 0 = Inr (r, old)" "core_csr_write c a (csr_modify i old (csr_operand i c) (csr_mask (csr_regs c (unat a)))) = Inr (d, r')"
  shows "exec_system i c = Inr (
    if r \<noteq> rv_ok then prepare_sync_trap (exc_word trap_cause_illegal_instr) 0 c
    else if \<not> csr_writes i c then set_x (c_rd c) (old AND csr_mask (csr_regs c (unat a))) c
    else if r' \<noteq> rv_ok then prepare_sync_trap (exc_word trap_cause_illegal_instr) 0 d
    else set_x (c_rd d) (old AND csr_mask (csr_regs c (unat a))) d)"
  using assms unfolding csr_instr_def
  by (cases i) (simp_all add: instr_CSRRW_def instr_CSRRS_def instr_CSRRC_def instr_CSRRWI_def instr_CSRRSI_def instr_CSRRCI_def
    CSRRWx_def CSRRSx_def CSRRCx_def Let_def csr_get_mask_def csr_writes_def csr_operand_def)

text \<open>The write form with \<open>rd = x0\<close> does not read: the bits outside the mask are written as zeros.\<close>

lemma csr_exec_rd0:
  fixes c :: "('x::len, 'p) rv_core_td"
  assumes "i \<in> {CSRRW, CSRRWI}" "a = ucast (c_immediate c)" "unat a < CSR_ADDR_MAX" "c_rd c = 0"
  shows "exec_system i c = res_bind (core_csr_write c a (csr_operand i c AND csr_mask (csr_regs c (unat a)))) (\<lambda>(d, r).
    Inr (if r \<noteq> rv_ok then prepare_sync_trap (exc_word trap_cause_illegal_instr) 0 d else set_x (c_rd d) 0 d))"
  using assms
  by (auto simp: instr_CSRRW_def instr_CSRRWI_def CSRRWx_def Let_def csr_get_mask_def csr_operand_def split_beta
    intro!: arg_cong [where f = "res_bind _"] ext)

section \<open>The entry of sstatus\<close>

lemma fold_other: "\<forall>f \<in> set fs. \<forall>csr. f csr j = csr j \<Longrightarrow> fold (\<lambda>f. f) fs csr j = csr j"
  by (induction fs arbitrary: csr) auto

lemma init_other:
  "i \<noteq> j \<Longrightarrow> INIT_CSR_REG_DEFAULT i flags v msk warl csr j = csr j"
  "i \<noteq> j \<Longrightarrow> INIT_CSR_REG_SPECIAL i flags msk warl rcb wcb ireg csr j = csr j"
  by (simp_all add: INIT_CSR_REG_DEFAULT_def INIT_CSR_REG_SPECIAL_def)

lemma sstatus_entry:
  "csr_static (core_csr_file CSR_ADDR_SSTATUS :: ('x::len, 'x csr_dev) csr_reg_td) = (CSR_MS_RW, CSR_SSTATUS_MASK, CSR_MASK_ZERO,
    Some (trap_cb_r trap_s_read), Some (trap_cb_w trap_s_write), trap_reg_code trap_reg_status)"
proof -
  let ?first = "INIT_CSR_REG_SPECIAL CSR_ADDR_SSTATUS CSR_MS_RW CSR_SSTATUS_MASK CSR_MASK_ZERO (trap_cb_r trap_s_read)
    (trap_cb_w trap_s_write) (trap_reg_code trap_reg_status) :: ('x, 'x csr_dev) csr_file \<Rightarrow> _"
  have t: "\<forall>f \<in> set (tl csr_init_supervisor). \<forall>csr. f csr CSR_ADDR_SSTATUS = (csr CSR_ADDR_SSTATUS :: ('x, 'x csr_dev) csr_reg_td)"
    by (simp add: csr_init_supervisor_def init_other csr_addr_defs)
  have c: "\<forall>f \<in> set csr_init_counters. \<forall>csr. f csr CSR_ADDR_SSTATUS = (csr CSR_ADDR_SSTATUS :: ('x, 'x csr_dev) csr_reg_td)"
    by (auto simp: csr_init_counters_def init_other csr_addr_defs CSR_HPMCOUNTER_WARL_MAX_def)
  have s: "csr_init_supervisor = ?first # tl csr_init_supervisor" by (simp add: csr_init_supervisor_def)
  have "core_csr_file CSR_ADDR_SSTATUS = ?first (fold (\<lambda>f. f) (csr_init_machine @ csr_init_pmp) (\<lambda>_. csr_reg_zero)) CSR_ADDR_SSTATUS"
    unfolding core_csr_file_def core_csr_table_def
    by (subst s) (simp add: fold_other [OF c] fold_other [OF t])
  then show ?thesis by (simp add: INIT_CSR_REG_SPECIAL_def csr_static_def)
qed

lemma sstatus_write_spec:
  fixes c :: "('x::len, 'p) rv_core_td"
  assumes "csr_static (csr_regs c CSR_ADDR_SSTATUS) = csr_static (core_csr_file CSR_ADDR_SSTATUS)"
    "curr_priv_mode c \<in> {supervisor_mode, machine_mode}" "ucast (c_immediate c) = (0x100 :: u16)" "c_rd c = 0" "i \<in> {CSRRW, CSRRWI}"
  shows "\<exists>d. exec_system i c = Inr d \<and> regs_data (c_trap d) shared_status = csr_operand i c AND CSR_SSTATUS_MASK \<and>
    (\<forall>r. r \<noteq> shared_status \<longrightarrow> regs_data (c_trap d) r = regs_data (c_trap c) r)"
proof -
  let ?r = "csr_regs c 0x100"
  have r: "access_flags ?r = CSR_MS_RW" "csr_mask ?r = CSR_SSTATUS_MASK" "write_cb ?r = Some (trap_cb_w trap_s_write)"
    "internal_reg ?r = trap_reg_code trap_reg_status"
    using assms(1) unfolding sstatus_entry by (simp_all add: csr_static_def CSR_ADDR_SSTATUS_def)
  have g: "CSR_ACCESS_WRITE_GRANTED (curr_priv_mode c) CSR_MS_RW"
    using assms(2) by (auto simp: CSR_ACCESS_WRITE_GRANTED_def CSR_ACCESS_WO_def CSR_ACCESS_RW_def CSR_ACCESS_WRITE_def CSR_ACCESS_READ_def)
  have "trap_reg_at (trap_reg_code trap_reg_status) = Inr trap_reg_status" by (simp add: trap_reg_at_def)
  then have "core_csr_write c 0x100 v = Inr (c\<lparr>c_trap := trap_put shared_status v (c_trap c)\<rparr>, rv_ok)" for v
    using r g by (simp add: core_csr_write_def csr_write_reg_def csr_at_def CSR_ADDR_MAX_def trap_cb_w_def trap_s_write_def)
  then show ?thesis
    using csr_exec_rd0 [OF assms(5) refl, of c] assms(3,4) r(2) by (simp add: CSR_ADDR_MAX_def set_x_def)
qed

section \<open>Properties\<close>

text \<open>
  C20. Jumps and branches. In both builds, when the condition of the reference holds the instruction links and the step continues at the
  reference's target, otherwise at the next word, with two exceptions that the code makes: a target of zero
  counts as no jump, and a misaligned target (for branches and \<open>JAL\<close>, a misaligned offset) ends the program.
\<close>

theorem control_transfer_reference:
  fixes c :: "('x::len, 'p) rv_core_td"
  assumes "xlen_ok TYPE('x)" "control_instr i" "c_next_pc c = 0"
  shows "if taken_ref i (c_x c (c_rs1 c)) (c_x c (c_rs2 c)) \<and> \<not> 4 dvd unat (aligned_word i c) then exec_base i c = Inl Die
    else \<exists>d. exec_base i c = Inr d \<and> c_x d = (if link_ref i then (c_x c)(c_rd c := c_pc c + 4) else c_x c) \<and>
      c_pc (core_advance_pc d) =
        (if taken_ref i (c_x c (c_rs1 c)) (c_x c (c_rs2 c)) \<and> target_ref i c \<noteq> 0 then target_ref i c else c_pc c + 4)"
proof -
  have "link_ref i \<Longrightarrow> taken_ref i (c_x c (c_rs1 c)) (c_x c (c_rs2 c))" by (auto simp: link_ref_def)
  then show ?thesis
    unfolding control_exec [OF assms(1,2)] using assms(3) by (auto simp: core_advance_pc_def)
qed

theorem control_transfer_reference_witness:
  "\<exists>d. exec_base BLT ((example_core ())\<lparr>c_jump_offset := 0x20\<rparr>) = Inr d \<and> c_pc (core_advance_pc d) = 0x1020"
  using control_transfer_reference [of BLT "(example_core ())\<lparr>c_jump_offset := 0x20\<rparr>"]
  by (auto simp: example_core_def control_instr_def aligned_word_def target_ref_def xlen_ok_def link_ref_def)

text \<open>
  The CSR instructions, with \<open>rd\<close> other than x0 for the write forms. The old value is read; if that is refused, or the write is, the illegal
  instruction exception becomes pending; otherwise the register gets, on the bits of its mask, the operand (write),
  the union (set) or the difference (clear), keeps its other bits, and \<open>rd\<close> gets the masked old value. The set and clear
  forms write only when the field \<open>rs1\<close> is not zero.
\<close>

theorem csr_instruction_reference:
  fixes c :: "('x::len, 'p) rv_core_td"
  assumes "csr_instr i" "a = ucast (c_immediate c)" "unat a < CSR_ADDR_MAX" "i \<in> {CSRRW, CSRRWI} \<longrightarrow> c_rd c \<noteq> 0"
    and "core_csr_read c a 0 = Inr (r, old)" "core_csr_write c a (csr_modify i old (csr_operand i c) (csr_mask (csr_regs c (unat a)))) = Inr (d, r')"
  shows "exec_system i c = Inr (
    if r \<noteq> rv_ok then prepare_sync_trap (exc_word trap_cause_illegal_instr) 0 c
    else if \<not> csr_writes i c then set_x (c_rd c) (old AND csr_mask (csr_regs c (unat a))) c
    else if r' \<noteq> rv_ok then prepare_sync_trap (exc_word trap_cause_illegal_instr) 0 d
    else set_x (c_rd d) (old AND csr_mask (csr_regs c (unat a))) d)"
  using assms by (rule csr_exec)

definition csr_example_core :: "(32, unit) rv_core_td" where
  "csr_example_core = (example_core ())\<lparr>c_immediate := 0x340,
     csr_regs := (\<lambda>_. csr_reg_zero)(0x340 := csr_reg_zero\<lparr>access_flags := CSR_ACCESS_RW machine_mode, csr_value := 0x1234, csr_mask := 0xFF\<rparr>)\<rparr>"

theorem csr_instruction_reference_witness:
  "\<exists>d. exec_system CSRRS csr_example_core = Inr d \<and> c_x d 1 = 0x34"
proof -
  have g: "CSR_ACCESS_READ_GRANTED machine_mode (CSR_ACCESS_RW machine_mode)" "CSR_ACCESS_WRITE_GRANTED machine_mode (CSR_ACCESS_RW machine_mode)"
    by code_simp+
  have f: "c_rd csr_example_core = 1" "c_rs1 csr_example_core = 2" "csr_mask (csr_regs csr_example_core 0x340) = 0xFF"
    "c_immediate csr_example_core = 0x340" by (simp_all add: csr_example_core_def example_core_def)
  have r: "core_csr_read csr_example_core 0x340 0 = Inr (rv_ok, 0x1234)"
    by (simp add: core_csr_read_def csr_read_reg_def csr_at_def CSR_ADDR_MAX_def csr_example_core_def example_core_def g csr_reg_zero_def)
  obtain d where w: "core_csr_write csr_example_core 0x340 (csr_modify CSRRS 0x1234 (csr_operand CSRRS csr_example_core) 0xFF) = Inr (d, rv_ok)"
    "c_rd d = 1"
    by (simp add: core_csr_write_def csr_write_reg_def csr_at_def CSR_ADDR_MAX_def csr_example_core_def example_core_def g csr_reg_zero_def)
  from csr_instruction_reference [of CSRRS "0x340" csr_example_core rv_ok "0x1234" d rv_ok] f r w show ?thesis
    by (simp add: csr_instr_def csr_writes_def CSR_ADDR_MAX_def set_x_def)
qed

text \<open>
  C39. The write form with \<open>rd = x0\<close> skips the read, so on \<open>sstatus\<close> the bits outside the mask, the machine-mode fields of the
  shared status register, are not kept: after it the whole register is the masked operand, even in supervisor mode.
\<close>

theorem sstatus_write_clears_machine_bits:
  fixes c :: "('x::len, 'p) rv_core_td"
  assumes "csr_static (csr_regs c CSR_ADDR_SSTATUS) = csr_static (core_csr_file CSR_ADDR_SSTATUS)"
    "curr_priv_mode c \<in> {supervisor_mode, machine_mode}" "ucast (c_immediate c) = (0x100 :: u16)" "c_rd c = 0" "i \<in> {CSRRW, CSRRWI}"
  shows "\<exists>d. exec_system i c = Inr d \<and> regs_data (c_trap d) shared_status = csr_operand i c AND CSR_SSTATUS_MASK \<and>
    (\<forall>r. r \<noteq> shared_status \<longrightarrow> regs_data (c_trap d) r = regs_data (c_trap c) r)"
  using assms by (rule sstatus_write_spec)

theorem sstatus_write_clears_machine_bits_witness:
  "\<exists>d. exec_system CSRRWI ((rv_core_init () :: (32, unit) rv_core_td)\<lparr>curr_priv_mode := supervisor_mode, c_immediate := 0x100,
      c_trap := trap_put shared_status 0x1808 trap_init\<rparr>) = Inr d \<and> regs_data (c_trap d) shared_status = 0"
proof -
  let ?c = "(rv_core_init () :: (32, unit) rv_core_td)\<lparr>curr_priv_mode := supervisor_mode, c_immediate := 0x100,
      c_trap := trap_put shared_status 0x1808 trap_init\<rparr>"
  have "csr_regs ?c = core_csr_file" "c_rd ?c = 0" "c_rs1 ?c = 0"
    by (simp_all add: rv_core_init_def rv_core_init_csr_regs_def rv_core_zero_def core_csr_file_def Let_def)
  then show ?thesis
    using sstatus_write_clears_machine_bits [of ?c CSRRWI] by (auto simp: csr_operand_def)
qed

end
