(* ===== verification/UserMode.thy ===== *)
theory UserMode
  imports CoreLaws Soc
begin

text \<open>
  What a program in user mode cannot do, whatever instructions it runs and whatever the memory holds: the
  interpretations of the step locale for the protected state of the core, and for a byte of RAM that no
  PMP entry lets user mode write.
\<close>

section \<open>Protected state of the core\<close>

text \<open>User mode, in a build of the two widths, with a CSR table that user mode cannot write.\<close>

definition user_safe :: "('x::len, 'p) rv_core_td \<Rightarrow> bool" where
  "user_safe c \<longleftrightarrow> xlen_ok TYPE('x) \<and> curr_priv_mode c = user_mode \<and>
     (\<forall>i. \<not> CSR_ACCESS_WRITE_GRANTED user_mode (access_flags (csr_regs c i)))"

text \<open>The registers that count cycles.\<close>

definition core_counters :: "nat set" where
  "core_counters = {CSR_ADDR_MCYCLE, CSR_ADDR_MINSTRET, CSR_ADDR_CYCLE, CSR_ADDR_TIME,
     CSR_ADDR_MCYCLEH, CSR_ADDR_MINSTRETH, CSR_ADDR_CYCLEH, CSR_ADDR_TIMEH}"

definition user_view_same :: "('x::len, 'p) rv_core_td \<Rightarrow> ('x, 'p) rv_core_td \<Rightarrow> bool" where
  "user_view_same c d \<longleftrightarrow> c_pmp d = c_pmp c \<and> satp_reg (c_mmu d) = satp_reg (c_mmu c) \<and>
     (\<forall>r. r \<noteq> shared_status \<longrightarrow> regs_data (c_trap d) r = regs_data (c_trap c) r) \<and>
     (\<forall>i. i \<noteq> 0 \<and> i \<noteq> 4 \<longrightarrow> bit (regs_data (c_trap d) shared_status) i = bit (regs_data (c_trap c) shared_status) i) \<and>
     (\<forall>i. csr_static (csr_regs d i) = csr_static (csr_regs c i) \<and>
       (i \<notin> core_counters \<longrightarrow> csr_value (csr_regs d i) = csr_value (csr_regs c i)))"

definition user_iso :: "('x::len, 'p) rv_core_td \<Rightarrow> ('x, 'p) rv_core_td \<Rightarrow> bool" where
  "user_iso c d \<longleftrightarrow> (user_safe c \<longrightarrow> user_safe d \<and> user_view_same c d)"

lemma csr_static_flags: "csr_static r = csr_static s \<Longrightarrow> access_flags r = access_flags s"
  by (simp add: csr_static_def)

lemma user_csr_write:
  assumes "user_safe c" "core_csr_write c a w = Inr (d, r)"
  shows "d = c"
  using assms csr_write_denied [of user_mode "csr_regs c" a]
  by (cases "unat a < CSR_ADDR_MAX")
    (auto simp: core_csr_write_def user_safe_def res_bind_eq_Inr_iff csr_write_reg_def csr_at_def split: if_splits)

lemma csr_set_value_static: "csr_static (csr_set_value a v csr i) = csr_static (csr i)"
  by (simp add: csr_set_value_def csr_static_def)

lemma csr_set_value_other: "i \<noteq> a \<Longrightarrow> csr_value (csr_set_value a v csr i) = csr_value (csr i)"
  by (simp add: csr_set_value_def)

lemma core_count_csr:
  "csr_static (csr_regs (core_count c) i) = csr_static (csr_regs c i)"
  "i \<notin> core_counters \<Longrightarrow> csr_value (csr_regs (core_count c) i) = csr_value (csr_regs c i)"
  by (simp_all add: core_count_def Let_def csr_set_value_static csr_set_value_other core_counters_def)

lemma user_restore:
  fixes c :: "('x::len, 'p) rv_core_td"
  assumes "user_safe c" "trap_restore_irq_settings (c_trap c) (curr_priv_mode c) = Inr (t, l)"
  shows "l = user_mode \<and> (\<forall>r. r \<noteq> shared_status \<longrightarrow> regs_data t r = regs_data (c_trap c) r) \<and>
    (\<forall>i. i \<noteq> 0 \<and> i \<noteq> 4 \<longrightarrow> bit (regs_data t shared_status) i = bit (regs_data (c_trap c) shared_status) i)"
proof -
  have "proper_priv user_mode" "32 \<le> LENGTH('x)"
    using assms(1) xlen_ok_ge [where 'x = 'x] by (auto simp: user_safe_def proper_priv_def)
  from restore_effect [OF this, of "c_trap c"] assms show ?thesis
    by (auto simp: user_safe_def restored_level_def)
qed

lemma user_iso_restore:
  "trap_restore_irq_settings (c_trap c) (curr_priv_mode c) = Inr (t, l) \<Longrightarrow>
    user_iso c (c\<lparr>c_trap := t, curr_priv_mode := l\<rparr>)"
  unfolding user_iso_def by (rule impI, frule (1) user_restore) (auto simp: user_view_same_def user_safe_def)

lemma user_iso_count: "user_iso c (core_count c)"
proof -
  have "access_flags (csr_regs (core_count c) i) = access_flags (csr_regs c i)" for i
    by (rule csr_static_flags) (rule core_count_csr)
  moreover have "curr_priv_mode (core_count c) = curr_priv_mode c" "c_pmp (core_count c) = c_pmp c"
    "c_mmu (core_count c) = c_mmu c" "c_trap (core_count c) = c_trap c"
    by (simp_all add: core_count_def Let_def)
  ultimately show ?thesis by (simp add: user_iso_def user_view_same_def user_safe_def core_count_csr)
qed

interpretation user: core_step_effect bus "\<lambda>_ _. True" user_iso for bus
proof unfold_locales
  show "user_iso c d \<Longrightarrow> user_iso d e \<Longrightarrow> user_iso c e" for c d e
    by (auto simp: user_iso_def user_view_same_def)
  show "post (core_csr_write c a w) (\<lambda>(d, _). user_iso c d)" for c a w
    by (auto intro!: postI dest: user_csr_write simp: user_iso_def user_view_same_def)
  show "post (trap_restore_irq_settings (c_trap c) (curr_priv_mode c)) (\<lambda>(t, l). user_iso c (c\<lparr>c_trap := t, curr_priv_mode := l\<rparr>))" for c
    by (rule postI) (auto intro: user_iso_restore)
  show "user_iso c (core_count c)" for c
    by (rule user_iso_count)
qed (auto simp: user_iso_def user_view_same_def user_safe_def set_x_def prepare_sync_trap_def core_same_def intro!: postI)

section \<open>Protected memory\<close>

text \<open>
  Byte \<open>k\<close> of RAM is protected when the PMP check denies every write of user mode, of up to eight bytes, that
  covers its physical address.
\<close>

definition ram_protected :: "('x::len, 'p) rv_core_td \<Rightarrow> nat \<Rightarrow> bool" where
  "ram_protected c k \<longleftrightarrow> (\<forall>(addr :: 'x word) n. n \<le> 8 \<and> unat addr \<le> 0x80000000 + k \<and> 0x80000000 + k < unat addr + unat n \<longrightarrow>
     pmp_mem_check (c_pmp c) user_mode addr n bus_write_access \<noteq> Inr rv_ok)"

text \<open>Every region that leads to the RAM starts at its base address.\<close>

definition ram_mapped :: "'x::len rv_soc_dev \<Rightarrow> bool" where
  "ram_mapped d \<longleftrightarrow> (\<forall>cb \<in> set (mem_access_cbs d). cb_device cb = Some dev_ram \<longrightarrow> addr_start cb = RAM_BASE_ADDR)"

text \<open>What an access to a device does to the RAM, and to the region table.\<close>

lemma device_access_ram:
  assumes "soc_device_access dev d l a addr v n = Inr (d', r, v')"
  shows "mem_access_cbs d' = mem_access_cbs d \<and>
    (mem_cells (soc_ram d') k = mem_cells (soc_ram d) k \<or>
     dev = dev_ram \<and> a = bus_write_access \<and> unat addr \<le> k \<and> k < unat addr + unat n)"
proof (cases dev)
  case dev_ram
  then show ?thesis
    using assms by (auto simp: memory_bus_access_def res_bind_eq_Inr_iff mem_store_def arr_read_def split: if_splits)
qed (use assms in \<open>auto simp: res_bind_eq_Inr_iff\<close>)

lemma unat_RAM_BASE: "xlen_ok TYPE('x::len) \<Longrightarrow> unat (RAM_BASE_ADDR :: 'x word) = 0x80000000"
  by (auto simp: xlen_ok_def RAM_BASE_ADDR_def)

lemma bus_scan_ram:
  fixes d :: "'x::len rv_soc_dev"
  assumes "soc_bus_scan cbs d l a addr v n = Inr (d', r, v')" "xlen_ok TYPE('x)"
    "\<forall>cb \<in> set cbs. cb_device cb = Some dev_ram \<longrightarrow> addr_start cb = RAM_BASE_ADDR"
  shows "mem_access_cbs d' = mem_access_cbs d \<and>
    (mem_cells (soc_ram d') k = mem_cells (soc_ram d) k \<or>
     a = bus_write_access \<and> unat addr \<le> 0x80000000 + k \<and> 0x80000000 + k < unat addr + unat n)"
  using assms
proof (induction cbs)
  case (Cons cb cbs)
  show ?case
  proof (cases "ADDR_WITHIN_LEN addr n (addr_start cb) (mem_size cb)")
    case True
    then obtain dev where dev: "cb_device cb = Some dev"
      "soc_device_access dev d l a (addr - addr_start cb) v n = Inr (d', r, v')"
      using Cons.prems(1) by (auto split: option.splits)
    have le: "addr_start cb \<le> addr" using True by (simp add: ADDR_WITHIN_LEN_def)
    have "unat (addr - RAM_BASE_ADDR) = unat addr - 0x80000000 \<and> 0x80000000 \<le> unat addr" if "dev = dev_ram"
      using that le dev(1) Cons.prems(2,3) unat_RAM_BASE [where 'x = 'x]
      by (auto simp: unat_sub word_le_nat_alt)
    then show ?thesis
      using device_access_ram [OF dev(2), of k] dev(1) Cons.prems(3) by auto
  qed (use Cons in simp)
qed simp

definition user_confined :: "nat \<Rightarrow> ('x::len, 'x rv_soc_dev) rv_core_td \<Rightarrow> bool" where
  "user_confined k c \<longleftrightarrow> user_safe c \<and> \<not> bit (regs_data (c_trap c) shared_status) TRAP_XSTATUS_MPRV_BIT \<and>
     ram_mapped (c_priv c) \<and> ram_protected c k"

definition user_ram :: "nat \<Rightarrow> ('x::len, 'x rv_soc_dev) rv_core_td \<Rightarrow> ('x, 'x rv_soc_dev) rv_core_td \<Rightarrow> bool" where
  "user_ram k c d \<longleftrightarrow> (user_confined k c \<longrightarrow> user_confined k d \<and>
     mem_cells (soc_ram (c_priv d)) k = mem_cells (soc_ram (c_priv c)) k)"

lemma user_iso_confined:
  assumes "user_iso c d" "user_confined k c" "c_priv d = c_priv c"
  shows "user_confined k d"
  using assms by (simp add: user_iso_def user_view_same_def user_confined_def ram_protected_def TRAP_XSTATUS_MPRV_BIT_def)

text \<open>An effect that keeps the protected state of the core and what is behind the bus.\<close>

lemma user_ramI: "user_iso c d \<Longrightarrow> c_priv d = c_priv c \<Longrightarrow> user_ram k c d"
  using user_iso_confined by (auto simp: user_ram_def)

lemma core_csr_write_priv: "core_csr_write c a w = Inr (d, r) \<Longrightarrow> c_priv d = c_priv c"
  by (auto dest: core_csr_write_frame)

lemma user_ram_bus:
  fixes c d :: "('x::len, 'x rv_soc_dev) rv_core_td"
  assumes "user_confined k c \<longrightarrow> l = user_mode" "user_ram k c d" "n \<in> access_sizes TYPE('x)" "pmp_mem_check (c_pmp d) l addr n a = Inr rv_ok"
    "rv_soc_bus_access (c_priv d) l a addr v n = Inr (p, r, v')"
  shows "user_ram k c (d\<lparr>c_priv := p\<rparr>)"
proof (cases "user_confined k c")
  case True
  then have d: "user_confined k d" "mem_cells (soc_ram (c_priv d)) k = mem_cells (soc_ram (c_priv c)) k"
    using assms(2) by (auto simp: user_ram_def)
  have "\<not> (a = bus_write_access \<and> unat addr \<le> 0x80000000 + k \<and> 0x80000000 + k < unat addr + unat n)"
    using d(1) assms(1,4) True access_sizes_le [OF assms(3)]
    by (auto simp: user_confined_def user_safe_def ram_protected_def)
  moreover have "xlen_ok TYPE('x)" "ram_mapped (c_priv d)"
    using d(1) by (auto simp: user_confined_def user_safe_def)
  ultimately have "mem_access_cbs p = mem_access_cbs (c_priv d) \<and> mem_cells (soc_ram p) k = mem_cells (soc_ram (c_priv d)) k"
    using bus_scan_ram [OF assms(5) [unfolded rv_soc_bus_access_def], of k] by (auto simp: ram_mapped_def)
  then show ?thesis
    using d by (simp add: user_ram_def user_confined_def user_safe_def ram_mapped_def ram_protected_def)
qed (simp add: user_ram_def)

interpretation user_ram: core_step_effect rv_soc_bus_access "\<lambda>c l. user_confined k c \<longrightarrow> l = user_mode" "user_ram k" for k
proof unfold_locales
  fix c :: "('x::len, 'x rv_soc_dev) rv_core_td" and a
  show "user_confined k c \<longrightarrow> check_mprv_override c a = user_mode"
    unfolding check_mprv_override_def Let_def extractxlen_1 by (simp add: user_confined_def user_safe_def)
next
  fix c d :: "('x::len, 'x rv_soc_dev) rv_core_td" and l addr n a v
  assume "user_confined k c \<longrightarrow> l = user_mode" "user_ram k c d" "n \<in> access_sizes TYPE('x)" "pmp_mem_check (c_pmp d) l addr n a = Inr rv_ok"
  then show "post (rv_soc_bus_access (c_priv d) l a addr v n) (\<lambda>(p, _, _). user_ram k c (d\<lparr>c_priv := p\<rparr>))"
    by (auto intro!: postI user_ram_bus)
next
  fix c d :: "('x::len, 'x rv_soc_dev) rv_core_td" and m :: "'x mmu_td"
  assume "user_ram k c d" "satp_reg m = satp_reg (c_mmu c)"
  then show "user_ram k c (d\<lparr>c_mmu := m\<rparr>)"
    by (simp add: user_ram_def user_confined_def user_safe_def ram_mapped_def ram_protected_def)
next
  fix c :: "('x::len, 'x rv_soc_dev) rv_core_td" and a w
  show "post (core_csr_write c a w) (\<lambda>(d, _). user_ram k c d)"
    by (auto intro!: postI user_ramI intro: user.R_csrD core_csr_write_priv)
next
  fix c d :: "('x::len, 'x rv_soc_dev) rv_core_td"
  show "core_same c d \<Longrightarrow> user_ram k c d" by (intro user_ramI user.R_same) (simp_all add: core_same_def)
  show "user_ram k c (core_count c)" by (intro user_ramI user.R_count) (simp add: core_count_def Let_def)
  show "post (trap_restore_irq_settings (c_trap c) (curr_priv_mode c)) (\<lambda>(t, l). user_ram k c (c\<lparr>c_trap := t, curr_priv_mode := l\<rparr>))"
    by (auto intro!: postI user_ramI user.restore)
qed (auto simp: user_ram_def user_confined_def user_safe_def ram_protected_def set_x_def prepare_sync_trap_def)

section \<open>Examples\<close>

text \<open>
  A core in user mode whose only PMP entry grants everything, and one in a system whose only entry is
  the range below the RAM, with a store to the first word of RAM as its next instruction.
\<close>

definition pmp_user_all :: "32 pmp_td" where
  "pmp_user_all = pmp_zero\<lparr>pmp_cfg := 0x1F # replicate 15 0, pmp_addr := (- 1) # replicate 15 0\<rparr>"

definition user_example_soc :: "32 rv_soc_dev" where
  "user_example_soc =
    \<lparr>soc_mrom = \<lparr>mem_cells = mem_store (\<lambda>_. 0) 0 (bytes_of 4 (0x00312023 :: u32)), mem_len = 4\<rparr>,
     soc_ram = zero_mem 16, soc_from = zero_mem 0, soc_clint = \<lparr>clint_image = []\<rparr>, soc_plic = \<lparr>plic_image = []\<rparr>,
     soc_uart = simple_uart simple_uart_init,
     mem_access_cbs = [\<lparr>cb_device = Some dev_ram, addr_start = RAM_BASE_ADDR, mem_size = RAM_SIZE_BYTES\<rparr>,
       \<lparr>cb_device = Some dev_mrom, addr_start = MROM_BASE_ADDR, mem_size = MROM_SIZE_BYTES\<rparr>]\<rparr>"

definition user_example_core :: "(32, 32 rv_soc_dev) rv_core_td" where
  "user_example_core = (example_core user_example_soc)\<lparr>curr_priv_mode := user_mode,
     c_pmp := pmp_zero\<lparr>pmp_cfg := 0x0F # replicate 15 0, pmp_addr := 0x20000000 # replicate 15 0\<rparr>\<rparr>"

lemma user_example_run:
  obtains d where "rv_core_run rv_soc_bus_access user_example_core = Inr d" "sync_trap_cause d = 7"
proof -
  have "map_sum id sync_trap_cause (rv_core_run rv_soc_bus_access user_example_core) = Inr 7" by code_simp
  then show thesis using that by (cases "rv_core_run rv_soc_bus_access user_example_core") auto
qed

lemma user_example_protected: "k < 0x8000000 \<Longrightarrow> ram_protected user_example_core k"
  unfolding ram_protected_def
proof (intro allI impI, elim conjE)
  fix addr :: u32 and n :: u8
  assume k: "k < 0x8000000" and n: "n \<le> 8" "unat addr \<le> 0x80000000 + k" "0x80000000 + k < unat addr + unat n"
  let ?p = "c_pmp user_example_core"
  have p: "?p = pmp_zero\<lparr>pmp_cfg := 0x0F # replicate 15 0, pmp_addr := 0x20000000 # replicate 15 0\<rparr>"
    by (simp add: user_example_core_def)
  have off: "pmp_mode ?p j = pmp_a_off" if "0 < j" "j < 16" for j
    unfolding p using that by (simp add: pmp_mode_def nth_Cons' extract8_def pmp_matching_of_def)
  have tor: "pmp_mode ?p 0 = pmp_a_tor" "pmp_range ?p 0 = (0, 0x80000000)"
    unfolding p by (simp_all add: pmp_range_def pmp_mode_def extract8_def pmp_matching_of_def)
  have wf: "pmp_wf ?p" unfolding p by (simp add: pmp_wf_def)
  have sane: "pmp_entry_sane ?p j" if "j < 16" "pmp_applies ?p user_mode j" for j
    using that off tor by (cases "j = 0") (auto simp: pmp_applies_def pmp_entry_sane_def)
  have u: "unat n \<le> 8" "unat addr < 2 ^ 32" using n(1) unsigned_less [of addr] by (simp_all add: word_le_nat_alt)
  have "\<not> pmp_allows ?p user_mode (unat addr) (unat addr + unat n - 1) bus_write_access"
  proof -
    have "\<not> pmp_entry_allows ?p user_mode (unat addr) (unat addr + unat n - 1) bus_write_access j"
      if "pmp_hit ?p user_mode (unat addr) (unat addr + unat n - 1) j" "j < 16" for j
      using that off tor n(3) by (cases "j = 0") (auto simp: pmp_hit_def pmp_applies_def pmp_entry_allows_def in_range_def)
    then show ?thesis by (auto simp: pmp_allows_def find_Some_iff split: option.splits)
  qed
  moreover have "0 < n" "unat addr + unat n \<le> 2 ^ LENGTH(32)"
    using n k u by (auto simp: word_gt_0)
  ultimately show "pmp_mem_check ?p user_mode addr n bus_write_access \<noteq> Inr rv_ok"
    using pmp_mem_check_spec [OF wf sane] by simp
qed

section \<open>Properties\<close>

text \<open>
  C3. Isolation of user mode. A step of a core in user mode, whatever the instruction (returns from traps
  included) and whatever the bus answers, leaves the core in user mode, with the same PMP configuration, the same root of the
  page tables, the same trap registers but for the two interrupt enable bits of user mode in the status
  register, and the same control registers but for the cycle counters.
\<close>

theorem user_mode_isolation:
  fixes c :: "('x::len, 'p) rv_core_td"
  assumes "rv_core_run bus c = Inr d" "curr_priv_mode c = user_mode" "xlen_ok TYPE('x)"
    and "\<forall>i. \<not> CSR_ACCESS_WRITE_GRANTED user_mode (access_flags (csr_regs c i))"
  shows "curr_priv_mode d = user_mode \<and> c_pmp d = c_pmp c \<and> satp_reg (c_mmu d) = satp_reg (c_mmu c) \<and>
    (\<forall>r. r \<noteq> shared_status \<longrightarrow> regs_data (c_trap d) r = regs_data (c_trap c) r) \<and>
    (\<forall>i. i \<noteq> 0 \<and> i \<noteq> 4 \<longrightarrow> bit (regs_data (c_trap d) shared_status) i = bit (regs_data (c_trap c) shared_status) i) \<and>
    (\<forall>i. csr_static (csr_regs d i) = csr_static (csr_regs c i) \<and>
      (i \<notin> core_counters \<longrightarrow> csr_value (csr_regs d i) = csr_value (csr_regs c i)))"
  using postD [OF user.run assms(1)] assms(2-4) by (simp add: user_iso_def user_view_same_def user_safe_def)

theorem user_mode_isolation_witness:
  "\<exists>d. rv_core_run (rom_bus 0x30200073) ((example_core ())\<lparr>curr_priv_mode := user_mode, c_pmp := pmp_user_all\<rparr>) = Inr d \<and>
     curr_priv_mode d = user_mode"
proof -
  let ?c = "(example_core ())\<lparr>curr_priv_mode := user_mode, c_pmp := pmp_user_all\<rparr>"
  have "map_sum id c_pc (rv_core_run (rom_bus 0x30200073) ?c) = Inr 0x1004" by code_simp
  then obtain d where d: "rv_core_run (rom_bus 0x30200073) ?c = Inr d"
    by (cases "rv_core_run (rom_bus 0x30200073) ?c") auto
  then show ?thesis
    using user_mode_isolation [OF d] by (simp add: example_core_def csr_reg_zero_def CSR_ACCESS_WRITE_GRANTED_def)
qed

text \<open>
  C4. Protection of memory. While the core runs in user mode without \<open>MPRV\<close>, a byte of RAM changes in a step
  only if the PMP grants user mode a write that covers the byte's physical address; page tables, atomic
  instructions and accesses that straddle regions make no difference.
\<close>

theorem pmp_protects_ram:
  fixes c :: "('x::len, 'x rv_soc_dev) rv_core_td"
  assumes "rv_core_run rv_soc_bus_access c = Inr d" "user_safe c"
    and "\<not> bit (regs_data (c_trap c) shared_status) TRAP_XSTATUS_MPRV_BIT" "ram_mapped (c_priv c)" "ram_protected c k"
  shows "mem_cells (soc_ram (c_priv d)) k = mem_cells (soc_ram (c_priv c)) k"
  using postD [OF user_ram.run assms(1)] assms(2-5) by (simp add: user_ram_def user_confined_def)

theorem pmp_protects_ram_witness:
  "\<exists>d. rv_core_run rv_soc_bus_access user_example_core = Inr d \<and> mem_cells (soc_ram (c_priv d)) 0 = 0"
proof -
  obtain d where d: "rv_core_run rv_soc_bus_access user_example_core = Inr d" by (rule user_example_run)
  have "user_safe user_example_core" "ram_mapped (c_priv user_example_core)"
    "\<not> bit (regs_data (c_trap user_example_core) shared_status) TRAP_XSTATUS_MPRV_BIT"
    "mem_cells (soc_ram (c_priv user_example_core)) 0 = 0"
    by (simp_all add: user_example_core_def example_core_def user_safe_def csr_reg_zero_def CSR_ACCESS_WRITE_GRANTED_def
        trap_init_def ram_mapped_def user_example_soc_def zero_mem_def)
  then show ?thesis using pmp_protects_ram [OF d _ _ _ user_example_protected, of 0] d by simp
qed

end
