(* ===== verification/SocInv.thy ===== *)
theory SocInv
  imports UserMode PlicSpec UartSpec CsrTable
begin

text \<open>
  The invariant of the system on chip: the sizes of memories and register images, the queues of the UARTs, the region
  table, the PMP registers and the CSR table stay as the initialisation made them, along every sequence of
  iterations of the main loop and received characters. The devices are instances of one interface, a bus
  access that keeps an invariant, and so is the bus that is made of them.
\<close>

section \<open>Devices\<close>

locale bus_device =
  fixes access :: "('x::len, 'd) bus_access_func" and inv :: "'d \<Rightarrow> bool"
  assumes access_inv: "access d l a addr v n = Inr (d', r, v') \<Longrightarrow> inv d \<Longrightarrow> inv d'"
begin

text \<open>Any sequence of accesses, each with its own level, type, address, buffer and length.\<close>

primrec accesses :: "(privilege_level \<times> bus_access_type \<times> 'x word \<times> u8 list \<times> u8) list \<Rightarrow> 'd \<Rightarrow> 'd res" where
  "accesses [] d = Inr d"
| "accesses (q # qs) d = (case q of (l, a, addr, v, n) \<Rightarrow>
     res_bind (access d l a addr v n) (\<lambda>(d, _, _). accesses qs d))"

lemma accesses_inv: "inv d \<Longrightarrow> post (accesses qs d) inv"
proof (induction qs arbitrary: d)
  case (Cons q qs)
  have "post (access d l a addr v n) (\<lambda>r. post (accesses qs (fst r)) inv)" for l a addr v n
    using access_inv [OF _ Cons.prems] postD [OF Cons.IH] by (auto intro!: postI, metis)
  then show ?case by (cases q) (auto simp: post_bind split_beta)
qed simp

end

definition mem_sized :: "nat \<Rightarrow> soc_mem \<Rightarrow> bool" where
  "mem_sized n m \<longleftrightarrow> mem_len m = n"

definition clint_wf :: "clint_td \<Rightarrow> bool" where
  "clint_wf c \<longleftrightarrow> length (clint_image c) = 24"

primrec soc_uart_wf :: "soc_uart \<Rightarrow> bool" where
  "soc_uart_wf (simple_uart u) = simple_uart_wf u"
| "soc_uart_wf (uart8250 u) = uart8250_wf u"

interpretation mem_dev: bus_device memory_bus_access "mem_sized k" for k
  by unfold_locales (auto simp: memory_bus_access_def mem_sized_def res_bind_eq_Inr_iff split: if_splits)

interpretation clint_dev: bus_device clint_bus_access clint_wf
  by unfold_locales (auto simp: clint_bus_access_def clint_wf_def Let_def res_bind_eq_Inr_iff
    split: option.splits if_splits dest: obj_copy_length)

interpretation plic_dev: bus_device plic_bus_access plic_ok
  by unfold_locales (rule plic_bus_access_ok)

interpretation simple_uart_dev: bus_device simple_uart_bus_access simple_uart_wf
  by unfold_locales (auto simp: simple_uart_bus_access_def simple_uart_wf_def Let_def res_bind_eq_Inr_iff
    split: if_splits dest: fifo_in1_wf fifo_out_char_wf)

interpretation uart8250_dev: bus_device uart_bus_access uart8250_wf
  by unfold_locales (auto simp: uart_bus_access_def res_bind_eq_Inr_iff split: if_splits option.splits
    dest: uart_write_reg_wf uart_read_reg_wf)

interpretation soc_uart_dev: bus_device soc_uart_access soc_uart_wf
proof unfold_locales
  fix d l a and addr :: "'x::len word" and v n d' r v'
  assume "soc_uart_access d l a addr v n = Inr (d', r, v')" "soc_uart_wf d"
  then show "soc_uart_wf d'"
    by (cases d) (auto simp: res_bind_eq_Inr_iff dest: simple_uart_dev.access_inv uart8250_dev.access_inv)
qed

section \<open>The bus\<close>

text \<open>The region table of \<open>rv_soc_init_mem_access_cbs\<close>.\<close>

primrec is_simple_uart :: "soc_uart \<Rightarrow> bool" where
  "is_simple_uart (simple_uart u) = True"
| "is_simple_uart (uart8250 u) = False"

definition soc_regions :: "bool \<Rightarrow> 'x::len rv_soc_mem_access_cb_td list" where
  "soc_regions simple =
    [\<lparr>cb_device = Some dev_ram, addr_start = RAM_BASE_ADDR, mem_size = RAM_SIZE_BYTES\<rparr>,
     \<lparr>cb_device = Some dev_clint, addr_start = CLINT_BASE_ADDR, mem_size = CLINT_SIZE_BYTES\<rparr>,
     \<lparr>cb_device = Some dev_plic, addr_start = PLIC_BASE_ADDR, mem_size = PLIC_SIZE_BYTES\<rparr>,
     (if simple then
        \<lparr>cb_device = Some dev_uart, addr_start = SIMPLE_UART_TX_REG_ADDR, mem_size = SIMPLE_UART_SIZE_BYTES\<rparr>
      else \<lparr>cb_device = Some dev_uart, addr_start = UART8250_TX_REG_ADDR, mem_size = of_nat UART_NS8250_NR_REGS\<rparr>),
     \<lparr>cb_device = Some dev_mrom, addr_start = MROM_BASE_ADDR, mem_size = MROM_SIZE_BYTES\<rparr>,
     \<lparr>cb_device = Some dev_from, addr_start = FROM_BASE_ADDR, mem_size = FROM_SIZE_BYTES\<rparr>]"

definition soc_dev_wf :: "'x::len rv_soc_dev \<Rightarrow> bool" where
  "soc_dev_wf d \<longleftrightarrow> mem_sized 0xf000 (soc_mrom d) \<and> mem_sized 0x8000000 (soc_ram d) \<and> mem_sized 0xc800000 (soc_from d) \<and>
     clint_wf (soc_clint d) \<and> plic_ok (soc_plic d) \<and> soc_uart_wf (soc_uart d) \<and> mem_access_cbs d = soc_regions (is_simple_uart (soc_uart d))"

lemma soc_uart_access_kind:
  "soc_uart_access u l a addr v n = Inr (u', r, v') \<Longrightarrow> is_simple_uart u' = is_simple_uart u"
  by (cases u) (auto simp: res_bind_eq_Inr_iff)

interpretation soc_dev: bus_device "soc_device_access dev" soc_dev_wf for dev
proof unfold_locales
  fix d l a and addr :: "'x::len word" and v n d' r v'
  assume "soc_device_access dev d l a addr v n = Inr (d', r, v')" "soc_dev_wf d"
  then show "soc_dev_wf d'"
    by (cases dev) (auto simp: res_bind_eq_Inr_iff soc_dev_wf_def dest: mem_dev.access_inv clint_dev.access_inv
      plic_dev.access_inv soc_uart_dev.access_inv soc_uart_access_kind)
qed

lemma soc_bus_scan_wf: "soc_bus_scan cbs d l a addr v n = Inr (d', r, v') \<Longrightarrow> soc_dev_wf d \<Longrightarrow> soc_dev_wf d'"
  by (induction cbs) (auto split: if_splits option.splits dest: soc_dev.access_inv)

interpretation soc_bus: bus_device rv_soc_bus_access soc_dev_wf
  by unfold_locales (auto simp: rv_soc_bus_access_def dest: soc_bus_scan_wf)

section \<open>The peripherals in the main loop\<close>

lemma clint_update_ok: "clint_wf c \<Longrightarrow> \<exists>c' msi mti. clint_update c = Inr (c', msi, mti) \<and> clint_wf c'"
  by (auto simp: clint_update_def clint_wf_def clint_get_def clint_set_def)

lemma soc_uart_poll_ok:
  "soc_uart_wf u \<Longrightarrow> \<exists>u' irq out. soc_uart_poll u = Inr (u', irq, out) \<and> soc_uart_wf u' \<and> is_simple_uart u' = is_simple_uart u"
  using simple_uart_update_ok uart_update_ok by (cases u) fastforce+

lemma soc_uart_rx_ok:
  "soc_uart_wf u \<Longrightarrow> \<exists>u'. soc_uart_rx u x = Inr u' \<and> soc_uart_wf u' \<and> is_simple_uart u' = is_simple_uart u"
proof (cases u)
  case (simple_uart v)
  then show "soc_uart_wf u \<Longrightarrow> ?thesis" using simple_uart_add_rx_char_ok [of v x] by auto
next
  case (uart8250 v)
  then show "soc_uart_wf u \<Longrightarrow> ?thesis" using uart_add_rx_char_ok [of v x] by auto
qed

lemma soc_update_devices_ok:
  assumes "soc_dev_wf d"
  shows "\<exists>d' out mei mti msi. soc_update_devices d = Inr (d', out, mei, mti, msi) \<and> soc_dev_wf d'"
proof -
  note wf = assms [unfolded soc_dev_wf_def]
  obtain u irq out where u: "soc_uart_poll (soc_uart d) = Inr (u, irq, out)" "soc_uart_wf u"
    "is_simple_uart u = is_simple_uart (soc_uart d)" using soc_uart_poll_ok wf by blast
  obtain p where p: "plic_update_pending (soc_plic d) 10 irq = Inr p" "plic_ok p"
    using plic_update_pending_total [of "soc_plic d" 10] wf by auto
  obtain q mei where q: "plic_update p = Inr (q, mei)" "plic_ok q" using plic_update_total [OF p(2)] by blast
  obtain c msi mti where c: "clint_update (soc_clint d) = Inr (c, msi, mti)" "clint_wf c" using clint_update_ok wf by blast
  show ?thesis using wf u p q c by (simp add: soc_update_devices_def soc_dev_wf_def)
qed

section \<open>The core\<close>

definition soc_core_wf :: "('x::len, 'x rv_soc_dev) rv_core_td \<Rightarrow> bool" where
  "soc_core_wf c \<longleftrightarrow> pmp_wf (c_pmp c) \<and> (\<forall>i. csr_static (csr_regs c i) = csr_static (core_csr_file i)) \<and> soc_dev_wf (c_priv c)"

definition core_keeps :: "('x::len, 'x rv_soc_dev) rv_core_td \<Rightarrow> ('x, 'x rv_soc_dev) rv_core_td \<Rightarrow> bool" where
  "core_keeps c d \<longleftrightarrow> (soc_core_wf c \<longrightarrow> soc_core_wf d)"

lemma soc_core_csr_ok: "soc_core_wf c \<Longrightarrow> csr_file_ok (csr_regs c)"
  using core_csr_file_ok csr_static_ok by (fastforce simp: soc_core_wf_def csr_file_ok_def pmp_wf_def)

lemma cb_okD: "cb (t, p, m) l reg v = Inr ((t', p', m'), ret) \<Longrightarrow> cb_ok cb \<Longrightarrow> pmp_wf p \<Longrightarrow> pmp_wf p'"
  unfolding cb_ok_def by blast

lemma csr_file_cb: "write_cb (csr i) = Some cb \<Longrightarrow> csr_file_ok csr \<Longrightarrow> cb_ok cb"
  by (simp add: csr_file_ok_def csr_reg_ok_def)

lemma csr_write_pmp_wf:
  "csr_write_reg csr (t, p, m) l a v = Inr (csr', (t', p', m'), r) \<Longrightarrow> csr_file_ok csr \<Longrightarrow> pmp_wf p \<Longrightarrow> pmp_wf p'"
  by (auto simp: csr_write_reg_def csr_at_def res_bind_eq_Inr_iff split: if_splits option.splits
    dest: csr_file_cb cb_okD)

lemma core_csr_write_wf:
  assumes "core_csr_write c a w = Inr (d, r)" "soc_core_wf c"
  shows "soc_core_wf d"
proof -
  obtain csr t p m where w: "csr_write_reg (csr_regs c) (c_trap c, c_pmp c, c_mmu c) (curr_priv_mode c) a w = Inr (csr, (t, p, m), r)"
    and d: "d = c\<lparr>csr_regs := csr, c_trap := t, c_pmp := p, c_mmu := m\<rparr>"
    using assms(1) by (auto simp: core_csr_write_def res_bind_eq_Inr_iff)
  then show ?thesis
    using csr_write_pmp_wf [OF w soc_core_csr_ok [OF assms(2)]] postD [OF csr_write_static w] assms(2)
    by (simp add: soc_core_wf_def)
qed

interpretation keeps: core_step_effect rv_soc_bus_access "\<lambda>_ _. True" core_keeps
proof unfold_locales
  show "core_keeps c d \<Longrightarrow> core_keeps d e \<Longrightarrow> core_keeps c e" for c d e :: "('x::len, 'x rv_soc_dev) rv_core_td"
    by (simp add: core_keeps_def)
  show "post (rv_soc_bus_access (c_priv d) l a addr v n) (\<lambda>(p, _, _). core_keeps c (d\<lparr>c_priv := p\<rparr>))"
    if "core_keeps c d" for c d :: "('x::len, 'x rv_soc_dev) rv_core_td" and l a addr v n
    using that by (auto intro!: postI simp: core_keeps_def soc_core_wf_def dest: soc_bus.access_inv)
  show "post (core_csr_write c a w) (\<lambda>(d, _). core_keeps c d)" for c :: "('x::len, 'x rv_soc_dev) rv_core_td" and a w
    by (auto intro!: postI simp: core_keeps_def dest: core_csr_write_wf)
  show "core_keeps c (core_count c)" for c :: "('x::len, 'x rv_soc_dev) rv_core_td"
    using core_count_csr(1) [of c] by (simp add: core_keeps_def soc_core_wf_def) (simp add: core_count_def Let_def)
qed (auto simp: core_keeps_def soc_core_wf_def set_x_def prepare_sync_trap_def core_same_def intro!: postI)

text \<open>Interrupt processing changes the trap registers, the level and the program counter only.\<close>

definition serve_frame :: "('x::len, 'p) rv_core_td \<Rightarrow> ('x, 'p) rv_core_td \<Rightarrow> bool" where
  "serve_frame c d \<longleftrightarrow> c_priv d = c_priv c \<and> c_pmp d = c_pmp c \<and> csr_regs d = csr_regs c \<and> c_x d = c_x c \<and> c_mmu d = c_mmu c \<and>
     curr_cycle d = curr_cycle c"

lemma core_serve_frame: "core_serve l i k c = Inr d \<Longrightarrow> serve_frame c d"
  by (auto simp: core_serve_def res_bind_eq_Inr_iff serve_frame_def)

lemma irq_loop_frame: "irq_loop irqs c = Inr (d, k) \<Longrightarrow> serve_frame c d"
  by (induction irqs) (auto simp: res_bind_eq_Inr_iff serve_frame_def split: if_splits dest: core_serve_frame [unfolded serve_frame_def])

lemma process_interrupts_frame:
  assumes "rv_core_process_interrupts mei mti msi c = Inr d"
  shows "serve_frame c d"
proof -
  have u: "serve_frame c (rv_core_update_interrupts mei mti msi c)"
    by (simp add: rv_core_update_interrupts_def serve_frame_def)
  have "serve_frame (rv_core_update_interrupts mei mti msi c) d"
    using assms
    by (auto simp: rv_core_process_interrupts_def rv_core_prepare_interrupts_def res_bind_eq_Inr_iff serve_frame_def
      split: if_splits dest!: core_serve_frame irq_loop_frame)
  then show ?thesis using u by (simp add: serve_frame_def)
qed

section \<open>The system\<close>

definition soc_wf :: "'x::len rv_soc_td \<Rightarrow> bool" where
  "soc_wf soc \<longleftrightarrow> soc_core_wf (rv_core0 soc) \<and> c_x (rv_core0 soc) 0 = 0"

lemma serve_frame_wf: "serve_frame c d \<Longrightarrow> soc_core_wf c \<Longrightarrow> soc_core_wf d"
  by (simp add: serve_frame_def soc_core_wf_def)

lemma soc_iteration_wf:
  assumes "soc_iteration soc = Inr soc'" "soc_wf soc"
  shows "soc_wf soc'"
proof -
  obtain c d out mei mti msi e where c: "rv_core_run rv_soc_bus_access (rv_core0 soc) = Inr c"
    and d: "soc_update_devices (c_priv c) = Inr (d, out, mei, mti, msi)"
    and e: "rv_core_process_interrupts mei mti msi (c\<lparr>c_priv := d\<rparr>) = Inr e"
    and soc': "soc' = soc\<lparr>rv_core0 := e, soc_out := soc_out soc @ out\<rparr>"
    using assms(1) by (auto simp: soc_iteration_def res_bind_eq_Inr_iff)
  have c': "soc_core_wf c" "c_x c 0 = 0"
    using postD [OF keeps.run c] step_frame [OF c] assms(2) by (auto simp: core_keeps_def soc_wf_def)
  then have "soc_dev_wf d" using soc_update_devices_ok [of "c_priv c"] d by (auto simp: soc_core_wf_def)
  then have "soc_core_wf (c\<lparr>c_priv := d\<rparr>)" using c' by (simp add: soc_core_wf_def)
  then show ?thesis
    using serve_frame_wf process_interrupts_frame [OF e] c'(2) soc' by (fastforce simp: soc_wf_def serve_frame_def)
qed

lemma soc_rx_char_ok:
  assumes "soc_wf soc"
  shows "\<exists>soc'. soc_rx_char x soc = Inr soc' \<and> soc_wf soc'"
proof -
  obtain u where "soc_uart_rx (soc_uart (c_priv (rv_core0 soc))) x = Inr u" "soc_uart_wf u"
    "is_simple_uart u = is_simple_uart (soc_uart (c_priv (rv_core0 soc)))"
    using soc_uart_rx_ok assms by (metis soc_wf_def soc_core_wf_def soc_dev_wf_def)
  then show ?thesis using assms by (simp add: soc_rx_char_def Let_def soc_wf_def soc_core_wf_def soc_dev_wf_def)
qed

lemma soc_step_wf: "soc_step soc soc' \<Longrightarrow> soc_wf soc \<Longrightarrow> soc_wf soc'"
proof (elim soc_stepE)
  fix x assume "soc_wf soc" "soc_rx_char x soc = Inr soc'"
  then show "soc_wf soc'" using soc_rx_char_ok [of soc x] by auto
qed (rule soc_iteration_wf)

lemma soc_steps_wf: "soc_step\<^sup>*\<^sup>* soc soc' \<Longrightarrow> soc_wf soc \<Longrightarrow> soc_wf soc'"
  by (induction rule: rtranclp_induct) (auto dest: soc_step_wf)

lemma write_mem_len: "write_mem_from_file fs f m off sz = Inr m' \<Longrightarrow> mem_len m' = mem_len m"
  by (auto simp: write_mem_from_file_def res_bind_eq_Inr_iff split: option.splits if_splits)

lemma init_mem_access_regions:
  assumes "length (mem_access_cbs d) = 6"
  shows "rv_soc_init_mem_access_cbs d = Inr (d\<lparr>mem_access_cbs := soc_regions (is_simple_uart (soc_uart d))\<rparr>)"
proof -
  obtain a b c e f g where "mem_access_cbs d = [a, b, c, e, f, g]"
    using assms by (auto simp: numeral_eq_Suc length_Suc_conv)
  then show ?thesis
    by (cases "soc_uart d") (simp_all add: rv_soc_init_mem_access_cbs_def INIT_MEM_ACCESS_STRUCT_def soc_regions_def)
qed

lemma rv_soc_init_wf:
  assumes "rv_soc_init simple fs fw dtb initrd = Inr (soc :: 'x::len rv_soc_td)" "xlen_ok TYPE('x)"
  shows "soc_wf soc"
proof -
  obtain fdt ram1 ram2 fr d where
    ram1: "(case dtb of None \<Rightarrow> Inr (0, soc_ram (soc_zero simple :: 'x rv_soc_dev))
       | Some f \<Rightarrow> res_bind (get_file_size fs f) (\<lambda>fdt_size.
           let (fdt_addr, tmp) = fdt_place fdt_size
           in res_bind (write_mem_from_file fs f (soc_ram (soc_zero simple :: 'x rv_soc_dev)) tmp (RAM_SIZE_BYTES - tmp))
             (\<lambda>m. Inr (fdt_addr, m)))) = Inr (fdt, ram1)"
    and ram2: "write_mem_from_file fs fw ram1 0 RAM_SIZE_BYTES = Inr ram2"
    and fr: "(case initrd of None \<Rightarrow> Inr (soc_from (soc_zero simple :: 'x rv_soc_dev))
       | Some f \<Rightarrow> write_mem_from_file fs f (soc_from (soc_zero simple :: 'x rv_soc_dev)) 0 FROM_SIZE_BYTES) = Inr fr"
    and d: "rv_soc_init_mem_access_cbs ((soc_zero simple :: 'x rv_soc_dev)\<lparr>soc_ram := ram2, soc_from := fr,
        soc_mrom := (soc_mrom (soc_zero simple :: 'x rv_soc_dev))\<lparr>mem_cells := fold (\<lambda>(i, w) m. mem_store m (4 * i) (bytes_of 4 w))
             (List.enumerate 0 (reset_vec TYPE('x) RAM_BASE_ADDR fdt)) (mem_cells (soc_mrom (soc_zero simple :: 'x rv_soc_dev)))\<rparr>\<rparr>) = Inr d"
    and soc: "soc = \<lparr>rv_core0 = rv_core_init d, soc_out = []\<rparr>"
    using assms(1) unfolding rv_soc_init_def Let_def by (auto simp: res_bind_eq_Inr_iff)
  have "mem_len ram1 = 0x8000000"
    using ram1 by (auto simp: res_bind_eq_Inr_iff soc_zero_def zero_mem_def split_beta Let_def split: option.splits dest!: write_mem_len)
  then have "mem_len ram2 = 0x8000000" using write_mem_len [OF ram2] by simp
  moreover have "mem_len fr = 0xc800000"
    using fr by (auto simp: soc_zero_def zero_mem_def split: option.splits dest!: write_mem_len)
  ultimately have "soc_dev_wf d"
    using d uart_init_wf plic_zero_ok
    by (subst (asm) init_mem_access_regions) (auto simp: soc_zero_def soc_dev_wf_def mem_sized_def zero_mem_def clint_wf_def clint_zero_def)
  then show ?thesis
    using pmp_zero_wf [OF assms(2)]
    by (simp add: soc soc_wf_def soc_core_wf_def rv_core_init_def rv_core_init_csr_regs_def rv_core_zero_def Let_def core_csr_file_def)
qed

end
