(* ===== verification/Uret.thy ===== *)
theory Uret
  imports SocInv
begin

text \<open>
  Which instruction never ends. \<open>instr_URET\<close> of \<open>src/core/core.c\<close> is an endless loop, the value \<open>Hang\<close>; this theory shows that
  nothing else in an iteration of the main loop is: no access to a device, no check, no other instruction, no trap. An iteration
  that does not end is therefore one whose instruction has been fetched and decoded as \<open>uret\<close>.
\<close>

section \<open>Steps that end\<close>

text \<open>A step that ends: with a result, with the end of the program, or in undefined behaviour.\<close>

definition ends :: "'a res \<Rightarrow> bool" where
  "ends r \<longleftrightarrow> r \<noteq> Inl Hang"

named_theorems ending \<open>steps that end\<close>

lemma ends_simps [simp]: "ends (Inr a)" "ends (Inl h) \<longleftrightarrow> h \<noteq> Hang"
  by (simp_all add: ends_def)

lemma ends_bind [simp]: "ends (res_bind m f) \<longleftrightarrow> ends m \<and> (\<forall>a. m = Inr a \<longrightarrow> ends (f a))"
  by (cases m) simp_all

lemma ends_arrays [ending]: "ends (arr_get xs i)" "ends (arr_set ys j v)" "ends (arr_read zs off n)" "ends (arr_write us off vs)"
  by (simp_all add: arr_get_def arr_set_def arr_read_def arr_write_def)

lemma ends_objects [ending]: "ends (obj_read n img off)" "ends (obj_write k img' off w)" "ends (obj_copy d doff s soff m)"
  by (simp_all add: obj_read_def obj_write_def obj_copy_def ending)

lemma ends_int_bit [ending]: "ends (int_bit n)"
  by (simp add: int_bit_def)

section \<open>Checks and callbacks\<close>

lemma ends_pmp_region [ending]: "ends (pmp_region p m k)"
  by (cases m) (simp_all add: pmp_region_def get_pmp_napot_size_from_pmpaddr_def get_pmp_napot_addr_from_pmpaddr_def Let_def ending)

lemma ends_pmp_check_loop: "ends (pmp_check_loop p l a n acc ks)"
  by (induction ks) (auto simp: Let_def split_beta ending)

lemma ends_pmp_mem_check [ending]: "ends (pmp_mem_check p l a n acc)"
  by (simp add: pmp_mem_check_def ends_pmp_check_loop split: option.split)

lemma ends_pmp_csr: "ends (pmp_read_csr_cfg p l r)" "ends (pmp_write_csr_cfg p l r v)" "ends (pmp_read_csr_addr p l r)"
    "ends (pmp_write_csr_addr p l r v)"
  by (simp_all add: pmp_read_csr_cfg_def pmp_write_csr_cfg_def pmp_read_csr_addr_def pmp_write_csr_addr_def pmp_struct_byte_def
    Let_def ending)

lemma ends_mmu_csr: "ends (mmu_read_csr m l r)" "ends (mmu_write_csr m l r v)"
  by (simp_all add: mmu_read_csr_def mmu_write_csr_def)

lemma ends_trap_csr: "ends (trap_m_read t l r)" "ends (trap_m_write t l r v)" "ends (trap_s_read t l r)" "ends (trap_s_write t l r v)"
  by (simp_all add: trap_m_read_def trap_m_write_def trap_s_read_def trap_s_write_def trap_reg_at_def)

text \<open>The callbacks of the CSR table of the initialisation.\<close>

definition reg_ends :: "('x::len, 'd) csr_reg_td \<Rightarrow> bool" where
  "reg_ends r \<longleftrightarrow> (\<forall>cb d l i. read_cb r = Some cb \<longrightarrow> ends (cb d l i)) \<and> (\<forall>cb d l i v. write_cb r = Some cb \<longrightarrow> ends (cb d l i v))"

definition init_ends :: "(('x::len, 'd) csr_file \<Rightarrow> ('x, 'd) csr_file) \<Rightarrow> bool" where
  "init_ends f \<longleftrightarrow> (\<forall>csr. (\<forall>i. reg_ends (csr i)) \<longrightarrow> (\<forall>i. reg_ends (f csr i)))"

lemma init_default_ends: "init_ends (INIT_CSR_REG_DEFAULT i flags v msk warl)"
  by (simp add: init_ends_def reg_ends_def INIT_CSR_REG_DEFAULT_def)

lemma init_special_ends:
  "(\<And>d l r. ends (rcb d l r)) \<Longrightarrow> (\<And>d l r v. ends (wcb d l r v)) \<Longrightarrow> init_ends (INIT_CSR_REG_SPECIAL i flags msk warl rcb wcb ireg)"
  by (simp add: init_ends_def reg_ends_def INIT_CSR_REG_SPECIAL_def)

lemma init_fold_ends: "\<forall>f \<in> set fs. init_ends f \<Longrightarrow> \<forall>i. reg_ends (csr i) \<Longrightarrow> reg_ends (fold (\<lambda>f. f) fs csr i)"
  by (induction fs arbitrary: csr) (auto simp: init_ends_def)

lemma ends_callbacks:
  "ends (trap_cb_r trap_m_read d l r)" "ends (trap_cb_w trap_m_write d l r v)"
  "ends (trap_cb_r trap_s_read d l r)" "ends (trap_cb_w trap_s_write d l r v)" "ends (pmp_cb_r pmp_read_csr_cfg d l r)"
  "ends (pmp_cb_w pmp_write_csr_cfg d l r v)" "ends (pmp_cb_r pmp_read_csr_addr d l r)" "ends (pmp_cb_w pmp_write_csr_addr d l r v)"
  "ends (mmu_cb_r mmu_read_csr d l r)" "ends (mmu_cb_w mmu_write_csr d l r v)"
  by (simp_all add: trap_cb_r_def trap_cb_w_def pmp_cb_r_def pmp_cb_w_def mmu_cb_r_def mmu_cb_w_def split_beta
    ends_trap_csr ends_pmp_csr ends_mmu_csr)

lemma core_csr_file_ends: "reg_ends ((core_csr_file :: ('x::len, 'x csr_dev) csr_file) i)"
  unfolding core_csr_file_def core_csr_table_def csr_init_machine_def csr_init_pmp_def csr_init_supervisor_def csr_init_counters_def
  by (intro init_fold_ends) (auto intro!: init_default_ends init_special_ends ends_callbacks simp: reg_ends_def csr_reg_zero_def)

definition csr_ends :: "('x::len, 'p) rv_core_td \<Rightarrow> bool" where
  "csr_ends c \<longleftrightarrow> (\<forall>i. reg_ends (csr_regs c i))"

lemma soc_csr_ends: "soc_core_wf c \<Longrightarrow> csr_ends c"
  using core_csr_file_ends by (fastforce simp: soc_core_wf_def csr_ends_def csr_static_def reg_ends_def)

lemma ends_csr_access: "csr_ends c \<Longrightarrow> ends (core_csr_read c a v)" "csr_ends c \<Longrightarrow> ends (core_csr_write c a w)"
  by (simp_all add: core_csr_read_def core_csr_write_def csr_read_reg_def csr_write_reg_def csr_at_def csr_ends_def reg_ends_def
    split_beta split: option.split)

section \<open>Devices\<close>

lemma ends_fifo [ending]: "ends (fifo_in f buf n)" "ends (fifo_out f n)" "ends (fifo_out_char f c)"
  by (simp_all add: fifo_in_def fifo_out_def fifo_out_char_def fifo_copy_in_def fifo_out_peek_def fifo_copy_out_def Let_def split_beta ending)

lemma ends_simple_uart: "ends (simple_uart_bus_access u l a addr v n)"
  by (auto simp: simple_uart_bus_access_def Let_def split_beta ending)

lemma ends_uart_regs [ending]: "ends (uart_write_reg u k v)" "ends (uart_read_reg u' k')"
  by (simp_all add: uart_write_reg_def uart_read_reg_def uart_set_reg_def Let_def split_beta ending)

lemma ends_uart8250: "ends (uart_bus_access u l a addr v n)"
  by (simp add: uart_bus_access_def split_beta ending split: option.split)

lemma ends_clint: "ends (clint_bus_access c l a addr v n)"
  by (auto simp: clint_bus_access_def Let_def split_beta ending split: option.split)

lemma ends_plic_regs [ending]: "ends (plic_get p f i)" "ends (plic_set q g j w)" "ends (plic_assign_bit q' g' j' k w')"
  by (simp_all add: plic_get_def plic_set_def plic_assign_bit_def ending)

lemma ends_plic_sanity [ending]: "ends (plic_check_sanity p)"
proof -
  have "ends (plic_mask_priorities is q)" for "is" q by (induction "is" arbitrary: q) (simp_all add: ending)
  then show ?thesis by (simp add: plic_check_sanity_def ending)
qed

lemma ends_plic: "ends (plic_bus_access p l a addr v n)"
  by (auto simp: plic_bus_access_def Let_def split_beta ending split: option.split)

lemma ends_memory: "ends (memory_bus_access m l a addr v n)"
  by (auto simp: memory_bus_access_def ending)

lemma ends_device: "ends (soc_device_access dev d l a addr v n)"
  by (cases dev; cases "soc_uart d")
    (simp_all add: ends_memory ends_clint ends_plic ends_simple_uart ends_uart8250 split_beta)

lemma ends_scan: "ends (soc_bus_scan cbs d l a addr v n)"
  by (induction cbs) (auto simp: ends_device split: option.split)

section \<open>Instructions\<close>

locale ending_bus =
  fixes bus :: "('x::len, 'p) bus_access_func"
  assumes ends_bus: "ends (bus p l a addr v n)"
begin

lemma ends_walk: "ends (mmu_walk bus l vpn levels p a pte)"
  by (induction levels arbitrary: p a pte) (simp_all add: Let_def split_beta ends_bus)

lemma ends_translate: "ends (mmu_virt_to_phys bus m p l va acc mxr sm)"
  unfolding mmu_virt_to_phys_def Let_def by (auto simp: ends_walk split: option.split simp del: mmu_walk.simps)

lemma ends_checked: "ends (pmp_checked_bus_access bus c l a addr v n)"
  by (simp add: pmp_checked_bus_access_def Let_def split_beta ending ends_bus)

end

text \<open>The core on such a bus: its own accesses, through the PMP check, end as well.\<close>

locale ending_core = ending_bus

sublocale ending_core \<subseteq> checked: ending_bus "pmp_checked_bus_access bus"
  by unfold_locales (rule ends_checked)

context ending_core begin

lemma ends_access: "ends (mmu_checked_bus_access bus c l a addr v n)"
  unfolding mmu_checked_bus_access_def Let_def by (simp add: checked.ends_translate ends_checked split_beta)

lemma ends_load_store: "ends (load_to bus n f c)" "ends (store_from bus n buf c)"
  by (simp_all add: load_to_def store_from_def Let_def split_beta ends_access)

lemma ends_mem: "ends (exec_mem i bus c)"
  by (cases i) (simp_all add: instr_LB_def instr_LH_def instr_LW_def instr_LBU_def instr_LHU_def instr_SB_def
    instr_SH_def instr_SW_def instr_LWU_def instr_LD_def instr_SD_def ends_load_store)

lemma ends_amo_body: "(\<And>c. ends (ld c)) \<Longrightarrow> ends (amo_body n ld f bus c)"
  by (simp add: amo_body_def Let_def split_beta ends_access)

lemma ends_words: "ends (instr_LW bus c)" "ends (instr_LD bus c)" "ends (instr_SW bus c)" "ends (instr_SD bus c)"
  using ends_mem [of LW c] ends_mem [of LD c] ends_mem [of SW c] ends_mem [of SD c] by simp_all

lemma ends_amo_w: "ends (exec_amo_w i bus c)"
  by (cases i) (simp_all add: instr_LR_W_def instr_SC_W_def instr_AMOSWAP_W_def instr_AMOADD_W_def instr_AMOXOR_W_def
    instr_AMOAND_W_def instr_AMOOR_W_def instr_AMOMIN_W_def instr_AMOMAX_W_def instr_AMOMINU_W_def
    instr_AMOMAXU_W_def ends_amo_body ends_words)

lemma ends_amo_d: "ends (exec_amo_d i bus c)"
  by (cases i) (simp_all add: instr_LR_D_def instr_SC_D_def instr_AMOSWAP_D_def instr_AMOADD_D_def instr_AMOXOR_D_def
    instr_AMOAND_D_def instr_AMOOR_D_def instr_AMOMIN_D_def instr_AMOMAX_D_def instr_AMOMINU_D_def
    instr_AMOMAXU_D_def ends_amo_body ends_words)

lemma ends_base: "ends (exec_base i c)"
  by (cases i) (simp_all add: instr_NOP_def instr_LUI_def instr_AUIPC_def instr_JAL_def instr_JALR_def instr_BEQ_def
    instr_BNE_def instr_BLT_def instr_BGE_def instr_BLTU_def instr_BGEU_def branch_if_def Let_def)

lemma ends_csr: "csr_ends c \<Longrightarrow> ends (CSRRWx v c)" "csr_ends c \<Longrightarrow> ends (CSRRSx v c)" "csr_ends c \<Longrightarrow> ends (CSRRCx v c)"
  by (simp_all add: CSRRWx_def CSRRSx_def CSRRCx_def Let_def csr_get_mask_def csr_at_def split_beta ends_csr_access)

lemma ends_restore: "ends (trap_restore_irq_settings t l)"
  by (simp add: trap_restore_irq_settings_def deref_regs_def Let_def split: option.split)

lemma ends_system: "csr_ends c \<Longrightarrow> ends (exec_system i c) \<longleftrightarrow> i \<noteq> URET"
  by (cases i) (simp_all add: instr_CSRRW_def instr_CSRRS_def instr_CSRRC_def instr_CSRRWI_def instr_CSRRSI_def
    instr_CSRRCI_def instr_MRET_def instr_SRET_def instr_URET_def ends_csr ends_restore split_beta Let_def)

lemma ends_instr: "csr_ends c \<Longrightarrow> ends (exec_instr i bus c) \<longleftrightarrow> i \<noteq> i_system URET"
  by (cases i) (simp_all add: ends_mem ends_amo_w ends_amo_d ends_base ends_system)

end

interpretation soc_ends: ending_core rv_soc_bus_access
  by unfold_locales (simp add: rv_soc_bus_access_def ends_scan)

section \<open>Iterations\<close>

lemma ends_decode: "ends (rv_call_from_opcode_list t i c)"
proof (induction t i c rule: rv_call_from_opcode_list.induct)
  case (1 t i c)
  then show ?case
    unfolding rv_call_from_opcode_list.simps [of t i] Let_def
    by (auto split: option.split instruction_hook.split prod.split)
qed

lemma ends_deleg: "ends (irq_deleg_loop t l b k)" "ends (exc_deleg_loop t' l' n k')"
proof (induction t l b k rule: irq_deleg_loop.induct, goal_cases)
  case (1 t l b k)
  then show ?case by (subst irq_deleg_loop.simps) (auto simp: deref_regs_def split: option.split)
next
  case 2
  show ?case
    by (induction t' l' n k' rule: exc_deleg_loop.induct) (subst exc_deleg_loop.simps, auto simp: deref_regs_def ending split: option.split)
qed

lemma ends_serve: "ends (core_serve l i k c)"
  by (simp add: core_serve_def trap_serve_interrupt_def deref_regs_def Let_def split_beta split: option.split)

lemma ends_irqs: "ends (irq_loop irqs c)"
  by (induction irqs) (auto simp: trap_check_interrupt_pending_def deref_regs_def Let_def ends_deleg ends_serve split_beta split: option.split)

lemma ends_interrupts: "ends (rv_core_process_interrupts mei mti msi c)"
  by (simp add: rv_core_process_interrupts_def rv_core_prepare_interrupts_def trap_check_exception_delegation_def
    ends_deleg ends_serve ends_irqs split_beta)

text \<open>The next instruction is a \<open>uret\<close>: it can be fetched, and it decodes to the function that never returns.\<close>

definition at_uret :: "'x::len rv_soc_td \<Rightarrow> bool" where
  "at_uret soc = (case rv_core_fetch rv_soc_bus_access ((rv_core0 soc)\<lparr>c_next_pc := 0\<rparr>) of
      Inl h \<Rightarrow> False
    | Inr (c, ret) \<Rightarrow> ret = rv_ok \<and>
        (case rv_core_decode c of Inl h \<Rightarrow> False | Inr d \<Rightarrow> execute_cb d = Some (i_system URET)))"

lemma iteration_ends:
  assumes "soc_wf soc"
  shows "ends (soc_iteration soc) \<longleftrightarrow> \<not> at_uret soc"
proof -
  let ?c = "(rv_core0 soc)\<lparr>c_next_pc := 0\<rparr>" and ?f = "rv_core_fetch rv_soc_bus_access"
  have wf: "soc_core_wf (rv_core0 soc)" using assms by (simp add: soc_wf_def)
  have "ends (?f ?c)" by (simp add: rv_core_fetch_def soc_ends.ends_access split_beta)
  moreover have "ends (rv_core_execute rv_soc_bus_access e) \<longleftrightarrow> execute_cb e \<noteq> Some (i_system URET)"
    if f: "?f ?c = Inr (d, r)" and e: "rv_core_decode d = Inr e" for d r e
  proof -
    have "core_keeps ?c d" using postD [OF keeps.fetch f] by simp
    then have "soc_core_wf e" using wf decode_same [OF e] by (simp add: core_keeps_def soc_core_wf_def core_same_def)
    then show ?thesis
      by (simp add: rv_core_execute_def soc_ends.ends_instr [OF soc_csr_ends] split: option.split)
  qed
  moreover have "ends (rv_core_decode d)" for d :: "('a, 'a rv_soc_dev) rv_core_td"
    by (simp add: rv_core_decode_def Let_def ends_decode)
  ultimately have core: "ends (rv_core_run rv_soc_bus_access (rv_core0 soc)) \<longleftrightarrow> \<not> at_uret soc"
    unfolding rv_core_run_def at_uret_def
    by (cases "?f ?c") (auto simp: split_beta split: sum.split)
  have "ends (soc_update_devices (c_priv c))" if "rv_core_run rv_soc_bus_access (rv_core0 soc) = Inr c" for c
    using postD [OF keeps.run that] wf soc_update_devices_ok [of "c_priv c"] by (auto simp: core_keeps_def soc_core_wf_def)
  then show ?thesis using core by (auto simp: soc_iteration_def split_beta ends_interrupts)
qed

end
