(* ===== verification/SocRun.thy ===== *)
theory SocRun
  imports Uret CoreTrap
begin

text \<open>
  The system in its main loop: what holds in every reachable state, the access control of the CSRs there, the
  end of the loop with a cycle limit, the timer, and its interrupt from the CLINT to the handler.
\<close>

section \<open>Termination\<close>

lemma soc_iteration_cycle:
  assumes "soc_iteration soc = Inr soc'"
  shows "curr_cycle (rv_core0 soc') = curr_cycle (rv_core0 soc) + 1"
proof -
  obtain c d out mei mti msi e where c: "rv_core_run rv_soc_bus_access (rv_core0 soc) = Inr c"
    and e: "rv_core_process_interrupts mei mti msi (c\<lparr>c_priv := d\<rparr>) = Inr e"
    and soc': "soc' = soc\<lparr>rv_core0 := e, soc_out := soc_out soc @ out\<rparr>"
    using assms by (auto simp: soc_iteration_def res_bind_eq_Inr_iff)
  show ?thesis using step_frame [OF c] process_interrupts_frame [OF e] soc' by (auto simp: serve_frame_def)
qed

text \<open>The states of the loop: those from which it begins another iteration.\<close>

definition soc_stops :: "'x::len word \<Rightarrow> u64 \<Rightarrow> 'x rv_soc_td \<Rightarrow> bool" where
  "soc_stops pc n soc \<longleftrightarrow> c_pc (rv_core0 soc) = pc \<or> n \<noteq> 0 \<and> n \<le> curr_cycle (rv_core0 soc)"

inductive soc_loops :: "'x::len word \<Rightarrow> u64 \<Rightarrow> 'x rv_soc_td \<Rightarrow> 'x rv_soc_td \<Rightarrow> bool" for pc n where
  start: "soc_loops pc n soc soc"
| again: "soc_iteration soc = Inr soc1 \<Longrightarrow> \<not> soc_stops pc n soc1 \<Longrightarrow> soc_loops pc n soc1 soc' \<Longrightarrow> soc_loops pc n soc soc'"

inductive_simps soc_loops_unfold: "soc_loops pc n soc soc'"

definition run_hangs :: "'x::len word \<Rightarrow> u64 \<Rightarrow> 'x rv_soc_td \<Rightarrow> bool" where
  "run_hangs pc n soc \<longleftrightarrow> (\<exists>soc'. soc_loops pc n soc soc' \<and> at_uret soc')"

lemma run_hangs_unfold:
  "run_hangs pc n soc \<longleftrightarrow> at_uret soc \<or> (\<exists>soc1. soc_iteration soc = Inr soc1 \<and> \<not> soc_stops pc n soc1 \<and> run_hangs pc n soc1)"
  unfolding run_hangs_def by (subst soc_loops_unfold) blast

text \<open>What is to be shown of a run: it does not return exactly when it comes to a \<open>uret\<close>.\<close>

definition run_right :: "'x::len word \<Rightarrow> u64 \<Rightarrow> 'x rv_soc_td \<Rightarrow> bool" where
  "run_right pc n soc \<longleftrightarrow> (rv_soc_run pc n soc = None \<longleftrightarrow> run_hangs pc n soc) \<and>
    (\<forall>r. rv_soc_run pc n soc = Some r \<longrightarrow> ends r \<and> (\<forall>soc'. r = Inr soc' \<longrightarrow> soc_wf soc' \<and> soc_stops pc n soc'))"

lemma run_right_step:
  assumes "soc_wf soc" "\<And>soc1. soc_iteration soc = Inr soc1 \<Longrightarrow> \<not> soc_stops pc n soc1 \<Longrightarrow> run_right pc n soc1"
  shows "run_right pc n soc"
proof (cases "soc_iteration soc")
  case (Inl h)
  then show ?thesis
    using iteration_ends [OF assms(1)] by (simp add: run_right_def rv_soc_run.simps [of pc n soc] run_hangs_unfold [of pc n soc])
next
  case (Inr soc1)
  then have u: "\<not> at_uret soc" and wf: "soc_wf soc1" using iteration_ends [OF assms(1)] soc_iteration_wf [OF _ assms(1)] by auto
  show ?thesis
  proof (cases "soc_stops pc n soc1")
    case True
    then have "rv_soc_run pc n soc = Some (Inr soc1)" using Inr by (auto simp: rv_soc_run.simps [of pc n soc] soc_stops_def)
    then show ?thesis using True Inr u wf by (simp add: run_right_def run_hangs_unfold [of pc n soc])
  next
    case False
    then have "rv_soc_run pc n soc = rv_soc_run pc n soc1" using Inr by (auto simp: rv_soc_run.simps [of pc n soc] soc_stops_def)
    then show ?thesis using assms(2) [OF Inr False] Inr False u by (simp add: run_right_def run_hangs_unfold [of pc n soc])
  qed
qed

lemma run_below:
  "curr_cycle (rv_core0 soc) < n \<Longrightarrow> k = unat n - unat (curr_cycle (rv_core0 soc)) \<Longrightarrow> soc_wf soc \<Longrightarrow> run_right pc n soc"
proof (induction k arbitrary: soc)
  case 0
  then show ?case by (simp add: word_less_nat_alt)
next
  case (Suc k)
  show ?case
  proof (rule run_right_step [OF Suc.prems(3)])
    fix soc1 assume s: "soc_iteration soc = Inr soc1" "\<not> soc_stops pc n soc1"
    have "unat n < 2 ^ LENGTH(64)" by (rule unsigned_less)
    then have "unat (curr_cycle (rv_core0 soc)) + 1 < 2 ^ 64" using Suc.prems(1) by (simp add: word_less_nat_alt)
    then have "unat (curr_cycle (rv_core0 soc1)) = Suc (unat (curr_cycle (rv_core0 soc)))"
      using soc_iteration_cycle [OF s(1)] by (simp add: unat_word_ariths)
    moreover have "curr_cycle (rv_core0 soc1) < n" using s(2) Suc.prems(1) by (auto simp: soc_stops_def not_le)
    ultimately show "run_right pc n soc1"
      using Suc.IH [of soc1] Suc.prems(2) soc_iteration_wf [OF s(1) Suc.prems(3)] by simp
  qed
qed

lemma run_total:
  assumes "n \<noteq> 0" "soc_wf soc"
  shows "run_right pc n soc"
proof (rule run_right_step [OF assms(2)])
  fix soc1 assume s: "soc_iteration soc = Inr soc1" "\<not> soc_stops pc n soc1"
  then have "curr_cycle (rv_core0 soc1) < n" using assms(1) by (simp add: soc_stops_def not_le)
  then show "run_right pc n soc1" using run_below [OF _ refl soc_iteration_wf [OF s(1) assms(2)]] by simp
qed

section \<open>The timer\<close>

definition clint_val :: "clint_td \<Rightarrow> clint_regs \<Rightarrow> u64" where
  "clint_val c r = word_of_bytes (take 8 (drop (clint_reg_code r * 8) (clint_image c)))"

lemma clint_get_val: "clint_wf c \<Longrightarrow> clint_get c r = Inr (clint_val c r)"
  by (cases r) (simp_all add: clint_get_def clint_wf_def clint_val_def)

lemma clint_set_val:
  assumes "clint_wf c"
  shows "\<exists>c'. clint_set c r v = Inr c' \<and> clint_wf c' \<and> (\<forall>q. clint_val c' q = (if q = r then v else clint_val c q))"
proof -
  have "take 8 (drop (clint_reg_code q * 8) (splice (clint_image c) (clint_reg_code r * 8) (bytes_of 8 v))) =
      (if q = r then bytes_of 8 v else take 8 (drop (clint_reg_code q * 8) (clint_image c)))" for q
    using assms by (cases q; cases r) (auto simp: clint_wf_def intro!: nth_equalityI simp: nth_splice)
  moreover have "word_of_bytes (bytes_of 8 v) = v" using word_of_bytes_of_full [where w = v] by simp
  ultimately show ?thesis
    using assms by (cases r) (simp_all add: clint_set_def clint_wf_def clint_val_def)
qed

lemma clint_update_val:
  assumes "clint_wf c"
  shows "\<exists>c'. clint_update c = Inr (c', of_bool (bit (clint_val c clint_msip) 0),
      of_bool (clint_val c clint_mtimecmp \<le> clint_val c clint_mtime + 1)) \<and> clint_wf c' \<and>
    clint_val c' clint_mtime = clint_val c clint_mtime + 1 \<and> clint_val c' clint_mtimecmp = clint_val c clint_mtimecmp \<and>
    clint_val c' clint_msip = clint_val c clint_msip"
proof -
  obtain c' where c': "clint_set c clint_mtime (clint_val c clint_mtime + 1) = Inr c'" "clint_wf c'"
    "\<forall>q. clint_val c' q = (if q = clint_mtime then clint_val c clint_mtime + 1 else clint_val c q)"
    using clint_set_val [OF assms] by blast
  then show ?thesis
    using clint_get_val [OF assms] clint_get_val [OF c'(2)] by (simp add: clint_update_def word_and_1_eq)
qed

text \<open>\<open>k\<close> updates without a bus access in between, with the levels of the timer interrupt line.\<close>

primrec clint_run :: "nat \<Rightarrow> clint_td \<Rightarrow> (clint_td \<times> u8 list) res" where
  "clint_run 0 c = Inr (c, [])"
| "clint_run (Suc k) c = res_bind (clint_update c) (\<lambda>(c, msi, mti). res_bind (clint_run k c) (\<lambda>(c, ms). Inr (c, mti # ms)))"

lemma clint_run_val:
  "clint_wf c \<Longrightarrow> unat (clint_val c clint_mtime) + k < 2 ^ 64 \<Longrightarrow> \<exists>c'. clint_run k c = Inr (c',
      map (\<lambda>i. of_bool (unat (clint_val c clint_mtimecmp) \<le> unat (clint_val c clint_mtime) + i + 1)) [0..<k]) \<and> clint_wf c'"
proof (induction k arbitrary: c)
  case (Suc k)
  obtain c1 msi where c1: "clint_update c = Inr (c1, msi, of_bool (clint_val c clint_mtimecmp \<le> clint_val c clint_mtime + 1))"
    "clint_wf c1" "clint_val c1 clint_mtime = clint_val c clint_mtime + 1" "clint_val c1 clint_mtimecmp = clint_val c clint_mtimecmp"
    using clint_update_val [OF Suc.prems(1)] by blast
  have "unat (clint_val c clint_mtime + 1) = Suc (unat (clint_val c clint_mtime))"
    using Suc.prems(2) by (simp add: unat_word_ariths)
  then show ?case
    using Suc.IH [OF c1(2)] Suc.prems(2) c1
    by (auto simp: word_le_nat_alt map_upt_Suc simp del: upt_Suc)
qed simp

section \<open>The timer interrupt\<close>

lemma timer_served:
  fixes t :: "'x::len trap_td"
  assumes "32 \<le> LENGTH('x)" "bit (regs_data t shared_ie) 7" "\<not> bit (regs_data t m_ideleg) 7"
    "bit (regs_data t shared_status) 3" "bit mti 0"
  shows "irq_served (trap_set_pending_bits mei mti msi t) cur 7 \<noteq> None \<longleftrightarrow> priv_nat cur \<le> 3"
  using assms pending_bits_spec [OF assms(1), of mei mti msi t] by (auto simp: irq_served_def irq_target_def)

lemma timer_delivered:
  fixes soc :: "'x::len rv_soc_td"
  assumes run: "rv_core_run rv_soc_bus_access (rv_core0 soc) = Inr c" and wf: "soc_wf soc"
    and t: "\<not> sync_trap_pending c" "proper_priv (curr_priv_mode c)" "bit (regs_data (c_trap c) shared_ie) 7"
      "\<not> bit (regs_data (c_trap c) m_ideleg) 7" "bit (regs_data (c_trap c) shared_status) 3"
    and timer: "clint_val (soc_clint (c_priv c)) clint_mtimecmp \<le> clint_val (soc_clint (c_priv c)) clint_mtime + 1"
  shows "\<exists>soc' irq p d. soc_iteration soc = Inr soc' \<and> 7 \<le> irq_code irq \<and> c_x d = c_x c \<and> c_pc d = c_pc c \<and>
    curr_priv_mode d = curr_priv_mode c \<and> core_entered p True (of_nat (irq_code irq)) d (rv_core0 soc')"
proof -
  have c: "soc_core_wf c" using postD [OF keeps.run run] wf by (simp add: core_keeps_def soc_wf_def)
  then have x: "xlen_ok TYPE('x)" and dw: "soc_dev_wf (c_priv c)" by (simp_all add: soc_core_wf_def pmp_wf_def)
  obtain dv out mei mti msi where dv: "soc_update_devices (c_priv c) = Inr (dv, out, mei, mti, msi)"
    using soc_update_devices_ok [OF dw] by blast
  have "clint_wf (soc_clint (c_priv c))" using dw by (simp add: soc_dev_wf_def)
  from clint_update_val [OF this] timer dv have mti: "bit mti 0"
    by (auto simp: soc_update_devices_def res_bind_eq_Inr_iff)
  define d where "d = rv_core_update_interrupts mei mti msi (c\<lparr>c_priv := dv\<rparr>)"
  have d: "proper_priv (curr_priv_mode d)" "\<not> sync_trap_pending d" "c_x d = c_x c" "c_pc d = c_pc c" "curr_priv_mode d = curr_priv_mode c"
    "c_trap d = trap_set_pending_bits mei mti msi (c_trap c)"
    using t by (simp_all add: d_def rv_core_update_interrupts_def)
  have l: "32 \<le> LENGTH('x)" using xlen_ok_ge [OF x] by simp
  have s: "irq_served (c_trap d) (curr_priv_mode d) 7 \<noteq> None"
    using timer_served [OF l t(3-5) mti, of mei msi "curr_priv_mode d"] d(1,6) by (auto simp: proper_priv_def)
  have "irq_code trap_cause_machine_ti = 7" by simp
  then obtain irq p e where e: "rv_core_prepare_interrupts d = Inr (e, 1)" "core_entered p True (of_nat (irq_code irq)) d e" "7 \<le> irq_code irq"
    using no_exception_interrupt [OF d(1) l d(2)] s by (metis not_le)
  have "soc_iteration soc = Inr (soc\<lparr>rv_core0 := e, soc_out := soc_out soc @ out\<rparr>)"
    using run dv e(1) by (simp add: soc_iteration_def rv_core_process_interrupts_def d_def)
  then show ?thesis using e d by (intro exI [of _ "soc\<lparr>rv_core0 := e, soc_out := soc_out soc @ out\<rparr>"] exI [of _ irq] exI [of _ p] exI [of _ d]) simp
qed

section \<open>Access to the CSRs\<close>

lemma csr_access_spec:
  fixes c :: "('x::len, 'p) rv_core_td"
  assumes "\<forall>i. csr_static (csr_regs c i) = csr_static (core_csr_file i)" "xlen_ok TYPE('x)"
    and "proper_priv (curr_priv_mode c)" "unat a < CSR_ADDR_MAX"
  shows "priv_nat (curr_priv_mode c) < csr_level (unat a) \<Longrightarrow> core_csr_read c a v = Inr (rv_err, v)"
    and "priv_nat (curr_priv_mode c) < csr_level (unat a) \<or> csr_read_only (unat a) \<or> curr_priv_mode c = user_mode \<Longrightarrow>
      core_csr_write c a w = Inr (c, rv_err)"
proof -
  have "csr_reg_ok (unat a) (csr_regs c (unat a))"
    using core_csr_file_ok [OF assms(2)] assms(1) csr_static_ok unfolding csr_file_ok_def by blast
  then have f: "CSR_ACCESS_READ_GRANTED (curr_priv_mode c) (access_flags (csr_regs c (unat a))) \<Longrightarrow> csr_level (unat a) \<le> priv_nat (curr_priv_mode c)"
    "CSR_ACCESS_WRITE_GRANTED (curr_priv_mode c) (access_flags (csr_regs c (unat a))) \<Longrightarrow>
      csr_level (unat a) \<le> priv_nat (curr_priv_mode c) \<and> curr_priv_mode c \<noteq> user_mode \<and> \<not> csr_read_only (unat a)"
    using assms(3) by (auto simp: csr_reg_ok_def flags_conform_def)
  show "core_csr_read c a v = Inr (rv_err, v)" if "priv_nat (curr_priv_mode c) < csr_level (unat a)"
    using f(1) that csr_read_denied [of "curr_priv_mode c" "csr_regs c" a] assms(4) by (auto simp: core_csr_read_def not_le [symmetric])
  show "core_csr_write c a w = Inr (c, rv_err)"
    if "priv_nat (curr_priv_mode c) < csr_level (unat a) \<or> csr_read_only (unat a) \<or> curr_priv_mode c = user_mode"
  proof -
    have "\<not> CSR_ACCESS_WRITE_GRANTED (curr_priv_mode c) (access_flags (csr_regs c (unat a)))" using f(2) that by auto
    from csr_write_denied [of "curr_priv_mode c" "csr_regs c" a, OF this assms(4)] show ?thesis by (simp add: core_csr_write_def)
  qed
qed

section \<open>Examples\<close>

text \<open>An initialised system with an empty program.\<close>

lemma soc_init_example:
  obtains soc :: "32 rv_soc_td" where "rv_soc_init True (\<lambda>f. Some []) ''fw'' None None = Inr soc"
proof -
  have s: "\<not> sint (RAM_SIZE_BYTES :: u64) < 0" by (simp add: RAM_SIZE_BYTES_def)
  have w: "write_mem_from_file (\<lambda>f. Some []) ''fw'' m 0 RAM_SIZE_BYTES = Inr (m\<lparr>mem_cells := mem_store (mem_cells m) 0 []\<rparr>)" for m
    using s by (simp add: write_mem_from_file_def get_file_size_def)
  have "length (mem_access_cbs (soc_zero True :: 32 rv_soc_dev)) = 6" by (simp add: soc_zero_def)
  then show thesis using that by (simp add: rv_soc_init_def Let_def w init_mem_access_regions)
qed

text \<open>A system in machine mode with the timer interrupt enabled, about to execute the \<open>nop\<close> at the start of the boot ROM.\<close>

definition timer_example_dev :: "plic_td \<Rightarrow> soc_uart \<Rightarrow> 32 rv_soc_mem_access_cb_td list \<Rightarrow> 32 rv_soc_dev" where
  "timer_example_dev plic uart regions = \<lparr>soc_mrom = \<lparr>mem_cells = mem_store (\<lambda>_. 0) 0 (bytes_of 4 (0x13 :: u32)), mem_len = 0xf000\<rparr>,
     soc_ram = zero_mem 0x8000000, soc_from = zero_mem 0xc800000, soc_clint = clint_zero, soc_plic = plic,
     soc_uart = uart, mem_access_cbs = regions\<rparr>"

definition timer_example_core :: "(32, 32 csr_dev) csr_file \<Rightarrow> 32 rv_soc_dev \<Rightarrow> (32, 32 rv_soc_dev) rv_core_td" where
  "timer_example_core csr d = (example_core d)\<lparr>csr_regs := csr,
     c_trap := trap_put shared_status 8 (trap_put shared_ie 0x80 trap_init)\<rparr>"

lemma rom_example_fetch:
  fixes c :: "(32, 32 rv_soc_dev) rv_core_td" and w :: u32
  assumes "mem_access_cbs (c_priv c) = soc_regions True"
    "soc_mrom (c_priv c) = \<lparr>mem_cells = mem_store (\<lambda>_. 0) 0 (bytes_of 4 w), mem_len = 0xf000\<rparr>"
    "c_pmp c = pmp_zero" "curr_priv_mode c = machine_mode" "c_pc c = 0x1000"
  shows "rv_core_fetch rv_soc_bus_access c = Inr (fetch_store (bytes_of 4 w) c, rv_ok)"
proof -
  have m: "mem_load (mem_store (\<lambda>_. 0) 0 (bytes_of 4 w)) 0 4 = bytes_of 4 w" by (rule mem_load_store_same) simp
  have ne: "bytes_of 4 w \<noteq> []" by (metis length_bytes_of list.size(3) zero_neq_numeral)
  have b: "rv_soc_bus_access (c_priv c) machine_mode bus_instr_access 0x1000 (fetch_buffer c) 4 = Inr (c_priv c, rv_ok, bytes_of 4 w)"
    using assms(1,2) m ne by (simp add: rv_soc_bus_access_def soc_regions_def ADDR_WITHIN_LEN_def RAM_BASE_ADDR_def RAM_SIZE_BYTES_def
      CLINT_BASE_ADDR_def CLINT_SIZE_BYTES_def PLIC_BASE_ADDR_def PLIC_SIZE_BYTES_def SIMPLE_UART_TX_REG_ADDR_def
      SIMPLE_UART_SIZE_BYTES_def MROM_BASE_ADDR_def MROM_SIZE_BYTES_def memory_bus_access_def fetch_buffer_def XLEN_BYTES_def arr_write_def splice_def)
  have p: "pmp_mem_check (pmp_zero :: 32 pmp_td) machine_mode 0x1000 4 bus_instr_access = Inr rv_ok" by code_simp
  show ?thesis using assms(3-5) b p
    by (simp add: rv_core_fetch_def mmu_checked_bus_access_def Let_def check_mprv_override_def mmu_virt_to_phys_cases mmu_active_def
      XLEN_BYTES_def pmp_checked_bus_access_def)
qed

lemma timer_example_fetch:
  fixes c :: "(32, 32 rv_soc_dev) rv_core_td"
  assumes "mem_access_cbs (c_priv c) = soc_regions True"
    "soc_mrom (c_priv c) = \<lparr>mem_cells = mem_store (\<lambda>_. 0) 0 (bytes_of 4 (0x13 :: u32)), mem_len = 0xf000\<rparr>"
    "c_pmp c = pmp_zero" "curr_priv_mode c = machine_mode" "c_pc c = 0x1000"
  shows "rv_core_fetch rv_soc_bus_access c = Inr (fetch_store [0x13, 0, 0, 0] c, rv_ok)"
proof -
  have "bytes_of 4 (0x13 :: u32) = [0x13, 0, 0, 0]" by code_simp
  then show ?thesis using rom_example_fetch [OF assms] by simp
qed

lemma timer_example_decode:
  "map_sum id execute_cb (rv_core_decode (fetch_store [0x13, 0, 0, 0] (timer_example_core csr d))) = Inr (Some (i_alu ADDI))"
  by code_simp


definition timer_example_soc :: "32 rv_soc_td" where
  "timer_example_soc = \<lparr>rv_core0 = timer_example_core core_csr_file
     (timer_example_dev plic_zero (simple_uart simple_uart_init) (soc_regions True)), soc_out = []\<rparr>"

lemma timer_example_wf: "soc_wf timer_example_soc"
  using plic_zero_ok uart_init_wf(1)
  by (simp add: timer_example_soc_def soc_wf_def soc_core_wf_def timer_example_core_def example_core_def pmp_zero_wf xlen_ok_def
    soc_dev_wf_def timer_example_dev_def mem_sized_def zero_mem_def clint_wf_def clint_zero_def)

lemma timer_example_run:
  obtains c where "rv_core_run rv_soc_bus_access (rv_core0 timer_example_soc) = Inr c" "\<not> sync_trap_pending c"
    "curr_priv_mode c = machine_mode" "c_trap c = c_trap (rv_core0 timer_example_soc)" "c_priv c = c_priv (rv_core0 timer_example_soc)"
proof -
  let ?c = "rv_core0 timer_example_soc"
  have f: "rv_core_fetch rv_soc_bus_access (?c\<lparr>c_next_pc := 0\<rparr>) = Inr (fetch_store [0x13, 0, 0, 0] ?c, rv_ok)"
    by (subst timer_example_fetch) (simp_all add: timer_example_soc_def timer_example_core_def timer_example_dev_def example_core_def)
  obtain d where d: "rv_core_decode (fetch_store [0x13, 0, 0, 0] ?c) = Inr d" "execute_cb d = Some (i_alu ADDI)"
    using timer_example_decode [of core_csr_file "timer_example_dev plic_zero (simple_uart simple_uart_init) (soc_regions True)"]
    by (cases "rv_core_decode (fetch_store [0x13, 0, 0, 0] ?c)") (auto simp: timer_example_soc_def)
  have "core_same ?c d" using decode_same [OF d(1)] fetch_store_same core_same_trans by blast
  moreover have "curr_priv_mode ?c = machine_mode" "\<not> sync_trap_pending ?c"
    by (simp_all add: timer_example_soc_def timer_example_core_def example_core_def)
  ultimately show thesis
    using that [of "core_count (core_advance_pc (set_x 0 0 (instr_ADDI d)))"] f d
    by (simp add: rv_core_run_def rv_core_execute_def core_count_def core_advance_pc_def Let_def instr_ADDI_def set_x_def core_same_def)
qed

text \<open>The same system about to execute a \<open>uret\<close>.\<close>

definition uret_example_soc :: "32 rv_soc_td" where
  "uret_example_soc = \<lparr>rv_core0 = timer_example_core core_csr_file
     ((timer_example_dev plic_zero (simple_uart simple_uart_init) (soc_regions True))\<lparr>soc_mrom :=
       \<lparr>mem_cells = mem_store (\<lambda>_. 0) 0 (bytes_of 4 (0x00200073 :: u32)), mem_len = 0xf000\<rparr>\<rparr>), soc_out = []\<rparr>"

lemma uret_example_decode:
  "map_sum id execute_cb (rv_core_decode (fetch_store (bytes_of 4 (0x00200073 :: u32)) (timer_example_core csr d))) = Inr (Some (i_system URET))"
  by code_simp

lemma uret_example: "at_uret uret_example_soc" "soc_wf uret_example_soc"
proof -
  let ?c = "rv_core0 uret_example_soc"
  have f: "rv_core_fetch rv_soc_bus_access (?c\<lparr>c_next_pc := 0\<rparr>) = Inr (fetch_store (bytes_of 4 (0x00200073 :: u32)) ?c, rv_ok)"
    by (subst rom_example_fetch [where w = "0x00200073"])
      (simp_all add: uret_example_soc_def timer_example_core_def timer_example_dev_def example_core_def)
  have "map_sum id execute_cb (rv_core_decode (fetch_store (bytes_of 4 (0x00200073 :: u32)) ?c)) = Inr (Some (i_system URET))"
    unfolding uret_example_soc_def rv_soc_td.select_convs by (rule uret_example_decode)
  then obtain d where "rv_core_decode (fetch_store (bytes_of 4 (0x00200073 :: u32)) ?c) = Inr d" "execute_cb d = Some (i_system URET)"
    by (cases "rv_core_decode (fetch_store (bytes_of 4 (0x00200073 :: u32)) ?c)") auto
  then show "at_uret uret_example_soc" using f by (simp add: at_uret_def)
  show "soc_wf uret_example_soc"
    using timer_example_wf
    by (simp add: uret_example_soc_def timer_example_soc_def soc_wf_def soc_core_wf_def timer_example_core_def example_core_def
      soc_dev_wf_def timer_example_dev_def mem_sized_def)
qed


lemma timer_example_iteration:
  obtains soc' where "soc_iteration timer_example_soc = Inr soc'"
proof -
  obtain c where c: "rv_core_run rv_soc_bus_access (rv_core0 timer_example_soc) = Inr c" "\<not> sync_trap_pending c"
    "curr_priv_mode c = machine_mode" "c_trap c = c_trap (rv_core0 timer_example_soc)" "c_priv c = c_priv (rv_core0 timer_example_soc)"
    by (rule timer_example_run)
  have "soc_clint (c_priv c) = clint_zero" by (simp add: c(5) timer_example_soc_def timer_example_core_def example_core_def timer_example_dev_def)
  moreover have "clint_val clint_zero clint_mtime = 0" "clint_val clint_zero clint_mtimecmp = 0" by code_simp+
  moreover have "bit (regs_data (c_trap c) shared_ie) 7" "\<not> bit (regs_data (c_trap c) m_ideleg) 7" "bit (regs_data (c_trap c) shared_status) 3"
    by (simp_all add: c(4) timer_example_soc_def timer_example_core_def trap_init_def)
  ultimately show thesis using timer_delivered [OF c(1) timer_example_wf c(2)] c(3) that by (auto simp: proper_priv_def)
qed

section \<open>Properties\<close>

text \<open>
  C7. In every state that the main loop and the receiving thread reach from the initialisation, in any order,
  memories and register images have their sizes, the queues and the PLIC are well-formed, the region table and the PMP
  registers are intact, the CSR table has the flags, masks and callbacks of the initialisation, and x0 is zero.
\<close>

theorem soc_reachable_invariant:
  fixes soc :: "'x::len rv_soc_td"
  assumes "rv_soc_init simple fs fw dtb initrd = Inr soc" "xlen_ok TYPE('x)" "soc_step\<^sup>*\<^sup>* soc soc'"
  shows "soc_wf soc'"
  using soc_steps_wf [OF assms(3) rv_soc_init_wf [OF assms(1,2)]] .

theorem soc_reachable_invariant_witness:
  "\<exists>soc soc' :: 32 rv_soc_td. rv_soc_init True (\<lambda>f. Some []) ''fw'' None None = Inr soc \<and> soc_rx_char 65 soc = Inr soc' \<and> soc_wf soc'"
proof -
  obtain soc :: "32 rv_soc_td" where i: "rv_soc_init True (\<lambda>f. Some []) ''fw'' None None = Inr soc" by (rule soc_init_example)
  obtain soc' where s: "soc_rx_char 65 soc = Inr soc'" using soc_rx_char_ok [OF rv_soc_init_wf [OF i]] by (auto simp: xlen_ok_def)
  have "soc_step\<^sup>*\<^sup>* soc soc'" using soc_step.rx_char [OF s] by blast
  from soc_reachable_invariant [OF i _ this] i s show ?thesis by (auto simp: xlen_ok_def)
qed

text \<open>
  C31. In every reachable state a received character is taken in without failure, and after the core's step the peripherals'
  part of the iteration never fails: no access outside an array, no queue error. An iteration ends the
  program only through the instruction that it executes or through the interrupt processing of the core.
\<close>

theorem soc_peripherals_never_fail:
  fixes soc :: "'x::len rv_soc_td"
  assumes "rv_soc_init simple fs fw dtb initrd = Inr soc" "xlen_ok TYPE('x)" "soc_step\<^sup>*\<^sup>* soc soc'"
  shows "(\<exists>soc''. soc_rx_char x soc' = Inr soc'') \<and>
    (\<forall>c. rv_core_run rv_soc_bus_access (rv_core0 soc') = Inr c \<longrightarrow>
      (\<exists>d out mei mti msi. soc_update_devices (c_priv c) = Inr (d, out, mei, mti, msi) \<and>
        (soc_iteration soc' = Inl h \<longrightarrow> rv_core_process_interrupts mei mti msi (c\<lparr>c_priv := d\<rparr>) = Inl h)))"
proof -
  have wf: "soc_wf soc'" by (rule soc_steps_wf [OF assms(3) rv_soc_init_wf [OF assms(1,2)]])
  have "\<exists>d out mei mti msi. soc_update_devices (c_priv c) = Inr (d, out, mei, mti, msi) \<and>
      (soc_iteration soc' = Inl h \<longrightarrow> rv_core_process_interrupts mei mti msi (c\<lparr>c_priv := d\<rparr>) = Inl h)"
    if c: "rv_core_run rv_soc_bus_access (rv_core0 soc') = Inr c" for c
  proof -
    have "soc_dev_wf (c_priv c)" using postD [OF keeps.run c] wf by (simp add: core_keeps_def soc_wf_def soc_core_wf_def)
    then obtain d out mei mti msi where "soc_update_devices (c_priv c) = Inr (d, out, mei, mti, msi)"
      using soc_update_devices_ok by blast
    then show ?thesis using c by (auto simp: soc_iteration_def res_bind_eq_Inl_iff)
  qed
  then show ?thesis using soc_rx_char_ok [OF wf] by blast
qed

theorem soc_peripherals_never_fail_witness:
  "\<exists>soc soc' :: 32 rv_soc_td. rv_soc_init True (\<lambda>f. Some []) ''fw'' None None = Inr soc \<and> soc_rx_char 65 soc = Inr soc'"
proof -
  obtain soc :: "32 rv_soc_td" where i: "rv_soc_init True (\<lambda>f. Some []) ''fw'' None None = Inr soc" by (rule soc_init_example)
  from soc_peripherals_never_fail [OF i _ rtranclp.rtrancl_refl, of 65 Die] i show ?thesis by (auto simp: xlen_ok_def)
qed

text \<open>
  C25. Access control of the CSRs, with the table of the initialisation: an address whose bits 9 and 8 name a higher
  level than the current one can be neither read nor written, an address with ones in bits 11 and 10 cannot be written,
  and user mode writes none; a refused access changes nothing.
\<close>

theorem csr_address_convention:
  fixes c :: "('x::len, 'p) rv_core_td"
  assumes "\<forall>i. csr_static (csr_regs c i) = csr_static (core_csr_file i)" "xlen_ok TYPE('x)"
    and "proper_priv (curr_priv_mode c)" "unat a < CSR_ADDR_MAX"
  shows "(priv_nat (curr_priv_mode c) < csr_level (unat a) \<longrightarrow> core_csr_read c a v = Inr (rv_err, v)) \<and>
    (priv_nat (curr_priv_mode c) < csr_level (unat a) \<or> csr_read_only (unat a) \<or> curr_priv_mode c = user_mode \<longrightarrow>
      core_csr_write c a w = Inr (c, rv_err))"
  using csr_access_spec [OF assms] by blast

theorem csr_address_convention_witness:
  "core_csr_write ((rv_core_init () :: (32, unit) rv_core_td)\<lparr>curr_priv_mode := supervisor_mode\<rparr>) 0x300 1 =
     Inr ((rv_core_init ())\<lparr>curr_priv_mode := supervisor_mode\<rparr>, rv_err)"
proof -
  let ?c = "(rv_core_init () :: (32, unit) rv_core_td)\<lparr>curr_priv_mode := supervisor_mode\<rparr>"
  have "csr_regs ?c = core_csr_file"
    by (simp add: rv_core_init_def rv_core_init_csr_regs_def rv_core_zero_def core_csr_file_def Let_def)
  then show ?thesis
    using csr_address_convention [of ?c "0x300" 0 1] by (simp add: xlen_ok_def proper_priv_def csr_level_def CSR_ADDR_MAX_def)
qed

text \<open>
  C29. The main loop with a cycle limit other than zero, from every well-formed state. It does not return exactly when one of its
  iterations comes to a \<open>uret\<close>, whose function is an endless loop. In every other case it ends: at the success address, with the
  cycle counter at the limit, or in an iteration with the program, by \<open>exit\<close> (\<open>Die\<close>) or in undefined behaviour, of which nothing
  more is claimed.
\<close>

theorem soc_run_terminates:
  assumes "num_cycles \<noteq> 0" "soc_wf soc"
  shows "(rv_soc_run success_pc num_cycles soc = None \<longleftrightarrow> (\<exists>soc'. soc_loops success_pc num_cycles soc soc' \<and> at_uret soc')) \<and>
    (\<forall>r. rv_soc_run success_pc num_cycles soc = Some r \<longrightarrow> r \<noteq> Inl Hang \<and>
      (\<forall>soc'. r = Inr soc' \<longrightarrow> c_pc (rv_core0 soc') = success_pc \<or> num_cycles \<le> curr_cycle (rv_core0 soc')))"
  using run_total [OF assms, of success_pc] by (auto simp: run_right_def run_hangs_def ends_def soc_stops_def)

theorem soc_run_terminates_witness:
  "(\<exists>soc'. rv_soc_run 0 1 timer_example_soc = Some (Inr soc') \<and> (c_pc (rv_core0 soc') = 0 \<or> 1 \<le> curr_cycle (rv_core0 soc'))) \<and>
    rv_soc_run 0 1 uret_example_soc = None"
proof -
  obtain soc' where s: "soc_iteration timer_example_soc = Inr soc'" by (rule timer_example_iteration)
  then have "curr_cycle (rv_core0 soc') = 1"
    using soc_iteration_cycle [OF s] by (simp add: timer_example_soc_def timer_example_core_def example_core_def)
  then have "rv_soc_run 0 1 timer_example_soc = Some (Inr soc')" using s by (simp add: rv_soc_run.simps [of 0 1 timer_example_soc])
  moreover have "rv_soc_run 0 1 uret_example_soc = None"
    using soc_run_terminates [of 1 uret_example_soc 0] uret_example soc_loops.start by auto
  ultimately show ?thesis using soc_run_terminates [of 1 timer_example_soc 0] timer_example_wf by auto
qed

text \<open>
  C32. The timer. Without accesses in between, the timer interrupt line is raised in the first update after which \<open>mtime\<close> is
  at least \<open>mtimecmp\<close>, and in every later one until the counter overflows: it comes, and it does not come early.
\<close>

theorem clint_timer_fires:
  assumes "clint_wf c" "unat (clint_val c clint_mtime) + k < 2 ^ 64"
  shows "\<exists>c'. clint_run k c = Inr (c',
    map (\<lambda>i. of_bool (unat (clint_val c clint_mtimecmp) \<le> unat (clint_val c clint_mtime) + i + 1)) [0..<k]) \<and> clint_wf c'"
  using assms by (rule clint_run_val)

theorem clint_timer_fires_witness:
  "\<exists>c c'. clint_set clint_zero clint_mtimecmp 3 = Inr c \<and> clint_run 4 c = Inr (c', [0, 0, 1, 1])"
proof -
  have z: "clint_wf clint_zero" by (simp add: clint_wf_def clint_zero_def)
  have m: "clint_val clint_zero clint_mtime = 0" by code_simp
  obtain c where c: "clint_set clint_zero clint_mtimecmp 3 = Inr c" "clint_wf c" "clint_val c clint_mtimecmp = 3" "clint_val c clint_mtime = 0"
    using clint_set_val [OF z, of clint_mtimecmp 3] m by auto
  from clint_timer_fires [OF c(2), of 4] c show ?thesis by (auto simp: upt_rec)
qed

text \<open>
  C18. From the timer to the handler. When the core comes out of a step in a well-formed system without an exception, with the
  machine timer interrupt enabled and not delegated and machine interrupts on, and \<open>mtime\<close> reaches \<open>mtimecmp\<close> in this
  iteration, the iteration ends in the handler of the timer interrupt or of one with a higher number, entered from the
  state that the step has left.
\<close>

theorem timer_interrupt_delivered:
  fixes soc :: "'x::len rv_soc_td"
  assumes "rv_core_run rv_soc_bus_access (rv_core0 soc) = Inr c" "soc_wf soc"
    and "\<not> sync_trap_pending c" "proper_priv (curr_priv_mode c)" "bit (regs_data (c_trap c) shared_ie) 7"
      "\<not> bit (regs_data (c_trap c) m_ideleg) 7" "bit (regs_data (c_trap c) shared_status) 3"
    and "clint_val (soc_clint (c_priv c)) clint_mtimecmp \<le> clint_val (soc_clint (c_priv c)) clint_mtime + 1"
  shows "\<exists>soc' irq p d. soc_iteration soc = Inr soc' \<and> 7 \<le> irq_code irq \<and> c_x d = c_x c \<and> c_pc d = c_pc c \<and>
    curr_priv_mode d = curr_priv_mode c \<and> core_entered p True (of_nat (irq_code irq)) d (rv_core0 soc')"
  using assms by (rule timer_delivered)

theorem timer_interrupt_delivered_witness:
  "\<exists>soc' irq p. soc_iteration timer_example_soc = Inr soc' \<and> 7 \<le> irq_code irq \<and> curr_priv_mode (rv_core0 soc') = p \<and> proper_priv p"
proof -
  obtain c where c: "rv_core_run rv_soc_bus_access (rv_core0 timer_example_soc) = Inr c" "\<not> sync_trap_pending c"
    "curr_priv_mode c = machine_mode" "c_trap c = c_trap (rv_core0 timer_example_soc)" "c_priv c = c_priv (rv_core0 timer_example_soc)"
    by (rule timer_example_run)
  have "soc_clint (c_priv c) = clint_zero" by (simp add: c(5) timer_example_soc_def timer_example_core_def example_core_def timer_example_dev_def)
  moreover have "clint_val clint_zero clint_mtime = 0" "clint_val clint_zero clint_mtimecmp = 0" by code_simp+
  moreover have "bit (regs_data (c_trap c) shared_ie) 7" "\<not> bit (regs_data (c_trap c) m_ideleg) 7" "bit (regs_data (c_trap c) shared_status) 3"
    by (simp_all add: c(4) timer_example_soc_def timer_example_core_def trap_init_def)
  ultimately obtain soc' irq p d where "soc_iteration timer_example_soc = Inr soc'" "7 \<le> irq_code irq"
      "core_entered p True (of_nat (irq_code irq)) d (rv_core0 soc')"
    using timer_interrupt_delivered [OF c(1) timer_example_wf c(2)] c(3) by (auto simp: proper_priv_def)
  then show ?thesis by (auto simp: core_entered_def)
qed

end
