(* ===== verification/RamAccess.thy ===== *)
theory RamAccess
  imports SocRun
begin

text \<open>
  Loads, stores and atomic instructions on the RAM of the system, from the instruction through translation, PMP and bus
  to the bytes: a machine-mode core whose PMP allows the access.
\<close>

section \<open>Direct accesses\<close>

definition ram_open :: "('x::len, 'x rv_soc_dev) rv_core_td \<Rightarrow> 'x word \<Rightarrow> nat \<Rightarrow> bool" where
  "ram_open c addr n \<longleftrightarrow> xlen_ok TYPE('x) \<and> curr_priv_mode c = machine_mode \<and>
     \<not> bit (regs_data (c_trap c) shared_status) TRAP_XSTATUS_MPRV_BIT \<and>
     pmp_mem_check (c_pmp c) machine_mode addr (of_nat n) bus_read_access = Inr rv_ok \<and>
     pmp_mem_check (c_pmp c) machine_mode addr (of_nat n) bus_write_access = Inr rv_ok \<and>
     0 < n \<and> n \<le> 8 \<and> 0x80000000 \<le> unat addr \<and> unat addr + n \<le> 0x88000000 \<and>
     (\<exists>rest. mem_access_cbs (c_priv c) = \<lparr>cb_device = Some dev_ram, addr_start = RAM_BASE_ADDR, mem_size = RAM_SIZE_BYTES\<rparr> # rest) \<and>
     mem_len (soc_ram (c_priv c)) = 0x8000000"

definition ram_cells :: "('x::len, 'x rv_soc_dev) rv_core_td \<Rightarrow> bytemem" where
  "ram_cells c = mem_cells (soc_ram (c_priv c))"

definition set_ram :: "bytemem \<Rightarrow> ('x::len, 'x rv_soc_dev) rv_core_td \<Rightarrow> ('x, 'x rv_soc_dev) rv_core_td" where
  "set_ram m c = c\<lparr>c_priv := (c_priv c)\<lparr>soc_ram := (soc_ram (c_priv c))\<lparr>mem_cells := m\<rparr>\<rparr>\<rparr>"

abbreviation ram_offset :: "'x::len word \<Rightarrow> nat" where
  "ram_offset addr \<equiv> unat addr - 0x80000000"

lemma ram_cells_set [simp]: "ram_cells (set_ram m c) = m"
  by (simp add: ram_cells_def set_ram_def)

lemma set_ram_same: "set_ram (ram_cells c) c = c"
  by (simp add: set_ram_def ram_cells_def)

text \<open>The address of the access is in the first region and at its offset in the array.\<close>

lemma ram_hit:
  fixes addr :: "'x::len word"
  assumes "xlen_ok TYPE('x)" "0 < n" "n \<le> 8" "0x80000000 \<le> unat addr" "unat addr + n \<le> 0x88000000"
  shows "ADDR_WITHIN_LEN addr (of_nat n) RAM_BASE_ADDR RAM_SIZE_BYTES" "unat (addr - RAM_BASE_ADDR) = ram_offset addr"
    "unat (of_nat n :: u8) = n"
proof -
  have b: "unat (RAM_BASE_ADDR :: 'x word) = 0x80000000" by (rule unat_RAM_BASE [OF assms(1)])
  have e: "unat (RAM_BASE_ADDR + RAM_SIZE_BYTES :: 'x word) = 0x88000000"
    using assms(1) by (auto simp: xlen_ok_def RAM_BASE_ADDR_def RAM_SIZE_BYTES_def)
  show n: "unat (of_nat n :: u8) = n" using assms(3) by (simp add: unsigned_of_nat take_bit_nat_eq_self)
  have w: "8 < LENGTH('x)" "(0x88000000 :: nat) < 2 ^ LENGTH('x)" using assms(1) by (auto simp: xlen_ok_def)
  then have "unat (ucast (of_nat n :: u8) :: 'x word) = n" using n by (simp add: unat_ucast_up)
  then have "unat (addr + ucast (of_nat n :: u8)) = unat addr + n"
    using assms(5) w(2) by (simp add: unat_word_ariths)
  then show "ADDR_WITHIN_LEN addr (of_nat n) RAM_BASE_ADDR RAM_SIZE_BYTES"
    using assms(4,5) b e by (simp add: ADDR_WITHIN_LEN_def word_le_nat_alt)
  show "unat (addr - RAM_BASE_ADDR) = ram_offset addr"
    using assms(4) b by (simp add: unat_sub word_le_nat_alt)
qed

lemma machine_access:
  fixes c :: "('x::len, 'p) rv_core_td"
  assumes "xlen_ok TYPE('x)" "curr_priv_mode c = machine_mode" "\<not> bit (regs_data (c_trap c) shared_status) TRAP_XSTATUS_MPRV_BIT"
    "pmp_mem_check (c_pmp c) machine_mode addr n a = Inr rv_ok"
  shows "mmu_checked_bus_access bus c l a addr v n = res_bind (bus (c_priv c) machine_mode a addr v n)
    (\<lambda>(p, r, v). Inr (c\<lparr>c_priv := p\<rparr>, r, v))"
proof -
  have l: "check_mprv_override c a = machine_mode"
    using assms(2,3) unfolding check_mprv_override_def Let_def extractxlen_1 by simp
  have "ucast (ucast addr :: u64) = addr" using assms(1) by (auto simp: xlen_ok_def intro!: bit_eqI simp: bit_simps)
  then show ?thesis
    using assms(4) by (simp add: mmu_checked_bus_access_def Let_def l mmu_virt_to_phys_cases mmu_active_def pmp_checked_bus_access_def)
qed

lemma ram_read:
  assumes "ram_open c addr n" "length v = n"
  shows "mmu_checked_bus_access rv_soc_bus_access c l bus_read_access addr v (of_nat n) =
    Inr (c, rv_ok, mem_load (ram_cells c) (ram_offset addr) n)"
proof -
  note o = assms(1) [unfolded ram_open_def]
  then have h: "xlen_ok TYPE('a)" "0 < n" "n \<le> 8" "0x80000000 \<le> unat addr" "unat addr + n \<le> 0x88000000" by simp_all
  have "of_nat n \<noteq> (0 :: u8)" using ram_hit(3) [OF h] h(2) by (metis unat_0 less_irrefl)
  moreover have "splice v 0 (mem_load (ram_cells c) (ram_offset addr) n) = mem_load (ram_cells c) (ram_offset addr) n"
    using assms(2) by (simp add: splice_def)
  ultimately show ?thesis
    using o ram_hit [OF h] assms(2)
    by (subst machine_access) (auto simp: rv_soc_bus_access_def memory_bus_access_def ram_cells_def)
qed

lemma ram_write:
  assumes "ram_open c addr n" "n \<le> length v"
  shows "mmu_checked_bus_access rv_soc_bus_access c l bus_write_access addr v (of_nat n) =
    Inr (set_ram (mem_store (ram_cells c) (ram_offset addr) (take n v)) c, rv_ok, v)"
proof -
  note o = assms(1) [unfolded ram_open_def]
  then have h: "xlen_ok TYPE('a)" "0 < n" "n \<le> 8" "0x80000000 \<le> unat addr" "unat addr + n \<le> 0x88000000" by simp_all
  have "of_nat n \<noteq> (0 :: u8)" using ram_hit(3) [OF h] h(2) by (metis unat_0 less_irrefl)
  then show ?thesis
    using o ram_hit [OF h] assms(2)
    by (subst machine_access) (auto simp: rv_soc_bus_access_def memory_bus_access_def ram_cells_def set_ram_def)
qed

section \<open>Loads and stores\<close>

lemma ram_open_set [simp]:
  "ram_open (set_ram m c) addr n \<longleftrightarrow> ram_open c addr n" "ram_open (c\<lparr>c_rd := r\<rparr>) addr n \<longleftrightarrow> ram_open c addr n"
  "ram_open (set_x r w c) addr n \<longleftrightarrow> ram_open c addr n" "ram_open (c\<lparr>lr_valid := b, lr_address := w\<rparr>) addr n \<longleftrightarrow> ram_open c addr n"
  by (simp_all add: ram_open_def set_ram_def set_x_def)

primrec mem_width :: "instr_mem \<Rightarrow> nat" where
  "mem_width LB = 1" | "mem_width LH = 2" | "mem_width LW = 4" | "mem_width LBU = 1" | "mem_width LHU = 2" | "mem_width SB = 1"
| "mem_width SH = 2" | "mem_width SW = 4" | "mem_width LWU = 4" | "mem_width LD = 8" | "mem_width SD = 8"

text \<open>What a load makes of the value that a store of its width has left.\<close>

primrec load_ref :: "instr_mem \<Rightarrow> 'x::len word \<Rightarrow> 'x word" where
  "load_ref LB v = signed_take_bit 7 v" | "load_ref LH v = signed_take_bit 15 v" | "load_ref LW v = signed_take_bit 31 v"
| "load_ref LBU v = take_bit 8 v" | "load_ref LHU v = take_bit 16 v" | "load_ref LWU v = take_bit 32 v" | "load_ref LD v = v"
| "load_ref SB v = v" | "load_ref SH v = v" | "load_ref SW v = v" | "load_ref SD v = v"

definition is_store :: "instr_mem \<Rightarrow> bool" where
  "is_store i \<longleftrightarrow> i \<in> {SB, SH, SW, SD}"

definition mem_address :: "('x::len, 'p) rv_core_td \<Rightarrow> 'x word" where
  "mem_address c = c_x c (c_rs1 c) + SIGNEX_BIT 11 (c_immediate c)"

text \<open>The instructions of 64 bits exist on RV64 only.\<close>

definition mem_in_build :: "'x::len itself \<Rightarrow> instr_mem \<Rightarrow> bool" where
  "mem_in_build _ i \<longleftrightarrow> xlen_ok TYPE('x) \<and> (i \<in> {LWU, LD, SD} \<longrightarrow> LENGTH('x) = 64)"

lemma take_bytes_of: "k \<le> n \<Longrightarrow> take k (bytes_of n v) = bytes_of k v"
  by (auto intro!: nth_equalityI simp: nth_bytes_of)

lemma bytes_of_ucast: "8 * n \<le> LENGTH('a::len) \<Longrightarrow> bytes_of n (ucast (v :: 'x::len word) :: 'a word) = bytes_of n v"
  by (auto intro!: nth_equalityI bit_word_eqI simp: nth_bytes_of bit_simps)

lemma word_of_bytes_of_ucast:
  "8 * n = LENGTH('a::len) \<Longrightarrow> (word_of_bytes (bytes_of n (v :: 'x::len word)) :: 'a word) = ucast v"
  using word_of_bytes_of_full [of n "ucast v :: 'a word"] bytes_of_ucast [where 'a = 'a, of n v] by simp

text \<open>The conversions of the loads, on the bytes of a register.\<close>

lemma load_conversions:
  fixes v :: "'x::len word"
  assumes "xlen_ok TYPE('x)"
  shows "SIGNEX_BIT 7 (ucast (ucast v :: u8)) = signed_take_bit 7 v" "SIGNEX_BIT 15 (ucast (ucast v :: u16)) = signed_take_bit 15 v"
    "scast (ucast v :: u32) = signed_take_bit 31 v" "(ucast (ucast v :: u8) :: 'x word) = take_bit 8 v"
    "(ucast (ucast v :: u16) :: 'x word) = take_bit 16 v" "(ucast (ucast v :: u32) :: 'x word) = take_bit 32 v"
  using assms by (auto simp: xlen_ok_def SIGNEX_BIT_def intro!: bit_eqI) (auto simp: bit_simps min_def)

lemma load_ram:
  fixes c :: "('x::len, 'x rv_soc_dev) rv_core_td"
  assumes "ram_open c (mem_address c) (mem_width i)" "mem_in_build TYPE('x) i" "\<not> is_store i"
    "mem_load (ram_cells c) (ram_offset (mem_address c)) (mem_width i) = bytes_of (mem_width i) v"
  shows "exec_mem i rv_soc_bus_access c = Inr (set_x (c_rd c) (load_ref i v) c)"
proof -
  have x: "xlen_ok TYPE('x)" using assms(2) by (simp add: mem_in_build_def)
  have l: "load_to rv_soc_bus_access n f c = Inr (set_x (c_rd c) (f (bytes_of n v)) c)" if "n = mem_width i" for n f
    using ram_read [OF assms(1), of "replicate n 0" "curr_priv_mode c"] that assms(4)
    by (simp add: load_to_def Let_def mem_address_def)
  show ?thesis
    using assms(2,3) load_conversions [OF x, of v]
    by (cases i) (auto simp: instr_LB_def instr_LH_def instr_LW_def instr_LBU_def instr_LHU_def instr_LWU_def instr_LD_def l
      word_of_bytes_of_ucast is_store_def mem_in_build_def)
qed

lemma store_ram:
  fixes c :: "('x::len, 'x rv_soc_dev) rv_core_td"
  assumes "ram_open c (mem_address c) (mem_width i)" "mem_in_build TYPE('x) i" "is_store i"
  shows "exec_mem i rv_soc_bus_access c =
    Inr (set_ram (mem_store (ram_cells c) (ram_offset (mem_address c)) (bytes_of (mem_width i) (c_x c (c_rs2 c)))) c)"
proof -
  have s: "store_from rv_soc_bus_access n buf c =
      Inr (set_ram (mem_store (ram_cells c) (ram_offset (mem_address c)) (take n buf)) c)" if "n = mem_width i" "n \<le> length buf" for n buf
    using ram_write [OF assms(1), of buf "curr_priv_mode c"] that by (simp add: store_from_def Let_def mem_address_def)
  have "4 \<le> XLEN_BYTES TYPE('x)" "LENGTH('x) = 64 \<Longrightarrow> XLEN_BYTES TYPE('x) = 8"
    using assms(2) by (auto simp: mem_in_build_def xlen_ok_def XLEN_BYTES_def)
  then show ?thesis
    using assms(2,3) by (cases i) (auto simp: instr_SB_def instr_SH_def instr_SW_def instr_SD_def s is_store_def take_bytes_of bytes_of_ucast
      mem_in_build_def)
qed

section \<open>Atomic instructions\<close>

text \<open>The new value of the memory word, from its old value and the operand, as integers.\<close>

primrec amo_ref :: "instr_amo \<Rightarrow> 'a::len word \<Rightarrow> 'a word \<Rightarrow> 'a word" where
  "amo_ref AMOSWAP m b = b"
| "amo_ref AMOADD m b = word_of_int (uint m + uint b)"
| "amo_ref AMOXOR m b = m XOR b"
| "amo_ref AMOAND m b = m AND b"
| "amo_ref AMOOR m b = m OR b"
| "amo_ref AMOMIN m b = word_of_int (min (sint m) (sint b))"
| "amo_ref AMOMAX m b = word_of_int (max (sint m) (sint b))"
| "amo_ref AMOMINU m b = word_of_int (min (uint m) (uint b))"
| "amo_ref AMOMAXU m b = word_of_int (max (uint m) (uint b))"
| "amo_ref LR m b = m"
| "amo_ref SC m b = b"

definition amo_rmw :: "instr_amo \<Rightarrow> bool" where
  "amo_rmw i \<longleftrightarrow> i \<notin> {LR, SC}"

lemma amo_ref_words:
  "amo_ref AMOADD m b = m + b"
  "amo_ref AMOMIN m b = (if sint m < sint b then m else b)" "amo_ref AMOMAX m b = (if sint m > sint b then m else b)"
  "amo_ref AMOMINU m b = (if m < b then m else b)" "amo_ref AMOMAXU m b = (if m > b then m else b)"
proof -
  show "amo_ref AMOADD m b = m + b" by (simp add: wi_hom_add)
  show "amo_ref AMOMIN m b = (if sint m < sint b then m else b)" by (simp add: not_less min_absorb1 min_absorb2)
  show "amo_ref AMOMAX m b = (if sint m > sint b then m else b)" by (simp add: not_less max_absorb1 max_absorb2)
  show "amo_ref AMOMINU m b = (if m < b then m else b)" by (simp add: word_less_def not_less min_absorb1 min_absorb2)
  show "amo_ref AMOMAXU m b = (if m > b then m else b)" by (simp add: word_less_def not_less max_absorb1 max_absorb2)
qed

lemma amo_body_ram:
  assumes o: "ram_open c (c_x c (c_rs1 c)) n"
    and ld: "ld c = Inr (set_x (c_rd c) w c)"
    and f: "take n (f w (c_x c (c_rs2 c))) = bs" "n \<le> length (f w (c_x c (c_rs2 c)))"
  shows "amo_body n ld f rv_soc_bus_access c =
    Inr (set_ram (mem_store (ram_cells c) (ram_offset (c_x c (c_rs1 c))) bs) (set_x (c_rd c) w c))"
proof -
  have "ram_cells (set_x (c_rd c) w c) = ram_cells c" by (simp add: ram_cells_def set_x_def)
  moreover have "c_x (set_x (c_rd c) w c) (c_rd c) = w" "c_rd (set_x (c_rd c) w c) = c_rd c" by (simp_all add: set_x_def)
  ultimately show ?thesis
    using ram_write [of "set_x (c_rd c) w c" "c_x c (c_rs1 c)" n "f w (c_x c (c_rs2 c))" "curr_priv_mode (set_x (c_rd c) w c)"] o f
    by (simp add: amo_body_def ld)
qed

lemma bit_scast_low: "k < LENGTH('a::len) \<Longrightarrow> k < LENGTH('x::len) \<Longrightarrow> bit (scast (v :: 'a word) :: 'x word) k \<longleftrightarrow> bit v k"
  by (cases "k = LENGTH('a) - 1") (auto simp: bit_simps min_def)

lemma bytes_of_scast: "8 * n \<le> LENGTH('a::len) \<Longrightarrow> LENGTH('a) \<le> LENGTH('x) \<Longrightarrow> bytes_of n (scast (v :: 'a word) :: 'x::len word) = bytes_of n v"
  by (auto intro!: nth_equalityI bit_word_eqI simp: nth_bytes_of bit_ucast_iff bit_drop_bit_eq bit_scast_low)

lemma bytes_of_ucast_up: "8 * n \<le> LENGTH('a::len) \<Longrightarrow> LENGTH('a) \<le> LENGTH('x) \<Longrightarrow> bytes_of n (ucast (v :: 'a word) :: 'x::len word) = bytes_of n v"
  by (auto intro!: nth_equalityI bit_word_eqI simp: nth_bytes_of bit_simps)

lemma amo_w_ram:
  fixes c :: "('x::len, 'x rv_soc_dev) rv_core_td"
  assumes o: "ram_open c (c_x c (c_rs1 c)) 4" and imm: "c_immediate c = 0" and i: "amo_rmw i"
    and m: "mem_load (ram_cells c) (ram_offset (c_x c (c_rs1 c))) 4 = bytes_of 4 (m :: u32)"
  shows "exec_amo_w i rv_soc_bus_access c = Inr (set_ram (mem_store (ram_cells c) (ram_offset (c_x c (c_rs1 c)))
      (bytes_of 4 (amo_ref i m (ucast (c_x c (c_rs2 c)))))) (set_x (c_rd c) (scast m) c))"
proof -
  have x: "xlen_ok TYPE('x)" using o by (simp add: ram_open_def)
  then have l: "32 \<le> LENGTH('x)" "4 \<le> XLEN_BYTES TYPE('x)" by (auto simp: xlen_ok_def XLEN_BYTES_def)
  have addr: "mem_address c = c_x c (c_rs1 c)" by (simp add: mem_address_def imm SIGNEX_BIT_def)
  have u: "(ucast (scast m :: 'x word) :: u32) = m" using l by (auto intro!: bit_word_eqI simp: bit_ucast_iff bit_scast_low)
  have "mem_load (ram_cells c) (ram_offset (mem_address c)) 4 = bytes_of 4 (scast m :: 'x word)"
    using m l(1) by (simp add: addr bytes_of_scast)
  then have "exec_mem LW rv_soc_bus_access c = Inr (set_x (c_rd c) (load_ref LW (scast m)) c)"
    using o x by (intro load_ram) (simp_all add: addr mem_in_build_def is_store_def)
  moreover have "signed_take_bit 31 (scast m :: 'x word) = scast m" using l by (auto intro!: bit_eqI simp: bit_simps min_def)
  ultimately have ld: "instr_LW rv_soc_bus_access c = Inr (set_x (c_rd c) (scast m) c)" by simp
  note body = amo_body_ram [where n = 4 and c = c and ld = "instr_LW rv_soc_bus_access", OF o ld]
  show ?thesis
    using i l unfolding amo_rmw_def
    by (cases i) (simp_all add: instr_AMOSWAP_W_def instr_AMOADD_W_def instr_AMOXOR_W_def instr_AMOAND_W_def instr_AMOOR_W_def
      instr_AMOMIN_W_def instr_AMOMAX_W_def instr_AMOMINU_W_def instr_AMOMAXU_W_def body u amo_ref_words take_bytes_of
      bytes_of_scast bytes_of_ucast_up del: amo_ref.simps(2,6-9))
qed

lemma lr_sc_ram:
  fixes c :: "('x::len, 'x rv_soc_dev) rv_core_td"
  assumes o: "ram_open c (c_x c (c_rs1 c)) 4" and imm: "c_immediate c = 0"
  shows "mem_load (ram_cells c) (ram_offset (c_x c (c_rs1 c))) 4 = bytes_of 4 (m :: u32) \<Longrightarrow>
      exec_amo_w LR rv_soc_bus_access c = Inr (set_x (c_rd c) (scast m) (c\<lparr>lr_valid := True, lr_address := c_x c (c_rs1 c)\<rparr>))"
    and "lr_valid c \<and> lr_address c = c_x c (c_rs1 c) \<Longrightarrow> exec_amo_w SC rv_soc_bus_access c =
      Inr ((set_ram (mem_store (ram_cells c) (ram_offset (c_x c (c_rs1 c))) (bytes_of 4 (c_x c (c_rs2 c)))) (set_x (c_rd c) 0 c))
        \<lparr>lr_valid := False, lr_address := 0\<rparr>)"
proof -
  have x: "xlen_ok TYPE('x)" using o by (simp add: ram_open_def)
  then have l: "32 \<le> LENGTH('x)" by (auto simp: xlen_ok_def)
  have addr: "mem_address c = c_x c (c_rs1 c)" by (simp add: mem_address_def imm SIGNEX_BIT_def)
  let ?d = "c\<lparr>lr_valid := True, lr_address := c_x c (c_rs1 c)\<rparr>"
  show "exec_amo_w LR rv_soc_bus_access c = Inr (set_x (c_rd c) (scast m) ?d)"
    if m: "mem_load (ram_cells c) (ram_offset (c_x c (c_rs1 c))) 4 = bytes_of 4 m"
  proof -
    have a: "mem_address ?d = mem_address c" "ram_cells ?d = ram_cells c" by (simp_all add: mem_address_def ram_cells_def)
    have "mem_load (ram_cells ?d) (ram_offset (mem_address ?d)) 4 = bytes_of 4 (scast m :: 'x word)"
      using m l unfolding a addr by (simp add: bytes_of_scast)
    then have "exec_mem LW rv_soc_bus_access ?d = Inr (set_x (c_rd ?d) (load_ref LW (scast m)) ?d)"
      using o x unfolding a addr by (intro load_ram) (simp_all add: a addr mem_in_build_def is_store_def)
    moreover have "signed_take_bit 31 (scast m :: 'x word) = scast m" using l by (auto intro!: bit_eqI simp: bit_simps min_def)
    moreover have d: "c\<lparr>lr_address := c_x c (c_rs1 c), lr_valid := True\<rparr> = ?d" by simp
    ultimately show ?thesis by (simp add: instr_LR_W_def d del: rv_core_td.update_convs)
  qed
  have "exec_mem SW rv_soc_bus_access c =
    Inr (set_ram (mem_store (ram_cells c) (ram_offset (c_x c (c_rs1 c))) (bytes_of 4 (c_x c (c_rs2 c)))) c)"
    using store_ram [of c SW] o x by (simp add: addr mem_in_build_def is_store_def)
  then show "exec_amo_w SC rv_soc_bus_access c =
      Inr ((set_ram (mem_store (ram_cells c) (ram_offset (c_x c (c_rs1 c))) (bytes_of 4 (c_x c (c_rs2 c)))) (set_x (c_rd c) 0 c))
        \<lparr>lr_valid := False, lr_address := 0\<rparr>)" if "lr_valid c \<and> lr_address c = c_x c (c_rs1 c)"
    using that by (simp add: instr_SC_W_def set_ram_def set_x_def)
qed

lemma store_load_ram:
  fixes c :: "('x::len, 'x rv_soc_dev) rv_core_td"
  assumes o: "ram_open c (mem_address c) (mem_width st)"
    and i: "is_store st" "\<not> is_store ld" "mem_width ld = mem_width st" "mem_in_build TYPE('x) st" "mem_in_build TYPE('x) ld"
  shows "\<exists>d. exec_mem st rv_soc_bus_access c = Inr d \<and>
    exec_mem ld rv_soc_bus_access (d\<lparr>c_rd := r\<rparr>) = Inr (set_x r (load_ref ld (c_x c (c_rs2 c))) (d\<lparr>c_rd := r\<rparr>)) \<and>
    c_x d = c_x c \<and> (\<forall>k. k < ram_offset (mem_address c) \<or> ram_offset (mem_address c) + mem_width st \<le> k \<longrightarrow> ram_cells d k = ram_cells c k)"
proof -
  let ?o = "ram_offset (mem_address c)" and ?v = "c_x c (c_rs2 c)"
  let ?d = "set_ram (mem_store (ram_cells c) ?o (bytes_of (mem_width st) ?v)) c"
  have a: "mem_address (?d\<lparr>c_rd := r\<rparr>) = mem_address c" "ram_cells (?d\<lparr>c_rd := r\<rparr>) = ram_cells ?d" "c_rd (?d\<lparr>c_rd := r\<rparr>) = r"
    by (simp_all add: mem_address_def set_ram_def ram_cells_def)
  have "mem_load (ram_cells (?d\<lparr>c_rd := r\<rparr>)) ?o (mem_width ld) = bytes_of (mem_width ld) ?v"
    unfolding a using i(3) by (simp add: mem_load_store_same)
  then have "exec_mem ld rv_soc_bus_access (?d\<lparr>c_rd := r\<rparr>) = Inr (set_x r (load_ref ld ?v) (?d\<lparr>c_rd := r\<rparr>))"
    using load_ram [of "?d\<lparr>c_rd := r\<rparr>" ld ?v] o i unfolding a by simp
  moreover have "c_x ?d = c_x c" by (simp add: set_ram_def)
  ultimately show ?thesis
    using store_ram [OF o i(4,1)] by (intro exI [of _ ?d]) (auto simp: mem_store_outside)
qed

section \<open>Properties\<close>

definition ram_example_core :: "(32, 32 rv_soc_dev) rv_core_td" where
  "ram_example_core = (rv_core0 timer_example_soc)\<lparr>c_immediate := 0\<rparr>"

lemma ram_example_open: "n \<in> {1, 2, 4} \<Longrightarrow> ram_open ram_example_core 0x80000000 n"
proof -
  have p: "pmp_mem_check (pmp_zero :: 32 pmp_td) machine_mode 0x80000000 n a = Inr rv_ok"
    if "n \<in> {1, 2, 4}" "a \<in> {bus_read_access, bus_write_access}" for n a
    using that by (elim insertE; simp only: empty_iff) (code_simp)+
  show "n \<in> {1, 2, 4} \<Longrightarrow> ?thesis"
    using p [of "of_nat n"]
    by (auto simp: ram_open_def ram_example_core_def timer_example_soc_def timer_example_core_def example_core_def timer_example_dev_def
      xlen_ok_def trap_init_def TRAP_XSTATUS_MPRV_BIT_def soc_regions_def zero_mem_def)
qed

lemma ram_example_fields: "c_x ram_example_core 2 = 0x80000000" "c_x ram_example_core 3 = 0xFFFFFFFF" "c_rs1 ram_example_core = 2"
    "c_rs2 ram_example_core = 3" "c_rd ram_example_core = 1" "c_immediate ram_example_core = 0" "mem_address ram_example_core = 0x80000000"
    "ram_cells ram_example_core k = 0" "lr_valid ram_example_core = False"
  by (simp_all add: ram_example_core_def timer_example_soc_def timer_example_core_def example_core_def mem_address_def SIGNEX_BIT_def
    ram_cells_def timer_example_dev_def zero_mem_def)

text \<open>
  C21. A store to RAM followed by a load of the same width from the same address gives back the stored value, reduced to the width
  and extended by sign or by zeros as the load says; no other byte of RAM changes, and no register but the
  destination of the load.
\<close>

theorem ram_store_load_round_trip:
  fixes c :: "('x::len, 'x rv_soc_dev) rv_core_td"
  assumes "ram_open c (mem_address c) (mem_width st)" "is_store st" "\<not> is_store ld" "mem_width ld = mem_width st"
    "mem_in_build TYPE('x) st" "mem_in_build TYPE('x) ld"
  shows "\<exists>d. exec_mem st rv_soc_bus_access c = Inr d \<and>
    exec_mem ld rv_soc_bus_access (d\<lparr>c_rd := r\<rparr>) = Inr (set_x r (load_ref ld (c_x c (c_rs2 c))) (d\<lparr>c_rd := r\<rparr>)) \<and>
    c_x d = c_x c \<and> (\<forall>k. k < ram_offset (mem_address c) \<or> ram_offset (mem_address c) + mem_width st \<le> k \<longrightarrow> ram_cells d k = ram_cells c k)"
  using assms by (rule store_load_ram)

theorem ram_store_load_round_trip_witness:
  "\<exists>d e. exec_mem SH rv_soc_bus_access ram_example_core = Inr d \<and> exec_mem LHU rv_soc_bus_access (d\<lparr>c_rd := 5\<rparr>) = Inr e \<and> c_x e 5 = 0xFFFF"
proof -
  have "ram_open ram_example_core (mem_address ram_example_core) (mem_width SH)"
    using ram_example_open [of 2] by (simp add: ram_example_fields)
  from ram_store_load_round_trip [OF this, of LHU 5] show ?thesis
    by (auto simp: is_store_def mem_in_build_def xlen_ok_def ram_example_fields set_x_def)
qed

text \<open>
  C22. An atomic read-modify-write instruction on a word of RAM writes \<open>rd\<close> with the sign-extended old value and the word with the result that the
  reference gives for the old value and \<open>rs2\<close> (also when \<open>rd\<close> is \<open>rs2\<close> or \<open>rs1\<close>), and changes no other byte.
\<close>

theorem amo_word_reference:
  fixes c :: "('x::len, 'x rv_soc_dev) rv_core_td"
  assumes "ram_open c (c_x c (c_rs1 c)) 4" "c_immediate c = 0" "amo_rmw i"
    and "mem_load (ram_cells c) (ram_offset (c_x c (c_rs1 c))) 4 = bytes_of 4 (m :: u32)"
  shows "exec_amo_w i rv_soc_bus_access c = Inr (set_ram (mem_store (ram_cells c) (ram_offset (c_x c (c_rs1 c)))
      (bytes_of 4 (amo_ref i m (ucast (c_x c (c_rs2 c)))))) (set_x (c_rd c) (scast m) c))"
  using assms by (rule amo_w_ram)

theorem amo_word_reference_witness:
  "\<exists>d. exec_amo_w AMOMINU rv_soc_bus_access ram_example_core = Inr d \<and> c_x d 1 = 0 \<and> mem_load (ram_cells d) 0 4 = bytes_of 4 (0 :: u32)"
proof -
  have o: "ram_open ram_example_core (c_x ram_example_core (c_rs1 ram_example_core)) 4"
    using ram_example_open [of 4] by (simp add: ram_example_fields)
  have m: "mem_load (ram_cells ram_example_core) (ram_offset (c_x ram_example_core (c_rs1 ram_example_core))) 4 = bytes_of 4 (0 :: u32)"
    by (auto intro!: nth_equalityI simp: mem_load_def ram_example_fields nth_bytes_of)
  from amo_word_reference [OF o _ _ m, of AMOMINU]
  show ?thesis by (auto simp: amo_rmw_def ram_example_fields mem_load_store_same) (simp add: set_ram_def set_x_def)
qed

text \<open>
  C23. Load-reserved and store-conditional: \<open>LR.W\<close> reads the word and reserves its address; \<open>SC.W\<close> with a reservation of its
  address stores the word and gives zero; without one it gives one and reaches no bus; after either there is no reservation.
\<close>

theorem load_reserved_store_conditional:
  fixes c :: "('x::len, 'x rv_soc_dev) rv_core_td"
  assumes "ram_open c (c_x c (c_rs1 c)) 4" "c_immediate c = 0"
    and "mem_load (ram_cells c) (ram_offset (c_x c (c_rs1 c))) 4 = bytes_of 4 (m :: u32)"
  shows "exec_amo_w LR rv_soc_bus_access c = Inr (set_x (c_rd c) (scast m) (c\<lparr>lr_valid := True, lr_address := c_x c (c_rs1 c)\<rparr>)) \<and>
    (if lr_valid c \<and> lr_address c = c_x c (c_rs1 c)
     then exec_amo_w SC rv_soc_bus_access c =
       Inr ((set_ram (mem_store (ram_cells c) (ram_offset (c_x c (c_rs1 c))) (bytes_of 4 (c_x c (c_rs2 c)))) (set_x (c_rd c) 0 c))
         \<lparr>lr_valid := False, lr_address := 0\<rparr>)
     else \<forall>bus. exec_amo_w SC bus c = Inr ((set_x (c_rd c) 1 c)\<lparr>lr_valid := False, lr_address := 0\<rparr>))"
  using lr_sc_ram [OF assms(1,2)] assms(3) by (auto simp: instr_SC_W_def)

theorem load_reserved_store_conditional_witness:
  "\<exists>d. exec_amo_w SC rv_soc_bus_access ram_example_core = Inr d \<and> c_x d 1 = 1"
proof -
  have o: "ram_open ram_example_core (c_x ram_example_core (c_rs1 ram_example_core)) 4"
    using ram_example_open [of 4] by (simp add: ram_example_fields)
  have m: "mem_load (ram_cells ram_example_core) (ram_offset (c_x ram_example_core (c_rs1 ram_example_core))) 4 = bytes_of 4 (0 :: u32)"
    by (auto intro!: nth_equalityI simp: mem_load_def ram_example_fields nth_bytes_of)
  from load_reserved_store_conditional [OF o _ m] show ?thesis by (simp add: ram_example_fields) (simp add: set_x_def)
qed

text \<open>
  An access whose last byte lies at or beyond the top of the address space passes the comparison of the region table, whose sum of
  address and length wraps around, for the first region, the RAM, and ends outside the RAM array.
\<close>

theorem bus_access_wraps_out_of_ram:
  fixes d :: "'x::len rv_soc_dev"
  assumes "xlen_ok TYPE('x)" "0 < n" "n \<le> 8" "2 ^ LENGTH('x) \<le> unat addr + unat n"
    and "mem_access_cbs d = soc_regions simple" "mem_len (soc_ram d) = 0x8000000"
  shows "rv_soc_bus_access d l a addr v n = Inl OutOfBounds"
proof -
  have b: "unat (RAM_BASE_ADDR :: 'x word) = 0x80000000" by (rule unat_RAM_BASE [OF assms(1)])
  have e: "unat (RAM_BASE_ADDR + RAM_SIZE_BYTES :: 'x word) = 0x88000000"
    using assms(1) by (auto simp: xlen_ok_def RAM_BASE_ADDR_def RAM_SIZE_BYTES_def)
  have n8: "unat n \<le> 8" using assms(3) by (simp add: word_le_nat_alt)
  have L: "2 ^ LENGTH('x) \<ge> (0x100000000 :: nat)" "8 < LENGTH('x)" using assms(1) by (auto simp: xlen_ok_def)
  have a: "unat addr < 2 ^ LENGTH('x)" by (rule unsigned_less)
  have "unat (ucast n :: 'x word) = unat n" using L by (simp add: unat_ucast_up)
  then have "unat (addr + ucast n) = (unat addr + unat n) mod 2 ^ LENGTH('x)" by (simp add: unat_word_ariths)
  also have "\<dots> = unat addr + unat n - 2 ^ LENGTH('x)"
  proof -
    have "unat addr + unat n - 2 ^ LENGTH('x) < 2 ^ LENGTH('x)" using a n8 L by linarith
    then show ?thesis using assms(4) by (simp only: le_mod_geq mod_less)
  qed
  finally have w: "unat (addr + ucast n) \<le> 8" "0x80000000 \<le> unat addr" "8 < unat addr - 0x80000000 - 0x70000000"
    using a assms(4) n8 L by linarith+
  then have "ADDR_WITHIN_LEN addr n RAM_BASE_ADDR RAM_SIZE_BYTES" "unat (addr - RAM_BASE_ADDR) = unat addr - 0x80000000"
    using w b e by (simp_all add: ADDR_WITHIN_LEN_def word_le_nat_alt unat_sub)
  moreover have "n \<noteq> 0" using assms(2) by (simp add: word_gt_0)
  ultimately show ?thesis
    using assms(5,6) w(3) by (simp add: rv_soc_bus_access_def soc_regions_def memory_bus_access_def)
qed

theorem bus_access_wraps_out_of_ram_witness:
  "rv_soc_bus_access (c_priv (rv_core0 timer_example_soc)) machine_mode bus_write_access 0xFFFFFFFC [0, 0, 0, 0] 4 = Inl OutOfBounds"
  using bus_access_wraps_out_of_ram [of 4 "0xFFFFFFFC :: u32" "c_priv (rv_core0 timer_example_soc)" True]
  by (simp add: xlen_ok_def timer_example_soc_def timer_example_core_def example_core_def timer_example_dev_def zero_mem_def)

end
