(* ===== verification/AccessFault.thy ===== *)
theory AccessFault
  imports CoreTrap RamAccess
begin

text \<open>
  Loads and stores that are refused, by the PMP or by the page tables, from the instruction to the first
  instruction of the handler: nothing is read or written, and the handler finds the cause, the address and the instruction.
\<close>

section \<open>A refused access\<close>

primrec access_fault :: "bus_access_type \<Rightarrow> trap_cause_exception" where
  "access_fault bus_instr_access = trap_cause_instr_access_fault"
| "access_fault bus_read_access = trap_cause_load_access_fault"
| "access_fault bus_write_access = trap_cause_store_amo_access_fault"

primrec page_fault :: "bus_access_type \<Rightarrow> trap_cause_exception" where
  "page_fault bus_instr_access = trap_cause_instr_page_fault"
| "page_fault bus_read_access = trap_cause_load_page_fault"
| "page_fault bus_write_access = trap_cause_store_amo_page_fault"

text \<open>
  The access is refused with the cause: with translation off, by the PMP; with translation on, by the page
  tables, which the walk has read without leaving a trace in the core.
\<close>

definition core_translate ::
  "('x::len, 'p) bus_access_func \<Rightarrow> ('x, 'p) rv_core_td \<Rightarrow> bus_access_type \<Rightarrow> 'x word
    \<Rightarrow> ('x mmu_td \<times> ('x, 'p) rv_core_td \<times> mmu_ret \<times> u64) res" where
  "core_translate bus c a addr =
     (let status = regs_data (c_trap c) shared_status
      in mmu_virt_to_phys (pmp_checked_bus_access bus) (c_mmu c) c (check_mprv_override c a) addr a
        (if CHECK_BIT status TRAP_XSTATUS_MXR_BIT then 1 else 0) (if CHECK_BIT status TRAP_XSTATUS_SUM_BIT then 1 else 0))"

definition refused ::
  "('x::len, 'p) bus_access_func \<Rightarrow> ('x, 'p) rv_core_td \<Rightarrow> bus_access_type \<Rightarrow> 'x word \<Rightarrow> nat \<Rightarrow> trap_cause_exception \<Rightarrow> bool" where
  "refused bus c a addr n cause \<longleftrightarrow>
     \<not> mmu_active (c_mmu c) (check_mprv_override c a) \<and>
       pmp_mem_check (c_pmp c) (check_mprv_override c a) addr (of_nat n) a = Inr rv_err \<and> cause = access_fault a \<or>
     mmu_active (c_mmu c) (check_mprv_override c a) \<and>
       core_translate bus c a addr = Inr (c_mmu c, c, mmu_page_fault, 0) \<and> cause = page_fault a"

lemma refused_access:
  fixes c :: "('x::len, 'p) rv_core_td"
  assumes "refused bus c a addr n cause" "xlen_ok TYPE('x)"
  shows "mmu_checked_bus_access bus c l a addr v (of_nat n) = Inr (prepare_sync_trap (exc_word cause) addr c, rv_err, v)"
proof -
  have u: "ucast (ucast addr :: u64) = addr" using assms(2) by (auto simp: xlen_ok_def intro!: bit_eqI simp: bit_simps)
  consider "\<not> mmu_active (c_mmu c) (check_mprv_override c a)"
      "pmp_mem_check (c_pmp c) (check_mprv_override c a) addr (of_nat n) a = Inr rv_err" "cause = access_fault a"
    | "core_translate bus c a addr = Inr (c_mmu c, c, mmu_page_fault, 0)" "cause = page_fault a"
    using assms(1) unfolding refused_def by blast
  then show ?thesis
  proof cases
    case 1
    then show ?thesis
      by (cases a) (simp_all add: mmu_checked_bus_access_def Let_def mmu_virt_to_phys_cases pmp_checked_bus_access_def u)
  next
    case 2
    then show ?thesis
      unfolding core_translate_def
      by (cases a) (simp_all add: mmu_checked_bus_access_def Let_def)
  qed
qed

definition mem_kind :: "instr_mem \<Rightarrow> bus_access_type" where
  "mem_kind i = (if is_store i then bus_write_access else bus_read_access)"

lemma refused_mem:
  fixes c :: "('x::len, 'p) rv_core_td"
  assumes "refused bus c (mem_kind i) (mem_address c) (mem_width i) cause" "xlen_ok TYPE('x)"
  shows "exec_mem i bus c = Inr (prepare_sync_trap (exc_word cause) (mem_address c) c)"
proof -
  have l: "load_to bus n f c = Inr (prepare_sync_trap (exc_word cause) (mem_address c) c)"
    if "n = mem_width i" "\<not> is_store i" for n f
    using refused_access [OF assms(1,2)] that by (simp add: load_to_def Let_def mem_address_def mem_kind_def)
  have s: "store_from bus n buf c = Inr (prepare_sync_trap (exc_word cause) (mem_address c) c)"
    if "n = mem_width i" "is_store i" for n buf
    using refused_access [OF assms(1,2)] that by (simp add: store_from_def Let_def mem_address_def mem_kind_def)
  show ?thesis
    by (cases i) (simp_all add: instr_LB_def instr_LH_def instr_LW_def instr_LBU_def instr_LHU_def instr_LWU_def instr_LD_def
      instr_SB_def instr_SH_def instr_SW_def instr_SD_def is_store_def l s)
qed

section \<open>The step and the handler\<close>

lemma decode_kept:
  assumes "rv_core_fetch bus (c\<lparr>c_next_pc := 0\<rparr>) = Inr (c0, rv_ok)" "rv_core_decode c0 = Inr c1"
  shows "c_pc c1 = c_pc c \<and> c_next_pc c1 = 0 \<and> curr_priv_mode c1 = curr_priv_mode c \<and> c_x c1 = c_x c"
  using fetch_frame [OF assms(1)] decode_same [OF assms(2)] by (simp add: core_same_def)

lemma refused_step:
  fixes c :: "('x::len, 'p) rv_core_td"
  assumes "rv_core_fetch bus (c\<lparr>c_next_pc := 0\<rparr>) = Inr (c0, rv_ok)" "rv_core_decode c0 = Inr c1" "execute_cb c1 = Some (i_mem i)"
    and "refused bus c1 (mem_kind i) (mem_address c1) (mem_width i) cause" "xlen_ok TYPE('x)" "\<not> sync_trap_pending c1"
  shows "\<exists>d. rv_core_run bus c = Inr d \<and> sync_trap_pending d \<and> sync_trap_cause d = exc_word cause \<and>
    sync_trap_tval d = mem_address c1 \<and> c_x d = (c_x c)(0 := 0) \<and> c_priv d = c_priv c1 \<and> c_pc d = c_pc c + 4 \<and>
    curr_priv_mode d = curr_priv_mode c \<and> c_trap d = c_trap c1"
proof -
  note k = decode_kept [OF assms(1,2)]
  have "rv_core_execute bus c1 = Inr (set_x 0 0 (prepare_sync_trap (exc_word cause) (mem_address c1) c1))"
    using refused_mem [OF assms(4,5)] assms(3) by (simp add: rv_core_execute_def)
  then show ?thesis
    using assms(1,2,6) k
    by (simp add: rv_core_run_def core_count_def core_advance_pc_def Let_def prepare_sync_trap_def set_x_def)
qed

lemma exc_word_code:
  assumes "32 \<le> LENGTH('x::len)"
  shows "unat (ucast (exc_word cause :: 'x word) :: u32) = exc_code cause" "exc_code cause < 31"
proof -
  show c: "exc_code cause < 31" by (cases cause) simp_all
  have "exc_code cause < 2 ^ 32" using c by simp
  moreover have "(2 :: nat) ^ 32 \<le> 2 ^ LENGTH('x)" using assms by (intro power_increasing) simp_all
  ultimately show "unat (ucast (exc_word cause :: 'x word) :: u32) = exc_code cause"
    using assms by (simp add: exc_word_def unsigned_ucast_eq unsigned_of_nat take_bit_word_eq_self unsigned_take_bit_eq min_def take_bit_nat_eq_self)
qed

text \<open>The handler of a refused access, at the level that the delegation registers choose.\<close>

lemma pending_keeps_exc:
  fixes t :: "'x::len trap_td"
  assumes "32 \<le> LENGTH('x)"
  shows "exc_target (trap_set_pending_bits mei mti msi t) cur k = exc_target t cur k"
    "get_priv_regs p = Some x \<Longrightarrow> regs_data (trap_set_pending_bits mei mti msi t) (x trap_reg_tvec) = regs_data t (x trap_reg_tvec)"
  using pending_bits_spec [OF assms, of mei mti msi t, THEN conjunct2]
  by (auto simp: exc_target_def get_priv_regs_def split: privilege_level.splits)

lemma refused_trap:
  fixes c :: "('x::len, 'p) rv_core_td"
  assumes "rv_core_fetch bus (c\<lparr>c_next_pc := 0\<rparr>) = Inr (c0, rv_ok)" "rv_core_decode c0 = Inr c1" "execute_cb c1 = Some (i_mem i)"
    and "refused bus c1 (mem_kind i) (mem_address c1) (mem_width i) cause" "xlen_ok TYPE('x)" "\<not> sync_trap_pending c1"
    and "proper_priv (curr_priv_mode c)"
  shows "\<exists>d e x. rv_core_run bus c = Inr d \<and> rv_core_process_interrupts mei mti msi d = Inr e \<and>
    get_priv_regs (curr_priv_mode e) = Some x \<and>
    curr_priv_mode e = exc_target (c_trap c1) (curr_priv_mode c) (exc_code cause) \<and>
    c_pc e = regs_data (c_trap c1) (x trap_reg_tvec) \<and>
    regs_data (c_trap e) (x trap_reg_epc) = c_pc c \<and>
    regs_data (c_trap e) (x trap_reg_cause) = exc_word cause \<and>
    regs_data (c_trap e) (x trap_reg_tval) = mem_address c1 \<and>
    c_x e = (c_x c)(0 := 0) \<and> c_priv e = c_priv c1 \<and> \<not> sync_trap_pending e"
proof -
  have l: "32 \<le> LENGTH('x)" using assms(5) by (rule xlen_ok_ge)
  obtain d where d: "rv_core_run bus c = Inr d" "sync_trap_pending d" "sync_trap_cause d = exc_word cause"
    "sync_trap_tval d = mem_address c1" "c_x d = (c_x c)(0 := 0)" "c_priv d = c_priv c1" "c_pc d = c_pc c + 4"
    "curr_priv_mode d = curr_priv_mode c" "c_trap d = c_trap c1"
    using refused_step [OF assms(1-6)] by blast
  define d' where "d' = rv_core_update_interrupts mei mti msi d"
  have d': "sync_trap_pending d'" "sync_trap_cause d' = exc_word cause" "sync_trap_tval d' = mem_address c1"
    "c_x d' = (c_x c)(0 := 0)" "c_priv d' = c_priv c1" "c_pc d' = c_pc c + 4" "curr_priv_mode d' = curr_priv_mode c"
    "c_trap d' = trap_set_pending_bits mei mti msi (c_trap c1)"
    using d by (simp_all add: d'_def rv_core_update_interrupts_def)
  have "unat (ucast (sync_trap_cause d') :: u32) = exc_code cause" "exc_code cause < 31"
    using exc_word_code [OF l, of cause] d' by simp_all
  then obtain e where e: "rv_core_prepare_interrupts d' = Inr (e, 1)" "\<not> sync_trap_pending e"
    "core_entered (exc_target (c_trap c1) (curr_priv_mode c) (exc_code cause)) False (exc_word cause) d' e"
    using exception_spec [of d' "exc_code cause"] assms(7) l d' by (auto simp: pending_keeps_exc [OF l])
  have "rv_core_process_interrupts mei mti msi d = Inr e" using e(1) by (simp add: rv_core_process_interrupts_def d'_def)
  moreover obtain x where "get_priv_regs (curr_priv_mode e) = Some x"
    "curr_priv_mode e = exc_target (c_trap c1) (curr_priv_mode c) (exc_code cause)"
    "c_pc e = regs_data (c_trap d') (x trap_reg_tvec)" "regs_data (c_trap e) (x trap_reg_epc) = c_pc d' - 4"
    "regs_data (c_trap e) (x trap_reg_cause) = exc_word cause" "regs_data (c_trap e) (x trap_reg_tval) = sync_trap_tval d'"
    "c_x e = c_x d'" "c_priv e = c_priv d'"
    using e(3) unfolding core_entered_def by auto
  ultimately show ?thesis using d(1) d' e(2) pending_keeps_exc(2) [OF l] by auto
qed

text \<open>
  C17. Refused loads and stores. When the instruction that is fetched and decoded is a load or a store whose address the PMP
  (translation off) or the page tables (translation on) refuse, the iteration touches neither memory and devices nor
  the registers; the core enters the handler of the level that the delegation registers choose, with the cause of
  the refusal, the address that the instruction asked for, and the address of the instruction.
\<close>

theorem refused_access_trap:
  fixes c :: "('x::len, 'p) rv_core_td"
  assumes "rv_core_fetch bus (c\<lparr>c_next_pc := 0\<rparr>) = Inr (c0, rv_ok)" "rv_core_decode c0 = Inr c1" "execute_cb c1 = Some (i_mem i)"
    and "refused bus c1 (mem_kind i) (mem_address c1) (mem_width i) cause" "xlen_ok TYPE('x)" "\<not> sync_trap_pending c1"
    and "proper_priv (curr_priv_mode c)"
  shows "\<exists>d e x. rv_core_run bus c = Inr d \<and> rv_core_process_interrupts mei mti msi d = Inr e \<and>
    get_priv_regs (curr_priv_mode e) = Some x \<and>
    curr_priv_mode e = exc_target (c_trap c1) (curr_priv_mode c) (exc_code cause) \<and>
    c_pc e = regs_data (c_trap c1) (x trap_reg_tvec) \<and>
    regs_data (c_trap e) (x trap_reg_epc) = c_pc c \<and>
    regs_data (c_trap e) (x trap_reg_cause) = exc_word cause \<and>
    regs_data (c_trap e) (x trap_reg_tval) = mem_address c1 \<and>
    c_x e = (c_x c)(0 := 0) \<and> c_priv e = c_priv c1 \<and> \<not> sync_trap_pending e"
  using assms by (rule refused_trap)

text \<open>
  A machine-mode core with a locked PMP entry that forbids the word at \<open>0x80000000\<close>, about to execute \<open>lw x1, 0(x2)\<close>.
\<close>

definition locked_pmp :: "32 pmp_td" where
  "locked_pmp = pmp_zero\<lparr>pmp_cfg := 0x90 # replicate 15 0, pmp_addr := 0x20000000 # replicate 15 0\<rparr>"

definition refused_example_core :: "(32, unit) rv_core_td" where
  "refused_example_core = (example_core ())\<lparr>c_pmp := locked_pmp, c_trap := trap_put m_tvec 0x100 trap_init\<rparr>"

lemma refused_example_pmp:
  "pmp_mem_check locked_pmp machine_mode 0x1000 4 bus_instr_access = Inr rv_ok"
  "pmp_mem_check locked_pmp machine_mode 0x80000000 4 bus_read_access = Inr rv_err"
  by code_simp+

lemma refused_example_bytes: "bytes_of 4 (0x00012083 :: u32) = [0x83, 0x20, 1, 0]" "word_of_bytes [0x83, 0x20, 1, 0] = (0x00012083 :: u32)"
  by code_simp+

lemma refused_example:
  obtains c1 where
    "rv_core_fetch (rom_bus 0x00012083) (refused_example_core\<lparr>c_next_pc := 0\<rparr>) = Inr (refused_example_core\<lparr>c_instruction := 0x00012083\<rparr>, rv_ok)"
    "rv_core_decode (refused_example_core\<lparr>c_instruction := 0x00012083\<rparr>) = Inr c1"
    "execute_cb c1 = Some (i_mem LW)" "mem_address c1 = 0x80000000" "refused (rom_bus 0x00012083) c1 bus_read_access 0x80000000 4 trap_cause_load_access_fault"
    "\<not> sync_trap_pending c1" "c_trap c1 = trap_put m_tvec 0x100 trap_init"
proof -
  let ?c0 = "refused_example_core\<lparr>c_instruction := 0x00012083\<rparr>"
  have fe: "rv_core_fetch (rom_bus 0x00012083) (refused_example_core\<lparr>c_next_pc := 0\<rparr>) = Inr (?c0, rv_ok)"
    using refused_example_pmp(1) refused_example_bytes
    by (simp add: rv_core_fetch_def mmu_checked_bus_access_def Let_def check_mprv_override_def mmu_virt_to_phys_cases mmu_active_def
      XLEN_BYTES_def pmp_checked_bus_access_def refused_example_core_def example_core_def rom_bus_def fetch_store_def)
  have "map_sum id (\<lambda>d. (execute_cb d, c_rs1 d, c_immediate d)) (rv_core_decode ?c0) = Inr (Some (i_mem LW), 2, 0)"
    by code_simp
  then obtain d where d: "rv_core_decode ?c0 = Inr d" "execute_cb d = Some (i_mem LW)" "c_rs1 d = 2" "c_immediate d = 0"
    by (cases "rv_core_decode ?c0") auto
  have s: "c_x d = c_x ?c0" "c_pmp d = locked_pmp" "c_mmu d = mmu_init" "c_trap d = trap_put m_tvec 0x100 trap_init"
    "curr_priv_mode d = machine_mode" "\<not> sync_trap_pending d"
    using decode_same [OF d(1)] by (simp_all add: core_same_def refused_example_core_def example_core_def)
  have a: "mem_address d = 0x80000000"
    using d(3,4) s(1) by (simp add: mem_address_def refused_example_core_def example_core_def SIGNEX_BIT_def)
  have l: "check_mprv_override d bus_read_access = machine_mode"
    using s(4,5) by (simp add: check_mprv_override_def Let_def extractxlen_def trap_init_def)
  have "refused (rom_bus 0x00012083) d bus_read_access 0x80000000 4 trap_cause_load_access_fault"
    using refused_example_pmp(2) s(2,3) l by (simp add: refused_def mmu_active_def)
  then show thesis using that fe d a s by blast
qed

theorem refused_access_trap_witness:
  "\<exists>d e. rv_core_run (rom_bus 0x00012083) refused_example_core = Inr d \<and> rv_core_process_interrupts 0 0 0 d = Inr e \<and>
     curr_priv_mode e = machine_mode \<and> c_pc e = 0x100 \<and> regs_data (c_trap e) m_epc = 0x1000 \<and>
     regs_data (c_trap e) m_cause = 5 \<and> regs_data (c_trap e) m_tval = 0x80000000"
proof -
  obtain c1 where c1:
    "rv_core_fetch (rom_bus 0x00012083) (refused_example_core\<lparr>c_next_pc := 0\<rparr>) = Inr (refused_example_core\<lparr>c_instruction := 0x00012083\<rparr>, rv_ok)"
    "rv_core_decode (refused_example_core\<lparr>c_instruction := 0x00012083\<rparr>) = Inr c1"
    "execute_cb c1 = Some (i_mem LW)" "mem_address c1 = 0x80000000" "refused (rom_bus 0x00012083) c1 bus_read_access 0x80000000 4 trap_cause_load_access_fault"
    "\<not> sync_trap_pending c1" "c_trap c1 = trap_put m_tvec 0x100 trap_init" by (rule refused_example)
  have "refused (rom_bus 0x00012083) c1 (mem_kind LW) (mem_address c1) (mem_width LW) trap_cause_load_access_fault"
    using c1(4,5) by (simp add: mem_kind_def is_store_def)
  moreover have p: "proper_priv (curr_priv_mode refused_example_core)" "curr_priv_mode refused_example_core = machine_mode"
    "c_pc refused_example_core = 0x1000"
    by (simp_all add: refused_example_core_def example_core_def proper_priv_def)
  ultimately obtain d e x where e: "rv_core_run (rom_bus 0x00012083) refused_example_core = Inr d"
    "rv_core_process_interrupts 0 0 0 d = Inr e" "get_priv_regs (curr_priv_mode e) = Some x"
    "curr_priv_mode e = exc_target (c_trap c1) machine_mode (exc_code trap_cause_load_access_fault)"
    "c_pc e = regs_data (c_trap c1) (x trap_reg_tvec)" "regs_data (c_trap e) (x trap_reg_epc) = 0x1000"
    "regs_data (c_trap e) (x trap_reg_cause) = exc_word trap_cause_load_access_fault"
    "regs_data (c_trap e) (x trap_reg_tval) = 0x80000000"
    using refused_access_trap [OF c1(1-3) _ _ c1(6), of trap_cause_load_access_fault 0 0 0] c1(4) by auto
  have m: "curr_priv_mode e = machine_mode" using e(4) by (simp add: exc_target_def)
  then have "x = trap_m_regs" using e(3) by (simp add: get_priv_regs_def)
  then show ?thesis using e m c1(7) by (simp add: exc_word_def)
qed

end
