(* ===== verification/Sv32Ram.thy ===== *)
theory Sv32Ram
  imports AccessFault
begin

text \<open>
  Virtual memory in the system on chip, on RV32: an access of the core through \<open>mmu_checked_bus_access\<close> of \<open>src/core/core.c\<close>,
  whose page tables are words of RAM that the walk reads through the PMP and the bus.
\<close>

section \<open>Page tables in RAM\<close>

definition ram_word :: "(32, 32 rv_soc_dev) rv_core_td \<Rightarrow> pte_reader" where
  "ram_word c a = word_of_bytes (mem_load (ram_cells c) (a - 0x80000000) 4)"

definition ram_table :: "(32, 32 rv_soc_dev) rv_core_td \<Rightarrow> privilege_level \<Rightarrow> nat \<Rightarrow> bool" where
  "ram_table c l a \<longleftrightarrow> 0x80000000 \<le> a \<and> a + 4 \<le> 0x88000000 \<and> pmp_mem_check (c_pmp c) l (of_nat a) 4 bus_read_access = Inr rv_ok"

lemma ram_read_checked:
  fixes c :: "('x::len, 'x rv_soc_dev) rv_core_td"
  assumes "soc_dev_wf (c_priv c)" "xlen_ok TYPE('x)" "pmp_mem_check (c_pmp c) l addr (of_nat n) bus_read_access = Inr rv_ok"
    and "0 < n" "n \<le> 8" "0x80000000 \<le> unat addr" "unat addr + n \<le> 0x88000000" "length v = n"
  shows "pmp_checked_bus_access rv_soc_bus_access c l bus_read_access addr v (of_nat n) =
    Inr (c, rv_ok, mem_load (ram_cells c) (ram_offset addr) n)"
proof -
  note h = ram_hit [OF assms(2,4-7)]
  have "of_nat n \<noteq> (0 :: u8)" using h(3) assms(4) by (metis unat_0 less_irrefl)
  moreover have "splice v 0 (mem_load (ram_cells c) (ram_offset addr) n) = mem_load (ram_cells c) (ram_offset addr) n"
    using assms(8) by (simp add: splice_def)
  ultimately show ?thesis
    using assms h
    by (simp add: pmp_checked_bus_access_def rv_soc_bus_access_def memory_bus_access_def ram_cells_def soc_dev_wf_def soc_regions_def
      mem_sized_def)
qed

lemma ram_table_reads:
  assumes "soc_dev_wf (c_priv c)" "\<forall>a \<in> as. ram_table c l a"
  shows "mmu_reads (pmp_checked_bus_access rv_soc_bus_access) c l (ram_word c) as"
  unfolding mmu_reads_def
proof (intro ballI allI impI)
  fix a and buf :: "u8 list"
  assume a: "a \<in> as" and buf: "length buf = 4"
  have t: "0x80000000 \<le> a" "a + 4 \<le> 0x88000000" "pmp_mem_check (c_pmp c) l (of_nat a) (of_nat 4) bus_read_access = Inr rv_ok"
    using assms(2) a by (simp_all add: ram_table_def)
  have u: "unat (of_nat a :: u32) = a" using t(2) by (simp add: unat_of_nat)
  have "length (mem_load (ram_cells c) (a - 0x80000000) 4) = 4" by simp
  then have "bytes_of 4 (ram_word c a) = mem_load (ram_cells c) (a - 0x80000000) 4"
    unfolding ram_word_def by (rule word_bytes_round)
  then show "pmp_checked_bus_access rv_soc_bus_access c l bus_read_access (of_nat a) buf 4 = Inr (c, rv_ok, bytes_of 4 (ram_word c a))"
    using ram_read_checked [OF assms(1) _ t(3), of buf] t(1,2) u buf by (simp add: xlen_ok_def)
qed

section \<open>Properties\<close>

text \<open>
  C5. Virtual memory on RV32, in any well-formed state of the system in which the page tables that the access needs are in RAM and
  the PMP lets them be read (a condition that translation alone needs). An access goes to the physical address that the Sv32 algorithm of the privileged
  specification gives for the level of the access (that of \<open>MPP\<close> with \<open>MPRV\<close>), with the entries read from RAM: a walk of two levels with
  its validity checks, superpages and their alignment, the permission checks with the user bit and the \<open>SUM\<close> and \<open>MXR\<close> bits of the status register, the
  accessed and dirty bits. Where the algorithm faults, nothing is accessed and the page fault of the access is raised. In
  machine mode or with translation off the address is used as it is. The physical address has 34 bits in the specification, and in a
  comment of the code, but the code keeps the lower 32 of them only.
\<close>

theorem virtual_memory_is_sv32:
  fixes c :: "(32, 32 rv_soc_dev) rv_core_td"
  assumes "soc_dev_wf (c_priv c)"
    and "check_mprv_override c acc \<noteq> machine_mode \<Longrightarrow> bit (satp_reg (c_mmu c)) 31 \<Longrightarrow>
      \<forall>a \<in> set (sv32_visits (ram_word c) (satp_reg (c_mmu c)) (unat va)). ram_table c (check_mprv_override c acc) a"
  shows "mmu_checked_bus_access rv_soc_bus_access c l acc va v len =
    (let lv = check_mprv_override c acc; status = regs_data (c_trap c) shared_status; satp = satp_reg (c_mmu c) in
     if lv = machine_mode \<or> \<not> bit satp 31 then pmp_checked_bus_access rv_soc_bus_access c lv acc va v len
     else case sv32_translate (ram_word c) satp lv acc (bit status 19) (bit status 18) (unat va) of
       None \<Rightarrow> Inr (prepare_sync_trap (exc_word (page_fault acc)) va c, rv_err, v)
     | Some pa \<Rightarrow> pmp_checked_bus_access rv_soc_bus_access
         (if acc = bus_instr_access then c\<lparr>c_mmu := (c_mmu c)\<lparr>last_phys_pc := of_nat pa, last_virt_pc := va\<rparr>\<rparr> else c)
         lv acc (of_nat (pa mod 2 ^ 32)) v len)"
proof -
  let ?lv = "check_mprv_override c acc" let ?st = "regs_data (c_trap c) shared_status"
  have flags: "(if CHECK_BIT ?st TRAP_XSTATUS_MXR_BIT then 1 else 0 :: u8) \<noteq> 0 \<longleftrightarrow> bit ?st 19"
    "(if CHECK_BIT ?st TRAP_XSTATUS_SUM_BIT then 1 else 0 :: u8) \<noteq> 0 \<longleftrightarrow> bit ?st 18"
    by (simp_all add: CHECK_BIT_iff TRAP_XSTATUS_MXR_BIT_def TRAP_XSTATUS_SUM_BIT_def)
  have reads: "?lv \<noteq> machine_mode \<Longrightarrow> bit (satp_reg (c_mmu c)) 31 \<Longrightarrow> mmu_reads (pmp_checked_bus_access rv_soc_bus_access) c ?lv (ram_word c)
      (set (sv32_visits (ram_word c) (satp_reg (c_mmu c)) (unat va)))"
    using assms by (intro ram_table_reads)
  have tr: "mmu_virt_to_phys (pmp_checked_bus_access rv_soc_bus_access) (c_mmu c) c ?lv va acc mxr sm = Inr
    (if ?lv = machine_mode \<or> \<not> bit (satp_reg (c_mmu c)) 31 then (c_mmu c, c, mmu_ok, ucast va)
     else case sv32_translate (ram_word c) (satp_reg (c_mmu c)) ?lv acc (mxr \<noteq> 0) (sm \<noteq> 0) (unat va) of
       None \<Rightarrow> (c_mmu c, c, mmu_page_fault, 0)
     | Some n \<Rightarrow> (if acc = bus_instr_access then (c_mmu c)\<lparr>last_phys_pc := of_nat n, last_virt_pc := va\<rparr> else c_mmu c,
         c, mmu_ok, of_nat (n mod 2 ^ 32)))" for mxr sm
    by (rule mmu_sv32_spec) (rule reads)
  have pf: "(if acc = bus_instr_access then exc_word trap_cause_instr_page_fault else if acc = bus_read_access
      then exc_word trap_cause_load_page_fault else exc_word trap_cause_store_amo_page_fault) = exc_word (page_fault acc)"
    by (cases acc) simp_all
  have up: "(ucast (ucast va :: u64) :: u32) = va" by (rule bit_word_eqI) (simp add: bit_simps)
  have cut: "(ucast (of_nat n :: u64) :: u32) = of_nat n" for n
    by (rule bit_word_eqI) (simp add: bit_ucast_iff bit_of_nat_iff)
  have same: "c\<lparr>c_mmu := c_mmu c\<rparr> = c" by simp
  show ?thesis
    unfolding mmu_checked_bus_access_def Let_def trap_m_regs.simps tr flags pf
    by (cases "sv32_translate (ram_word c) (satp_reg (c_mmu c)) ?lv acc (bit ?st 19) (bit ?st 18) (unat va)")
      (auto simp: same up cut)
qed

text \<open>
  In supervisor mode with a table at the start of RAM, whose entry 1 points to a table at \<open>0x80001000\<close>, whose entry 3 maps the page
  at \<open>0x80002000\<close>.
\<close>

definition sv32_memory :: bytemem where
  "sv32_memory = mem_store (mem_store (mem_store (\<lambda>_. 0) 4 (bytes_of 4 (0x20000401 :: u32))) 0x100C (bytes_of 4 (0x200008CF :: u32)))
     0x2124 (bytes_of 4 (0x11223344 :: u32))"

definition sv32_example_core :: "(32, 32 rv_soc_dev) rv_core_td" where
  "sv32_example_core = set_ram sv32_memory (ram_example_core\<lparr>curr_priv_mode := supervisor_mode, c_pmp := pmp_user_all,
     c_mmu := mmu_init\<lparr>satp_reg := 0x80080000\<rparr>\<rparr>)"

lemma sv32_example:
  "soc_dev_wf (c_priv sv32_example_core)" "check_mprv_override sv32_example_core bus_read_access = supervisor_mode"
  "c_pmp sv32_example_core = pmp_user_all" "satp_reg (c_mmu sv32_example_core) = 0x80080000"
  "ram_word sv32_example_core 0x80000004 = 0x20000401" "ram_word sv32_example_core 0x8000100C = 0x200008CF"
  "mem_load (ram_cells sv32_example_core) 0x2124 4 = [0x44, 0x33, 0x22, 0x11]"
proof -
  have d: "c_priv sv32_example_core = (c_priv ram_example_core)\<lparr>soc_ram := (soc_ram (c_priv ram_example_core))\<lparr>mem_cells := sv32_memory\<rparr>\<rparr>"
    by (simp add: sv32_example_core_def set_ram_def)
  have "soc_dev_wf (c_priv ram_example_core)"
    using timer_example_wf by (simp add: ram_example_core_def soc_wf_def soc_core_wf_def)
  then show "soc_dev_wf (c_priv sv32_example_core)" unfolding d by (simp add: soc_dev_wf_def mem_sized_def)
  have "\<not> bit (regs_data (c_trap sv32_example_core) shared_status) 17"
    by (simp add: sv32_example_core_def set_ram_def ram_example_core_def timer_example_soc_def timer_example_core_def trap_init_def)
  then show "check_mprv_override sv32_example_core bus_read_access = supervisor_mode"
    unfolding check_mprv_override_def Let_def extractxlen_1
    by (simp add: TRAP_XSTATUS_MPRV_BIT_def) (simp add: sv32_example_core_def set_ram_def)
  show "c_pmp sv32_example_core = pmp_user_all" "satp_reg (c_mmu sv32_example_core) = 0x80080000"
    by (simp_all add: sv32_example_core_def set_ram_def)
  have r: "ram_cells sv32_example_core = sv32_memory" by (simp add: sv32_example_core_def)
  have l: "mem_load sv32_memory 4 4 = bytes_of 4 (0x20000401 :: u32)" "mem_load sv32_memory 0x100C 4 = bytes_of 4 (0x200008CF :: u32)"
    "mem_load sv32_memory 0x2124 4 = bytes_of 4 (0x11223344 :: u32)"
    by (simp_all add: sv32_memory_def mem_load_store_same mem_load_store_disjoint)
  have w: "word_of_bytes (bytes_of 4 (v :: u32)) = v" for v by simp
  show "ram_word sv32_example_core 0x80000004 = 0x20000401" "ram_word sv32_example_core 0x8000100C = 0x200008CF"
    by (simp_all add: ram_word_def r l w)
  show "mem_load (ram_cells sv32_example_core) 0x2124 4 = [0x44, 0x33, 0x22, 0x11]"
    unfolding r l(3) by (simp add: bytes_of_def upt_rec)
qed

lemma sv32_example_pmp:
  "a \<in> {0x80000004, 0x8000100C, 0x80002124} \<Longrightarrow> pmp_mem_check pmp_user_all supervisor_mode a 4 bus_read_access = Inr rv_ok"
  by (elim insertE; simp only: empty_iff) code_simp+

theorem virtual_memory_is_sv32_witness:
  "mmu_checked_bus_access rv_soc_bus_access sv32_example_core supervisor_mode bus_read_access 0x00403124 [0, 0, 0, 0] 4 =
     Inr (sv32_example_core, rv_ok, [0x44, 0x33, 0x22, 0x11])"
proof -
  let ?c = sv32_example_core
  note x = sv32_example
  have root: "sv32_root 0x80080000 0x00403124 = 0x80000004" "sv32_next 0x20000401 0x00403124 = 0x8000100C"
    by (simp_all add: sv32_root_def sv32_next_def pte_ppn_def)
  have pte: "pte_valid (0x20000401 :: u32)" "\<not> pte_is_leaf (0x20000401 :: u32)" "pte_valid (0x200008CF :: u32)" "pte_is_leaf (0x200008CF :: u32)"
    by (simp_all add: pte_valid_def pte_is_leaf_def)
  have "sv32_visits (ram_word ?c) 0x80080000 0x00403124 = [0x80000004, 0x8000100C]"
    by (simp add: sv32_visits_def root x pte Let_def)
  then have t: "\<forall>a \<in> set (sv32_visits (ram_word ?c) (satp_reg (c_mmu ?c)) (unat (0x00403124 :: u32))). ram_table ?c supervisor_mode a"
    using sv32_example_pmp by (simp add: ram_table_def x)
  have tr: "sv32_translate (ram_word ?c) 0x80080000 supervisor_mode bus_read_access mxr sm 0x00403124 = Some 0x80002124" for mxr sm
    by (simp add: sv32_translate_def sv32_leaf_def root x pte sv32_permits_def sv32_address_def pte_ppn_def)
  have "pmp_checked_bus_access rv_soc_bus_access ?c supervisor_mode bus_read_access 0x80002124 [0, 0, 0, 0] (of_nat 4) =
      Inr (?c, rv_ok, mem_load (ram_cells ?c) (ram_offset (0x80002124 :: u32)) 4)"
    using sv32_example_pmp by (intro ram_read_checked) (simp_all add: x xlen_ok_def)
  then show ?thesis
    using virtual_memory_is_sv32 [where c = ?c and va = "0x00403124" and acc = bus_read_access, unfolded x(2), OF x(1) t] tr
    by (simp add: x Let_def)
qed

end
