(* ===== verification/BusMap.thy ===== *)
theory BusMap
  imports RamAccess
begin

text \<open>
  The memory map of the bus, on natural numbers, and what an access by \<open>rv_soc_bus_access\<close> (theory \<open>Soc\<close>) reaches: the region with the right
  offset, the bytes of a memory within its array, or the end of the program.
\<close>

section \<open>The map\<close>

definition bus_map :: "bool \<Rightarrow> (soc_device \<times> nat \<times> nat) list" where
  "bus_map simple = [(dev_ram, 0x80000000, 0x8000000), (dev_clint, 0x2000000, 0x10000), (dev_plic, 0xC000000, 0x3FFF004),
     (if simple then (dev_uart, 0x3000000, 2) else (dev_uart, 0x10000000, 12)), (dev_mrom, 0x1000, 0xF000), (dev_from, 0xC0000000, 0xC800000)]"

text \<open>The device and the offset of an access of \<open>n\<close> bytes that is inside a region.\<close>

definition bus_target :: "bool \<Rightarrow> nat \<Rightarrow> nat \<Rightarrow> (soc_device \<times> nat) option" where
  "bus_target simple a n = map_option (\<lambda>(dev, base, len). (dev, a - base))
     (List.find (\<lambda>(dev, base, len). base \<le> a \<and> a + n \<le> base + len) (bus_map simple))"

primrec soc_memory :: "soc_device \<Rightarrow> 'x::len rv_soc_dev \<Rightarrow> soc_mem option" where
  "soc_memory dev_ram d = Some (soc_ram d)" | "soc_memory dev_mrom d = Some (soc_mrom d)" | "soc_memory dev_from d = Some (soc_from d)"
| "soc_memory dev_clint d = None" | "soc_memory dev_plic d = None" | "soc_memory dev_uart d = None"

primrec soc_set_memory :: "soc_device \<Rightarrow> soc_mem \<Rightarrow> 'x::len rv_soc_dev \<Rightarrow> 'x rv_soc_dev" where
  "soc_set_memory dev_ram m d = d\<lparr>soc_ram := m\<rparr>" | "soc_set_memory dev_mrom m d = d\<lparr>soc_mrom := m\<rparr>"
| "soc_set_memory dev_from m d = d\<lparr>soc_from := m\<rparr>" | "soc_set_memory dev_clint m d = d" | "soc_set_memory dev_plic m d = d"
| "soc_set_memory dev_uart m d = d"

section \<open>Accesses\<close>

lemma within_region:
  fixes addr :: "'x::len word"
  assumes "xlen_ok TYPE('x)" "unat addr + unat n < 2 ^ LENGTH('x)" "unat start = b" "unat (start + sz) = b + s"
  shows "ADDR_WITHIN_LEN addr n start sz \<longleftrightarrow> b \<le> unat addr \<and> unat addr + unat n \<le> b + s"
    and "b \<le> unat addr \<Longrightarrow> unat (addr - start) = unat addr - b"
proof -
  have "8 \<le> LENGTH('x)" using assms(1) by (auto simp: xlen_ok_def)
  then have "unat (ucast n :: 'x word) = unat n" by (simp add: unat_ucast_up)
  then have "unat (addr + ucast n) = unat addr + unat n" using assms(2) by (simp add: unat_word_ariths)
  then show "ADDR_WITHIN_LEN addr n start sz \<longleftrightarrow> b \<le> unat addr \<and> unat addr + unat n \<le> b + s"
    by (simp only: ADDR_WITHIN_LEN_def word_le_nat_alt assms(3,4))
  show "b \<le> unat addr \<Longrightarrow> unat (addr - start) = unat addr - b"
    by (simp add: unat_sub word_le_nat_alt assms(3))
qed

text \<open>The word constants of the region table are the numbers of the map.\<close>

lemma region_numbers:
  assumes "xlen_ok TYPE('x::len)"
  shows "list_all2 (\<lambda>cb (dev, b, s). cb_device cb = Some dev \<and> unat (addr_start cb) = b \<and> unat (addr_start cb + mem_size cb) = b + s)
    (soc_regions simple :: 'x rv_soc_mem_access_cb_td list) (bus_map simple)"
  using assms by (auto simp: xlen_ok_def soc_regions_def bus_map_def MROM_BASE_ADDR_def MROM_SIZE_BYTES_def RAM_BASE_ADDR_def RAM_SIZE_BYTES_def
    CLINT_BASE_ADDR_def CLINT_SIZE_BYTES_def SIMPLE_UART_TX_REG_ADDR_def SIMPLE_UART_SIZE_BYTES_def PLIC_BASE_ADDR_def PLIC_SIZE_BYTES_def
    UART8250_TX_REG_ADDR_def UART_NS8250_NR_REGS_def FROM_BASE_ADDR_def FROM_SIZE_BYTES_def)

lemma scan_map:
  fixes addr :: "'x::len word"
  assumes "xlen_ok TYPE('x)" "unat addr + unat n < 2 ^ LENGTH('x)"
  shows "list_all2 (\<lambda>cb (dev, b, s). cb_device cb = Some dev \<and> unat (addr_start cb) = b \<and> unat (addr_start cb + mem_size cb) = b + s) cbs rs \<Longrightarrow>
    soc_bus_scan cbs d l a addr v n =
      (case List.find (\<lambda>(dev, base, len). base \<le> unat addr \<and> unat addr + unat n \<le> base + len) rs of
         None \<Rightarrow> Inl Die | Some (dev, base, len) \<Rightarrow> soc_device_access dev d l a (of_nat (unat addr - base)) v n)"
proof (induction cbs rs rule: list_all2_induct)
  case (Cons cb cbs r rs)
  obtain dev b s where r: "r = (dev, b, s)" by (cases r)
  then have h: "cb_device cb = Some dev" "unat (addr_start cb) = b" "unat (addr_start cb + mem_size cb) = b + s" using Cons.hyps(1) by auto
  have "addr - addr_start cb = of_nat (unat addr - b)" if "b \<le> unat addr"
    using within_region(2) [OF assms h(2,3) that] by (metis of_nat_unat ucast_id)
  then show ?case using Cons.IH h(1) r within_region(1) [OF assms h(2,3)] by auto
qed simp

lemma bus_mapped:
  fixes addr :: "'x::len word"
  assumes "xlen_ok TYPE('x)" "soc_dev_wf d" "unat addr + unat n < 2 ^ LENGTH('x)"
  shows "rv_soc_bus_access d l a addr v n = (case bus_target (is_simple_uart (soc_uart d)) (unat addr) (unat n) of
      None \<Rightarrow> Inl Die | Some (dev, off) \<Rightarrow> soc_device_access dev d l a (of_nat off) v n)"
  unfolding rv_soc_bus_access_def bus_target_def using assms(2) scan_map [OF assms(1,3) region_numbers [OF assms(1)]]
  by (auto simp: soc_dev_wf_def split: option.splits)

text \<open>An offset inside a memory is a word, and the bytes of the access are inside the array.\<close>

lemma target_bounds:
  assumes "bus_target simple a n = Some (dev, off)" "0 < n"
  shows "off < 2 ^ 32" "soc_dev_wf d \<Longrightarrow> soc_memory dev d = Some m \<Longrightarrow> off + n \<le> mem_len m"
  using assms by (auto simp: bus_target_def bus_map_def soc_dev_wf_def mem_sized_def split: if_splits)

lemma memory_access:
  fixes addr :: "'x::len word"
  assumes "xlen_ok TYPE('x)" "soc_dev_wf d" "bus_target simple b (unat n) = Some (dev, off)" "soc_memory dev d = Some m" "0 < unat n"
    and "length v = unat n"
  shows "soc_device_access dev d l a (of_nat off :: 'x word) v n = Inr (if a = bus_write_access
      then (soc_set_memory dev (m\<lparr>mem_cells := mem_store (mem_cells m) off v\<rparr>) d, rv_ok, v)
      else (d, rv_ok, mem_load (mem_cells m) off (unat n)))"
proof -
  note t = target_bounds [OF assms(3,5)]
  have "2 ^ 32 \<le> (2 :: nat) ^ LENGTH('x)" using assms(1) by (auto simp: xlen_ok_def)
  then have u: "unat (of_nat off :: 'x word) = off" using t(1) by (simp add: unsigned_of_nat take_bit_nat_eq_self)
  have n: "n \<noteq> 0" using assms(5) by auto
  have s: "splice v 0 (mem_load c off (unat n)) = mem_load c off (unat n)" for c using assms(6) by (simp add: splice_def)
  have l: "off + unat n \<le> mem_len m" using t(2) [OF assms(2,4)] .
  have "memory_bus_access m l a (of_nat off :: 'x word) v n = Inr (if a = bus_write_access
      then (m\<lparr>mem_cells := mem_store (mem_cells m) off v\<rparr>, rv_ok, v) else (m, rv_ok, mem_load (mem_cells m) off (unat n)))"
    using u n s l assms(6) by (simp add: memory_bus_access_def)
  then show ?thesis using assms(4) by (cases dev) auto
qed

section \<open>Properties\<close>

text \<open>
  C8. The memory map. An access of one to eight bytes that ends below the top of the address space reaches the region of the map that contains
  all its bytes, at their offset, or ends the program when there is none; in the memories (RAM, boot ROM and flash) it then stays within the
  array, reads exactly its bytes, or writes exactly these. An access that ends at the top of the address space or beyond
  it leaves the RAM array instead.
\<close>

theorem bus_memory_map:
  fixes addr :: "'x::len word"
  assumes "xlen_ok TYPE('x)" "soc_dev_wf d" "0 < n" "n \<le> 8" "length v = unat n"
  shows "if 2 ^ LENGTH('x) \<le> unat addr + unat n then rv_soc_bus_access d l a addr v n = Inl OutOfBounds
    else case bus_target (is_simple_uart (soc_uart d)) (unat addr) (unat n) of
        None \<Rightarrow> rv_soc_bus_access d l a addr v n = Inl Die
      | Some (dev, off) \<Rightarrow> (case soc_memory dev d of
            None \<Rightarrow> rv_soc_bus_access d l a addr v n = soc_device_access dev d l a (of_nat off) v n
          | Some m \<Rightarrow> off + unat n \<le> mem_len m \<and> rv_soc_bus_access d l a addr v n = Inr (if a = bus_write_access
              then (soc_set_memory dev (m\<lparr>mem_cells := mem_store (mem_cells m) off v\<rparr>) d, rv_ok, v)
              else (d, rv_ok, mem_load (mem_cells m) off (unat n))))"
proof (cases "2 ^ LENGTH('x) \<le> unat addr + unat n")
  case True
  have "mem_access_cbs d = soc_regions (is_simple_uart (soc_uart d))" "mem_len (soc_ram d) = 0x8000000"
    using assms(2) by (simp_all add: soc_dev_wf_def mem_sized_def)
  then show ?thesis using True bus_access_wraps_out_of_ram [OF assms(1,3,4) True] by simp
next
  case False
  have n: "0 < unat n" using assms(3) by (simp add: word_gt_0 unat_gt_0)
  show ?thesis
    using False bus_mapped [OF assms(1,2), of addr n] memory_access [OF assms(1,2) _ _ n assms(5), of _ "unat addr"] target_bounds(2) [OF _ n assms(2)]
    by (auto split: option.splits)
qed

text \<open>A word of the boot ROM, and a store to an address without a device.\<close>

theorem bus_memory_map_witness:
  "rv_soc_bus_access (c_priv (rv_core0 timer_example_soc)) machine_mode bus_read_access 0x1000 [1, 2, 3, 4] 4 =
     Inr (c_priv (rv_core0 timer_example_soc), rv_ok, [0x13, 0, 0, 0]) \<and>
   rv_soc_bus_access (c_priv (rv_core0 timer_example_soc)) machine_mode bus_write_access 0x4000000 [1, 2, 3, 4] 4 = Inl Die"
proof -
  let ?d = "c_priv (rv_core0 timer_example_soc)"
  have x: "xlen_ok TYPE(32)" by (simp add: xlen_ok_def)
  have d: "soc_dev_wf ?d" using timer_example_wf by (simp add: soc_wf_def soc_core_wf_def)
  have t: "bus_target b 0x1000 4 = Some (dev_mrom, 0)" "bus_target b 0x4000000 4 = None" for b
    by (simp_all add: bus_target_def bus_map_def)
  have "mem_cells (soc_mrom ?d) = mem_store (\<lambda>_. 0) 0 (bytes_of 4 (0x13 :: u32))"
    by (simp add: timer_example_soc_def timer_example_core_def example_core_def timer_example_dev_def)
  moreover have "mem_load (mem_store (\<lambda>_. 0) 0 (bytes_of 4 (0x13 :: u32))) 0 4 = [0x13, 0, 0, 0]" by code_simp
  ultimately have z: "mem_load (mem_cells (soc_mrom ?d)) 0 4 = [0x13, 0, 0, 0]" by (simp only:)
  show ?thesis
    using bus_memory_map [OF x d, of 4 "[1, 2, 3, 4]" "0x1000" machine_mode bus_read_access]
      bus_memory_map [OF x d, of 4 "[1, 2, 3, 4]" "0x4000000" machine_mode bus_write_access] by (simp add: t z)
qed

end
