(* ===== verification/Boot.thy ===== *)
theory Boot
  imports RamAccess ControlRef DecodeSpec
begin

text \<open>
  The start of the RV64 system: the six instructions that \<open>rv_soc_init\<close> puts into the boot ROM, executed from the
  reset address by the main loop, hand the machine over to the firmware with the hart number and the address of the device tree.
\<close>

section \<open>The boot ROM\<close>

definition boot_rom :: "'x::len itself \<Rightarrow> u64 \<Rightarrow> bytemem" where
  "boot_rom t fdt_addr = fold (\<lambda>(i, w) m. mem_store m (4 * i) (bytes_of 4 w))
     (List.enumerate 0 (reset_vec t RAM_BASE_ADDR fdt_addr)) (\<lambda>_. 0)"

lemma fold_store_words:
  "k < length ws \<Longrightarrow> mem_load (fold (\<lambda>(i, w) m. mem_store m (4 * i) (bytes_of 4 w)) (List.enumerate n ws) m) (4 * (n + k)) 4 = bytes_of 4 (ws ! k)"
  for ws :: "u32 list"
proof (induction ws arbitrary: n k m rule: rev_induct)
  case (snoc w ws)
  have e: "List.enumerate n (ws @ [w]) = List.enumerate n ws @ [(n + length ws, w)]"
    by (simp add: enumerate_append_eq)
  show ?case
  proof (cases "k < length ws")
    case True
    then show ?thesis using snoc.IH [OF True, of n m] by (simp add: e mem_load_store_disjoint nth_append)
  next
    case False
    then have "k = length ws" using snoc.prems by simp
    then show ?thesis by (simp add: e mem_load_store_same)
  qed
qed simp

abbreviation boot_word :: "'x::len itself \<Rightarrow> u64 \<Rightarrow> nat \<Rightarrow> u32" where
  "boot_word t fdt_addr k \<equiv> reset_vec t RAM_BASE_ADDR fdt_addr ! k"

lemma boot_rom_word: "k < 10 \<Longrightarrow> mem_load (boot_rom t fdt_addr) (4 * k) 4 = bytes_of 4 (boot_word t fdt_addr k)"
  using fold_store_words [of k "reset_vec t RAM_BASE_ADDR fdt_addr" 0 "\<lambda>_. 0"]
  by (simp add: boot_rom_def reset_vec_def)

lemma mem_load_append: "mem_load m a (i + j) = mem_load m a i @ mem_load m (a + i) j"
  by (auto simp: mem_load_def nth_append intro!: nth_equalityI)

lemma boot_rom_words:
  assumes "k < 9"
  shows "mem_load (boot_rom t fdt_addr) (4 * k) 8 = bytes_of 4 (boot_word t fdt_addr k) @ bytes_of 4 (boot_word t fdt_addr (Suc k))"
proof -
  have "mem_load (boot_rom t fdt_addr) (4 * k + 4) 4 = bytes_of 4 (boot_word t fdt_addr (Suc k))"
    using boot_rom_word [of "Suc k" t fdt_addr] assms by (simp add: add.commute)
  then show ?thesis
    using mem_load_append [of "boot_rom t fdt_addr" "4 * k" 4 4] boot_rom_word [of k t fdt_addr] assms by simp
qed

section \<open>Accesses to the ROM\<close>

lemma pmp_zero_machine:
  assumes "xlen_ok TYPE('x)"
  shows "pmp_mem_check (pmp_zero :: 'x::len pmp_td) machine_mode addr n a = Inr rv_ok"
proof -
  have g: "arr_get (pmp_cfg (pmp_zero :: 'x pmp_td)) k = Inr 0" if "k < 16" for k
    using that assms by (simp add: pmp_zero_def pmp_cfg_bytes)
  have z: "\<not> CHECK_BIT (0 :: u8) PMP_CFG_L_BIT" by (simp add: CHECK_BIT_def)
  have l: "pmp_check_loop (pmp_zero :: 'x pmp_td) machine_mode addr n a ks = Inr None" if "\<forall>k\<in>set ks. k < 16" for ks
    using that by (induction ks) (simp_all add: g z)
  show ?thesis unfolding pmp_mem_check_def pmp_cfg_bytes [OF assms] by (subst l) simp_all
qed

text \<open>The core during the start: machine mode, nothing pending, no interrupt enabled.\<close>

definition boot_core :: "u64 \<Rightarrow> soc_mem \<Rightarrow> ('x::len, 'x rv_soc_dev) rv_core_td \<Rightarrow> bool" where
  "boot_core fdt_addr ram c \<longleftrightarrow> xlen_ok TYPE('x) \<and> soc_core_wf c \<and> curr_priv_mode c = machine_mode \<and> c_pmp c = pmp_zero \<and>
     \<not> sync_trap_pending c \<and> regs_data (c_trap c) shared_status = 0 \<and> regs_data (c_trap c) shared_ie = 0 \<and>
     mem_cells (soc_mrom (c_priv c)) = boot_rom TYPE('x) fdt_addr \<and> soc_ram (c_priv c) = ram \<and> \<not> lr_valid c"

lemma rom_hit:
  fixes addr :: "'x::len word"
  assumes "xlen_ok TYPE('x)" "0 < n" "n \<le> 8" "0x1000 \<le> unat addr" "unat addr + n \<le> 0x2000"
  shows "ADDR_WITHIN_LEN addr (of_nat n) MROM_BASE_ADDR MROM_SIZE_BYTES" "unat (addr - MROM_BASE_ADDR) = unat addr - 0x1000"
    "unat (of_nat n :: u8) = n" "\<not> ADDR_WITHIN_LEN addr (of_nat n) RAM_BASE_ADDR s" "\<not> ADDR_WITHIN_LEN addr (of_nat n) CLINT_BASE_ADDR s"
    "\<not> ADDR_WITHIN_LEN addr (of_nat n) PLIC_BASE_ADDR s" "\<not> ADDR_WITHIN_LEN addr (of_nat n) SIMPLE_UART_TX_REG_ADDR s"
    "\<not> ADDR_WITHIN_LEN addr (of_nat n) UART8250_TX_REG_ADDR s"
proof -
  have b: "unat (MROM_BASE_ADDR :: 'x word) = 0x1000" "unat (MROM_BASE_ADDR + MROM_SIZE_BYTES :: 'x word) = 0x10000"
    "unat (RAM_BASE_ADDR :: 'x word) > 0x2000" "unat (CLINT_BASE_ADDR :: 'x word) > 0x2000"
    "unat (PLIC_BASE_ADDR :: 'x word) > 0x2000" "unat (SIMPLE_UART_TX_REG_ADDR :: 'x word) > 0x2000"
    "unat (UART8250_TX_REG_ADDR :: 'x word) > 0x2000"
    using assms(1) by (auto simp: xlen_ok_def MROM_BASE_ADDR_def MROM_SIZE_BYTES_def RAM_BASE_ADDR_def CLINT_BASE_ADDR_def
      PLIC_BASE_ADDR_def SIMPLE_UART_TX_REG_ADDR_def UART8250_TX_REG_ADDR_def)
  show n: "unat (of_nat n :: u8) = n" using assms(3) by (simp add: unsigned_of_nat take_bit_nat_eq_self)
  have w: "8 < LENGTH('x)" "(0x2000 :: nat) < 2 ^ LENGTH('x)" using assms(1) by (auto simp: xlen_ok_def)
  then have "unat (ucast (of_nat n :: u8) :: 'x word) = n" using n by (simp add: unat_ucast_up)
  then have "unat (addr + ucast (of_nat n :: u8)) = unat addr + n"
    using assms(5) w(2) by (simp add: unat_word_ariths)
  then show "ADDR_WITHIN_LEN addr (of_nat n) MROM_BASE_ADDR MROM_SIZE_BYTES"
    using assms(4,5) b by (simp add: ADDR_WITHIN_LEN_def word_le_nat_alt)
  show "unat (addr - MROM_BASE_ADDR) = unat addr - 0x1000"
    using assms(4) b by (simp add: unat_sub word_le_nat_alt)
  show "\<not> ADDR_WITHIN_LEN addr (of_nat n) RAM_BASE_ADDR s" "\<not> ADDR_WITHIN_LEN addr (of_nat n) CLINT_BASE_ADDR s"
    "\<not> ADDR_WITHIN_LEN addr (of_nat n) PLIC_BASE_ADDR s" "\<not> ADDR_WITHIN_LEN addr (of_nat n) SIMPLE_UART_TX_REG_ADDR s"
    "\<not> ADDR_WITHIN_LEN addr (of_nat n) UART8250_TX_REG_ADDR s"
    using b assms(5) by (simp_all add: ADDR_WITHIN_LEN_def word_le_nat_alt)
qed

lemma rom_access:
  fixes c :: "('x::len, 'x rv_soc_dev) rv_core_td"
  assumes "boot_core fdt_addr ram c" "length v = n" "0 < n" "n \<le> 8" "unat addr = 0x1000 + off" "off + n \<le> 40" "a \<noteq> bus_write_access"
  shows "mmu_checked_bus_access rv_soc_bus_access c l a addr v (of_nat n) = Inr (c, rv_ok, mem_load (boot_rom TYPE('x) fdt_addr) off n)"
proof -
  note o = assms(1) [unfolded boot_core_def]
  then have x: "xlen_ok TYPE('x)" by simp
  have h: "0x1000 \<le> unat addr" "unat addr + n \<le> 0x2000" using assms(5,6) by simp_all
  note rh = rom_hit [OF x assms(3,4) h]
  have "of_nat n \<noteq> (0 :: u8)" using rh(3) assms(3) by (metis unat_0 less_irrefl)
  moreover have "splice v 0 (mem_load m off n) = mem_load m off n" for m using assms(2) by (simp add: splice_def)
  moreover have "mem_access_cbs (c_priv c) = soc_regions (is_simple_uart (soc_uart (c_priv c)))" "mem_len (soc_mrom (c_priv c)) = 0xf000"
    using o by (simp_all add: soc_core_wf_def soc_dev_wf_def mem_sized_def)
  ultimately show ?thesis
    using o rh assms by (subst machine_access) (auto simp: rv_soc_bus_access_def soc_regions_def memory_bus_access_def pmp_zero_machine)
qed


section \<open>Steps\<close>

lemma fetch_buffer_length: "xlen_ok TYPE('x) \<Longrightarrow> length (fetch_buffer (c :: ('x::len, 'p) rv_core_td)) = XLEN_BYTES TYPE('x)"
  by (auto simp: fetch_buffer_def xlen_ok_def XLEN_BYTES_def)

text \<open>Only the members that hold the decoded instruction change.\<close>

lemma boot_core_same: "core_same c d \<Longrightarrow> boot_core fdt_addr ram c \<Longrightarrow> boot_core fdt_addr ram d"
  by (simp add: core_same_def boot_core_def soc_core_wf_def pmp_zero_wf)

lemma fetch_store_word: "c_instruction (fetch_store buf c) = word_of_bytes (take 4 buf)"
  by (simp add: fetch_store_def Let_def split: list.splits)

lemma boot_fetch:
  fixes c :: "('x::len, 'x rv_soc_dev) rv_core_td"
  assumes "boot_core fdt_addr ram c" "unat (c_pc c) = 0x1000 + 4 * k" "k < 9"
  shows "\<exists>d. rv_core_fetch rv_soc_bus_access c = Inr (d, rv_ok) \<and> core_same c d \<and> c_instruction d = boot_word TYPE('x) fdt_addr k"
proof -
  let ?n = "XLEN_BYTES TYPE('x)"
  have x: "xlen_ok TYPE('x)" using assms(1) by (simp add: boot_core_def)
  then have n: "?n = 4 \<or> ?n = 8" by (auto simp: xlen_ok_def XLEN_BYTES_def)
  have "take 4 (mem_load (boot_rom TYPE('x) fdt_addr) (4 * k) ?n) = bytes_of 4 (boot_word TYPE('x) fdt_addr k)"
    using n boot_rom_word [of k "TYPE('x)" fdt_addr] boot_rom_words [OF assms(3), of "TYPE('x)" fdt_addr] assms(3) by auto
  then have "word_of_bytes (take 4 (mem_load (boot_rom TYPE('x) fdt_addr) (4 * k) ?n)) = boot_word TYPE('x) fdt_addr k"
    using word_of_bytes_of_full [of 4 "boot_word TYPE('x) fdt_addr k"] by simp
  moreover have "mmu_checked_bus_access rv_soc_bus_access c (curr_priv_mode c) bus_instr_access (c_pc c) (fetch_buffer c) (of_nat ?n) =
      Inr (c, rv_ok, mem_load (boot_rom TYPE('x) fdt_addr) (4 * k) ?n)"
    by (rule rom_access [OF assms(1)]) (use n assms(2,3) fetch_buffer_length [OF x] in auto)
  ultimately show ?thesis
    by (simp add: rv_core_fetch_def fetch_store_same fetch_store_word)
qed

text \<open>What the six instructions do: one register and perhaps the next program counter.\<close>

definition boot_exec :: "instr \<Rightarrow> u8 \<Rightarrow> 'x::len word \<Rightarrow> 'x word \<Rightarrow> ('x, 'x rv_soc_dev) rv_core_td \<Rightarrow> bool" where
  "boot_exec i rd v t c \<longleftrightarrow> (\<exists>d. exec_instr i rv_soc_bus_access c = Inr d \<and> c_x d = (c_x c)(rd := v) \<and> c_next_pc d = t \<and>
     curr_priv_mode d = curr_priv_mode c \<and> c_pc d = c_pc c \<and> sync_trap_pending d = sync_trap_pending c \<and> c_priv d = c_priv c \<and>
     csr_regs d = csr_regs c \<and> c_pmp d = c_pmp c \<and> c_trap d = c_trap c \<and> lr_valid d = lr_valid c)"

lemma boot_step:
  fixes c :: "('x::len, 'x rv_soc_dev) rv_core_td"
  assumes b: "boot_core fdt_addr ram c" and pc: "unat (c_pc c) = 0x1000 + 4 * k" "k < 9"
    and w: "boot_word TYPE('x) fdt_addr k = encode (is_rv64 TYPE('x)) i r"
    and dec: "\<And>c :: ('x, 'x rv_soc_dev) rv_core_td. \<exists>c'. rv_core_decode (c\<lparr>c_instruction := encode (is_rv64 TYPE('x)) i r\<rparr>) = Inr c' \<and>
      execute_cb c' = Some i \<and> fields_ok (is_rv64 TYPE('x)) i r c'"
    and ex: "\<And>c1. boot_core fdt_addr ram c1 \<Longrightarrow> core_same (c\<lparr>c_next_pc := 0\<rparr>) c1 \<Longrightarrow> fields_ok (is_rv64 TYPE('x)) i r c1 \<Longrightarrow>
      boot_exec i rd v t c1"
  shows "\<exists>d. rv_core_run rv_soc_bus_access c = Inr d \<and> boot_core fdt_addr ram d \<and> c_x d = (c_x c)(rd := v, 0 := 0) \<and>
    c_pc d = (if t \<noteq> 0 then t else c_pc c + 4)"
proof -
  let ?c = "c\<lparr>c_next_pc := 0\<rparr>"
  have b0: "boot_core fdt_addr ram ?c" using b by (simp add: boot_core_def soc_core_wf_def pmp_zero_wf)
  obtain c0 where c0: "rv_core_fetch rv_soc_bus_access ?c = Inr (c0, rv_ok)" "core_same ?c c0" "c_instruction c0 = encode (is_rv64 TYPE('x)) i r"
    using boot_fetch [OF b0 _ pc(2)] pc(1) w by auto
  have "c0\<lparr>c_instruction := encode (is_rv64 TYPE('x)) i r\<rparr> = c0" using c0(3) by simp
  then obtain c1 where c1: "rv_core_decode c0 = Inr c1" "execute_cb c1 = Some i" "fields_ok (is_rv64 TYPE('x)) i r c1"
    using dec [of c0] by metis
  have s: "core_same ?c c1" using core_same_trans [OF c0(2)] decode_same [OF c1(1)] by blast
  then have b1: "boot_core fdt_addr ram c1" using boot_core_same b0 by blast
  obtain d where d: "exec_instr i rv_soc_bus_access c1 = Inr d" "c_x d = (c_x c1)(rd := v)" "c_next_pc d = t"
    "curr_priv_mode d = curr_priv_mode c1" "c_pc d = c_pc c1" "sync_trap_pending d = sync_trap_pending c1" "c_priv d = c_priv c1"
    "csr_regs d = csr_regs c1" "c_pmp d = c_pmp c1" "c_trap d = c_trap c1" "lr_valid d = lr_valid c1"
    using ex [OF b1 s c1(3)] by (auto simp: boot_exec_def)
  let ?d = "core_count (core_advance_pc (set_x 0 0 d))"
  have "rv_core_run rv_soc_bus_access c = Inr ?d"
    using c0(1) c1(1,2) d(1) by (simp add: rv_core_run_def rv_core_execute_def)
  moreover have "boot_core fdt_addr ram ?d"
    using b1 d by (simp add: boot_core_def soc_core_wf_def core_count_csr(1) pmp_zero_wf)
      (simp add: core_count_def core_advance_pc_def set_x_def Let_def pmp_zero_wf)
  moreover have "c_x ?d = (c_x c)(rd := v, 0 := 0)" "c_pc ?d = (if t \<noteq> 0 then t else c_pc c + 4)"
    using s d by (simp_all add: core_count_def core_advance_pc_def set_x_def Let_def core_same_def)
  ultimately show ?thesis by blast
qed

text \<open>The rest of the iteration: the devices run, and no interrupt is taken.\<close>

definition boot_state :: "u64 \<Rightarrow> soc_mem \<Rightarrow> 'x::len word \<Rightarrow> (u8 \<Rightarrow> 'x word) \<Rightarrow> 'x rv_soc_td \<Rightarrow> bool" where
  "boot_state fdt_addr ram pc x soc \<longleftrightarrow> boot_core fdt_addr ram (rv_core0 soc) \<and> c_pc (rv_core0 soc) = pc \<and> c_x (rv_core0 soc) = x"

lemma update_devices_memories:
  "soc_update_devices d = Inr (d', out, mei, mti, msi) \<Longrightarrow> soc_ram d' = soc_ram d \<and> soc_mrom d' = soc_mrom d"
  by (auto simp: soc_update_devices_def res_bind_eq_Inr_iff)

lemma boot_iteration:
  fixes soc :: "'x::len rv_soc_td"
  assumes r: "rv_core_run rv_soc_bus_access (rv_core0 soc) = Inr c" "boot_core fdt_addr ram c"
  shows "\<exists>soc'. soc_iteration soc = Inr soc' \<and> boot_state fdt_addr ram (c_pc c) (c_x c) soc'"
proof -
  note b = r(2) [unfolded boot_core_def]
  then have x: "32 \<le> LENGTH('x)" by (auto simp: xlen_ok_def)
  obtain d out mei mti msi where d: "soc_update_devices (c_priv c) = Inr (d, out, mei, mti, msi)" "soc_dev_wf d"
    using soc_update_devices_ok [of "c_priv c"] b by (auto simp: soc_core_wf_def)
  let ?c = "rv_core_update_interrupts mei mti msi (c\<lparr>c_priv := d\<rparr>)"
  have p: "regs_data (c_trap ?c) cell = regs_data (c_trap c) cell" for cell
    using pending_bits_spec [OF x, where t = "c_trap c" and ext_int = mei and tim_int = mti and sw_int = msi] b
    by (cases "cell = shared_ip") (auto simp: rv_core_update_interrupts_def intro!: bit_eqI)
  have bc: "boot_core fdt_addr ram ?c"
    using b d update_devices_memories [OF d(1)] p [of shared_status] p [of shared_ie]
    by (simp add: boot_core_def soc_core_wf_def pmp_zero_wf rv_core_update_interrupts_def)
  have "irq_served (c_trap ?c) (curr_priv_mode ?c) k = None" for k
    using bc by (simp add: irq_served_def boot_core_def)
  then have "rv_core_prepare_interrupts ?c = Inr (?c, 0)"
    using no_exception_interrupt [of ?c] x bc by (auto simp: boot_core_def proper_priv_def)
  then have "soc_iteration soc = Inr (soc\<lparr>rv_core0 := ?c, soc_out := soc_out soc @ out\<rparr>)"
    using r(1) d(1) by (simp add: soc_iteration_def rv_core_process_interrupts_def)
  then show ?thesis using bc by (simp add: boot_state_def rv_core_update_interrupts_def)
qed


section \<open>The six instructions\<close>

definition boot_operands :: "5 word \<Rightarrow> 5 word \<Rightarrow> 12 word \<Rightarrow> operands" where
  "boot_operands rd rs1 imm = \<lparr>o_rd = rd, o_rs1 = rs1, o_rs2 = 0, o_imm = imm, o_imm20 = 0\<rparr>"

text \<open>A register-wide load.\<close>

definition boot_load :: "'x::len itself \<Rightarrow> instr_mem" where
  "boot_load _ = (if is_rv64 TYPE('x) then LD else LW)"

lemma boot_encoding_rv64:
  "0x00000297 = encode rv64 (i_base AUIPC) (boot_operands 5 0 0)" "0x02828613 = encode rv64 (i_alu ADDI) (boot_operands 12 5 40)"
  "0xf1402573 = encode rv64 (i_system CSRRS) (boot_operands 10 0 0xF14)" "0x0202b583 = encode rv64 (i_mem LD) (boot_operands 11 5 32)"
  "0x0182b283 = encode rv64 (i_mem LD) (boot_operands 5 5 24)" "0x0202a583 = encode rv64 (i_mem LW) (boot_operands 11 5 32)"
  "0x0182a283 = encode rv64 (i_mem LW) (boot_operands 5 5 24)" "0x00028067 = encode rv64 (i_base JALR) (boot_operands 0 5 0)"
  by code_simp+

lemma boot_words:
  "boot_word TYPE('x::len) fdt_addr 0 = encode (is_rv64 TYPE('x)) (i_base AUIPC) (boot_operands 5 0 0)"
  "boot_word TYPE('x) fdt_addr 1 = encode (is_rv64 TYPE('x)) (i_alu ADDI) (boot_operands 12 5 40)"
  "boot_word TYPE('x) fdt_addr 2 = encode (is_rv64 TYPE('x)) (i_system CSRRS) (boot_operands 10 0 0xF14)"
  "boot_word TYPE('x) fdt_addr 3 = encode (is_rv64 TYPE('x)) (i_mem (boot_load TYPE('x))) (boot_operands 11 5 32)"
  "boot_word TYPE('x) fdt_addr 4 = encode (is_rv64 TYPE('x)) (i_mem (boot_load TYPE('x))) (boot_operands 5 5 24)"
  "boot_word TYPE('x) fdt_addr 5 = encode (is_rv64 TYPE('x)) (i_base JALR) (boot_operands 0 5 0)"
  by (simp_all add: reset_vec_def boot_load_def boot_encoding_rv64 [symmetric] del: encode.simps)

lemma mhartid_entry:
  "csr_static (core_csr_file CSR_ADDR_MHARTID :: ('x::len, 'x csr_dev) csr_reg_td) =
    (CSR_ACCESS_RO machine_mode, CSR_MASK_ZERO, CSR_MASK_ZERO, None, None, 0)"
proof -
  have c: "\<forall>f \<in> set csr_init_counters. \<forall>csr. f csr CSR_ADDR_MHARTID = (csr CSR_ADDR_MHARTID :: ('x, 'x csr_dev) csr_reg_td)"
    "\<forall>f \<in> set csr_init_supervisor. \<forall>csr. f csr CSR_ADDR_MHARTID = (csr CSR_ADDR_MHARTID :: ('x, 'x csr_dev) csr_reg_td)"
    by (auto simp: csr_init_counters_def csr_init_supervisor_def init_other csr_addr_defs CSR_HPMCOUNTER_WARL_MAX_def)
  have p: "\<forall>f \<in> set csr_init_pmp. \<forall>csr. f csr CSR_ADDR_MHARTID = (csr CSR_ADDR_MHARTID :: ('x, 'x csr_dev) csr_reg_td)"
    by (auto simp: csr_init_pmp_def init_other csr_addr_defs PMP_NR_CFG_REGS_def PMP_NR_CFG_REGS_WARL_MAX_def PMP_NR_ADDR_REGS_def
      PMP_NR_ADDR_REGS_WARL_MAX_def split: if_splits)
  have "csr_static (fold (\<lambda>f. f) csr_init_machine csr CSR_ADDR_MHARTID :: ('x::len, 'x csr_dev) csr_reg_td) =
      (CSR_ACCESS_RO machine_mode, CSR_MASK_ZERO, CSR_MASK_ZERO, None, None, 0)" for csr
    by (simp add: csr_init_machine_def init_other csr_addr_defs) (simp add: INIT_CSR_REG_DEFAULT_def csr_static_def)
  then show ?thesis
    by (simp add: core_csr_file_def core_csr_table_def fold_other [OF c(1)] fold_other [OF c(2)] fold_other [OF p])
qed


lemma boot_core_pc: "boot_core fdt_addr ram c \<Longrightarrow> xlen_ok TYPE('x) \<and> 32 \<le> LENGTH('x)" for c :: "('x::len, 'x rv_soc_dev) rv_core_td"
  by (auto simp: boot_core_def xlen_ok_def)

lemma boot_auipc:
  "fields_ok rv64 (i_base AUIPC) (boot_operands 5 0 0) c \<Longrightarrow> boot_exec (i_base AUIPC) 5 (c_pc c) (c_next_pc c) c"
  by (simp add: boot_exec_def field_specs boot_operands_def instr_AUIPC_def set_x_def)

lemma boot_addi:
  assumes "fields_ok rv64 (i_alu ADDI) (boot_operands 12 5 40) c" "32 \<le> LENGTH('x)"
  shows "boot_exec (i_alu ADDI) 12 (c_x c 5 + 40) (c_next_pc c) (c :: ('x::len, 'x rv_soc_dev) rv_core_td)"
proof -
  have "SIGNEX_BIT 11 (40 :: 'x word) = 40" using signex_offsets(2) [OF assms(2), of 40] by simp
  then show ?thesis using assms
  by (simp add: boot_exec_def field_specs boot_operands_def instr_ADDI_def set_x_def add.commute [of 40])
qed

lemma boot_csrrs:
  fixes c :: "('x::len, 'x rv_soc_dev) rv_core_td"
  assumes "fields_ok rv64 (i_system CSRRS) (boot_operands 10 0 0xF14) c" "boot_core fdt_addr ram c"
  shows "boot_exec (i_system CSRRS) 10 0 (c_next_pc c) c"
proof -
  have f: "c_rd c = 10" "c_rs1 c = 0" "c_immediate c = 0xF14" using assms(1) by (simp_all add: field_specs boot_operands_def)
  have x: "xlen_ok TYPE('x)" using assms(2) by (simp add: boot_core_def)
  have e: "csr_static (csr_regs c 0xF14) = (CSR_ACCESS_RO machine_mode, CSR_MASK_ZERO, CSR_MASK_ZERO, None, None, 0)"
    using assms(2) mhartid_entry [where 'x = 'x] by (simp add: boot_core_def soc_core_wf_def CSR_ADDR_MHARTID_def)
  have u: "unat (ucast (c_immediate c) :: u16) = 0xF14" using x f(3) by (auto simp: xlen_ok_def)
  have g: "CSR_ACCESS_READ_GRANTED machine_mode (CSR_ACCESS_RO machine_mode)" by code_simp
  have r: "core_csr_read c (ucast (c_immediate c)) 0 = Inr (rv_ok, csr_value (csr_regs c 0xF14))"
    using e u assms(2) by (simp add: core_csr_read_def csr_read_reg_def csr_at_def CSR_ADDR_MAX_def csr_static_def boot_core_def
      g CSR_MASK_ZERO_def)
  show ?thesis
    using e f r u by (simp add: boot_exec_def instr_CSRRS_def CSRRSx_def Let_def csr_get_mask_def csr_at_def CSR_ADDR_MAX_def
      csr_static_def CSR_MASK_ZERO_def set_x_def)
qed

lemma boot_jalr:
  fixes c :: "('x::len, 'x rv_soc_dev) rv_core_td"
  assumes "fields_ok rv64 (i_base JALR) (boot_operands 0 5 0) c" "c_x c 5 AND 3 = 0" "c_x c 5 AND NOT 1 = c_x c 5"
  shows "boot_exec (i_base JALR) 0 (c_pc c + 4) (c_x c 5) c"
proof -
  have "SIGNEX_BIT 11 0 = (0 :: 'x word)" by (simp add: SIGNEX_BIT_def)
  then show ?thesis
    using assms by (simp add: boot_exec_def field_specs boot_operands_def instr_JALR_def set_x_def ADDR_MISALIGNED_def)
qed

text \<open>The loads read a word of the ROM, the second half of a 64-bit one being zero.\<close>

lemma scast_same: "LENGTH('x::len) = 32 \<Longrightarrow> (scast w :: 'x word) = ucast w" for w :: u32
proof (rule bit_word_eqI)
  fix n assume "LENGTH('x) = 32" "n < LENGTH('x)"
  then show "bit (scast w :: 'x word) n \<longleftrightarrow> bit (ucast w :: 'x word) n" by (cases "n = 31") (auto simp: bit_simps min_def)
qed

lemma bytes_of_double: "bytes_of 4 w @ bytes_of 4 0 = bytes_of 8 (ucast w :: 'x word)" if "LENGTH('x::len) = 64" for w :: u32
proof (rule nth_equalityI)
  fix i assume i: "i < length (bytes_of 4 w @ bytes_of 4 0)"
  have "bit w (8 * i + n) \<Longrightarrow> i < 4" for n using bit_imp_le_length [of w "8 * i + n"] by simp
  then show "(bytes_of 4 w @ bytes_of 4 0) ! i = bytes_of 8 (ucast w :: 'x word) ! i"
    using i that by (auto intro!: bit_word_eqI simp: nth_append nth_bytes_of bit_simps split: if_splits)
qed simp

lemma boot_load_value:
  fixes c :: "('x::len, 'x rv_soc_dev) rv_core_td"
  assumes b: "boot_core fdt_addr ram c" and f: "fields_ok (is_rv64 TYPE('x)) (i_mem (boot_load TYPE('x))) (boot_operands rd 5 imm) c"
    and x5: "c_x c 5 = 0x1000" and k: "imm = of_nat (4 * k)" "k = 6 \<or> k = 8"
  shows "boot_exec (i_mem (boot_load TYPE('x))) (ucast rd) (ucast (boot_word TYPE('x) fdt_addr k)) (c_next_pc c) c"
proof -
  let ?n = "XLEN_BYTES TYPE('x)" and ?m = "boot_load TYPE('x)" and ?w = "boot_word TYPE('x) fdt_addr k"
  have x: "xlen_ok TYPE('x)" "32 \<le> LENGTH('x)" using b by (auto simp: boot_core_def xlen_ok_def)
  then have n: "LENGTH('x) = 32 \<and> ?n = 4 \<and> ?m = LW \<or> LENGTH('x) = 64 \<and> ?n = 8 \<and> ?m = LD"
    by (auto simp: xlen_ok_def XLEN_BYTES_def boot_load_def is_rv64_iff)
  have flds: "c_rd c = ucast rd" "c_rs1 c = 5" "c_immediate c = ucast imm" using f n by (auto simp: field_specs boot_operands_def)
  have i: "SIGNEX_BIT 11 (ucast imm :: 'x word) = of_nat (4 * k)"
    using signex_offsets(2) [OF x(2), of imm] k by auto
  have a: "unat (c_x c 5 + of_nat (4 * k)) = 0x1000 + 4 * k" using x5 k(2) x(1) by (auto simp: xlen_ok_def)
  have acc: "mmu_checked_bus_access rv_soc_bus_access c (curr_priv_mode c) bus_read_access (c_x c 5 + of_nat (4 * k)) (replicate ?n 0) (of_nat ?n) =
      Inr (c, rv_ok, mem_load (boot_rom TYPE('x) fdt_addr) (4 * k) ?n)"
    by (rule rom_access [OF b]) (use a n k(2) in auto)
  have z: "boot_word TYPE('x) fdt_addr (Suc k) = 0" using k(2) by (auto simp: reset_vec_def)
  show ?thesis
  proof (cases "LENGTH('x) = 64")
    case True
    then have e: "?n = 8" "?m = LD" using n by auto
    have "mem_load (boot_rom TYPE('x) fdt_addr) (4 * k) 8 = bytes_of 8 (ucast ?w :: 'x word)"
      using boot_rom_words [of k "TYPE('x)" fdt_addr] bytes_of_double [OF True, of ?w] k(2) z by auto
    moreover have "(word_of_bytes (bytes_of 8 (ucast ?w :: 'x word)) :: 'x word) = ucast ?w"
      using True by (intro word_of_bytes_of_full) simp
    ultimately show ?thesis
      using acc flds i by (simp add: e boot_exec_def instr_LD_def load_to_def set_x_def)
  next
    case False
    then have l: "LENGTH('x) = 32" and e: "?n = 4" "?m = LW" using n by auto
    have "mem_load (boot_rom TYPE('x) fdt_addr) (4 * k) 4 = bytes_of 4 ?w"
      using boot_rom_word [of k "TYPE('x)" fdt_addr] k(2) by auto
    moreover have "(word_of_bytes (bytes_of 4 ?w) :: u32) = ?w" by (intro word_of_bytes_of_full) simp
    moreover have "(scast ?w :: 'x word) = ucast ?w" using l by (rule scast_same)
    ultimately show ?thesis
      using acc flds i by (simp add: e boot_exec_def instr_LW_def load_to_def set_x_def)
  qed
qed


section \<open>From the reset to the firmware\<close>

lemma boot_next:
  fixes soc :: "'x::len rv_soc_td"
  assumes s: "boot_state fdt_addr ram pc x soc" and pc: "unat pc = 0x1000 + 4 * k" "k < 9"
    and w: "boot_word TYPE('x) fdt_addr k = encode (is_rv64 TYPE('x)) i r"
    and dec: "\<And>c :: ('x, 'x rv_soc_dev) rv_core_td. \<exists>c'. rv_core_decode (c\<lparr>c_instruction := encode (is_rv64 TYPE('x)) i r\<rparr>) = Inr c' \<and>
      execute_cb c' = Some i \<and> fields_ok (is_rv64 TYPE('x)) i r c'"
    and ex: "\<And>c1. boot_core fdt_addr ram c1 \<Longrightarrow> c_x c1 = x \<Longrightarrow> c_pc c1 = pc \<Longrightarrow> c_next_pc c1 = 0 \<Longrightarrow>
      fields_ok (is_rv64 TYPE('x)) i r c1 \<Longrightarrow> boot_exec i rd v t c1"
    and pc': "(if t \<noteq> 0 then t else pc + 4) = pc'" and x': "x(rd := v, 0 := 0) = x'"
  shows "\<exists>soc'. soc_iteration soc = Inr soc' \<and> boot_state fdt_addr ram pc' x' soc'"
proof -
  let ?c = "rv_core0 soc"
  have c: "boot_core fdt_addr ram ?c" "c_pc ?c = pc" "c_x ?c = x" using s by (simp_all add: boot_state_def)
  have "boot_exec i rd v t c1" if "boot_core fdt_addr ram c1" "core_same (?c\<lparr>c_next_pc := 0\<rparr>) c1" "fields_ok (is_rv64 TYPE('x)) i r c1" for c1
    using ex [OF that(1) _ _ _ that(3)] that(2) c by (simp add: core_same_def)
  from boot_step [OF c(1) _ pc(2) w dec this] obtain d where
    "rv_core_run rv_soc_bus_access ?c = Inr d" "boot_core fdt_addr ram d" "c_x d = x(rd := v, 0 := 0)" "c_pc d = (if t \<noteq> 0 then t else pc + 4)"
    using c pc(1) by auto
  then show ?thesis using boot_iteration [of soc d] pc' x' by simp
qed

definition soc_iterations :: "nat \<Rightarrow> 'x::len rv_soc_td \<Rightarrow> 'x rv_soc_td res" where
  "soc_iterations n soc = ((\<lambda>r. res_bind r soc_iteration) ^^ n) (Inr soc)"

lemma soc_iterations_step: "soc_iterations n soc = Inr soc1 \<Longrightarrow> soc_iteration soc1 = Inr soc2 \<Longrightarrow> soc_iterations (Suc n) soc = Inr soc2"
  by (simp add: soc_iterations_def)

lemma boot_run:
  fixes soc :: "'x::len rv_soc_td"
  assumes "boot_state fdt_addr ram 0x1000 (\<lambda>_. 0) soc" and xl: "xlen_ok TYPE('x)"
  shows "\<exists>soc'. soc_iterations 6 soc = Inr soc' \<and>
    boot_state fdt_addr ram 0x80000000 ((\<lambda>_. 0)(5 := 0x80000000, 11 := ucast (ucast fdt_addr :: u32), 12 := 0x1028)) soc'"
proof -
  have l: "32 \<le> LENGTH('x)" "is_rv64 TYPE('x) \<or> \<not> rv64_only (i_mem (boot_load TYPE('x)))"
    using xl by (auto simp: xlen_ok_def boot_load_def rv64_only_def)
  note db = decode_base [OF refl l(1)] and dm = decode_mem_system(1) [OF refl l(2)] and ds = decode_mem_system(2) [OF refl]
    and da = decode_alu [OF refl]
  have w: "boot_word TYPE('x) fdt_addr 6 = 0x80000000" "boot_word TYPE('x) fdt_addr 8 = ucast fdt_addr"
    by (simp_all add: reset_vec_def RAM_BASE_ADDR_def)
  have x: "unat (0x1000 :: 'x word) = 0x1000" "unat (0x1004 :: 'x word) = 0x1004" "unat (0x1008 :: 'x word) = 0x1008"
    "unat (0x100C :: 'x word) = 0x100C" "unat (0x1010 :: 'x word) = 0x1010" "unat (0x1014 :: 'x word) = 0x1014"
    using xl by (auto simp: xlen_ok_def)
  let ?f = "ucast (ucast fdt_addr :: u32) :: 'x word"
  have "unat (0x80000000 :: 'x word) = 0x80000000" using xl by (auto simp: xlen_ok_def)
  then have nz: "(0x80000000 :: 'x word) \<noteq> 0" by (metis unat_0 zero_neq_numeral)
  have u: "(\<lambda>_. 0 :: 'x word)(0 := 0) = (\<lambda>_. 0)" by auto
  have ld: "boot_exec (i_mem (boot_load TYPE('x))) 11 ?f 0 c" if "boot_core fdt_addr ram c" "c_x c 5 = 0x1000" "c_next_pc c = 0"
      "fields_ok (is_rv64 TYPE('x)) (i_mem (boot_load TYPE('x))) (boot_operands 11 5 32) c" for c :: "('x, 'x rv_soc_dev) rv_core_td"
    using boot_load_value [OF that(1,4,2), of 8] w that(3) by simp
  have ls: "boot_exec (i_mem (boot_load TYPE('x))) 5 0x80000000 0 c" if "boot_core fdt_addr ram c" "c_x c 5 = 0x1000" "c_next_pc c = 0"
      "fields_ok (is_rv64 TYPE('x)) (i_mem (boot_load TYPE('x))) (boot_operands 5 5 24) c" for c :: "('x, 'x rv_soc_dev) rv_core_td"
    using boot_load_value [OF that(1,4,2), of 6] w that(3) by simp
  have "\<exists>s1. soc_iteration soc = Inr s1 \<and> boot_state fdt_addr ram 0x1004 ((\<lambda>_. 0)(5 := 0x1000)) s1"
    by (rule boot_next [OF assms(1) _ _ boot_words(1) db, where rd = 5 and v = "0x1000" and t = 0]) (use boot_auipc x in force)+
  then obtain s1 where s1: "soc_iteration soc = Inr s1" "boot_state fdt_addr ram 0x1004 ((\<lambda>_. 0)(5 := 0x1000)) s1" by blast
  have "\<exists>s2. soc_iteration s1 = Inr s2 \<and> boot_state fdt_addr ram 0x1008 ((\<lambda>_. 0)(5 := 0x1000, 12 := 0x1028)) s2"
    by (rule boot_next [OF s1(2) _ _ boot_words(2) da, where rd = 12 and v = "0x1028" and t = 0]) (use boot_addi l x in force)+
  then obtain s2 where s2: "soc_iteration s1 = Inr s2" "boot_state fdt_addr ram 0x1008 ((\<lambda>_. 0)(5 := 0x1000, 12 := 0x1028)) s2" by blast
  have "\<exists>s3. soc_iteration s2 = Inr s3 \<and> boot_state fdt_addr ram 0x100C ((\<lambda>_. 0)(5 := 0x1000, 12 := 0x1028)) s3"
    by (rule boot_next [OF s2(2) _ _ boot_words(3) ds, where rd = 10 and v = 0 and t = 0]) (use boot_csrrs x in force)+
  then obtain s3 where s3: "soc_iteration s2 = Inr s3" "boot_state fdt_addr ram 0x100C ((\<lambda>_. 0)(5 := 0x1000, 12 := 0x1028)) s3" by blast
  have "\<exists>s4. soc_iteration s3 = Inr s4 \<and> boot_state fdt_addr ram 0x1010 ((\<lambda>_. 0)(5 := 0x1000, 12 := 0x1028, 11 := ?f)) s4"
    by (rule boot_next [OF s3(2) _ _ boot_words(4) dm, where rd = 11 and v = ?f and t = 0]) (use ld x in \<open>simp_all add: fun_upd_twist u\<close>)
  then obtain s4 where s4: "soc_iteration s3 = Inr s4" "boot_state fdt_addr ram 0x1010 ((\<lambda>_. 0)(5 := 0x1000, 12 := 0x1028, 11 := ?f)) s4"
    by blast
  have "\<exists>s5. soc_iteration s4 = Inr s5 \<and> boot_state fdt_addr ram 0x1014 ((\<lambda>_. 0)(5 := 0x80000000, 12 := 0x1028, 11 := ?f)) s5"
    by (rule boot_next [OF s4(2) _ _ boot_words(5) dm, where rd = 5 and v = "0x80000000" and t = 0]) (use ls x in \<open>simp_all add: fun_upd_twist u\<close>)
  then obtain s5 where s5: "soc_iteration s4 = Inr s5" "boot_state fdt_addr ram 0x1014 ((\<lambda>_. 0)(5 := 0x80000000, 12 := 0x1028, 11 := ?f)) s5"
    by blast
  have "\<exists>s6. soc_iteration s5 = Inr s6 \<and> boot_state fdt_addr ram 0x80000000 ((\<lambda>_. 0)(5 := 0x80000000, 12 := 0x1028, 11 := ?f)) s6"
    by (rule boot_next [OF s5(2) _ _ boot_words(6) db, where rd = 0 and v = "0x1018" and t = "0x80000000"]) (use boot_jalr x nz in \<open>force simp: fun_upd_twist u\<close>)+
  then obtain s6 where s6: "soc_iteration s5 = Inr s6" "boot_state fdt_addr ram 0x80000000 ((\<lambda>_. 0)(5 := 0x80000000, 12 := 0x1028, 11 := ?f)) s6"
    by blast
  have "soc_iterations 6 soc = Inr s6"
    using s1(1) s2(1) s3(1) s4(1) s5(1) s6(1) by (simp add: soc_iterations_def numeral_eq_Suc)
  then show ?thesis using s6(2) by (simp add: fun_upd_twist)
qed


section \<open>What the loader leaves\<close>

lemma write_mem_contents:
  assumes "write_mem_from_file fs f m off n = Inr m'"
  shows "\<exists>w. fs f = Some w \<and> m' = m\<lparr>mem_cells := mem_store (mem_cells m) (unat off) w\<rparr> \<and> unat off + length w \<le> mem_len m"
  using assms by (auto simp: write_mem_from_file_def get_file_size_def res_bind_eq_Inr_iff split: option.splits if_splits)

text \<open>The device tree is below the end of RAM, so its address fits into 32 bits.\<close>

lemma fdt_address:
  assumes "fdt_place n = (fdt_addr, off)" "unat off \<le> 0x8000000" "xlen_ok TYPE('x)"
  shows "unat (ucast (ucast fdt_addr :: u32) :: 'x::len word) = 0x80000000 + unat off"
proof -
  have e: "fdt_addr = 0x80000000 + off" using assms(1) by (auto simp: fdt_place_def Let_def RAM_BASE_ADDR_def)
  have "unat (0x80000000 + off) = 0x80000000 + unat off" using assms(2) by (simp add: unat_word_ariths)
  then have "unat (ucast fdt_addr :: u32) = 0x80000000 + unat off"
    using assms(2) e by (simp add: unsigned_ucast_eq take_bit_nat_eq_self)
  then show ?thesis using assms(2,3) by (subst unat_ucast_up) (auto simp: xlen_ok_def)
qed

lemma boot_init:
  assumes "rv_soc_init simple fs fw dtb initrd = Inr (soc :: 'x::len rv_soc_td)" "xlen_ok TYPE('x)"
  shows "\<exists>fdt_addr ram w. boot_state fdt_addr ram 0x1000 (\<lambda>_. 0) soc \<and> fs fw = Some w \<and> mem_load (mem_cells ram) 0 (length w) = w \<and>
    (case dtb of None \<Rightarrow> fdt_addr = 0
     | Some f \<Rightarrow> \<exists>t off. fs f = Some t \<and> unat (ucast (ucast fdt_addr :: u32) :: 'x word) = 0x80000000 + off \<and>
         (length w \<le> off \<longrightarrow> mem_load (mem_cells ram) off (length t) = t))"
proof -
  have wf: "soc_wf soc" using rv_soc_init_wf [OF assms] .
  obtain fdt ram1 ram2 fr d where
    ram1: "(case dtb of None \<Rightarrow> Inr (0, soc_ram (soc_zero simple :: 'x rv_soc_dev))
       | Some f \<Rightarrow> res_bind (get_file_size fs f) (\<lambda>fdt_size.
           let (fdt_addr, tmp) = fdt_place fdt_size
           in res_bind (write_mem_from_file fs f (soc_ram (soc_zero simple :: 'x rv_soc_dev)) tmp (RAM_SIZE_BYTES - tmp))
             (\<lambda>m. Inr (fdt_addr, m)))) = Inr (fdt, ram1)"
    and ram2: "write_mem_from_file fs fw ram1 0 RAM_SIZE_BYTES = Inr ram2"
    and d: "rv_soc_init_mem_access_cbs ((soc_zero simple :: 'x rv_soc_dev)\<lparr>soc_ram := ram2, soc_from := fr,
        soc_mrom := (soc_mrom (soc_zero simple :: 'x rv_soc_dev))\<lparr>mem_cells := fold (\<lambda>(i, w) m. mem_store m (4 * i) (bytes_of 4 w))
             (List.enumerate 0 (reset_vec TYPE('x) RAM_BASE_ADDR fdt)) (mem_cells (soc_mrom (soc_zero simple :: 'x rv_soc_dev)))\<rparr>\<rparr>) = Inr d"
    and soc: "soc = \<lparr>rv_core0 = rv_core_init d, soc_out = []\<rparr>"
    using assms(1) unfolding rv_soc_init_def Let_def by (auto simp: res_bind_eq_Inr_iff)
  have mem: "mem_cells (soc_mrom d) = boot_rom TYPE('x) fdt" "soc_ram d = ram2"
    using d by (subst (asm) init_mem_access_regions; auto simp: soc_zero_def zero_mem_def boot_rom_def)+
  have init: "boot_state fdt ram2 0x1000 (\<lambda>_. 0) soc"
    using wf mem assms(2) by (simp add: boot_state_def boot_core_def soc_wf_def soc rv_core_init_def rv_core_init_csr_regs_def
      rv_core_zero_def Let_def MROM_BASE_ADDR_def trap_init_def)
  obtain w where w: "fs fw = Some w" "ram2 = ram1\<lparr>mem_cells := mem_store (mem_cells ram1) 0 w\<rparr>"
    using write_mem_contents [OF ram2] by auto
  show ?thesis
  proof (cases dtb)
    case None
    then show ?thesis using init w ram1 mem_load_store_same [OF refl, of "mem_cells ram1" 0 w] by auto
  next
    case (Some f)
    obtain n where n0: "get_file_size fs f = Inr n" using ram1 Some by (cases "get_file_size fs f") auto
    obtain fa off where p: "fdt_place n = (fa, off)" by fastforce
    have n: "fdt_place n = (fdt, off)"
      "write_mem_from_file fs f (soc_ram (soc_zero simple :: 'x rv_soc_dev)) off (RAM_SIZE_BYTES - off) = Inr ram1"
      using ram1 Some n0 p by (auto simp: res_bind_eq_Inr_iff)
    obtain t where t: "fs f = Some t" "ram1 = (zero_mem 0x8000000)\<lparr>mem_cells := mem_store (\<lambda>_. 0) (unat off) t\<rparr>"
      "unat off + length t \<le> 0x8000000"
      using write_mem_contents [OF n(2)] by (auto simp: soc_zero_def zero_mem_def)
    have "unat (ucast (ucast fdt :: u32) :: 'x word) = 0x80000000 + unat off"
      using fdt_address [OF n(1) _ assms(2)] t(3) by simp
    moreover have "length w \<le> unat off \<longrightarrow> mem_load (mem_cells ram2) (unat off) (length t) = t"
      using w(2) t(2) mem_load_store_disjoint [where a = 0 and bs = w and b = "unat off" and n = "length t" and m = "mem_cells ram1"] mem_load_store_same [OF refl, of "\<lambda>_. 0" "unat off" t]
      by simp
    ultimately have "\<exists>t off. fs f = Some t \<and> unat (ucast (ucast fdt :: u32) :: 'x word) = 0x80000000 + off \<and>
        (length w \<le> off \<longrightarrow> mem_load (mem_cells ram2) off (length t) = t)" using t(1) by blast
    moreover have "mem_load (mem_cells ram2) 0 (length w) = w" using w(2) mem_load_store_same [OF refl, of "mem_cells ram1" 0 w] by simp
    ultimately show ?thesis using init w(1) Some by (auto intro!: exI [of _ fdt] exI [of _ ram2])
  qed
qed


section \<open>Properties\<close>

text \<open>
  C9. The start of the machine. When the initialisation succeeds, six iterations of the main loop execute the boot ROM and
  leave the core in machine mode at the first address of RAM, where the firmware file has been loaded, with the number
  of the hart in \<open>a0\<close> and in \<open>a1\<close> the address at which the device tree file is in memory, unless the firmware
  reaches over it, or zero without a device tree.
\<close>

theorem boot_starts_firmware:
  fixes soc :: "'x::len rv_soc_td"
  assumes "rv_soc_init simple fs fw dtb initrd = Inr soc" "xlen_ok TYPE('x)"
  shows "\<exists>soc' c w. soc_iterations 6 soc = Inr soc' \<and> c = rv_core0 soc' \<and> c_pc c = 0x80000000 \<and> curr_priv_mode c = machine_mode \<and>
    fs fw = Some w \<and> mem_load (ram_cells c) 0 (length w) = w \<and> c_x c 10 = 0 \<and>
    (case dtb of None \<Rightarrow> c_x c 11 = 0
     | Some f \<Rightarrow> \<exists>t off. fs f = Some t \<and> unat (c_x c 11) = 0x80000000 + off \<and>
         (length w \<le> off \<longrightarrow> mem_load (ram_cells c) off (length t) = t))"
proof -
  obtain fdt_addr ram w where i: "boot_state fdt_addr ram 0x1000 (\<lambda>_. 0) soc" "fs fw = Some w" "mem_load (mem_cells ram) 0 (length w) = w"
    "case dtb of None \<Rightarrow> fdt_addr = 0
     | Some f \<Rightarrow> \<exists>t off. fs f = Some t \<and> unat (ucast (ucast fdt_addr :: u32) :: 'x word) = 0x80000000 + off \<and>
         (length w \<le> off \<longrightarrow> mem_load (mem_cells ram) off (length t) = t)"
    using boot_init [OF assms] by blast
  obtain soc' where "soc_iterations 6 soc = Inr soc'"
    "boot_state fdt_addr ram 0x80000000 ((\<lambda>_. 0)(5 := 0x80000000, 11 := ucast (ucast fdt_addr :: u32), 12 := 0x1028)) soc'"
    using boot_run [OF i(1) assms(2)] by blast
  then show ?thesis using i by (auto simp: boot_state_def boot_core_def ram_cells_def split: option.splits)
qed

text \<open>A firmware of one instruction and a device tree of two bytes.\<close>

definition boot_files :: file_system where
  "boot_files f = (if f = ''fw.bin'' then Some [0x13, 0, 0, 0] else if f = ''dtb'' then Some [0xD0, 0x0D] else None)"

lemma boot_files_init:
  obtains soc :: "64 rv_soc_td" where "rv_soc_init False boot_files ''fw.bin'' (Some ''dtb'') None = Inr soc"
proof -
  have p: "fdt_place 2 = (0x87000000, 0x7000000)" by code_simp
  have w: "write_mem_from_file boot_files ''fw.bin'' m 0 RAM_SIZE_BYTES = Inr (m\<lparr>mem_cells := mem_store (mem_cells m) 0 [0x13, 0, 0, 0]\<rparr>)"
    if "mem_len m = 0x8000000" for m
    using that by (simp add: write_mem_from_file_def get_file_size_def boot_files_def RAM_SIZE_BYTES_def)
  have t: "write_mem_from_file boot_files ''dtb'' m 0x7000000 (RAM_SIZE_BYTES - 0x7000000) =
      Inr (m\<lparr>mem_cells := mem_store (mem_cells m) 0x7000000 [0xD0, 0x0D]\<rparr>)" if "mem_len m = 0x8000000" for m
    using that by (simp add: write_mem_from_file_def get_file_size_def boot_files_def RAM_SIZE_BYTES_def)
  have "length (mem_access_cbs (soc_zero False :: 64 rv_soc_dev)) = 6" "mem_len (soc_ram (soc_zero False :: 64 rv_soc_dev)) = 0x8000000"
    by (simp_all add: soc_zero_def zero_mem_def)
  moreover have "get_file_size boot_files ''dtb'' = Inr 2" by (simp add: get_file_size_def boot_files_def)
  ultimately show thesis using that by (simp add: rv_soc_init_def Let_def w t p init_mem_access_regions)
qed

theorem boot_starts_firmware_witness:
  "\<exists>soc soc' :: 64 rv_soc_td. rv_soc_init False boot_files ''fw.bin'' (Some ''dtb'') None = Inr soc \<and> soc_iterations 6 soc = Inr soc' \<and>
     mem_load (ram_cells (rv_core0 soc')) 0 4 = [0x13, 0, 0, 0]"
proof -
  obtain soc :: "64 rv_soc_td" where s: "rv_soc_init False boot_files ''fw.bin'' (Some ''dtb'') None = Inr soc" by (rule boot_files_init)
  have x: "xlen_ok TYPE(64)" by (simp add: xlen_ok_def)
  have w: "boot_files ''fw.bin'' = Some [0x13, 0, 0, 0]" by (simp add: boot_files_def)
  from boot_starts_firmware [OF s x] obtain soc' v where "soc_iterations 6 soc = Inr soc'" "boot_files ''fw.bin'' = Some v"
    "mem_load (ram_cells (rv_core0 soc')) 0 (length v) = v" by blast
  then show ?thesis using w s by (auto simp: eval_nat_numeral)
qed

end
