(* ===== verification/IsaMachine.thy ===== *)
theory IsaMachine
  imports Boot
begin

text \<open>
  The instruction set as an abstract machine, and the proof that the emulator refines it: a program counter, 31 registers, the
  bytes of RAM and the reservation, with one step per instruction of the unprivileged integer, multiplication and
  atomic sets, on integers. The machine knows neither decoding tables, nor buses, nor devices, nor traps.
\<close>

section \<open>The abstract machine\<close>

record (overloaded) 'x isa_state =
  m_pc :: "'x word"
  m_x :: "5 word \<Rightarrow> 'x word"
  m_mem :: bytemem
  m_res :: "'x word option"

definition isa_put :: "5 word \<Rightarrow> 'x::len word \<Rightarrow> 'x isa_state \<Rightarrow> 'x isa_state" where
  "isa_put rd v s = s\<lparr>m_x := (m_x s)(rd := v, 0 := 0)\<rparr>"

definition isa_next :: "'x::len isa_state \<Rightarrow> 'x isa_state" where
  "isa_next s = s\<lparr>m_pc := m_pc s + 4\<rparr>"

definition in_ram :: "'x::len word \<Rightarrow> nat \<Rightarrow> bool" where
  "in_ram addr n \<longleftrightarrow> 0x80000000 \<le> unat addr \<and> unat addr + n \<le> 0x88000000"

definition isa_store :: "'x::len word \<Rightarrow> u8 list \<Rightarrow> 'x isa_state \<Rightarrow> 'x isa_state" where
  "isa_store addr bs s = s\<lparr>m_mem := mem_store (m_mem s) (ram_offset addr) bs\<rparr>"

definition alu_source :: "instr_alu \<Rightarrow> operands \<Rightarrow> 'x::len isa_state \<Rightarrow> 'x word" where
  "alu_source i r s = (if alu_immediate i then scast (o_imm r) else m_x s (o_rs2 r))"

definition word_source :: "instr_word \<Rightarrow> operands \<Rightarrow> 'x::len isa_state \<Rightarrow> 'x word" where
  "word_source i r s = (if i \<in> {SRAIW, ADDIW, SLLIW, SRLIW} then scast (o_imm r) else m_x s (o_rs2 r))"

text \<open>Offsets of branches and \<open>JAL\<close> are in units of two bytes; \<open>JALR\<close> clears the lowest bit.\<close>

definition isa_target :: "instr_base \<Rightarrow> operands \<Rightarrow> 'x::len isa_state \<Rightarrow> 'x word" where
  "isa_target i r s = (if i = JALR then word_of_int ((sint (m_x s (o_rs1 r)) + sint (o_imm r)) div 2 * 2)
     else word_of_int (uint (m_pc s) + 2 * (if i = JAL then sint (o_imm20 r) else sint (o_imm r))))"

text \<open>
  No result: a jump to zero, which the emulator takes for no jump, or to a target that is not a multiple of four, at which it exits.
\<close>

definition isa_base :: "instr_base \<Rightarrow> operands \<Rightarrow> 'x::len isa_state \<Rightarrow> 'x isa_state option" where
  "isa_base i r s =
    (if i = LUI then Some (isa_next (isa_put (o_rd r) (push_bit 12 (scast (o_imm20 r))) s))
     else if i = AUIPC then Some (isa_next (isa_put (o_rd r) (m_pc s + push_bit 12 (scast (o_imm20 r))) s))
     else if taken_ref i (m_x s (o_rs1 r)) (m_x s (o_rs2 r)) then
       let t = isa_target i r s in
       if t = 0 \<or> \<not> 4 dvd unat t then None
       else Some ((if link_ref i then isa_put (o_rd r) (m_pc s + 4) s else s)\<lparr>m_pc := t\<rparr>)
     else Some (isa_next s))"

text \<open>No result for an access outside the RAM, which is one of a device or of no device.\<close>

definition isa_mem :: "instr_mem \<Rightarrow> operands \<Rightarrow> 'x::len isa_state \<Rightarrow> 'x isa_state option" where
  "isa_mem i r s =
    (let a = m_x s (o_rs1 r) + scast (o_imm r); n = mem_width i in
     if \<not> in_ram a n then None
     else if is_store i then Some (isa_next (isa_store a (bytes_of n (m_x s (o_rs2 r))) s))
     else Some (isa_next (isa_put (o_rd r) (load_ref i (word_of_bytes (mem_load (m_mem s) (ram_offset a) n))) s)))"

text \<open>The atomic instructions on words of the type of the first argument.\<close>

definition isa_amo :: "'a::len itself \<Rightarrow> instr_amo \<Rightarrow> operands \<Rightarrow> 'x::len isa_state \<Rightarrow> 'x isa_state option" where
  "isa_amo _ i r s =
    (let a = m_x s (o_rs1 r); b = m_x s (o_rs2 r); n = LENGTH('a) div 8;
         m = (word_of_bytes (mem_load (m_mem s) (ram_offset a) n) :: 'a word)
     in if i = SC \<and> m_res s \<noteq> Some a then Some (isa_next (isa_put (o_rd r) 1 (s\<lparr>m_res := None\<rparr>)))
     else if \<not> in_ram a n then None
     else Some (isa_next (
       if i = SC then isa_put (o_rd r) 0 (isa_store a (bytes_of n b) (s\<lparr>m_res := None\<rparr>))
       else if i = LR then isa_put (o_rd r) (scast m) (s\<lparr>m_res := Some a\<rparr>)
       else isa_put (o_rd r) (scast m) (isa_store a (bytes_of n (amo_ref i m (ucast b))) s))))"

primrec isa_exec :: "instr \<Rightarrow> operands \<Rightarrow> 'x::len isa_state \<Rightarrow> 'x isa_state option" where
  "isa_exec (i_base i) r s = isa_base i r s"
| "isa_exec (i_alu i) r s = Some (isa_next (isa_put (o_rd r) (alu_ref i (m_x s (o_rs1 r)) (alu_source i r s)) s))"
| "isa_exec (i_mem i) r s = isa_mem i r s"
| "isa_exec (i_word i) r s = Some (isa_next (isa_put (o_rd r) (word_ref i (m_x s (o_rs1 r)) (word_source i r s)) s))"
| "isa_exec (i_mul i) r s = Some (isa_next (isa_put (o_rd r) (mul_ref i (m_x s (o_rs1 r)) (m_x s (o_rs2 r))) s))"
| "isa_exec (i_amo_w i) r s = isa_amo TYPE(32) i r s"
| "isa_exec (i_amo_d i) r s = isa_amo TYPE('x) i r s"
| "isa_exec (i_system i) r s = None"

text \<open>
  A step executes the instruction whose encoding is in memory at the program counter. The emulator reads as many bytes
  as a register has, so on RV64 the last word of RAM cannot be fetched.
\<close>

definition isa_fetch :: "'x::len isa_state \<Rightarrow> instr \<Rightarrow> operands \<Rightarrow> bool" where
  "isa_fetch s i r \<longleftrightarrow> in_ram (m_pc s) (XLEN_BYTES TYPE('x)) \<and> 4 dvd unat (m_pc s) \<and> (rv64_only i \<longrightarrow> is_rv64 TYPE('x)) \<and>
     mem_load (m_mem s) (ram_offset (m_pc s)) 4 = bytes_of 4 (encode (is_rv64 TYPE('x)) i r)"

inductive isa_step :: "'x::len isa_state \<Rightarrow> 'x isa_state \<Rightarrow> bool" where
  "isa_fetch s i r \<Longrightarrow> isa_exec i r s = Some s' \<Longrightarrow> isa_step s s'"

inductive_cases isa_step_cases: "isa_step s s'"

section \<open>The state of the abstract machine in the core\<close>

definition isa_abs :: "('x::len, 'x rv_soc_dev) rv_core_td \<Rightarrow> 'x isa_state" where
  "isa_abs c = \<lparr>m_pc = c_pc c, m_x = (\<lambda>r. c_x c (ucast r)), m_mem = ram_cells c,
     m_res = (if lr_valid c then Some (lr_address c) else None)\<rparr>"

definition pmp_open :: "'x::len pmp_td \<Rightarrow> bool" where
  "pmp_open p \<longleftrightarrow> (\<forall>addr n a. pmp_mem_check p machine_mode addr n a = Inr rv_ok)"

text \<open>A core in machine mode, with nothing pending, no interrupt enabled and no access refused or redirected.\<close>

definition isa_core :: "('x::len, 'x rv_soc_dev) rv_core_td \<Rightarrow> bool" where
  "isa_core c \<longleftrightarrow> xlen_ok TYPE('x) \<and> soc_core_wf c \<and> curr_priv_mode c = machine_mode \<and> pmp_open (c_pmp c) \<and>
     \<not> sync_trap_pending c \<and> regs_data (c_trap c) shared_ie = 0 \<and>
     \<not> bit (regs_data (c_trap c) shared_status) TRAP_XSTATUS_MPRV_BIT \<and> c_x c 0 = 0"

text \<open>What an instruction of the machine leaves alone.\<close>

definition isa_kept :: "('x::len, 'x rv_soc_dev) rv_core_td \<Rightarrow> ('x, 'x rv_soc_dev) rv_core_td \<Rightarrow> bool" where
  "isa_kept c d \<longleftrightarrow> curr_priv_mode d = curr_priv_mode c \<and> sync_trap_pending d = sync_trap_pending c \<and> csr_regs d = csr_regs c \<and>
     c_pmp d = c_pmp c \<and> c_trap d = c_trap c \<and> (soc_dev_wf (c_priv c) \<longrightarrow> soc_dev_wf (c_priv d))"

text \<open>The function of the instruction reaches the state of the abstract machine, once x0 is cleared and the program counter advanced.\<close>

definition isa_executed :: "instr \<Rightarrow> ('x::len, 'x rv_soc_dev) rv_core_td \<Rightarrow> 'x isa_state \<Rightarrow> bool" where
  "isa_executed i c s \<longleftrightarrow> (\<exists>d. exec_instr i rv_soc_bus_access c = Inr d \<and> isa_kept c d \<and> isa_abs (core_advance_pc (set_x 0 0 d)) = s)"

lemma reg_index: "(ucast (r :: 5 word) :: u8) = ucast q \<longleftrightarrow> r = q" "(ucast r :: u8) = 0 \<longleftrightarrow> r = 0"
proof -
  have i: "(ucast (ucast r :: u8) :: 5 word) = r" for r :: "5 word" by (auto intro!: bit_word_eqI simp: bit_simps)
  show "(ucast r :: u8) = ucast q \<longleftrightarrow> r = q" using i [of r] i [of q] by metis
  show "(ucast r :: u8) = 0 \<longleftrightarrow> r = 0" using i [of r] by (metis unsigned_0)
qed

lemma regs_put: "(\<lambda>r. (f(ucast rd := v)) (ucast r)) = (\<lambda>r. f (ucast r))(rd := v)" for rd :: "5 word" and f :: "u8 \<Rightarrow> 'v"
  by (auto simp: reg_index)

text \<open>The instructions that only write a register, and those that write memory as well.\<close>

lemma isa_kept_set_x: "isa_kept c (set_x r v c)"
  by (simp add: isa_kept_def set_x_def)

lemma isa_kept_refl: "isa_kept c c"
  by (simp add: isa_kept_def)

lemma soc_dev_wf_ram: "soc_dev_wf d \<Longrightarrow> soc_dev_wf (d\<lparr>soc_ram := (soc_ram d)\<lparr>mem_cells := m\<rparr>\<rparr>)"
  by (simp add: soc_dev_wf_def mem_sized_def)

lemma isa_kept_set_ram: "isa_kept c d \<Longrightarrow> isa_kept c (set_ram m d)"
  by (simp add: isa_kept_def set_ram_def soc_dev_wf_ram)

text \<open>The state of the machine after the step, member by member.\<close>

lemma isa_abs_step:
  "isa_abs (core_advance_pc (set_x 0 0 d)) = \<lparr>m_pc = (if c_next_pc d \<noteq> 0 then c_next_pc d else c_pc d + 4),
     m_x = (\<lambda>r. c_x d (ucast r))(0 := 0), m_mem = ram_cells d, m_res = (if lr_valid d then Some (lr_address d) else None)\<rparr>"
proof -
  have "(\<lambda>r :: 5 word. ((c_x d)(0 := 0)) (ucast r)) = (\<lambda>r. c_x d (ucast r))(0 := 0)" by (auto simp: reg_index)
  then show ?thesis unfolding isa_abs_def core_advance_pc_def set_x_def ram_cells_def by simp
qed

lemmas isa_updates = isa_abs_def isa_next_def isa_put_def isa_store_def

lemma isa_abs_write:
  assumes "c_x d = (c_x c)(ucast rd := v)" "c_next_pc d = 0" "c_pc d = c_pc c" "ram_cells d = ram_cells c"
    "lr_valid d = lr_valid c" "lr_address d = lr_address c"
  shows "isa_abs (core_advance_pc (set_x 0 0 d)) = isa_next (isa_put rd v (isa_abs c))"
  unfolding isa_abs_step assms regs_put by (simp add: isa_updates)

section \<open>Instructions on registers\<close>

lemma isa_executed_set_x:
  assumes "exec_instr i rv_soc_bus_access c = Inr d" "c_x d = (c_x c)(c_rd c := v)" "c_next_pc c = 0" "c_rd c = ucast rd"
    and "d = c\<lparr>c_x := c_x d, c_immediate := c_immediate d\<rparr>"
  shows "isa_executed i c (isa_next (isa_put rd v (isa_abs c)))"
proof -
  have "isa_abs (core_advance_pc (set_x 0 0 d)) = isa_next (isa_put rd v (isa_abs c))"
    using assms(2-4) by (intro isa_abs_write) (subst assms(5), simp add: ram_cells_def)+
  moreover have "isa_kept c d" by (subst assms(5)) (simp add: isa_kept_def)
  ultimately show ?thesis using assms(1) by (auto simp: isa_executed_def)
qed

lemma imm_signed:
  assumes "32 \<le> LENGTH('x::len)"
  shows "signed_take_bit 11 (ucast (imm :: 12 word) :: 'x word) = scast imm"
  using assms by (auto intro!: bit_eqI simp: bit_simps min_def)

lemma sh_amount_take:
  assumes "LENGTH('x) = 2 ^ k"
  shows "sh_amount (b :: 'x::len word) = unat (take_bit k b)"
  by (simp only: sh_amount_def assms unat_take)

lemma shift_imm_low:
  assumes "32 \<le> LENGTH('x::len)" "k = (if six then 6 else 5)"
  shows "take_bit k (scast (shift_imm six ar imm) :: 'x word) = take_bit k (scast imm)"
proof (rule bit_word_eqI)
  fix n assume "n < LENGTH('x)"
  have k: "k < 7" using assms(2) by (simp split: if_splits)
  have "bit (scast w :: 'x word) n \<longleftrightarrow> bit w n" if "n < k" for w :: "12 word"
    using that assms(1) k by (auto simp: bit_simps min_def)
  moreover have "bit (shift_imm six ar imm) n \<longleftrightarrow> bit imm n" if "n < k"
    using that k assms(2) unfolding shift_imm_def by (simp only: bit_or_iff bit_take_bit_iff bit_push_bit_iff) auto
  ultimately show "bit (take_bit k (scast (shift_imm six ar imm) :: 'x word)) n \<longleftrightarrow> bit (take_bit k (scast imm :: 'x word)) n"
    by (simp only: bit_take_bit_iff) blast
qed

lemma shift_imm_amount:
  assumes "xlen_ok TYPE('x::len)"
  shows "sh_amount (scast (shift_imm (LENGTH('x) = 64) ar imm) :: 'x word) = sh_amount (scast imm :: 'x word)"
proof -
  have "LENGTH('x) = 2 ^ (if LENGTH('x) = 64 then 6 else 5)" "32 \<le> LENGTH('x)" using assms by (auto simp: xlen_ok_def)
  then show ?thesis by (simp only: sh_amount_take shift_imm_low)
qed

lemma alu_executed:
  fixes c :: "('x::len, 'x rv_soc_dev) rv_core_td"
  assumes f: "fields_ok (is_rv64 TYPE('x)) (i_alu i) r c" and n: "c_next_pc c = 0" and x: "xlen_ok TYPE('x)" "c_x c 0 = 0"
    and e: "isa_exec (i_alu i) r (isa_abs c) = Some s"
  shows "isa_executed (i_alu i) c s"
proof -
  note l = xlen_ok_ge [OF x(1)]
  have rg: "c_rd c = ucast (o_rd r)" "c_rs1 c = ucast (o_rs1 r)" using f by (cases i; simp add: field_specs)+
  have "alu_ref i a (operand2 i c) = alu_ref i a (alu_source i r (isa_abs c))" for a
    using f by (cases i) (simp_all add: operand2_def alu_source_def alu_immediate_def field_specs imm_signed [OF l] shift_imm_amount [OF x(1)] isa_abs_def)
  then have s: "s = isa_next (isa_put (o_rd r) (alu_ref i (c_x c (c_rs1 c)) (operand2 i c)) (isa_abs c))"
    using e rg by (simp add: isa_abs_def)
  show ?thesis unfolding s
    by (rule isa_executed_set_x [OF _ exec_alu_value [OF x] n rg(1) exec_pure_frame(1)]) simp
qed

lemma word_executed:
  fixes c :: "('x::len, 'x rv_soc_dev) rv_core_td"
  assumes f: "fields_ok (is_rv64 TYPE('x)) (i_word i) r c" and n: "c_next_pc c = 0" and x: "xlen_ok TYPE('x)"
    and e: "isa_exec (i_word i) r (isa_abs c) = Some s"
  shows "isa_executed (i_word i) c s"
proof -
  note l = xlen_ok_ge [OF x]
  have rg: "c_rd c = ucast (o_rd r)" "c_rs1 c = ucast (o_rs1 r)" using f by (cases i; simp add: field_specs)+
  have "word_ref i a (word_operand2 i c) = word_ref i a (word_source i r (isa_abs c))" for a
    using f by (cases i) (simp_all add: word_operand2_def word_source_def field_specs imm_signed [OF l] isa_abs_def
      shift_imm_low [OF l, where six = False, simplified])
  then have s: "s = isa_next (isa_put (o_rd r) (word_ref i (c_x c (c_rs1 c)) (word_operand2 i c)) (isa_abs c))"
    using e rg by (simp add: isa_abs_def)
  have "exec_word i c = c\<lparr>c_x := c_x (exec_word i c), c_immediate := c_immediate (exec_word i c)\<rparr>"
    using arg_cong [OF exec_pure_frame(2), of c_immediate i c] exec_pure_frame(2) [of i c] by simp
  then show ?thesis unfolding s
    by (intro isa_executed_set_x [OF _ exec_word_value [OF x] n rg(1)]) simp_all
qed

lemma mul_executed:
  fixes c :: "('x::len, 'x rv_soc_dev) rv_core_td"
  assumes f: "fields_ok (is_rv64 TYPE('x)) (i_mul i) r c" and n: "c_next_pc c = 0" and x: "xlen_ok TYPE('x)"
    and e: "isa_exec (i_mul i) r (isa_abs c) = Some s"
  shows "isa_executed (i_mul i) c s"
proof -
  have rg: "c_rd c = ucast (o_rd r)" "c_rs1 c = ucast (o_rs1 r)" "c_rs2 c = ucast (o_rs2 r)" using f by (simp_all add: field_specs)
  have s: "s = isa_next (isa_put (o_rd r) (mul_ref i (c_x c (c_rs1 c)) (c_x c (c_rs2 c))) (isa_abs c))"
    using e rg by (simp add: isa_abs_def)
  have "exec_mul i c = c\<lparr>c_x := c_x (exec_mul i c), c_immediate := c_immediate (exec_mul i c)\<rparr>"
    using arg_cong [OF exec_pure_frame(3), of c_immediate i c] exec_pure_frame(3) [of i c] by simp
  then show ?thesis unfolding s
    by (intro isa_executed_set_x [OF _ exec_mul_value [OF x] n rg(1)]) simp_all
qed

section \<open>Jumps and branches\<close>

lemma isa_target_core:
  fixes c :: "('x::len, 'x rv_soc_dev) rv_core_td"
  assumes "fields_base i r c" "control_instr i" "xlen_ok TYPE('x)"
  shows "target_ref i c = isa_target i r (isa_abs c)"
proof -
  note l = xlen_ok_ge [OF assms(3)]
  have p: "(push_bit 1 (scast w) :: 'x word) = word_of_int (2 * sint w)" for w :: "'a::len word"
    by (simp only: scast_eq push_bit_eq_mult of_int_mult of_int_numeral power_one_right mult.commute [of 2])
  have j: "((c_x c q + scast w) AND NOT 1 :: 'x word) = word_of_int ((sint (c_x c q) + sint w) div 2 * 2)" for w :: "12 word" and q
  proof -
    have "c_x c q + scast w = word_of_int (sint (c_x c q) + sint w)"
      by (simp only: scast_eq [of w] of_int_add of_int_sint [of "c_x c q"] scast_id)
    then show ?thesis by (simp only: and_not_1)
  qed
  have w: "c_pc c + word_of_int k = word_of_int (uint (c_pc c) + k)" for k by simp
  show ?thesis
  proof (cases "i = JALR")
    case True
    then have "c_rs1 c = ucast (o_rs1 r)" "signed_take_bit 11 (c_immediate c) = scast (o_imm r)"
      using assms(1) imm_signed [OF l, of "o_imm r"] by (simp_all add: field_specs)
    then show ?thesis using True j [of "c_rs1 c" "o_imm r"] by (simp add: target_word isa_target_def isa_abs_def)
  next
    case False
    then have "c_jump_offset c = word_of_int (2 * (if i = JAL then sint (o_imm20 r) else sint (o_imm r)))"
      using assms(1,2) by (cases i) (simp_all only: fields_base.simps fields_B_def fields_J_def p control_instr_def, simp_all)
    then show ?thesis using False w by (simp only: target_word isa_target_def isa_abs_def isa_state.simps if_False)
  qed
qed

lemma offset_aligned:
  assumes "4 dvd unat pc" "2 \<le> LENGTH('x)"
  shows "4 dvd unat (pc + off :: 'x::len word) \<longleftrightarrow> 4 dvd unat off"
proof -
  have "(2 :: nat) ^ 2 dvd 2 ^ LENGTH('x)" using assms(2) by (rule le_imp_power_dvd)
  then have "4 dvd unat (pc + off) \<longleftrightarrow> 4 dvd unat pc + unat off" by (simp add: unat_word_ariths dvd_mod_iff)
  then show ?thesis using assms(1) by (simp add: dvd_add_right_iff)
qed

lemma isa_abs_skip: "c_next_pc c = 0 \<Longrightarrow> c_x c 0 = 0 \<Longrightarrow> isa_abs (core_advance_pc (set_x 0 0 c)) = isa_next (isa_abs c)"
  unfolding isa_abs_step by (auto simp: isa_updates)

lemma base_executed:
  fixes c :: "('x::len, 'x rv_soc_dev) rv_core_td"
  assumes f: "fields_ok (is_rv64 TYPE('x)) (i_base i) r c" and n: "c_next_pc c = 0" and x: "xlen_ok TYPE('x)" "c_x c 0 = 0"
    and pc: "4 dvd unat (c_pc c)" and e: "isa_exec (i_base i) r (isa_abs c) = Some s"
  shows "isa_executed (i_base i) c s"
proof (cases "control_instr i")
  case False
  then have "i = LUI \<or> i = AUIPC \<or> i = NOP" by (cases i) (simp_all add: control_instr_def)
  moreover have "isa_executed (i_base NOP) c (isa_next (isa_abs c))"
    using n x(2) by (auto simp: isa_executed_def instr_NOP_def isa_kept_refl isa_abs_skip)
  moreover have "isa_executed (i_base LUI) c (isa_next (isa_put (o_rd r) (push_bit 12 (scast (o_imm20 r))) (isa_abs c)))" if "i = LUI"
    by (rule isa_executed_set_x [where d = "instr_LUI c"]) (use f n that in \<open>simp_all add: field_specs instr_LUI_def set_x_def\<close>)
  moreover have "isa_executed (i_base AUIPC) c (isa_next (isa_put (o_rd r) (c_pc c + push_bit 12 (scast (o_imm20 r))) (isa_abs c)))" if "i = AUIPC"
    by (rule isa_executed_set_x [where d = "instr_AUIPC c"]) (use f n that in \<open>simp_all add: field_specs instr_AUIPC_def set_x_def\<close>)
  ultimately show ?thesis using e by (auto simp: isa_base_def isa_abs_def)
next
  case True
  have f': "fields_base i r c" using f by (simp add: fields_ok_def)
  note t = isa_target_core [OF f' True x(1)]
  have k: "taken_ref i (c_x c (c_rs1 c)) (c_x c (c_rs2 c)) = taken_ref i (m_x (isa_abs c) (o_rs1 r)) (m_x (isa_abs c) (o_rs2 r))"
    "link_ref i \<Longrightarrow> c_rd c = ucast (o_rd r)" "i \<noteq> LUI" "i \<noteq> AUIPC"
    using f' True by (cases i; simp add: field_specs isa_abs_def control_instr_def link_ref_def)+
  show ?thesis
  proof (cases "taken_ref i (c_x c (c_rs1 c)) (c_x c (c_rs2 c))")
    case False
    then have "exec_base i c = Inr c" using control_exec [OF x(1) True, of c] by simp
    then show ?thesis using e k False n x(2)
      by (auto simp: isa_base_def isa_executed_def isa_kept_refl isa_abs_skip)
  next
    case tk: True
    have s: "target_ref i c \<noteq> 0" "4 dvd unat (target_ref i c)"
      "s = (if link_ref i then isa_put (o_rd r) (c_pc c + 4) (isa_abs c) else isa_abs c)\<lparr>m_pc := target_ref i c\<rparr>"
      using e k tk unfolding t by (auto simp: isa_base_def Let_def isa_abs_def split: if_splits)
    have "2 \<le> LENGTH('x)" using xlen_ok_ge [OF x(1)] by simp
    then have "4 dvd unat (aligned_word i c)"
      using s(2) offset_aligned [OF pc, of "c_jump_offset c"] target_word [of i c] by (cases "i = JALR") (simp_all only: aligned_word_def if_True if_False simp_thms)
    then obtain off where "exec_base i c = Inr (c\<lparr>c_x := (if link_ref i then (c_x c)(c_rd c := c_pc c + 4) else c_x c),
        c_next_pc := target_ref i c, c_jump_offset := off\<rparr>)"
      using control_exec [OF x(1) True, of c] tk by auto
    then show ?thesis using s(1) k(2) x(2)
      unfolding isa_executed_def s(3) isa_abs_step
      by (auto simp: isa_kept_def isa_updates ram_cells_def reg_index fun_eq_iff)
  qed
qed

section \<open>Memory\<close>

lemma in_ram_open:
  assumes "isa_core c" "in_ram addr n" "0 < n" "n \<le> 8"
  shows "ram_open c addr n"
  using assms by (auto simp: isa_core_def in_ram_def ram_open_def pmp_open_def soc_core_wf_def soc_dev_wf_def soc_regions_def mem_sized_def)

lemma isa_abs_members: "m_mem (isa_abs c) = ram_cells c" "m_x (isa_abs c) q = c_x c (ucast q)"
    "m_res (isa_abs c) = (if lr_valid c then Some (lr_address c) else None)"
  by (simp_all add: isa_abs_def)

lemma mem_width_ok: "0 < mem_width i" "mem_width i \<le> 8"
  by (cases i; simp)+

lemma mem_width_build: "mem_in_build TYPE('x::len) i \<Longrightarrow> 8 * mem_width i \<le> LENGTH('x)"
  by (cases i) (auto simp: mem_in_build_def xlen_ok_def)

lemma bytes_of_loaded: "8 * n \<le> LENGTH('a::len) \<Longrightarrow> bytes_of n (word_of_bytes (mem_load m a n) :: 'a word) = mem_load m a n"
  using bytes_of_word_of_bytes [of "mem_load m a n", where 'a = 'a] by simp

text \<open>A change of the RAM, perhaps with a result register and another reservation.\<close>

lemma isa_executed_memory:
  assumes "exec_instr i rv_soc_bus_access c = Inr d" "isa_kept c d" "c_next_pc d = 0" "c_pc d = c_pc c"
    and "c_x d = (case w of None \<Rightarrow> c_x c | Some (rd, v) \<Rightarrow> (c_x c)(ucast rd := v))" "c_x c 0 = 0"
    and "s = isa_next ((case w of None \<Rightarrow> \<lambda>s. s | Some (rd, v) \<Rightarrow> isa_put rd v) ((isa_abs c)\<lparr>m_mem := ram_cells d,
          m_res := if lr_valid d then Some (lr_address d) else None\<rparr>))"
  shows "isa_executed i c s"
proof -
  have "isa_abs (core_advance_pc (set_x 0 0 d)) = s"
  proof (cases w)
    case None
    then show ?thesis using assms(3-7) unfolding isa_abs_step by (auto simp: isa_updates)
  next
    case (Some p)
    obtain rd v where "p = (rd, v)" by force
    then show ?thesis using Some assms(3-7) unfolding isa_abs_step by (auto simp: isa_updates reg_index fun_eq_iff)
  qed
  then show ?thesis using assms(1,2) by (auto simp: isa_executed_def)
qed

lemma set_ram_fields:
  "c_next_pc (set_ram m c) = c_next_pc c" "c_pc (set_ram m c) = c_pc c" "c_x (set_ram m c) = c_x c"
  "lr_valid (set_ram m c) = lr_valid c" "lr_address (set_ram m c) = lr_address c"
  "c_next_pc (set_x r v c) = c_next_pc c" "c_pc (set_x r v c) = c_pc c" "ram_cells (set_x r v c) = ram_cells c"
  "lr_valid (set_x r v c) = lr_valid c" "lr_address (set_x r v c) = lr_address c"
  by (simp_all add: set_ram_def set_x_def ram_cells_def)

lemma mem_executed:
  fixes c :: "('x::len, 'x rv_soc_dev) rv_core_td"
  assumes f: "fields_ok (is_rv64 TYPE('x)) (i_mem i) r c" and n: "c_next_pc c = 0" and c: "isa_core c"
    and b: "rv64_only (i_mem i) \<longrightarrow> is_rv64 TYPE('x)" and e: "isa_exec (i_mem i) r (isa_abs c) = Some s"
  shows "isa_executed (i_mem i) c s"
proof -
  have x: "xlen_ok TYPE('x)" "c_x c 0 = 0" using c by (simp_all add: isa_core_def)
  have bd: "mem_in_build TYPE('x) i" using b x(1) by (auto simp: mem_in_build_def rv64_only_def is_rv64_iff)
  have rg: "c_rs1 c = ucast (o_rs1 r)" "is_store i \<Longrightarrow> c_rs2 c = ucast (o_rs2 r)" "\<not> is_store i \<Longrightarrow> c_rd c = ucast (o_rd r)"
    "c_immediate c = ucast (o_imm r)"
    using f by (cases i; simp add: field_specs is_store_def)+
  have a: "c_x c (ucast (o_rs1 r)) + scast (o_imm r) = mem_address c"
    using rg imm_signed [OF xlen_ok_ge [OF x(1)], of "o_imm r"] by (simp add: mem_address_def SIGNEX_BIT_def isa_abs_def)
  have in_r: "in_ram (mem_address c) (mem_width i)" using e by (simp add: isa_mem_def a Let_def isa_abs_members split: if_splits)
  note o = in_ram_open [OF c in_r mem_width_ok]
  show ?thesis
  proof (cases "is_store i")
    case True
    let ?m = "mem_store (ram_cells c) (ram_offset (mem_address c)) (bytes_of (mem_width i) (c_x c (c_rs2 c)))"
    have "exec_instr (i_mem i) rv_soc_bus_access c = Inr (set_ram ?m c)" using store_ram [OF o bd True] by simp
    moreover have "s = isa_next ((isa_abs c)\<lparr>m_mem := ?m\<rparr>)"
      using e in_r True rg by (simp add: isa_mem_def a Let_def isa_store_def isa_abs_members)
    ultimately show ?thesis
      by (intro isa_executed_memory [where w = None and d = "set_ram ?m c"])
        (use n x(2) in \<open>simp_all add: isa_kept_set_ram isa_kept_refl set_ram_fields isa_abs_def\<close>)
  next
    case False
    let ?v = "word_of_bytes (mem_load (ram_cells c) (ram_offset (mem_address c)) (mem_width i)) :: 'x word"
    have "mem_load (ram_cells c) (ram_offset (mem_address c)) (mem_width i) = bytes_of (mem_width i) ?v"
      by (rule bytes_of_loaded [OF mem_width_build [OF bd], symmetric])
    then have "exec_instr (i_mem i) rv_soc_bus_access c = Inr (set_x (c_rd c) (load_ref i ?v) c)"
      using load_ram [OF o bd False] by simp
    moreover have "s = isa_next (isa_put (o_rd r) (load_ref i ?v) (isa_abs c))"
      using e in_r False by (simp add: isa_mem_def a Let_def isa_abs_members)
    ultimately show ?thesis
      by (intro isa_executed_memory [where w = "Some (o_rd r, load_ref i ?v)" and d = "set_x (c_rd c) (load_ref i ?v) c"])
        (use n x(2) rg(3) False in \<open>simp_all add: isa_kept_set_x set_ram_fields isa_abs_def\<close>)
  qed
qed

section \<open>Atomic instructions\<close>

text \<open>The read-modify-write instructions and the pair of reservation instructions on double words, as on words.\<close>

lemma amo_d_ram:
  fixes c :: "('x::len, 'x rv_soc_dev) rv_core_td"
  assumes o: "ram_open c (c_x c (c_rs1 c)) 8" and imm: "c_immediate c = 0" and i: "amo_rmw i" and x: "LENGTH('x) = 64"
    and m: "mem_load (ram_cells c) (ram_offset (c_x c (c_rs1 c))) 8 = bytes_of 8 (m :: 'x word)"
  shows "exec_amo_d i rv_soc_bus_access c = Inr (set_ram (mem_store (ram_cells c) (ram_offset (c_x c (c_rs1 c)))
      (bytes_of 8 (amo_ref i m (c_x c (c_rs2 c))))) (set_x (c_rd c) m c))"
proof -
  have addr: "mem_address c = c_x c (c_rs1 c)" by (simp add: mem_address_def imm SIGNEX_BIT_def)
  have "exec_mem LD rv_soc_bus_access c = Inr (set_x (c_rd c) (load_ref LD m) c)"
    using o x m by (intro load_ram) (simp_all add: addr mem_in_build_def is_store_def xlen_ok_def)
  then have ld: "instr_LD rv_soc_bus_access c = Inr (set_x (c_rd c) m c)" by simp
  note body = amo_body_ram [where n = 8 and c = c and ld = "instr_LD rv_soc_bus_access", OF o ld]
  have w: "XLEN_BYTES TYPE('x) = 8" using x by (simp add: XLEN_BYTES_def)
  show ?thesis
    using i unfolding amo_rmw_def
    by (cases i) (simp_all add: instr_AMOSWAP_D_def instr_AMOADD_D_def instr_AMOXOR_D_def instr_AMOAND_D_def instr_AMOOR_D_def
      instr_AMOMIN_D_def instr_AMOMAX_D_def instr_AMOMINU_D_def instr_AMOMAXU_D_def body w amo_ref_words del: amo_ref.simps(2,6-9))
qed

lemma lr_sc_d_ram:
  fixes c :: "('x::len, 'x rv_soc_dev) rv_core_td"
  assumes o: "ram_open c (c_x c (c_rs1 c)) 8" and imm: "c_immediate c = 0" and x: "LENGTH('x) = 64"
  shows "mem_load (ram_cells c) (ram_offset (c_x c (c_rs1 c))) 8 = bytes_of 8 (m :: 'x word) \<Longrightarrow>
      exec_amo_d LR rv_soc_bus_access c = Inr (set_x (c_rd c) m (c\<lparr>lr_valid := True, lr_address := c_x c (c_rs1 c)\<rparr>))"
    and "lr_valid c \<and> lr_address c = c_x c (c_rs1 c) \<Longrightarrow> exec_amo_d SC rv_soc_bus_access c =
      Inr ((set_ram (mem_store (ram_cells c) (ram_offset (c_x c (c_rs1 c))) (bytes_of 8 (c_x c (c_rs2 c)))) (set_x (c_rd c) 0 c))
        \<lparr>lr_valid := False, lr_address := 0\<rparr>)"
proof -
  have addr: "mem_address c = c_x c (c_rs1 c)" by (simp add: mem_address_def imm SIGNEX_BIT_def)
  let ?d = "c\<lparr>lr_valid := True, lr_address := c_x c (c_rs1 c)\<rparr>"
  show "exec_amo_d LR rv_soc_bus_access c = Inr (set_x (c_rd c) m ?d)"
    if m: "mem_load (ram_cells c) (ram_offset (c_x c (c_rs1 c))) 8 = bytes_of 8 m"
  proof -
    have a: "mem_address ?d = mem_address c" "ram_cells ?d = ram_cells c" by (simp_all add: mem_address_def ram_cells_def)
    have "mem_load (ram_cells ?d) (ram_offset (mem_address ?d)) 8 = bytes_of 8 m" using m unfolding a addr by simp
    then have "exec_mem LD rv_soc_bus_access ?d = Inr (set_x (c_rd ?d) (load_ref LD m) ?d)"
      using o x unfolding a addr by (intro load_ram) (simp_all add: a addr mem_in_build_def is_store_def xlen_ok_def)
    moreover have d: "c\<lparr>lr_address := c_x c (c_rs1 c), lr_valid := True\<rparr> = ?d" by simp
    ultimately show ?thesis by (simp add: instr_LR_D_def d del: rv_core_td.update_convs)
  qed
  have "exec_mem SD rv_soc_bus_access c =
    Inr (set_ram (mem_store (ram_cells c) (ram_offset (c_x c (c_rs1 c))) (bytes_of 8 (c_x c (c_rs2 c)))) c)"
    using store_ram [of c SD] o x by (simp add: addr mem_in_build_def is_store_def xlen_ok_def)
  then show "exec_amo_d SC rv_soc_bus_access c =
      Inr ((set_ram (mem_store (ram_cells c) (ram_offset (c_x c (c_rs1 c))) (bytes_of 8 (c_x c (c_rs2 c)))) (set_x (c_rd c) 0 c))
        \<lparr>lr_valid := False, lr_address := 0\<rparr>)" if "lr_valid c \<and> lr_address c = c_x c (c_rs1 c)"
    using that by (simp add: instr_SC_D_def set_ram_def set_x_def)
qed

text \<open>What the two widths have in common: the functions of the core, with the word type of the access.\<close>

definition amo_runs :: "'a::len itself \<Rightarrow> instr_amo \<Rightarrow> ('x::len, 'x rv_soc_dev) rv_core_td \<Rightarrow> ('x, 'x rv_soc_dev) rv_core_td res \<Rightarrow> bool" where
  "amo_runs _ i c res \<longleftrightarrow>
    (let a = c_x c (c_rs1 c); b = c_x c (c_rs2 c); n = LENGTH('a) div 8;
         m = (word_of_bytes (mem_load (ram_cells c) (ram_offset a) n) :: 'a word)
     in if i = SC \<and> \<not> (lr_valid c \<and> lr_address c = a) then res = Inr ((set_x (c_rd c) 1 c)\<lparr>lr_valid := False, lr_address := 0\<rparr>)
     else if \<not> in_ram a n then True
     else if i = SC then res = Inr ((set_ram (mem_store (ram_cells c) (ram_offset a) (bytes_of n b)) (set_x (c_rd c) 0 c))
       \<lparr>lr_valid := False, lr_address := 0\<rparr>)
     else if i = LR then res = Inr (set_x (c_rd c) (scast m) (c\<lparr>lr_valid := True, lr_address := a\<rparr>))
     else res = Inr (set_ram (mem_store (ram_cells c) (ram_offset a) (bytes_of n (amo_ref i m (ucast b)))) (set_x (c_rd c) (scast m) c)))"

lemma amo_w_runs:
  fixes c :: "('x::len, 'x rv_soc_dev) rv_core_td"
  assumes c: "isa_core c" and imm: "c_immediate c = 0"
  shows "amo_runs TYPE(32) i c (exec_amo_w i rv_soc_bus_access c)"
proof -
  let ?a = "c_x c (c_rs1 c)"
  let ?m = "word_of_bytes (mem_load (ram_cells c) (ram_offset ?a) 4) :: u32"
  have m: "mem_load (ram_cells c) (ram_offset ?a) 4 = bytes_of 4 ?m" by (rule bytes_of_loaded [symmetric]) simp
  have o: "ram_open c ?a 4" if "in_ram ?a 4" using in_ram_open [OF c that] by simp
  show ?thesis
    using lr_sc_ram(1) [OF o imm m] lr_sc_ram(2) [OF o imm] amo_w_ram [OF o imm _ m, of i]
    by (auto simp: amo_runs_def Let_def amo_rmw_def instr_SC_W_def)
qed

lemma amo_d_runs:
  fixes c :: "('x::len, 'x rv_soc_dev) rv_core_td"
  assumes c: "isa_core c" and imm: "c_immediate c = 0" and x: "LENGTH('x) = 64"
  shows "amo_runs TYPE('x) i c (exec_amo_d i rv_soc_bus_access c)"
proof -
  let ?a = "c_x c (c_rs1 c)"
  let ?m = "word_of_bytes (mem_load (ram_cells c) (ram_offset ?a) 8) :: 'x word"
  have m: "mem_load (ram_cells c) (ram_offset ?a) 8 = bytes_of 8 ?m" by (rule bytes_of_loaded [symmetric]) (simp add: x)
  have o: "ram_open c ?a 8" if "in_ram ?a 8" using in_ram_open [OF c that] by simp
  show ?thesis
    using lr_sc_d_ram(1) [OF o imm x m] lr_sc_d_ram(2) [OF o imm x] amo_d_ram [OF o imm _ x m, of i]
    by (auto simp: amo_runs_def Let_def amo_rmw_def instr_SC_D_def x)
qed

lemma amo_executed:
  fixes c :: "('x::len, 'x rv_soc_dev) rv_core_td"
  assumes "amo_runs TYPE('a::len) k c (exec_instr i rv_soc_bus_access c)" and e: "isa_amo TYPE('a) k r (isa_abs c) = Some s"
    and f: "fields_R r c" and n: "c_next_pc c = 0" and c: "isa_core c"
  shows "isa_executed i c s"
proof -
  have x: "c_x c 0 = 0" using c by (simp add: isa_core_def)
  have rg: "c_rd c = ucast (o_rd r)" "c_rs1 c = ucast (o_rs1 r)" "c_rs2 c = ucast (o_rs2 r)" using f by (simp_all add: fields_R_def)
  let ?a = "c_x c (c_rs1 c)" and ?b = "c_x c (c_rs2 c)" and ?n = "LENGTH('a) div 8"
  let ?m = "word_of_bytes (mem_load (ram_cells c) (ram_offset ?a) ?n) :: 'a word"
  have ex: "isa_executed i c s" if "exec_instr i rv_soc_bus_access c = Inr d" "isa_kept c d" "c_next_pc d = 0" "c_pc d = c_pc c"
    "c_x d = (c_x c)(c_rd c := v)"
    "s = isa_next (isa_put (o_rd r) v ((isa_abs c)\<lparr>m_mem := ram_cells d, m_res := if lr_valid d then Some (lr_address d) else None\<rparr>))" for d v
    using that x rg by (intro isa_executed_memory [where w = "Some (o_rd r, v)" and d = d]) simp_all
  have res: "(if lr_valid c then Some (lr_address c) else None) \<noteq> Some ?a \<longleftrightarrow> \<not> (lr_valid c \<and> lr_address c = ?a)" by auto
  note run = assms(1) [unfolded amo_runs_def Let_def]
    and ref = e [unfolded isa_amo_def Let_def isa_abs_members rg [symmetric] res]
  note flds = isa_kept_def set_ram_def soc_dev_wf_ram ram_cells_def set_x_def isa_abs_def isa_store_def
  show ?thesis
  proof (cases "k = SC \<and> \<not> (lr_valid c \<and> lr_address c = ?a)")
    case True
    then have "exec_instr i rv_soc_bus_access c = Inr ((set_x (c_rd c) 1 c)\<lparr>lr_valid := False, lr_address := 0\<rparr>)"
      "s = isa_next (isa_put (o_rd r) 1 ((isa_abs c)\<lparr>m_res := None\<rparr>))" using run ref by simp_all
    then show ?thesis using n by (intro ex [where v = 1]) (assumption, simp_all add: flds)
  next
    case no: False
    then have in_r: "in_ram ?a ?n" using ref by (auto split: if_splits)
    show ?thesis
    proof (cases "k = SC")
      case True
      then have "exec_instr i rv_soc_bus_access c = Inr ((set_ram (mem_store (ram_cells c) (ram_offset ?a) (bytes_of ?n ?b)) (set_x (c_rd c) 0 c))
          \<lparr>lr_valid := False, lr_address := 0\<rparr>)"
        "s = isa_next (isa_put (o_rd r) 0 (isa_store ?a (bytes_of ?n ?b) ((isa_abs c)\<lparr>m_res := None\<rparr>)))"
        using run ref no in_r by simp_all
      then show ?thesis using n by (intro ex [where v = 0]) (assumption, simp_all add: flds)
    next
      case sc: False
      show ?thesis
      proof (cases "k = LR")
        case True
        then have "exec_instr i rv_soc_bus_access c = Inr (set_x (c_rd c) (scast ?m) (c\<lparr>lr_valid := True, lr_address := ?a\<rparr>))"
          "s = isa_next (isa_put (o_rd r) (scast ?m) ((isa_abs c)\<lparr>m_res := Some ?a\<rparr>))" using run ref in_r by simp_all
        then show ?thesis using n by (intro ex [where v = "scast ?m"]) (assumption, simp_all add: flds)
      next
        case False
        then have "exec_instr i rv_soc_bus_access c =
            Inr (set_ram (mem_store (ram_cells c) (ram_offset ?a) (bytes_of ?n (amo_ref k ?m (ucast ?b)))) (set_x (c_rd c) (scast ?m) c))"
          "s = isa_next (isa_put (o_rd r) (scast ?m) (isa_store ?a (bytes_of ?n (amo_ref k ?m (ucast ?b))) (isa_abs c)))"
          using run ref in_r sc by simp_all
        then show ?thesis using n by (intro ex [where v = "scast ?m"]) (assumption, simp_all add: flds)
      qed
    qed
  qed
qed

section \<open>One step\<close>

lemma instr_executed:
  fixes c :: "('x::len, 'x rv_soc_dev) rv_core_td"
  assumes c: "isa_core c" and n: "c_next_pc c = 0" and f: "fields_ok (is_rv64 TYPE('x)) i r c"
    and b: "rv64_only i \<longrightarrow> is_rv64 TYPE('x)" and pc: "4 dvd unat (c_pc c)" and e: "isa_exec i r (isa_abs c) = Some s"
  shows "isa_executed i c s"
proof -
  have x: "xlen_ok TYPE('x)" "c_x c 0 = 0" using c by (simp_all add: isa_core_def)
  show ?thesis
  proof (cases i)
    case (i_base k)
    then show ?thesis using base_executed [of k r c s] f n x pc e by simp
  next
    case (i_alu k)
    then show ?thesis using alu_executed [of k r c s] f n x e by simp
  next
    case (i_mem k)
    then show ?thesis using mem_executed [of k r c s] f n c b e by simp
  next
    case (i_word k)
    then show ?thesis using word_executed [of k r c s] f n x(1) e by simp
  next
    case (i_mul k)
    then show ?thesis using mul_executed [of k r c s] f n x(1) e by simp
  next
    case (i_amo_w k)
    then have r: "fields_R r c" using f by (simp add: fields_ok_def)
    then have "c_immediate c = 0" by (simp add: fields_R_def)
    then show ?thesis using amo_executed [where 'a = 32 and i = i, OF _ _ r n c] amo_w_runs [OF c, of k] e i_amo_w by simp
  next
    case (i_amo_d k)
    then have r: "fields_R r c" and l: "LENGTH('x) = 64" using f b by (simp_all add: fields_ok_def rv64_only_def is_rv64_iff)
    then have "c_immediate c = 0" by (simp add: fields_R_def)
    then show ?thesis using amo_executed [where 'a = 'x and i = i, OF _ _ r n c] amo_d_runs [OF c _ l, of k] e i_amo_d by simp
  next
    case (i_system k)
    then show ?thesis using e by simp
  qed
qed

lemma isa_core_same: "core_same c d \<Longrightarrow> isa_core c \<Longrightarrow> isa_core d \<and> isa_abs d = isa_abs c"
  by (simp add: core_same_def isa_core_def soc_core_wf_def isa_abs_def ram_cells_def)

lemma fetch_ram:
  fixes c :: "('x::len, 'x rv_soc_dev) rv_core_td"
  assumes c: "isa_core c" and f: "isa_fetch (isa_abs c) i r"
  shows "\<exists>d. rv_core_fetch rv_soc_bus_access c = Inr (d, rv_ok) \<and> core_same c d \<and> c_instruction d = encode (is_rv64 TYPE('x)) i r"
proof -
  let ?n = "XLEN_BYTES TYPE('x)"
  note o = c [unfolded isa_core_def]
  then have n: "?n = 4 \<or> ?n = 8" by (auto simp: xlen_ok_def XLEN_BYTES_def)
  have h: "xlen_ok TYPE('x)" "0 < ?n" "?n \<le> 8" "0x80000000 \<le> unat (c_pc c)" "unat (c_pc c) + ?n \<le> 0x88000000"
    using o f n by (auto simp: isa_fetch_def in_ram_def isa_abs_def)
  note rh = ram_hit [OF h]
  let ?b = "mem_load (ram_cells c) (ram_offset (c_pc c)) ?n"
  have l: "length (fetch_buffer c) = ?n" using n by (auto simp: fetch_buffer_def)
  have "of_nat ?n \<noteq> (0 :: u8)" using rh(3) h(2) by (metis unat_0 less_irrefl)
  moreover have "splice (fetch_buffer c) 0 ?b = ?b" using l by (simp add: splice_def)
  moreover have "mem_access_cbs (c_priv c) = soc_regions (is_simple_uart (soc_uart (c_priv c)))" "mem_len (soc_ram (c_priv c)) = 0x8000000"
    using o by (simp_all add: soc_core_wf_def soc_dev_wf_def mem_sized_def)
  ultimately have "mmu_checked_bus_access rv_soc_bus_access c (curr_priv_mode c) bus_instr_access (c_pc c) (fetch_buffer c) (of_nat ?n) =
      Inr (c, rv_ok, ?b)"
    using o rh l h(4,5) by (subst machine_access) (auto simp: pmp_open_def rv_soc_bus_access_def soc_regions_def memory_bus_access_def ram_cells_def)
  then have "rv_core_fetch rv_soc_bus_access c = Inr (fetch_store ?b c, rv_ok)" by (simp add: rv_core_fetch_def)
  moreover have "take 4 ?b = bytes_of 4 (encode (is_rv64 TYPE('x)) i r)"
    using n f by (auto simp: isa_fetch_def isa_abs_def mem_load_def take_map)
  then have "c_instruction (fetch_store ?b c) = encode (is_rv64 TYPE('x)) i r"
    using word_of_bytes_of_full [of 4 "encode (is_rv64 TYPE('x)) i r"] by (simp add: fetch_store_def Let_def split: list.splits)
  ultimately show ?thesis using fetch_store_same by blast
qed

lemma isa_abs_count: "isa_abs (core_count c) = isa_abs c"
  unfolding isa_abs_def ram_cells_def core_count_def Let_def by simp

lemma isa_step_core:
  fixes c :: "('x::len, 'x rv_soc_dev) rv_core_td"
  assumes c: "isa_core c" and s: "isa_step (isa_abs c) s"
  shows "\<exists>d. rv_core_run rv_soc_bus_access c = Inr d \<and> isa_core d \<and> isa_abs d = s"
proof -
  obtain i r where i: "isa_fetch (isa_abs c) i r" "isa_exec i r (isa_abs c) = Some s" using s by (rule isa_step_cases)
  let ?c = "c\<lparr>c_next_pc := 0\<rparr>"
  have c0: "isa_core ?c" "isa_abs ?c = isa_abs c" using c by (simp_all add: isa_core_def soc_core_wf_def isa_abs_def ram_cells_def)
  obtain c1 where c1: "rv_core_fetch rv_soc_bus_access ?c = Inr (c1, rv_ok)" "core_same ?c c1"
    "c_instruction c1 = encode (is_rv64 TYPE('x)) i r"
    using fetch_ram [OF c0(1)] i(1) c0(2) by auto
  have b: "rv64_only i \<longrightarrow> is_rv64 TYPE('x)" "4 dvd unat (c_pc c)" and x: "xlen_ok TYPE('x)"
    using i(1) c by (simp_all add: isa_fetch_def isa_abs_def isa_core_def)
  have "c1\<lparr>c_instruction := encode (is_rv64 TYPE('x)) i r\<rparr> = c1" using c1(3) by simp
  then obtain c2 where c2: "rv_core_decode c1 = Inr c2" "execute_cb c2 = Some i" "fields_ok (is_rv64 TYPE('x)) i r c2"
    using decode_encode [OF x, where i = i and c = c1 and r = r] b(1) by metis
  have s2: "core_same ?c c2" using core_same_trans [OF c1(2)] decode_same [OF c2(1)] by blast
  then have "isa_executed i c2 s"
    using instr_executed [OF _ _ c2(3) b(1)] isa_core_same [OF s2 c0(1)] c0(2) i(2) b(2) by (simp add: core_same_def)
  then obtain d where d: "exec_instr i rv_soc_bus_access c2 = Inr d" "isa_kept c2 d" "isa_abs (core_advance_pc (set_x 0 0 d)) = s"
    unfolding isa_executed_def by blast
  let ?d = "core_count (core_advance_pc (set_x 0 0 d))"
  have "rv_core_run rv_soc_bus_access c = Inr ?d"
    using c1(1) c2(1,2) d(1) by (simp add: rv_core_run_def rv_core_execute_def)
  moreover have "isa_abs ?d = s"
    using d(3) by (simp add: isa_abs_count)
  moreover have "isa_core ?d"
    using isa_core_same [OF s2 c0(1)] d(2)
    by (simp add: isa_core_def isa_kept_def soc_core_wf_def core_count_csr(1)) (simp add: core_count_def core_advance_pc_def set_x_def Let_def)
  ultimately show ?thesis by blast
qed

end
