(* ===== verification/Firmware.thy ===== *)
theory Firmware
  imports IsaMachine
begin

text \<open>
  Runs of the whole system as runs of the abstract machine of \<open>IsaMachine\<close>: an iteration of the main loop of \<open>src/soc/riscv_example_soc.c\<close> for every
  instruction, first from any state of a bare machine-mode program, then from the firmware file that the initialisation loads.
\<close>

section \<open>Runs of the system\<close>

definition isa_rel :: "'x::len rv_soc_td \<Rightarrow> 'x isa_state \<Rightarrow> bool" where
  "isa_rel soc s \<longleftrightarrow> isa_core (rv_core0 soc) \<and> isa_abs (rv_core0 soc) = s"

text \<open>The devices do not touch the RAM, and their interrupts are not enabled.\<close>

lemma isa_iteration:
  fixes soc :: "'x::len rv_soc_td"
  assumes "isa_rel soc s" "isa_step s s'"
  shows "\<exists>soc'. soc_iteration soc = Inr soc' \<and> isa_rel soc' s'"
proof -
  obtain c where r: "rv_core_run rv_soc_bus_access (rv_core0 soc) = Inr c" and c: "isa_core c" "isa_abs c = s'"
    using isa_step_core [of "rv_core0 soc" s'] assms by (auto simp: isa_rel_def)
  note b = c(1) [unfolded isa_core_def]
  then have x: "32 \<le> LENGTH('x)" by (auto simp: xlen_ok_def)
  obtain d out mei mti msi where d: "soc_update_devices (c_priv c) = Inr (d, out, mei, mti, msi)" "soc_dev_wf d"
    using soc_update_devices_ok [of "c_priv c"] b by (auto simp: soc_core_wf_def)
  let ?c = "rv_core_update_interrupts mei mti msi (c\<lparr>c_priv := d\<rparr>)"
  have p: "cell \<noteq> shared_ip \<Longrightarrow> regs_data (c_trap ?c) cell = regs_data (c_trap c) cell" for cell
    using pending_bits_spec [OF x, where t = "c_trap c" and ext_int = mei and tim_int = mti and sw_int = msi]
    by (auto simp: rv_core_update_interrupts_def)
  have bc: "isa_core ?c"
    using b d(2) p [of shared_status] p [of shared_ie] by (simp add: isa_core_def soc_core_wf_def rv_core_update_interrupts_def)
  have "isa_abs ?c = s'"
    unfolding c(2) [symmetric] using update_devices_memories [OF d(1)] by (simp add: isa_abs_def ram_cells_def rv_core_update_interrupts_def)
  moreover have "irq_served (c_trap ?c) (curr_priv_mode ?c) k = None" for k
    using bc by (simp add: irq_served_def isa_core_def)
  then have "rv_core_prepare_interrupts ?c = Inr (?c, 0)"
    using no_exception_interrupt [of ?c] x bc by (auto simp: isa_core_def proper_priv_def)
  then have "soc_iteration soc = Inr (soc\<lparr>rv_core0 := ?c, soc_out := soc_out soc @ out\<rparr>)"
    using r d(1) by (simp add: soc_iteration_def rv_core_process_interrupts_def)
  ultimately show ?thesis using bc by (simp add: isa_rel_def)
qed

lemma isa_run:
  "(isa_step ^^ n) s s' \<Longrightarrow> isa_rel soc s \<Longrightarrow> \<exists>soc'. soc_iterations n soc = Inr soc' \<and> isa_rel soc' s'"
proof (induction n arbitrary: s')
  case 0
  then show ?case by (simp add: soc_iterations_def)
next
  case (Suc n)
  then obtain t soc1 where "isa_step t s'" "soc_iterations n soc = Inr soc1" "isa_rel soc1 t" by (elim relpowp_Suc_E) (use Suc.IH Suc.prems(2) in blast)
  then show ?case using isa_iteration soc_iterations_step by blast
qed

lemma soc_iterations_add: "soc_iterations n soc = Inr soc1 \<Longrightarrow> soc_iterations k soc1 = r \<Longrightarrow> soc_iterations (k + n) soc = r"
  by (simp add: soc_iterations_def funpow_add)

text \<open>The emulator computes one state, so a state that it is in has one successor.\<close>

lemma isa_step_unique: "isa_rel soc s \<Longrightarrow> isa_step s t \<Longrightarrow> isa_step s u \<Longrightarrow> t = u"
  using isa_iteration [of soc s t] isa_iteration [of soc s u] by (auto simp: isa_rel_def)

section \<open>From the firmware file\<close>

text \<open>The state that the boot ROM leaves: the address of the device tree in \<open>a1\<close>, and what the other instructions computed.\<close>

definition firmware_state :: "bytemem \<Rightarrow> 'x::len word \<Rightarrow> 'x isa_state" where
  "firmware_state mem fdt = \<lparr>m_pc = 0x80000000, m_x = (\<lambda>_. 0)(5 := 0x80000000, 11 := fdt, 12 := 0x1028), m_mem = mem, m_res = None\<rparr>"

lemma boot_isa_rel:
  fixes soc :: "'x::len rv_soc_td"
  assumes "boot_state fdt_addr ram 0x80000000 ((\<lambda>_. 0)(5 := 0x80000000, 11 := fdt, 12 := 0x1028)) soc"
  shows "isa_rel soc (firmware_state (mem_cells ram) fdt)"
proof -
  let ?c = "rv_core0 soc"
  note b = assms [unfolded boot_state_def boot_core_def]
  have r: "(ucast (q :: 5 word) :: u8) = 5 \<longleftrightarrow> q = 5" "(ucast q :: u8) = 11 \<longleftrightarrow> q = 11" "(ucast q :: u8) = 12 \<longleftrightarrow> q = 12" for q
    using reg_index(1) [of q 5] reg_index(1) [of q 11] reg_index(1) [of q 12] by simp_all
  have "isa_core ?c" using b by (simp add: isa_core_def pmp_open_def pmp_zero_machine)
  moreover have "(\<lambda>q :: 5 word. c_x ?c (ucast q)) = (\<lambda>_. 0)(5 := 0x80000000, 11 := fdt, 12 := 0x1028)"
  proof (rule ext)
    fix q :: "5 word"
    have "c_x ?c = (\<lambda>_. 0)(5 := 0x80000000, 11 := fdt, 12 := 0x1028)" using b by blast
    then show "c_x ?c (ucast q) = ((\<lambda>_. 0)(5 := 0x80000000, 11 := fdt, 12 := 0x1028)) q" by (simp add: r)
  qed
  moreover have "c_pc ?c = 0x80000000" "ram_cells ?c = mem_cells ram" "\<not> lr_valid ?c" using b by (simp_all add: ram_cells_def)
  ultimately show ?thesis by (simp add: isa_rel_def isa_abs_def firmware_state_def)
qed

lemma firmware_loaded:
  fixes soc :: "'x::len rv_soc_td"
  assumes "rv_soc_init simple fs fw dtb initrd = Inr soc" "xlen_ok TYPE('x)"
  shows "\<exists>soc1 mem fdt w. soc_iterations 6 soc = Inr soc1 \<and> isa_rel soc1 (firmware_state mem fdt) \<and> fs fw = Some w \<and> mem_load mem 0 (length w) = w"
proof -
  obtain fdt_addr ram w where i: "boot_state fdt_addr ram 0x1000 (\<lambda>_. 0) soc" "fs fw = Some w" "mem_load (mem_cells ram) 0 (length w) = w"
    using boot_init [OF assms] by blast
  from boot_run [OF i(1) assms(2)] obtain soc1 where "soc_iterations 6 soc = Inr soc1"
    "boot_state fdt_addr ram 0x80000000 ((\<lambda>_. 0)(5 := 0x80000000, 11 := ucast (ucast fdt_addr :: u32), 12 := 0x1028)) soc1" by blast
  then show ?thesis using boot_isa_rel i(2,3) by blast
qed

section \<open>Properties\<close>

text \<open>A firmware of four instructions: \<open>addi x1, x0, 5\<close>, \<open>addi x2, x1, 7\<close>, \<open>mul x3, x1, x2\<close>, \<open>sw x3, 64(x5)\<close>.\<close>

definition product_code :: "u8 list" where
  "product_code = [0x93, 0x00, 0x50, 0x00, 0x13, 0x81, 0x70, 0x00, 0xB3, 0x81, 0x20, 0x02, 0x23, 0xA0, 0x32, 0x04]"

definition product_files :: file_system where
  "product_files f = (if f = ''fw.bin'' then Some product_code else None)"

definition product_operands :: "5 word \<Rightarrow> 5 word \<Rightarrow> 5 word \<Rightarrow> 12 word \<Rightarrow> operands" where
  "product_operands rd rs1 rs2 imm = \<lparr>o_rd = rd, o_rs1 = rs1, o_rs2 = rs2, o_imm = imm, o_imm20 = 0\<rparr>"

lemma product_at:
  "bytes_of 4 (encode True (i_alu ADDI) (product_operands 1 0 0 5)) = take 4 (drop (4 * 0) product_code)"
  "bytes_of 4 (encode True (i_alu ADDI) (product_operands 2 1 0 7)) = take 4 (drop (4 * 1) product_code)"
  "bytes_of 4 (encode True (i_mul MUL_i) (product_operands 3 1 2 0)) = take 4 (drop (4 * 2) product_code)"
  "bytes_of 4 (encode True (i_mem SW) (product_operands 0 5 3 64)) = take 4 (drop (4 * 3) product_code)"
  by code_simp+

lemma product_fetched:
  assumes "mem_load mem 0 (length product_code) = product_code" "k < 4"
  shows "mem_load mem (4 * k) 4 = take 4 (drop (4 * k) product_code)"
proof -
  have "drop (4 * k) (mem_load mem 0 16) = mem_load mem (4 * k) (16 - 4 * k)"
    by (auto simp: mem_load_def intro!: nth_equalityI)
  moreover have "length product_code = 16" by (simp add: product_code_def)
  moreover have "take 4 (mem_load mem (4 * k) (16 - 4 * k)) = mem_load mem (4 * k) 4" using assms(2) by (simp add: mem_load_def take_map)
  ultimately show ?thesis using assms(1) by metis
qed

lemma product_fetch:
  fixes s :: "64 isa_state"
  assumes "mem_load (m_mem s) 0 (length product_code) = product_code" "k < 4" "m_pc s = 0x80000000 + of_nat (4 * k)"
    and "bytes_of 4 (encode True i r) = take 4 (drop (4 * k) product_code)"
  shows "isa_fetch s i r"
proof -
  have "unat (m_pc s) = 0x80000000 + 4 * k" using assms(2) by (simp add: assms(3) unat_word_ariths unat_of_nat)
  then show ?thesis
    using assms(2,4) product_fetched [OF assms(1,2)] by (simp add: isa_fetch_def in_ram_def XLEN_BYTES_def is_rv64_iff)
qed

lemma product_steps:
  fixes fdt :: "64 word"
  assumes "mem_load mem 0 (length product_code) = product_code"
  shows "\<exists>s. (isa_step ^^ 4) (firmware_state mem fdt) s \<and> m_mem s = mem_store mem 64 (bytes_of 4 (60 :: 64 word))"
proof -
  let ?s = "\<lambda>k x. \<lparr>m_pc = 0x80000000 + of_nat (4 * k), m_x = x, m_mem = mem, m_res = None\<rparr> :: 64 isa_state"
  let ?x0 = "(\<lambda>_. 0)(5 := 0x80000000, 11 := fdt, 12 := 0x1028) :: 5 word \<Rightarrow> 64 word"
  have x: "?x0 0 = 0" "?x0 5 = 0x80000000" by simp_all
  obtain x0 where e0: "x0 = ?x0" by blast
  have f: "isa_fetch (?s k x) i r" if "k < 4" "bytes_of 4 (encode True i r) = take 4 (drop (4 * k) product_code)" for k x i r
    by (rule product_fetch [of _ k]) (use assms that in simp_all)
  let ?x1 = "x0(1 := 5)" let ?x2 = "?x1(2 := 12)" let ?x3 = "?x2(3 := 60)"
  have z: "x0 0 = 0" "x0 5 = 0x80000000" using x e0 by simp_all
  then have upd: "x0(1 := v, 0 := 0) = x0(1 := v)" "x0(1 := v, 2 := w, 0 := 0) = x0(1 := v, 2 := w)"
    "x0(1 := v, 2 := w, 3 := u, 0 := 0) = x0(1 := v, 2 := w, 3 := u)" for v w u by auto
  have "isa_step (?s 0 x0) (?s 1 ?x1)"
    by (rule isa_step.intros [OF f [OF _ product_at(1)]])
      (simp, simp add: isa_next_def isa_put_def product_operands_def alu_source_def alu_immediate_def z upd)
  moreover have "isa_step (?s 1 ?x1) (?s 2 ?x2)"
    by (rule isa_step.intros [OF f [OF _ product_at(2)]])
      (simp, simp add: isa_next_def isa_put_def product_operands_def alu_source_def alu_immediate_def z upd)
  moreover have "isa_step (?s 2 ?x2) (?s 3 ?x3)"
    by (rule isa_step.intros [OF f [OF _ product_at(3)]])
      (simp, simp add: isa_next_def isa_put_def product_operands_def z upd)
  moreover have "isa_step (?s 3 ?x3) ((?s 4 ?x3)\<lparr>m_mem := mem_store mem 64 (bytes_of 4 (60 :: 64 word))\<rparr>)"
    by (rule isa_step.intros [OF f [OF _ product_at(4)]])
      (simp, simp add: isa_next_def isa_mem_def isa_store_def product_operands_def z is_store_def in_ram_def Let_def)
  moreover have "firmware_state mem fdt = ?s 0 x0" by (simp add: firmware_state_def e0)
  ultimately have "(isa_step ^^ 4) (firmware_state mem fdt) ((?s 4 ?x3)\<lparr>m_mem := mem_store mem 64 (bytes_of 4 (60 :: 64 word))\<rparr>)"
    by (simp add: eval_nat_numeral relcompp.simps) blast
  then show ?thesis by (intro exI conjI) (assumption, simp)
qed

lemma product_result: "mem_load (mem_store mem 64 (bytes_of 4 (60 :: 64 word))) 64 4 = [60, 0, 0, 0]"
proof -
  have "bytes_of 4 (60 :: 64 word) = [60, 0, 0, 0]" by code_simp
  then show ?thesis using mem_load_store_same [of 4 "bytes_of 4 (60 :: 64 word)" mem 64] by simp
qed

lemma product_init:
  obtains soc :: "64 rv_soc_td" where "rv_soc_init False product_files ''fw.bin'' None None = Inr soc"
proof -
  have "write_mem_from_file product_files ''fw.bin'' m 0 RAM_SIZE_BYTES = Inr (m\<lparr>mem_cells := mem_store (mem_cells m) 0 product_code\<rparr>)"
    if "mem_len m = 0x8000000" for m
    using that by (simp add: write_mem_from_file_def get_file_size_def product_files_def product_code_def RAM_SIZE_BYTES_def)
  moreover have "length (mem_access_cbs (soc_zero False :: 64 rv_soc_dev)) = 6" "mem_len (soc_ram (soc_zero False :: 64 rv_soc_dev)) = 0x8000000"
    by (simp_all add: soc_zero_def zero_mem_def)
  ultimately show thesis using that by (simp add: rv_soc_init_def Let_def init_mem_access_regions)
qed

text \<open>
  C1. The emulator implements the instruction set. When the core is in machine mode with no interrupt enabled and its state is that
  of the abstract machine, then for every number of steps of the abstract machine the same number of iterations of the main
  loop, with fetch, decoding, translation, PMP, bus, devices and interrupt lines, succeed and lead to the state of the machine.
\<close>

theorem emulator_refines_isa:
  fixes soc :: "'x::len rv_soc_td"
  assumes "isa_rel soc s" "(isa_step ^^ n) s s'"
  shows "\<exists>soc'. soc_iterations n soc = Inr soc' \<and> isa_rel soc' s'"
  using isa_run [OF assms(2,1)] .

theorem emulator_refines_isa_witness:
  "\<exists>(soc :: 64 rv_soc_td) soc'. soc_iterations 4 soc = Inr soc' \<and> mem_load (ram_cells (rv_core0 soc')) 64 4 = [60, 0, 0, 0]"
proof -
  obtain soc0 :: "64 rv_soc_td" where i: "rv_soc_init False product_files ''fw.bin'' None None = Inr soc0" by (rule product_init)
  have x: "xlen_ok TYPE(64)" by (simp add: xlen_ok_def)
  obtain soc :: "64 rv_soc_td" and mem fdt w where f: "isa_rel soc (firmware_state mem fdt)" "product_files ''fw.bin'' = Some w"
    "mem_load mem 0 (length w) = w" using firmware_loaded [OF i x] by blast
  then have "mem_load mem 0 (length product_code) = product_code" by (simp add: product_files_def)
  then obtain s where s: "(isa_step ^^ 4) (firmware_state mem fdt) s" "m_mem s = mem_store mem 64 (bytes_of 4 (60 :: 64 word))"
    using product_steps by blast
  from emulator_refines_isa [OF f(1) s(1)] obtain soc' where r: "soc_iterations 4 soc = Inr soc'" "isa_rel soc' s" by blast
  then have "ram_cells (rv_core0 soc') = mem_store mem 64 (bytes_of 4 (60 :: 64 word))" using s(2) by (auto simp: isa_rel_def isa_abs_def)
  then have "mem_load (ram_cells (rv_core0 soc')) 64 4 = [60, 0, 0, 0]" by (simp only: product_result)
  then show ?thesis using r(1) by blast
qed

text \<open>
  C2. From the files to the instructions: after the initialisation, the emulator first executes the boot ROM and then the firmware file, which is at
  the start of RAM, as the abstract machine does, for as many steps as this one makes.
\<close>

theorem firmware_runs_as_isa:
  fixes soc :: "'x::len rv_soc_td"
  assumes "rv_soc_init simple fs fw dtb initrd = Inr soc" "xlen_ok TYPE('x)"
  shows "\<exists>mem fdt w. fs fw = Some w \<and> mem_load mem 0 (length w) = w \<and>
    (\<forall>n s'. (isa_step ^^ n) (firmware_state mem fdt) s' \<longrightarrow> (\<exists>soc'. soc_iterations (n + 6) soc = Inr soc' \<and> isa_rel soc' s'))"
proof -
  obtain soc1 mem fdt w where f: "soc_iterations 6 soc = Inr soc1" "isa_rel soc1 (firmware_state mem fdt)" "fs fw = Some w"
    "mem_load mem 0 (length w) = w" using firmware_loaded [OF assms] by blast
  have "\<exists>soc'. soc_iterations (n + 6) soc = Inr soc' \<and> isa_rel soc' s'" if "(isa_step ^^ n) (firmware_state mem fdt) s'" for n s'
    using isa_run [OF that f(2)] soc_iterations_add [OF f(1)] by blast
  then show ?thesis using f(3,4) by blast
qed

theorem firmware_runs_as_isa_witness:
  "\<exists>soc soc' :: 64 rv_soc_td. rv_soc_init False product_files ''fw.bin'' None None = Inr soc \<and> soc_iterations 10 soc = Inr soc' \<and>
     mem_load (ram_cells (rv_core0 soc')) 64 4 = [60, 0, 0, 0]"
proof -
  obtain soc :: "64 rv_soc_td" where i: "rv_soc_init False product_files ''fw.bin'' None None = Inr soc" by (rule product_init)
  have x: "xlen_ok TYPE(64)" by (simp add: xlen_ok_def)
  from firmware_runs_as_isa [OF i x] obtain mem fdt w where f: "product_files ''fw.bin'' = Some w" "mem_load mem 0 (length w) = w"
    "\<And>n s'. (isa_step ^^ n) (firmware_state mem fdt) s' \<Longrightarrow> \<exists>soc'. soc_iterations (n + 6) soc = Inr soc' \<and> isa_rel soc' s'" by blast
  then have "mem_load mem 0 (length product_code) = product_code" by (simp add: product_files_def)
  then obtain s where s: "(isa_step ^^ 4) (firmware_state mem fdt) s" "m_mem s = mem_store mem 64 (bytes_of 4 (60 :: 64 word))"
    using product_steps by blast
  from f(3) [OF s(1)] obtain soc' where r: "soc_iterations 10 soc = Inr soc'" "isa_rel soc' s" by auto
  then have "ram_cells (rv_core0 soc') = mem_store mem 64 (bytes_of 4 (60 :: 64 word))" using s(2) by (auto simp: isa_rel_def isa_abs_def)
  then have "mem_load (ram_cells (rv_core0 soc')) 64 4 = [60, 0, 0, 0]" by (simp only: product_result)
  then show ?thesis using i r(1) by blast
qed

end
