(* ===== verification/UartIrq.thy ===== *)
theory UartIrq
  imports SocRun DecodeSpec
begin

text \<open>
  From the terminal to the interrupt handler: a character that the receiving thread delivers while the processor runs goes
  through the UART, the interrupt controller and the core.
\<close>

section \<open>The UART raises its line\<close>

text \<open>The receive interrupt is enabled; the simple UART raises it when its queue of one byte is full.\<close>

primrec uart_listening :: "soc_uart \<Rightarrow> bool" where
  "uart_listening (simple_uart u) \<longleftrightarrow> su_rx_irq_enabled u \<noteq> 0 \<and> fifo_cap (su_rx_fifo u) = 1"
| "uart_listening (uart8250 u) \<longleftrightarrow> u_irq_enabled_rx_data_available u \<noteq> 0"

lemma fifo_in1_full:
  assumes "fifo_in f [x] 1 = Inr (f', n)" "fifo_wf f" "fifo_cap f = 1"
  shows "fifo_is_full f'"
proof -
  obtain g where g: "fifo_in f [x] 1 = Inr (g, if length (fifo_contents f) < fifo_cap f then 1 else 0)" "fifo_wf g" "fifo_cap g = fifo_cap f"
    "fifo_contents g = (if length (fifo_contents f) < fifo_cap f then fifo_contents f @ [x] else fifo_contents f)"
    using fifo_in1_spec [OF assms(2)] by blast
  moreover have "length (fifo_contents f) \<le> 1" using fifo_free_nat(2) [OF assms(2)] assms(3) by simp
  ultimately show ?thesis using assms by (auto simp: fifo_tests)
qed

lemma received_raises:
  assumes "uart_listening u" "soc_uart_wf u" "soc_uart_rx u x = Inr u1" "soc_uart_poll u1 = Inr (u2, irq, out)"
  shows "irq = 1"
proof (cases u)
  case (simple_uart v)
  then obtain f n where f: "fifo_in (su_rx_fifo v) [x] 1 = Inr (f, n)" "u1 = simple_uart (v\<lparr>su_rx_fifo := f\<rparr>)"
    using assms(3) by (auto simp: simple_uart_add_rx_char_def res_bind_eq_Inr_iff)
  have "fifo_is_full f" using fifo_in1_full [OF f(1)] assms(1,2) simple_uart by (simp add: simple_uart_wf_def)
  then show ?thesis using assms(1,4) f(2) simple_uart
    by (auto simp: simple_uart_update_def Let_def res_bind_eq_Inr_iff split: if_splits)
next
  case (uart8250 v)
  then obtain f n where "u1 = uart8250 (v\<lparr>u_rx_fifo := f, u_lsr_change := 1\<rparr>)"
    using assms(3) by (auto simp: uart_add_rx_char_def res_bind_eq_Inr_iff)
  then show ?thesis using assms(1,4) uart8250
    by (auto simp: uart_update_def Let_def res_bind_eq_Inr_iff split: if_splits)
qed

section \<open>The controller selects it\<close>

text \<open>Source 10, the UART's, is the only enabled one; its priority reaches the threshold, and no handler has claimed it.\<close>

definition uart_source_on :: "plic_td \<Rightarrow> bool" where
  "uart_source_on p \<longleftrightarrow> (\<forall>k < 8. plic_word p plic_enable_bits k = (if k = 0 then 2 ^ 10 else 0)) \<and>
     plic_word p plic_priority_threshold 0 \<le> plic_word p plic_priority 10 \<and> \<not> bit (plic_word p plic_claimed_bits 0) 10"

lemma uart_source_selected:
  assumes "plic_ok p" "uart_source_on p" "plic_update_pending p 10 1 = Inr q"
  shows "\<exists>r. plic_update q = Inr (r, 1) \<and> plic_word r plic_claim_complete 0 = 10"
proof -
  note on = assms(2) [unfolded uart_source_on_def]
  have q: "plic_ok q" using plic_update_pending_total [OF assms(1), of 10 1] assms(3) by auto
  have w: "plic_word q g k = (if g = plic_pending_bits \<and> k = 0 then assign_u32_bit (plic_word p plic_pending_bits 0) 10 1 else plic_word p g k)"
    if "k < plic_count g" for g k
    using plic_assign_bit_ok [of p 0 plic_pending_bits 10 1] assms(1,3) that
    by (auto simp: plic_update_pending_def plic_ok_def)
  have e: "plic_word q plic_enable_bits k = (if k = 0 then 2 ^ 10 else 0)" if "k < 8" for k using w [of k plic_enable_bits] on that by simp
  have p10: "bit (plic_word q plic_pending_bits 0) 10" using w [of 0 plic_pending_bits] by (simp add: bit_assign_u32)
  have idle: "plic_idle q k" if "0 < k" "k < 8" for k using e that by (simp add: plic_idle_def)
  have "plic_word q plic_pending_bits 0 \<noteq> 0" using p10 by auto
  then have live: "plic_live q = [0]" using e [of 0] idle by (intro plic_live_first) (simp_all add: plic_idle_def)
  obtain r b where r: "plic_update q = Inr (r, of_bool (b \<noteq> 0))" "plic_chosen q 32 b" "plic_word r plic_claim_complete 0 = of_nat b"
    using plic_update_spec [OF q] unfolding live by fastforce
  have exp: "bit (2 ^ n :: u32) k \<longleftrightarrow> n < 32 \<and> k = n" for n k by (auto simp: bit_exp_iff)
  have "plic_word q plic_enable_bits 0 = 2 ^ 10" by (rule e [of 0, unfolded if_P [OF refl]]) simp
  then have two: "bit (plic_word q plic_enable_bits 0) k \<longleftrightarrow> k = 10" for k by (simp only: exp) simp
  have "plic_free q k \<longleftrightarrow> k = 10" if "k < 32" for k
    using p10 w [of 0 plic_priority_threshold] w [of 10 plic_priority] w [of 0 plic_claimed_bits] on that
    by (auto simp: plic_free_def plic_cand_def plic_claimed_def plic_reg_def live two)
  moreover from this have "\<exists>k < 32. plic_free q k" by (intro exI [of _ 10]) simp
  ultimately have "b = 10" using r(2) by (auto simp: plic_chosen_def plic_best_def)
  then show ?thesis using r by auto
qed


section \<open>The core takes it\<close>

lemma external_served:
  fixes t :: "'x::len trap_td"
  assumes "32 \<le> LENGTH('x)" "bit (regs_data t shared_ie) 11" "\<not> bit (regs_data t m_ideleg) 11" "bit (regs_data t shared_status) 3"
    "bit mei 0" "priv_nat cur \<le> 3"
  shows "irq_served (trap_set_pending_bits mei mti msi t) cur 11 = Some machine_mode"
  using assms pending_bits_spec [OF assms(1), of mei mti msi t] by (auto simp: irq_served_def irq_target_def)

lemma received_delivered:
  fixes soc :: "'x::len rv_soc_td"
  assumes wf: "soc_wf soc" and on: "uart_listening (soc_uart (c_priv (rv_core0 soc)))" and rx: "soc_rx_char x soc = Inr soc1"
    and run: "rv_core_run rv_soc_bus_access (rv_core0 soc1) = Inr c" and u: "soc_uart (c_priv c) = soc_uart (c_priv (rv_core0 soc1))"
    and p: "uart_source_on (soc_plic (c_priv c))"
    and t: "\<not> sync_trap_pending c" "proper_priv (curr_priv_mode c)" "bit (regs_data (c_trap c) shared_ie) 11"
      "\<not> bit (regs_data (c_trap c) m_ideleg) 11" "bit (regs_data (c_trap c) shared_status) 3"
  shows "\<exists>soc' d. soc_iteration soc1 = Inr soc' \<and> c_x d = c_x c \<and> c_pc d = c_pc c \<and> curr_priv_mode d = curr_priv_mode c \<and>
    core_entered machine_mode True 11 d (rv_core0 soc') \<and> plic_word (soc_plic (c_priv (rv_core0 soc'))) plic_claim_complete 0 = 10"
proof -
  have wf1: "soc_wf soc1" using soc_rx_char_ok [OF wf, of x] rx by auto
  have c: "soc_core_wf c" using postD [OF keeps.run run] wf1 by (simp add: core_keeps_def soc_wf_def)
  then have xl: "xlen_ok TYPE('x)" and dw: "soc_dev_wf (c_priv c)" by (simp_all add: soc_core_wf_def pmp_wf_def)
  then have l: "32 \<le> LENGTH('x)" by (auto simp: xlen_ok_def)
  obtain dv out mei mti msi where dv: "soc_update_devices (c_priv c) = Inr (dv, out, mei, mti, msi)"
    using soc_update_devices_ok [OF dw] by blast
  obtain u2 irq pl where u2: "soc_uart_poll (soc_uart (c_priv c)) = Inr (u2, irq, out)" "plic_update_pending (soc_plic (c_priv c)) 10 irq = Inr pl"
    "plic_update pl = Inr (soc_plic dv, mei)"
    using dv by (auto simp: soc_update_devices_def res_bind_eq_Inr_iff)
  have "irq = 1"
  proof (rule received_raises [OF on])
    show "soc_uart_wf (soc_uart (c_priv (rv_core0 soc)))" using wf by (simp add: soc_wf_def soc_core_wf_def soc_dev_wf_def)
    show "soc_uart_rx (soc_uart (c_priv (rv_core0 soc))) x = Inr (soc_uart (c_priv c))"
      using rx u by (auto simp: soc_rx_char_def Let_def res_bind_eq_Inr_iff)
  qed (rule u2(1))
  then have m: "mei = 1" "plic_word (soc_plic dv) plic_claim_complete 0 = 10"
    using uart_source_selected [OF _ p] u2(2,3) dw by (auto simp: soc_dev_wf_def)
  define d where "d = rv_core_update_interrupts mei mti msi (c\<lparr>c_priv := dv\<rparr>)"
  have d: "proper_priv (curr_priv_mode d)" "\<not> sync_trap_pending d" "c_x d = c_x c" "c_pc d = c_pc c" "curr_priv_mode d = curr_priv_mode c"
    "c_trap d = trap_set_pending_bits mei mti msi (c_trap c)" "c_priv d = dv"
    using t by (simp_all add: d_def rv_core_update_interrupts_def)
  have s: "irq_served (c_trap d) (curr_priv_mode d) 11 = Some machine_mode"
    using external_served [OF l t(3-5), of mei "curr_priv_mode d" mti msi] d(1,6) m(1) by (auto simp: proper_priv_def)
  have top: "irq_code i = 11" if "\<not> irq_code i < 11" for i using irq_code_less [of i] that by simp
  have e11: "irq_code trap_cause_machine_exti = 11" by simp
  obtain i q e where e: "rv_core_prepare_interrupts d = Inr (e, 1)" "core_entered q True (of_nat (irq_code i)) d e"
    "irq_served (c_trap d) (curr_priv_mode d) (irq_code i) = Some q"
    "\<forall>j. irq_code j > irq_code i \<longrightarrow> irq_served (c_trap d) (curr_priv_mode d) (irq_code j) = None"
    using no_exception_interrupt [OF d(1) l d(2)] s e11 by (metis option.distinct(1))
  have "\<not> irq_code i < 11" using e(4) s e11 by (metis option.distinct(1))
  then have i: "irq_code i = 11" by (rule top)
  then have "core_entered machine_mode True 11 d e" using e(2,3) s by simp
  moreover have "soc_iteration soc1 = Inr (soc1\<lparr>rv_core0 := e, soc_out := soc_out soc1 @ out\<rparr>)"
    using run dv e(1) by (simp add: soc_iteration_def rv_core_process_interrupts_def d_def)
  moreover have "c_priv e = dv" using e(2) d(7) by (simp add: core_entered_def)
  ultimately show ?thesis using d(3-5) m(2)
    by (intro exI [of _ "soc1\<lparr>rv_core0 := e, soc_out := soc_out soc1 @ out\<rparr>"] exI [of _ d]) simp
qed


section \<open>Example\<close>

text \<open>The \<open>nop\<close> of the example machine, executed whatever the trap registers and the other devices are.\<close>

lemma nop_encoding: "(0x13 :: u32) = encode False (i_alu ADDI) \<lparr>o_rd = 0, o_rs1 = 0, o_rs2 = 0, o_imm = 0, o_imm20 = 0\<rparr>"
  by code_simp

lemma nop_run:
  fixes c :: "(32, 32 rv_soc_dev) rv_core_td"
  assumes "mem_access_cbs (c_priv c) = soc_regions True"
    "soc_mrom (c_priv c) = \<lparr>mem_cells = mem_store (\<lambda>_. 0) 0 (bytes_of 4 (0x13 :: u32)), mem_len = 0xf000\<rparr>"
    "c_pmp c = pmp_zero" "curr_priv_mode c = machine_mode" "c_pc c = 0x1000" "\<not> sync_trap_pending c"
  obtains d where "rv_core_run rv_soc_bus_access c = Inr d" "\<not> sync_trap_pending d" "curr_priv_mode d = machine_mode" "c_trap d = c_trap c"
    "c_priv d = c_priv c"
proof -
  let ?c = "c\<lparr>c_next_pc := 0\<rparr>" and ?r = "\<lparr>o_rd = 0, o_rs1 = 0, o_rs2 = 0, o_imm = 0, o_imm20 = 0\<rparr>"
  let ?f = "fetch_store [0x13, 0, 0, 0] ?c"
  have f: "rv_core_fetch rv_soc_bus_access ?c = Inr (?f, rv_ok)" by (rule timer_example_fetch) (use assms in simp_all)
  have "(word_of_bytes [0x13, 0, 0, 0] :: u32) = 0x13" by code_simp
  then have "c_instruction ?f = encode False (i_alu ADDI) ?r" by (simp add: fetch_store_def nop_encoding [symmetric] del: encode.simps)
  then have "?f\<lparr>c_instruction := encode False (i_alu ADDI) ?r\<rparr> = ?f" by simp
  moreover have "False = is_rv64 TYPE(32)" by simp
  ultimately obtain e where e: "rv_core_decode ?f = Inr e" "execute_cb e = Some (i_alu ADDI)" using decode_alu by metis
  have "core_same ?c e" using decode_same [OF e(1)] fetch_store_same core_same_trans by blast
  then show thesis
    using that [of "core_count (core_advance_pc (set_x 0 0 (instr_ADDI e)))"] f e assms(4,6)
    by (simp add: rv_core_run_def rv_core_execute_def core_count_def core_advance_pc_def Let_def instr_ADDI_def set_x_def core_same_def)
qed

definition uart_example_soc :: "plic_td \<Rightarrow> 32 rv_soc_td" where
  "uart_example_soc p = \<lparr>rv_core0 = (timer_example_core core_csr_file
     (timer_example_dev p (simple_uart (simple_uart_init\<lparr>su_rx_irq_enabled := 1\<rparr>)) (soc_regions True)))
       \<lparr>c_trap := trap_put shared_status 8 (trap_put shared_ie 0x800 trap_init)\<rparr>, soc_out = []\<rparr>"

lemma uart_example_wf: "plic_ok p \<Longrightarrow> soc_wf (uart_example_soc p)"
  using uart_init_wf(1)
  by (simp add: uart_example_soc_def soc_wf_def soc_core_wf_def timer_example_core_def example_core_def pmp_zero_wf xlen_ok_def
    soc_dev_wf_def timer_example_dev_def mem_sized_def zero_mem_def clint_wf_def clint_zero_def simple_uart_wf_def)

section \<open>Property\<close>

text \<open>
  C19. From the terminal to the handler. A character arrives between two iterations, at a UART with its receive interrupt
  enabled; the next instruction leaves the UART alone and raises no exception; the controller has the UART as its only enabled source,
  unclaimed and with a priority that reaches the threshold; the external interrupt is enabled and not delegated and machine interrupts are
  on. Then the iteration ends in the handler of the machine external interrupt, and the claim register holds the number of the UART.
\<close>

theorem received_character_interrupts:
  fixes soc :: "'x::len rv_soc_td"
  assumes "soc_wf soc" "uart_listening (soc_uart (c_priv (rv_core0 soc)))" "soc_rx_char x soc = Inr soc1"
    and "rv_core_run rv_soc_bus_access (rv_core0 soc1) = Inr c" "soc_uart (c_priv c) = soc_uart (c_priv (rv_core0 soc1))"
    and "uart_source_on (soc_plic (c_priv c))"
    and "\<not> sync_trap_pending c" "proper_priv (curr_priv_mode c)" "bit (regs_data (c_trap c) shared_ie) 11"
      "\<not> bit (regs_data (c_trap c) m_ideleg) 11" "bit (regs_data (c_trap c) shared_status) 3"
  shows "\<exists>soc' d. soc_iteration soc1 = Inr soc' \<and> c_x d = c_x c \<and> c_pc d = c_pc c \<and> curr_priv_mode d = curr_priv_mode c \<and>
    core_entered machine_mode True 11 d (rv_core0 soc') \<and> plic_word (soc_plic (c_priv (rv_core0 soc'))) plic_claim_complete 0 = 10"
  using assms by (rule received_delivered)

theorem received_character_interrupts_witness:
  "\<exists>(soc :: 32 rv_soc_td) soc1 soc'. soc_wf soc \<and> soc_rx_char 65 soc = Inr soc1 \<and> soc_iteration soc1 = Inr soc' \<and>
     regs_data (c_trap (rv_core0 soc')) m_cause = 0x8000000B"
proof -
  obtain p where p: "plic_ok p" "plic_word p plic_enable_bits 0 = 2 ^ 10" "\<And>k. k \<noteq> 0 \<Longrightarrow> k < 8 \<Longrightarrow> plic_word p plic_enable_bits k = 0"
    "\<And>k. k < 8 \<Longrightarrow> plic_word p plic_claimed_bits k = 0" "plic_word p plic_priority_threshold 0 = 0"
    by (rule plic_example [of 10 0]) simp_all
  let ?soc = "uart_example_soc p"
  have on: "uart_source_on p" unfolding uart_source_on_def using p by simp
  have wf: "soc_wf ?soc" by (rule uart_example_wf [OF p(1)])
  have li: "uart_listening (soc_uart (c_priv (rv_core0 ?soc)))"
    by (simp add: uart_example_soc_def timer_example_core_def timer_example_dev_def example_core_def simple_uart_init_def fifo_init_def
      fifo_cap_def SIMPLE_UART_FIFO_SIZE_def)
  obtain soc1 where rx: "soc_rx_char 65 ?soc = Inr soc1" using soc_rx_char_ok [OF wf] by blast
  then obtain u where u: "rv_core0 soc1 = (rv_core0 ?soc)\<lparr>c_priv := (c_priv (rv_core0 ?soc))\<lparr>soc_uart := u\<rparr>\<rparr>"
    by (auto simp: soc_rx_char_def Let_def res_bind_eq_Inr_iff)
  obtain c where c: "rv_core_run rv_soc_bus_access (rv_core0 soc1) = Inr c" "\<not> sync_trap_pending c" "curr_priv_mode c = machine_mode"
    "c_trap c = c_trap (rv_core0 soc1)" "c_priv c = c_priv (rv_core0 soc1)"
    by (rule nop_run [of "rv_core0 soc1"]) (simp_all add: u uart_example_soc_def timer_example_core_def timer_example_dev_def example_core_def)
  have t: "c_trap c = trap_put shared_status 8 (trap_put shared_ie 0x800 trap_init)" "soc_plic (c_priv c) = p"
    by (simp_all add: c(4,5) u uart_example_soc_def timer_example_core_def timer_example_dev_def example_core_def)
  have b: "bit (regs_data (c_trap c) shared_ie) 11" "\<not> bit (regs_data (c_trap c) m_ideleg) 11" "bit (regs_data (c_trap c) shared_status) 3"
    by (simp_all add: t trap_init_def)
  obtain soc' d where s: "soc_iteration soc1 = Inr soc'" "core_entered machine_mode True 11 d (rv_core0 soc')"
    using received_character_interrupts [OF wf li rx c(1) _ _ c(2) _ b] c(3,5) t(2) on by (auto simp: proper_priv_def)
  have "regs_data (c_trap (rv_core0 soc')) m_cause = 0x8000000B"
    using s(2) by (auto simp: core_entered_def get_priv_regs_def)
  then show ?thesis using wf rx s(1) by blast
qed

end
