(* ===== verification/CommandLine.thy ===== *)
theory CommandLine
  imports Boot
begin

text \<open>
  The program's entry, \<open>src/main.c\<close>: the command line, the initialisation of the system on chip and its run. The library
  functions are modelled as POSIX and C describe them: \<open>getopt\<close> with the option string \<open>s:f:d:i:n:\<close> (the order of
  options and other arguments is free), \<open>strtol\<close> for a \<open>long\<close> of 64 bits. The thread that reads the keyboard is
  the relation \<open>soc_step\<close> of theory \<open>Soc\<close>; \<open>main_run\<close> is the run of the build without that thread, in which nothing is typed.
\<close>

section \<open>\<open>strtol\<close>\<close>

definition is_space :: "char \<Rightarrow> bool" where
  "is_space c \<longleftrightarrow> (of_char c :: nat) \<in> {9, 10, 11, 12, 13, 32}"

definition digit_val :: "char \<Rightarrow> nat" where
  "digit_val c = (let n = of_char c in
     if 48 \<le> n \<and> n \<le> 57 then n - 48 else if 97 \<le> n \<and> n \<le> 122 then n - 87
     else if 65 \<le> n \<and> n \<le> 90 then n - 55 else 36)"

definition digits_value :: "nat \<Rightarrow> string \<Rightarrow> nat" where
  "digits_value base s = foldl (\<lambda>n c. n * base + digit_val c) 0 (takeWhile (\<lambda>c. digit_val c < base) s)"

text \<open>The prefix \<open>0x\<close> is skipped in base 16 when a digit follows.\<close>

definition skip_prefix :: "nat \<Rightarrow> string \<Rightarrow> string" where
  "skip_prefix base s = (case s of
     z # x # d # t \<Rightarrow> if base = 16 \<and> z = CHR ''0'' \<and> (x = CHR ''x'' \<or> x = CHR ''X'') \<and> digit_val d < 16 then d # t else s
   | _ \<Rightarrow> s)"

definition LONG_MAX :: int where "LONG_MAX = 2 ^ 63 - 1"
definition LONG_MIN :: int where "LONG_MIN = - (2 ^ 63)"

definition strtol :: "string \<Rightarrow> nat \<Rightarrow> int" where
  "strtol str base =
    (let s = dropWhile is_space str;
         (neg, s) = (case s of
             c # t \<Rightarrow> if c = CHR ''-'' then (True, t) else if c = CHR ''+'' then (False, t) else (False, s)
           | [] \<Rightarrow> (False, s));
         v = int (digits_value base (skip_prefix base s));
         v = (if neg then - v else v)
     in max LONG_MIN (min LONG_MAX v))"

section \<open>\<open>getopt\<close>\<close>

text \<open>
  The results of the calls of \<open>getopt\<close>, each with its \<open>optarg\<close>: an option of the option string takes the rest of its
  argument or the next argument; a missing one, and an option that is not in the string, give \<open>?\<close>. Other
  arguments are passed over, and \<open>--\<close> ends the options.
\<close>

definition takes_arg :: "char \<Rightarrow> bool" where
  "takes_arg c \<longleftrightarrow> c \<in> set ''sfdin''"

function getopt :: "string \<Rightarrow> string list \<Rightarrow> (char \<times> string option) list" where
  "getopt (c # rest) args =
    (if takes_arg c then
       (if rest \<noteq> [] then (c, Some rest) # getopt [] args
        else case args of [] \<Rightarrow> [(CHR ''?'', None)] | a # as \<Rightarrow> (c, Some a) # getopt [] as)
     else (CHR ''?'', None) # getopt rest args)"
| "getopt [] [] = []"
| "getopt [] (a # as) =
    (if a = ''--'' then []
     else case a of d # c # rest \<Rightarrow> if d = CHR ''-'' then getopt (c # rest) as else getopt [] as
     | _ \<Rightarrow> getopt [] as)"
  by pat_completeness auto
termination
  by (relation "measure (\<lambda>(cluster, args). length cluster + sum_list (map (\<lambda>a. Suc (length a)) args))") auto

section \<open>\<open>parse_options\<close>\<close>

record (overloaded) 'x options =
  arg_fw_file :: "string option"
  arg_dtb_file :: "string option"
  arg_initrd_file :: "string option"
  opt_success_pc :: "'x word"
  opt_num_cycles :: u64

definition parse_option :: "char \<times> string option \<Rightarrow> 'x::len options \<Rightarrow> 'x options" where
  "parse_option = (\<lambda>(c, optarg) st.
     if c = CHR ''s'' then (case optarg of None \<Rightarrow> st | Some a \<Rightarrow> st\<lparr>opt_success_pc := of_int (strtol a 16)\<rparr>)
     else if c = CHR ''f'' then st\<lparr>arg_fw_file := optarg\<rparr>
     else if c = CHR ''d'' then st\<lparr>arg_dtb_file := optarg\<rparr>
     else if c = CHR ''i'' then st\<lparr>arg_initrd_file := optarg\<rparr>
     else if c = CHR ''n'' then (case optarg of None \<Rightarrow> st | Some a \<Rightarrow> st\<lparr>opt_num_cycles := of_int (strtol a 10)\<rparr>)
     else st)"

text \<open>\<open>argv\<close> without the program's name; without a firmware file the program ends.\<close>

definition parse_options :: "string list \<Rightarrow> 'x::len options \<Rightarrow> 'x options res" where
  "parse_options argv st =
    (let st = fold parse_option (getopt [] argv) st
     in if arg_fw_file st = None then Inl Die else Inr st)"

text \<open>The variables of \<open>main\<close> before the options are read.\<close>

definition options_zero :: "'x::len options" where
  "options_zero = \<lparr>arg_fw_file = None, arg_dtb_file = None, arg_initrd_file = None, opt_success_pc = 0, opt_num_cycles = 0\<rparr>"

definition main_run :: "bool \<Rightarrow> file_system \<Rightarrow> string list \<Rightarrow> ('x::len rv_soc_td res) option" where
  "main_run use_simple_uart fs argv =
    (case parse_options argv options_zero of
       Inl h \<Rightarrow> Some (Inl h)
     | Inr opts \<Rightarrow>
         (case rv_soc_init use_simple_uart fs (the (arg_fw_file opts)) (arg_dtb_file opts) (arg_initrd_file opts) of
            Inl h \<Rightarrow> Some (Inl h)
          | Inr soc \<Rightarrow> rv_soc_run (opt_success_pc opts) (opt_num_cycles opts) soc))"

section \<open>Numbers\<close>

definition digit_char :: "nat \<Rightarrow> char" where
  "digit_char d = (if d < 10 then char_of (48 + d) else char_of (87 + d))"

fun show_nat :: "nat \<Rightarrow> nat \<Rightarrow> string" where
  "show_nat base n =
    (if n < base \<or> base < 2 then [digit_char n] else show_nat base (n div base) @ [digit_char (n mod base)])"

declare show_nat.simps [simp del]

lemma digit_val_char: "d < 16 \<Longrightarrow> digit_val (digit_char d) = d"
  by (simp add: digit_val_def digit_char_def Let_def)


lemma show_nat_digits:
  assumes "2 \<le> base" "base \<le> 16"
  shows "(\<forall>c\<in>set (show_nat base n). \<exists>d<base. c = digit_char d) \<and> show_nat base n \<noteq> [] \<and>
    foldl (\<lambda>n c. n * base + digit_val c) 0 (show_nat base n) = n"
  using assms
proof (induction base n rule: show_nat.induct)
  case (1 base n)
  show ?case
  proof (cases "n < base")
    case True
    then have "show_nat base n = [digit_char n]" by (simp add: show_nat.simps [of base n])
    then show ?thesis using True 1(3) by (auto simp: digit_val_char)
  next
    case False
    then have "show_nat base n = show_nat base (n div base) @ [digit_char (n mod base)]"
      using 1(2) by (simp add: show_nat.simps [of base n])
    moreover have lt: "n mod base < base" using 1(2) by simp
    moreover have "n div base * base + digit_val (digit_char (n mod base)) = n"
      using lt 1(3) by (simp add: digit_val_char)
    ultimately show ?thesis using 1 False by (auto intro: exI [of _ "n mod base"])
  qed
qed

lemma digit_char_props:
  assumes "d < 16"
  shows "\<not> is_space (digit_char d)" "digit_char d \<noteq> CHR ''-''" "digit_char d \<noteq> CHR ''+''" "digit_char d \<noteq> CHR ''x''"
    "digit_char d \<noteq> CHR ''X''"
proof -
  have code: "(of_char (digit_char d) :: nat) = (if d < 10 then 48 + d else 87 + d)"
    using assms by (simp add: digit_char_def)
  then show "\<not> is_space (digit_char d)" using assms by (auto simp: is_space_def split: if_splits)
  have "digit_char d \<noteq> c" if "(of_char c :: nat) \<in> {43, 45, 88, 120}" for c
    using that code assms by (auto split: if_splits)
  then show "digit_char d \<noteq> CHR ''-''" "digit_char d \<noteq> CHR ''+''" "digit_char d \<noteq> CHR ''x''" "digit_char d \<noteq> CHR ''X''"
    by simp_all
qed

lemma digits_value_show:
  assumes "2 \<le> base" "base \<le> 16"
  shows "digits_value base (show_nat base n) = n"
proof -
  have "\<forall>c\<in>set (show_nat base n). digit_val c < base"
    using show_nat_digits [OF assms, of n] assms(2) by (auto simp: digit_val_char)
  then have "takeWhile (\<lambda>c. digit_val c < base) (show_nat base n) = show_nat base n" by (simp only: takeWhile_eq_all_conv)
  then show ?thesis unfolding digits_value_def using show_nat_digits [OF assms, of n] by (simp only:)
qed

lemma strtol_digits:
  assumes "2 \<le> base" "base \<le> 16"
  shows "strtol (show_nat base n) base = min LONG_MAX (int n)"
    "strtol (''0x'' @ show_nat 16 n) 16 = min LONG_MAX (int n)"
proof -
  have long: "max LONG_MIN (min LONG_MAX (int m)) = min LONG_MAX (int m)" for m
    by (simp add: LONG_MIN_def LONG_MAX_def)
  obtain d t where dt: "show_nat base n = digit_char d # t" "d < base" "\<forall>c\<in>set t. \<exists>e<base. c = digit_char e"
    using show_nat_digits [OF assms, of n] by (cases "show_nat base n") auto
  have d: "d < 16" using dt(2) assms(2) by simp
  have "x \<noteq> CHR ''x'' \<and> x \<noteq> CHR ''X''" if "x \<in> set t" for x
    using that dt(3) assms(2) digit_char_props(4,5) by (metis less_le_trans)
  then have "skip_prefix base (show_nat base n) = show_nat base n"
    by (cases t rule: remdups_adj.cases) (auto simp: skip_prefix_def dt(1) split: list.splits)
  then show "strtol (show_nat base n) base = min LONG_MAX (int n)"
    using digit_char_props [OF d] digits_value_show [OF assms, of n]
    by (simp add: strtol_def dt(1) Let_def long)
  have "skip_prefix 16 (''0x'' @ show_nat 16 n) = show_nat 16 n"
  proof -
    obtain e u where "show_nat 16 n = digit_char e # u" "e < 16"
      using show_nat_digits [of 16 n] by (cases "show_nat 16 n") auto
    then show ?thesis by (simp add: skip_prefix_def digit_val_char)
  qed
  moreover have "\<not> is_space CHR ''0''" by (simp add: is_space_def)
  ultimately show "strtol (''0x'' @ show_nat 16 n) 16 = min LONG_MAX (int n)"
    using digits_value_show [of 16 n] by (simp add: strtol_def Let_def long)
qed

section \<open>Command lines\<close>

lemma getopt_pair: "takes_arg c \<Longrightarrow> getopt [] ([CHR ''-'', c] # a # as) = (c, Some a) # getopt [] as"
  by (auto simp: takes_arg_def)

definition show_option :: "char \<Rightarrow> string option \<Rightarrow> string list" where
  "show_option c v = (case v of None \<Rightarrow> [] | Some a \<Rightarrow> [[CHR ''-'', c], a])"

definition show_options :: "'x::len options \<Rightarrow> string list" where
  "show_options opts =
     show_option CHR ''n'' (Some (show_nat 10 (unat (opt_num_cycles opts)))) @
     show_option CHR ''s'' (Some (''0x'' @ show_nat 16 (unat (opt_success_pc opts)))) @
     show_option CHR ''d'' (arg_dtb_file opts) @ show_option CHR ''i'' (arg_initrd_file opts) @
     show_option CHR ''f'' (arg_fw_file opts)"

lemma getopt_show:
  "takes_arg c \<Longrightarrow> getopt [] (show_option c v @ as) = (case v of None \<Rightarrow> [] | Some a \<Rightarrow> [(c, Some a)]) @ getopt [] as"
  by (cases v) (simp_all add: show_option_def getopt_pair del: getopt.simps)

text \<open>Numbers are read as values of a signed \<open>long\<close>.\<close>

lemma parse_show_options:
  fixes opts :: "'x::len options"
  assumes "arg_fw_file opts \<noteq> None"
  shows "parse_options (show_options opts) options_zero =
    Inr (opts\<lparr>opt_success_pc := of_int (min LONG_MAX (uint (opt_success_pc opts))),
              opt_num_cycles := of_int (min LONG_MAX (uint (opt_num_cycles opts)))\<rparr>)"
proof -
  obtain fw where fw: "arg_fw_file opts = Some fw" using assms by auto
  have t: "takes_arg CHR ''n''" "takes_arg CHR ''s''" "takes_arg CHR ''d''" "takes_arg CHR ''i''" "takes_arg CHR ''f''"
    by (simp_all add: takes_arg_def)
  have g: "getopt [] (show_options opts) =
      [(CHR ''n'', Some (show_nat 10 (unat (opt_num_cycles opts)))),
       (CHR ''s'', Some (''0x'' @ show_nat 16 (unat (opt_success_pc opts))))] @
      (case arg_dtb_file opts of None \<Rightarrow> [] | Some a \<Rightarrow> [(CHR ''d'', Some a)]) @
      (case arg_initrd_file opts of None \<Rightarrow> [] | Some a \<Rightarrow> [(CHR ''i'', Some a)]) @ [(CHR ''f'', Some fw)]"
    using getopt_show [OF t(5), of "Some fw" "[]"]
    by (simp add: show_options_def getopt_show t fw del: append.simps)
  show ?thesis
    unfolding parse_options_def g options_zero_def
    by (cases "arg_dtb_file opts"; cases "arg_initrd_file opts")
      (simp_all add: parse_option_def strtol_digits strtol_digits(2) [of 16, simplified] fw Let_def)
qed


section \<open>The run\<close>

lemma soc_init_ends: "ends (rv_soc_init use_simple_uart fs fw dtb initrd)"
  by (auto simp: rv_soc_init_def Let_def write_mem_from_file_def get_file_size_def rv_soc_init_mem_access_cbs_def
    INIT_MEM_ACCESS_STRUCT_def split_beta split: option.splits soc_uart.splits)

lemma main_run_spec:
  assumes "parse_options argv options_zero = Inr (opts :: 'x::len options)" "opt_num_cycles opts \<noteq> 0" "xlen_ok TYPE('x)"
  shows "((main_run use_simple_uart fs argv :: ('x rv_soc_td res) option) = None \<longleftrightarrow> (\<exists>soc0 soc :: 'x rv_soc_td.
      rv_soc_init use_simple_uart fs (the (arg_fw_file opts)) (arg_dtb_file opts) (arg_initrd_file opts) = Inr soc0 \<and>
      soc_loops (opt_success_pc opts) (opt_num_cycles opts) soc0 soc \<and> at_uret soc)) \<and>
    (\<forall>r. main_run use_simple_uart fs argv = Some r \<longrightarrow> r \<noteq> Inl Hang \<and> (\<forall>soc :: 'x rv_soc_td. r = Inr soc \<longrightarrow> soc_wf soc \<and>
       (c_pc (rv_core0 soc) = opt_success_pc opts \<or> opt_num_cycles opts \<le> curr_cycle (rv_core0 soc))))"
proof (cases "rv_soc_init use_simple_uart fs (the (arg_fw_file opts)) (arg_dtb_file opts) (arg_initrd_file opts) :: 'x rv_soc_td res")
  case (Inl h)
  then show ?thesis
    using assms soc_init_ends [of use_simple_uart fs "the (arg_fw_file opts)" "arg_dtb_file opts" "arg_initrd_file opts", where 'a = 'x]
    by (simp add: main_run_def)
next
  case (Inr soc0)
  then have "run_right (opt_success_pc opts) (opt_num_cycles opts) soc0"
    using run_total [OF assms(2)] rv_soc_init_wf [OF Inr assms(3)] by blast
  then show ?thesis using Inr assms(1) by (auto simp: main_run_def run_right_def run_hangs_def ends_def soc_stops_def)
qed

text \<open>
  Reading the command line inverts writing it: options printed in hexadecimal and decimal, with arbitrary file
  names, are read back, as long as the numbers fit into a \<open>long\<close>.
\<close>

theorem command_line_round_trip:
  fixes opts :: "'x::len options"
  assumes "arg_fw_file opts \<noteq> None" "uint (opt_success_pc opts) < 2 ^ 63" "uint (opt_num_cycles opts) < 2 ^ 63"
  shows "parse_options (show_options opts) options_zero = Inr opts"
  using parse_show_options [OF assms(1)] assms(2,3) by (simp add: LONG_MAX_def)

definition options_example :: "64 options" where
  "options_example = \<lparr>arg_fw_file = Some ''fw.bin'', arg_dtb_file = None, arg_initrd_file = Some ''-i'',
     opt_success_pc = 0x80001234, opt_num_cycles = 500\<rparr>"

theorem command_line_round_trip_witness:
  "parse_options (show_options options_example) options_zero = Inr options_example"
  by (rule command_line_round_trip) (simp_all add: options_example_def)

text \<open>
  In the RV64 build an address from 2^63 on, where kernels live, cannot be given as the success address: \<open>strtol\<close>
  saturates, and whatever such address is printed on the command line, the run waits for \<open>0x7FFFFFFFFFFFFFFF\<close>.
\<close>

theorem success_pc_saturates:
  fixes opts :: "64 options"
  assumes "arg_fw_file opts \<noteq> None" "2 ^ 63 \<le> uint (opt_success_pc opts)"
  shows "\<exists>opts'. parse_options (show_options opts) options_zero = Inr opts' \<and>
    opt_success_pc opts' = 0x7FFFFFFFFFFFFFFF \<and> opt_success_pc opts' \<noteq> opt_success_pc opts"
proof -
  have "min LONG_MAX (uint (opt_success_pc opts)) = LONG_MAX" using assms(2) by (simp add: LONG_MAX_def)
  moreover have "(of_int LONG_MAX :: 64 word) = 0x7FFFFFFFFFFFFFFF" by (simp add: LONG_MAX_def)
  moreover have "uint (0x7FFFFFFFFFFFFFFF :: 64 word) < 2 ^ 63" by simp
  ultimately show ?thesis using parse_show_options [OF assms(1)] assms(2) by auto
qed

theorem success_pc_saturates_witness:
  "\<exists>opts' :: 64 options. parse_options (show_options (options_example\<lparr>opt_success_pc := 0xFFFFFFFF80000000\<rparr>)) options_zero = Inr opts' \<and>
    opt_success_pc opts' = 0x7FFFFFFFFFFFFFFF"
  using success_pc_saturates [of "options_example\<lparr>opt_success_pc := 0xFFFFFFFF80000000\<rparr>"]
  by (auto simp: options_example_def)

text \<open>
  C30. The program with a cycle limit. It does not return exactly when the system that it initialises comes to a \<open>uret\<close>, an
  endless loop in the emulator. Otherwise it ends: with an error exit or in undefined behaviour, or in a well-formed state whose
  program counter is the success address or whose cycle count has reached the limit.
\<close>

theorem main_returns:
  assumes "parse_options argv options_zero = Inr (opts :: 'x::len options)" "opt_num_cycles opts \<noteq> 0" "xlen_ok TYPE('x)"
  shows "((main_run use_simple_uart fs argv :: ('x rv_soc_td res) option) = None \<longleftrightarrow> (\<exists>soc0 soc :: 'x rv_soc_td.
      rv_soc_init use_simple_uart fs (the (arg_fw_file opts)) (arg_dtb_file opts) (arg_initrd_file opts) = Inr soc0 \<and>
      soc_loops (opt_success_pc opts) (opt_num_cycles opts) soc0 soc \<and> at_uret soc)) \<and>
    (\<forall>r. main_run use_simple_uart fs argv = Some r \<longrightarrow> r \<noteq> Inl Hang \<and> (\<forall>soc :: 'x rv_soc_td. r = Inr soc \<longrightarrow> soc_wf soc \<and>
       (c_pc (rv_core0 soc) = opt_success_pc opts \<or> opt_num_cycles opts \<le> curr_cycle (rv_core0 soc))))"
  using assms by (rule main_run_spec)

lemma options_one_parse: "parse_options [''x'', ''-n'', ''1'', ''-d'', ''dtb'', ''-ffw.bin''] options_zero =
    Inr (\<lparr>arg_fw_file = Some ''fw.bin'', arg_dtb_file = Some ''dtb'', arg_initrd_file = None, opt_success_pc = 0, opt_num_cycles = 1\<rparr> :: 64 options)"
  by code_simp

text \<open>A run of one cycle: the first instruction of the boot ROM is executed and the program returns.\<close>

lemma main_run_one:
  obtains soc :: "64 rv_soc_td" where "main_run False boot_files [''x'', ''-n'', ''1'', ''-d'', ''dtb'', ''-ffw.bin''] = Some (Inr soc)"
proof -
  obtain soc0 :: "64 rv_soc_td" where i: "rv_soc_init False boot_files ''fw.bin'' (Some ''dtb'') None = Inr soc0" by (rule boot_files_init)
  have x: "xlen_ok TYPE(64)" by (simp add: xlen_ok_def)
  have c: "curr_cycle (rv_core0 soc0) = 0"
    using i by (auto simp: rv_soc_init_def Let_def res_bind_eq_Inr_iff rv_core_init_def rv_core_init_csr_regs_def rv_core_zero_def)
  obtain fdt_addr ram where "boot_state fdt_addr ram 0x1000 (\<lambda>_. 0) soc0" using boot_init [OF i x] by blast
  from boot_run [OF this x] obtain soc6 where "soc_iterations 6 soc0 = Inr soc6" by blast
  then obtain soc1 where s: "soc_iteration soc0 = Inr soc1"
    by (auto simp: soc_iterations_def numeral_eq_Suc res_bind_eq_Inr_iff)
  have "rv_soc_run 0 1 soc0 = Some (Inr soc1)"
    using s soc_iteration_cycle [OF s] c by (simp add: rv_soc_run.simps [of 0 1 soc0])
  then show thesis using that i by (simp add: main_run_def options_one_parse)
qed

theorem main_returns_witness:
  "\<exists>soc :: 64 rv_soc_td. main_run False boot_files [''x'', ''-n'', ''1'', ''-d'', ''dtb'', ''-ffw.bin''] = Some (Inr soc) \<and> soc_wf soc"
proof -
  obtain soc :: "64 rv_soc_td" where r: "main_run False boot_files [''x'', ''-n'', ''1'', ''-d'', ''dtb'', ''-ffw.bin''] = Some (Inr soc)" by (rule main_run_one)
  from main_returns [OF options_one_parse, of False boot_files] r show ?thesis by (auto simp: xlen_ok_def)
qed

end
