(* ===== verification/IsaCsr.thy ===== *)
theory IsaCsr
  imports ControlRef
begin

text \<open>
  The control and status registers against the header of the ISA tests, \<open>isa_test_env/encoding.h\<close>: which of the registers
  that it names the emulator has, the exception and interrupt numbers, and the fields of the status registers.
\<close>

type_synonym isa_csr = "string \<times> nat"

section \<open>The registers of the header\<close>

text \<open>The lines \<open>#define CSR_x\<close>, under the names of the \<open>DECLARE_CSR\<close> lines.\<close>

definition csrs_unprivileged :: "isa_csr list" where
  "csrs_unprivileged =
    [(''fflags'', 0x1), (''frm'', 0x2), (''fcsr'', 0x3), (''cycle'', 0xC00), (''time'', 0xC01), (''instret'', 0xC02), (''hpmcounter3'', 0xC03),
     (''hpmcounter4'', 0xC04), (''hpmcounter5'', 0xC05), (''hpmcounter6'', 0xC06), (''hpmcounter7'', 0xC07), (''hpmcounter8'', 0xC08),
     (''hpmcounter9'', 0xC09), (''hpmcounter10'', 0xC0A), (''hpmcounter11'', 0xC0B), (''hpmcounter12'', 0xC0C), (''hpmcounter13'', 0xC0D),
     (''hpmcounter14'', 0xC0E), (''hpmcounter15'', 0xC0F), (''hpmcounter16'', 0xC10), (''hpmcounter17'', 0xC11), (''hpmcounter18'', 0xC12),
     (''hpmcounter19'', 0xC13), (''hpmcounter20'', 0xC14), (''hpmcounter21'', 0xC15), (''hpmcounter22'', 0xC16), (''hpmcounter23'', 0xC17),
     (''hpmcounter24'', 0xC18), (''hpmcounter25'', 0xC19), (''hpmcounter26'', 0xC1A), (''hpmcounter27'', 0xC1B), (''hpmcounter28'', 0xC1C),
     (''hpmcounter29'', 0xC1D), (''hpmcounter30'', 0xC1E), (''hpmcounter31'', 0xC1F)]"

definition csrs_supervisor :: "isa_csr list" where
  "csrs_supervisor =
    [(''sstatus'', 0x100), (''sie'', 0x104), (''stvec'', 0x105), (''scounteren'', 0x106), (''sscratch'', 0x140), (''sepc'', 0x141),
     (''scause'', 0x142), (''stval'', 0x143), (''sip'', 0x144), (''satp'', 0x180)]"

definition csrs_machine_trap :: "isa_csr list" where
  "csrs_machine_trap =
    [(''mstatus'', 0x300), (''misa'', 0x301), (''medeleg'', 0x302), (''mideleg'', 0x303), (''mie'', 0x304), (''mtvec'', 0x305),
     (''mcounteren'', 0x306), (''mscratch'', 0x340), (''mepc'', 0x341), (''mcause'', 0x342), (''mtval'', 0x343), (''mip'', 0x344)]"

definition csrs_pmp :: "isa_csr list" where
  "csrs_pmp =
    [(''pmpcfg0'', 0x3A0), (''pmpcfg1'', 0x3A1), (''pmpcfg2'', 0x3A2), (''pmpcfg3'', 0x3A3), (''pmpaddr0'', 0x3B0), (''pmpaddr1'', 0x3B1),
     (''pmpaddr2'', 0x3B2), (''pmpaddr3'', 0x3B3), (''pmpaddr4'', 0x3B4), (''pmpaddr5'', 0x3B5), (''pmpaddr6'', 0x3B6), (''pmpaddr7'', 0x3B7),
     (''pmpaddr8'', 0x3B8), (''pmpaddr9'', 0x3B9), (''pmpaddr10'', 0x3BA), (''pmpaddr11'', 0x3BB), (''pmpaddr12'', 0x3BC), (''pmpaddr13'', 0x3BD),
     (''pmpaddr14'', 0x3BE), (''pmpaddr15'', 0x3BF)]"

definition csrs_debug :: "isa_csr list" where
  "csrs_debug =
    [(''tselect'', 0x7A0), (''tdata1'', 0x7A1), (''tdata2'', 0x7A2), (''tdata3'', 0x7A3), (''dcsr'', 0x7B0), (''dpc'', 0x7B1), (''dscratch'', 0x7B2)]"

definition csrs_machine_counters :: "isa_csr list" where
  "csrs_machine_counters =
    [(''mcycle'', 0xB00), (''minstret'', 0xB02), (''mhpmcounter3'', 0xB03), (''mhpmcounter4'', 0xB04), (''mhpmcounter5'', 0xB05),
     (''mhpmcounter6'', 0xB06), (''mhpmcounter7'', 0xB07), (''mhpmcounter8'', 0xB08), (''mhpmcounter9'', 0xB09), (''mhpmcounter10'', 0xB0A),
     (''mhpmcounter11'', 0xB0B), (''mhpmcounter12'', 0xB0C), (''mhpmcounter13'', 0xB0D), (''mhpmcounter14'', 0xB0E), (''mhpmcounter15'', 0xB0F),
     (''mhpmcounter16'', 0xB10), (''mhpmcounter17'', 0xB11), (''mhpmcounter18'', 0xB12), (''mhpmcounter19'', 0xB13), (''mhpmcounter20'', 0xB14),
     (''mhpmcounter21'', 0xB15), (''mhpmcounter22'', 0xB16), (''mhpmcounter23'', 0xB17), (''mhpmcounter24'', 0xB18), (''mhpmcounter25'', 0xB19),
     (''mhpmcounter26'', 0xB1A), (''mhpmcounter27'', 0xB1B), (''mhpmcounter28'', 0xB1C), (''mhpmcounter29'', 0xB1D), (''mhpmcounter30'', 0xB1E),
     (''mhpmcounter31'', 0xB1F)]"

definition csrs_machine_events :: "isa_csr list" where
  "csrs_machine_events =
    [(''mhpmevent3'', 0x323), (''mhpmevent4'', 0x324), (''mhpmevent5'', 0x325), (''mhpmevent6'', 0x326), (''mhpmevent7'', 0x327),
     (''mhpmevent8'', 0x328), (''mhpmevent9'', 0x329), (''mhpmevent10'', 0x32A), (''mhpmevent11'', 0x32B), (''mhpmevent12'', 0x32C),
     (''mhpmevent13'', 0x32D), (''mhpmevent14'', 0x32E), (''mhpmevent15'', 0x32F), (''mhpmevent16'', 0x330), (''mhpmevent17'', 0x331),
     (''mhpmevent18'', 0x332), (''mhpmevent19'', 0x333), (''mhpmevent20'', 0x334), (''mhpmevent21'', 0x335), (''mhpmevent22'', 0x336),
     (''mhpmevent23'', 0x337), (''mhpmevent24'', 0x338), (''mhpmevent25'', 0x339), (''mhpmevent26'', 0x33A), (''mhpmevent27'', 0x33B),
     (''mhpmevent28'', 0x33C), (''mhpmevent29'', 0x33D), (''mhpmevent30'', 0x33E), (''mhpmevent31'', 0x33F)]"

definition csrs_machine_id :: "isa_csr list" where
  "csrs_machine_id =
    [(''mvendorid'', 0xF11), (''marchid'', 0xF12), (''mimpid'', 0xF13), (''mhartid'', 0xF14)]"

definition csrs_unprivileged_high :: "isa_csr list" where
  "csrs_unprivileged_high =
    [(''cycleh'', 0xC80), (''timeh'', 0xC81), (''instreth'', 0xC82), (''hpmcounter3h'', 0xC83), (''hpmcounter4h'', 0xC84), (''hpmcounter5h'', 0xC85),
     (''hpmcounter6h'', 0xC86), (''hpmcounter7h'', 0xC87), (''hpmcounter8h'', 0xC88), (''hpmcounter9h'', 0xC89), (''hpmcounter10h'', 0xC8A),
     (''hpmcounter11h'', 0xC8B), (''hpmcounter12h'', 0xC8C), (''hpmcounter13h'', 0xC8D), (''hpmcounter14h'', 0xC8E), (''hpmcounter15h'', 0xC8F),
     (''hpmcounter16h'', 0xC90), (''hpmcounter17h'', 0xC91), (''hpmcounter18h'', 0xC92), (''hpmcounter19h'', 0xC93), (''hpmcounter20h'', 0xC94),
     (''hpmcounter21h'', 0xC95), (''hpmcounter22h'', 0xC96), (''hpmcounter23h'', 0xC97), (''hpmcounter24h'', 0xC98), (''hpmcounter25h'', 0xC99),
     (''hpmcounter26h'', 0xC9A), (''hpmcounter27h'', 0xC9B), (''hpmcounter28h'', 0xC9C), (''hpmcounter29h'', 0xC9D), (''hpmcounter30h'', 0xC9E),
     (''hpmcounter31h'', 0xC9F)]"

definition csrs_machine_counters_high :: "isa_csr list" where
  "csrs_machine_counters_high =
    [(''mcycleh'', 0xB80), (''minstreth'', 0xB82), (''mhpmcounter3h'', 0xB83), (''mhpmcounter4h'', 0xB84), (''mhpmcounter5h'', 0xB85),
     (''mhpmcounter6h'', 0xB86), (''mhpmcounter7h'', 0xB87), (''mhpmcounter8h'', 0xB88), (''mhpmcounter9h'', 0xB89), (''mhpmcounter10h'', 0xB8A),
     (''mhpmcounter11h'', 0xB8B), (''mhpmcounter12h'', 0xB8C), (''mhpmcounter13h'', 0xB8D), (''mhpmcounter14h'', 0xB8E), (''mhpmcounter15h'', 0xB8F),
     (''mhpmcounter16h'', 0xB90), (''mhpmcounter17h'', 0xB91), (''mhpmcounter18h'', 0xB92), (''mhpmcounter19h'', 0xB93), (''mhpmcounter20h'', 0xB94),
     (''mhpmcounter21h'', 0xB95), (''mhpmcounter22h'', 0xB96), (''mhpmcounter23h'', 0xB97), (''mhpmcounter24h'', 0xB98), (''mhpmcounter25h'', 0xB99),
     (''mhpmcounter26h'', 0xB9A), (''mhpmcounter27h'', 0xB9B), (''mhpmcounter28h'', 0xB9C), (''mhpmcounter29h'', 0xB9D), (''mhpmcounter30h'', 0xB9E),
     (''mhpmcounter31h'', 0xB9F)]"

definition isa_csrs :: "isa_csr list" where
  "isa_csrs = csrs_unprivileged @ csrs_supervisor @ csrs_machine_trap @ csrs_pmp @ csrs_debug @ csrs_machine_counters @
     csrs_machine_events @ csrs_machine_id @ csrs_unprivileged_high @ csrs_machine_counters_high"

section \<open>The registers of the emulator\<close>

text \<open>
  What the emulator lacks: the floating-point registers, \<open>instret\<close>, \<open>hpmcounter3\<close> to \<open>hpmcounter31\<close> and
  their upper halves, the event selectors, the debug registers.
\<close>

definition csr_absent :: "nat \<Rightarrow> bool" where
  "csr_absent a \<longleftrightarrow> 1 \<le> a \<and> a \<le> 3 \<or> 0xC02 \<le> a \<and> a \<le> 0xC1F \<or> 0xC82 \<le> a \<and> a \<le> 0xC9F \<or> 0x323 \<le> a \<and> a \<le> 0x33F \<or>
     0x7A0 \<le> a \<and> a \<le> 0x7B2"

definition csr_present :: "nat \<Rightarrow> bool" where
  "csr_present a \<longleftrightarrow> a \<in> {0xF11, 0xF12, 0xF13, 0xF14, 0x300, 0x301, 0x302, 0x303, 0x304, 0x305, 0x306, 0x340, 0x341, 0x342, 0x343, 0x344,
     0x100, 0x104, 0x105, 0x106, 0x140, 0x141, 0x142, 0x143, 0x144, 0x180, 0xB00, 0xB02, 0xB80, 0xB82, 0xC00, 0xC01, 0xC80, 0xC81} \<or>
     0x3A0 \<le> a \<and> a < 0x3C0 \<or> 0xB03 \<le> a \<and> a < 0xB20 \<or> 0xB83 \<le> a \<and> a < 0xBA0"

lemma isa_csrs_split: "list_all (\<lambda>(n, a). csr_absent a \<noteq> csr_present a \<and> a < CSR_ADDR_MAX) isa_csrs"
  unfolding isa_csrs_def list_all_append csrs_unprivileged_def csrs_supervisor_def csrs_machine_trap_def csrs_pmp_def csrs_debug_def
    csrs_machine_counters_def csrs_machine_events_def csrs_machine_id_def csrs_unprivileged_high_def csrs_machine_counters_high_def
  by (intro conjI; simp add: csr_absent_def csr_present_def CSR_ADDR_MAX_def)

lemma absent_untouched:
  assumes "csr_absent a"
  shows "\<forall>f \<in> set core_csr_table. \<forall>csr. f csr a = (csr a :: ('x::len, 'x csr_dev) csr_reg_td)"
proof -
  have m: "a \<notin> {0xF11, 0xF12, 0xF13, 0xF14, 0x300, 0x301, 0x302, 0x303, 0x304, 0x305, 0x306, 0x340, 0x341, 0x342, 0x343, 0x344}"
    "a \<notin> {0x100, 0x102, 0x103, 0x104, 0x105, 0x106, 0x140, 0x141, 0x142, 0x143, 0x144, 0x180}"
    using assms by (auto simp: csr_absent_def)
  have c: "a \<notin> {CSR_ADDR_MCYCLE, CSR_ADDR_MCYCLEH, CSR_ADDR_MINSTRET, CSR_ADDR_MINSTRETH, CSR_ADDR_CYCLE, CSR_ADDR_CYCLEH, CSR_ADDR_TIME,
      CSR_ADDR_TIMEH, CSR_ADDR_CYCLE + CSR_HPMCOUNTER_WARL_MAX, CSR_ADDR_CYCLEH + CSR_HPMCOUNTER_WARL_MAX}"
    "i < 64 \<Longrightarrow> CSR_PMPCFG0 + i \<noteq> a" "i < 64 \<Longrightarrow> CSR_PMPADDR0 + i \<noteq> a"
    "i < CSR_HPMCOUNTER_WARL_MAX \<Longrightarrow> CSR_ADDR_MCYCLE + i \<noteq> a" "i < CSR_HPMCOUNTER_WARL_MAX \<Longrightarrow> CSR_ADDR_MCYCLEH + i \<noteq> a" for i
    using assms by (auto simp: csr_absent_def csr_addr_defs CSR_HPMCOUNTER_WARL_MAX_def)
  have n: "PMP_NR_CFG_REGS TYPE('x) \<le> 64" "PMP_NR_CFG_REGS_WARL_MAX \<le> 64" "PMP_NR_ADDR_REGS \<le> 64" "PMP_NR_ADDR_REGS_WARL_MAX \<le> 64"
    by (simp_all add: PMP_NR_CFG_REGS_def PMP_NR_CFG_REGS_WARL_MAX_def PMP_NR_ADDR_REGS_def PMP_NR_ADDR_REGS_WARL_MAX_def)
  have "\<forall>f \<in> set csr_init_machine. \<forall>csr. f csr a = (csr a :: ('x, 'x csr_dev) csr_reg_td)"
    using m(1) by (simp add: csr_init_machine_def init_other csr_addr_defs)
  moreover have "\<forall>f \<in> set csr_init_supervisor. \<forall>csr. f csr a = (csr a :: ('x, 'x csr_dev) csr_reg_td)"
    using m(2) by (simp add: csr_init_supervisor_def init_other csr_addr_defs)
  moreover have "\<forall>f \<in> set csr_init_pmp. \<forall>csr. f csr a = (csr a :: ('x, 'x csr_dev) csr_reg_td)"
    using c(2,3) n by (auto simp: csr_init_pmp_def init_other)
  moreover have "\<forall>f \<in> set csr_init_counters. \<forall>csr. f csr a = (csr a :: ('x, 'x csr_dev) csr_reg_td)"
    using c(1,4,5) by (auto simp: csr_init_counters_def init_other)
  ultimately show ?thesis unfolding core_csr_table_def by auto
qed

text \<open>A register that machine mode can read: its flags grant it and its callback, if it has one, returns a value.\<close>

definition rcb_ok :: "('x::len, 'x csr_dev) csr_read_cb \<Rightarrow> u16 \<Rightarrow> bool" where
  "rcb_ok cb k \<longleftrightarrow> (\<forall>t p m l. pmp_wf p \<longrightarrow> (\<exists>v. cb (t, p, m) l k = Inr (rv_ok, v)))"

definition csr_readable :: "('x::len, 'x csr_dev) csr_reg_td \<Rightarrow> bool" where
  "csr_readable r \<longleftrightarrow> CSR_ACCESS_READ_GRANTED machine_mode (access_flags r) \<and>
     (case read_cb r of None \<Rightarrow> True | Some cb \<Rightarrow> rcb_ok cb (internal_reg r))"

lemma machine_flags: "CSR_ACCESS_READ_GRANTED machine_mode (CSR_ACCESS_RO machine_mode)" "CSR_ACCESS_READ_GRANTED machine_mode (CSR_ACCESS_RW machine_mode)"
  "CSR_ACCESS_READ_GRANTED machine_mode CSR_MS_RW" "CSR_ACCESS_READ_GRANTED machine_mode CSR_MSU_RO"
  by code_simp+

lemma read_callbacks:
  "rcb_ok (trap_cb_r trap_m_read) (trap_reg_code r)" "rcb_ok (trap_cb_r trap_s_read) (trap_reg_code r)" "rcb_ok (mmu_cb_r mmu_read_csr) k"
  "i < PMP_NR_CFG_REGS TYPE('x) \<Longrightarrow> rcb_ok (pmp_cb_r pmp_read_csr_cfg :: ('x::len, 'x csr_dev) csr_read_cb) (of_nat i)"
  "i < PMP_NR_ADDR_REGS \<Longrightarrow> rcb_ok (pmp_cb_r pmp_read_csr_addr :: ('x, 'x csr_dev) csr_read_cb) (of_nat i)"
proof -
  show "rcb_ok (trap_cb_r trap_m_read) (trap_reg_code r)" "rcb_ok (trap_cb_r trap_s_read) (trap_reg_code r)" "rcb_ok (mmu_cb_r mmu_read_csr) k"
    by (cases r; simp add: rcb_ok_def trap_cb_r_def mmu_cb_r_def trap_m_read_def trap_s_read_def mmu_read_csr_def trap_reg_at_def)+
  show "rcb_ok (pmp_cb_r pmp_read_csr_cfg :: ('x, 'x csr_dev) csr_read_cb) (of_nat i)" if "i < PMP_NR_CFG_REGS TYPE('x)"
  proof -
    have "unat (of_nat i :: u16) = i" using that by (auto simp: PMP_NR_CFG_REGS_def unsigned_of_nat take_bit_nat_eq_self split: if_splits)
    then show ?thesis using that
      by (auto simp: rcb_ok_def pmp_cb_r_def pmp_read_csr_cfg_def pmp_wf_def xlen_ok_def PMP_NR_CFG_REGS_def XLEN_BYTES_def arr_read_def)
  qed
  show "rcb_ok (pmp_cb_r pmp_read_csr_addr :: ('x, 'x csr_dev) csr_read_cb) (of_nat i)" if "i < PMP_NR_ADDR_REGS"
  proof -
    have "unat (of_nat i :: u16) = i" using that by (auto simp: PMP_NR_ADDR_REGS_def unsigned_of_nat take_bit_nat_eq_self)
    then show ?thesis using that by (auto simp: rcb_ok_def pmp_cb_r_def pmp_read_csr_addr_def pmp_wf_def PMP_NR_ADDR_REGS_def)
  qed
qed

lemma init_readable:
  "csr_readable (INIT_CSR_REG_DEFAULT i flags v msk warl csr j) \<longleftrightarrow>
    (if j = i then CSR_ACCESS_READ_GRANTED machine_mode flags else csr_readable (csr j))"
  "csr_readable (INIT_CSR_REG_SPECIAL i flags msk warl rcb wcb ireg csr j) \<longleftrightarrow>
    (if j = i then CSR_ACCESS_READ_GRANTED machine_mode flags \<and> rcb_ok rcb ireg else csr_readable (csr j))"
  by (simp_all add: INIT_CSR_REG_DEFAULT_def INIT_CSR_REG_SPECIAL_def csr_readable_def)

lemmas readable_simps = init_readable machine_flags read_callbacks

lemma init_keeps_readable:
  "\<forall>f \<in> set core_csr_table. \<forall>csr. csr_readable (csr a) \<longrightarrow> csr_readable ((f csr :: ('x::len, 'x csr_dev) csr_file) a)"
  unfolding core_csr_table_def csr_init_machine_def csr_init_supervisor_def csr_init_pmp_def csr_init_counters_def
  by (auto simp: readable_simps simp del: trap_reg_code.simps)

lemma fold_reaches:
  "\<lbrakk>\<forall>f \<in> set fs. \<forall>csr. P csr \<longrightarrow> P (f csr); P csr \<or> (\<exists>f \<in> set fs. \<forall>csr. P (f csr))\<rbrakk> \<Longrightarrow> P (fold (\<lambda>f. f) fs csr)"
  by (induction fs arbitrary: csr) auto

text \<open>The families, by their number.\<close>

abbreviation reached :: "(('x::len, 'x csr_dev) csr_file \<Rightarrow> ('x, 'x csr_dev) csr_file) list \<Rightarrow> nat \<Rightarrow> bool" where
  "reached fs a \<equiv> \<exists>f \<in> set fs. \<forall>csr. csr_readable (f csr a)"

lemma families_reached:
  "i < 16 \<Longrightarrow> reached (csr_init_pmp :: (('x::len, 'x csr_dev) csr_file \<Rightarrow> _) list) (CSR_PMPCFG0 + i)"
  "i < 64 \<Longrightarrow> reached (csr_init_pmp :: (('x, 'x csr_dev) csr_file \<Rightarrow> _) list) (CSR_PMPADDR0 + i)"
  "3 \<le> i \<Longrightarrow> i < CSR_HPMCOUNTER_WARL_MAX \<Longrightarrow> reached (csr_init_counters :: (('x, 'x csr_dev) csr_file \<Rightarrow> _) list) (CSR_ADDR_MCYCLE + i)"
  "3 \<le> i \<Longrightarrow> i < CSR_HPMCOUNTER_WARL_MAX \<Longrightarrow> reached (csr_init_counters :: (('x, 'x csr_dev) csr_file \<Rightarrow> _) list) (CSR_ADDR_MCYCLEH + i)"
proof -
  show "i < 16 \<Longrightarrow> reached (csr_init_pmp :: (('x::len, 'x csr_dev) csr_file \<Rightarrow> _) list) (CSR_PMPCFG0 + i)"
    by (cases "i < PMP_NR_CFG_REGS TYPE('x)")
      (simp_all add: csr_init_pmp_def bex_Un readable_simps PMP_NR_CFG_REGS_WARL_MAX_def bexI [of _ i])
  show "i < 64 \<Longrightarrow> reached (csr_init_pmp :: (('x, 'x csr_dev) csr_file \<Rightarrow> _) list) (CSR_PMPADDR0 + i)"
    by (cases "i < PMP_NR_ADDR_REGS")
      (simp_all add: csr_init_pmp_def bex_Un readable_simps PMP_NR_ADDR_REGS_WARL_MAX_def bexI [of _ i])
  show "3 \<le> i \<Longrightarrow> i < CSR_HPMCOUNTER_WARL_MAX \<Longrightarrow> reached (csr_init_counters :: (('x, 'x csr_dev) csr_file \<Rightarrow> _) list) (CSR_ADDR_MCYCLE + i)"
    "3 \<le> i \<Longrightarrow> i < CSR_HPMCOUNTER_WARL_MAX \<Longrightarrow> reached (csr_init_counters :: (('x, 'x csr_dev) csr_file \<Rightarrow> _) list) (CSR_ADDR_MCYCLEH + i)"
    by (simp_all add: csr_init_counters_def bex_Un readable_simps bexI [of _ i])
qed

lemma single_reached:
  "a \<in> {0xF11, 0xF12, 0xF13, 0xF14, 0x300, 0x301, 0x302, 0x303, 0x304, 0x305, 0x306, 0x340, 0x341, 0x342, 0x343, 0x344} \<Longrightarrow>
    reached (csr_init_machine :: (('x::len, 'x csr_dev) csr_file \<Rightarrow> _) list) a"
  "a \<in> {0x100, 0x104, 0x105, 0x106, 0x140, 0x141, 0x142, 0x143, 0x144, 0x180} \<Longrightarrow>
    reached (csr_init_supervisor :: (('x, 'x csr_dev) csr_file \<Rightarrow> _) list) a"
  "a \<in> {0xB00, 0xB02, 0xB80, 0xB82, 0xC00, 0xC01, 0xC80, 0xC81} \<Longrightarrow>
    reached (csr_init_counters :: (('x, 'x csr_dev) csr_file \<Rightarrow> _) list) a"
  by (auto simp: csr_init_machine_def csr_init_supervisor_def csr_init_counters_def csr_addr_defs readable_simps simp del: trap_reg_code.simps)

lemma present_granted:
  assumes "csr_present a"
  shows "csr_readable ((core_csr_file :: ('x::len, 'x csr_dev) csr_file) a)"
proof -
  have t: "reached fs a \<Longrightarrow> set fs \<subseteq> set core_csr_table \<Longrightarrow> reached (core_csr_table :: (('x, 'x csr_dev) csr_file \<Rightarrow> _) list) a"
    for fs :: "(('x, 'x csr_dev) csr_file \<Rightarrow> _) list"
    by blast
  have b: "a = CSR_PMPCFG0 + (a - 0x3A0)" if "0x3A0 \<le> a" using that by (simp add: csr_addr_defs)
  have b2: "a = CSR_PMPADDR0 + (a - 0x3B0)" if "0x3B0 \<le> a" using that by (simp add: csr_addr_defs)
  have b3: "a = CSR_ADDR_MCYCLE + (a - 0xB00)" if "0xB00 \<le> a" using that by (simp add: csr_addr_defs)
  have b4: "a = CSR_ADDR_MCYCLEH + (a - 0xB80)" if "0xB80 \<le> a" using that by (simp add: csr_addr_defs)
  have p: "reached (csr_init_pmp :: (('x, 'x csr_dev) csr_file \<Rightarrow> _) list) a" if "0x3A0 \<le> a" "a < 0x3C0"
    using that families_reached(1) [of "a - 0x3A0", where 'x = 'x] families_reached(2) [of "a - 0x3B0", where 'x = 'x] b b2
    by (cases "a < 0x3B0") (simp_all add: not_less)
  have c: "reached (csr_init_counters :: (('x, 'x csr_dev) csr_file \<Rightarrow> _) list) a" if "0xB03 \<le> a \<and> a < 0xB20 \<or> 0xB83 \<le> a \<and> a < 0xBA0"
    using that families_reached(3) [of "a - 0xB00", where 'x = 'x] families_reached(4) [of "a - 0xB80", where 'x = 'x] b3 b4
    by (cases "a < 0xB20") (auto simp: CSR_HPMCOUNTER_WARL_MAX_def)
  have "reached (core_csr_table :: (('x, 'x csr_dev) csr_file \<Rightarrow> _) list) a"
    using assms t [OF single_reached(1)] t [OF single_reached(2)] t [OF single_reached(3)] t [OF p] t [OF c]
    unfolding csr_present_def core_csr_table_def by auto
  then show ?thesis using fold_reaches [where P = "\<lambda>csr. csr_readable (csr a)", OF init_keeps_readable] unfolding core_csr_file_def by blast
qed

lemma absent_flags:
  assumes "csr_absent a"
  shows "access_flags ((core_csr_file :: ('x::len, 'x csr_dev) csr_file) a) = 0"
  using fold_other [OF absent_untouched [OF assms, where 'x = 'x]] by (simp add: core_csr_file_def csr_reg_zero_def)

lemma absent_illegal:
  fixes c :: "('x::len, 'p) rv_core_td"
  assumes "csr_absent a" "a < CSR_ADDR_MAX" "\<forall>i. csr_static (csr_regs c i) = csr_static (core_csr_file i)"
    and "unat (ucast (c_immediate c) :: u16) = a" "csr_instr i"
  shows "exec_system i c = Inr (prepare_sync_trap (exc_word trap_cause_illegal_instr) 0 c)"
proof -
  let ?a = "ucast (c_immediate c) :: u16"
  have "access_flags (csr_regs c a) = access_flags (core_csr_file a :: ('x, 'x csr_dev) csr_reg_td)"
    using assms(3) by (simp add: csr_static_def)
  then have f: "access_flags (csr_regs c (unat ?a)) = 0" using absent_flags [OF assms(1), where 'x = 'x] assms(4) by simp
  have l: "unat ?a < CSR_ADDR_MAX" using assms(2,4) by simp
  have r: "core_csr_read c ?a 0 = Inr (rv_err, 0)"
    unfolding core_csr_read_def by (rule csr_read_denied) (use f l in \<open>simp_all add: CSR_ACCESS_READ_GRANTED_def\<close>)
  have w: "core_csr_write c ?a v = Inr (c, rv_err)" for v
    using csr_write_denied [of "curr_priv_mode c" "csr_regs c" ?a] f l by (simp add: core_csr_write_def CSR_ACCESS_WRITE_GRANTED_def)
  show ?thesis
  proof (cases "i \<in> {CSRRW, CSRRWI} \<and> c_rd c = 0")
    case True
    then show ?thesis using csr_exec_rd0 [of i, OF _ refl l] w by simp
  next
    case False
    then show ?thesis using csr_exec [OF assms(5) refl l _ r w] by auto
  qed
qed

lemma csr_readable_static: "csr_static r = csr_static s \<Longrightarrow> csr_readable s \<Longrightarrow> csr_readable r"
  by (cases "read_cb s") (simp_all add: csr_static_def csr_readable_def)

lemma present_read:
  fixes c :: "('x::len, 'p) rv_core_td"
  assumes "csr_present a" "a < CSR_ADDR_MAX" "\<forall>i. csr_static (csr_regs c i) = csr_static (core_csr_file i)" "pmp_wf (c_pmp c)"
    and "unat (ucast (c_immediate c) :: u16) = a" "i \<in> {CSRRS, CSRRC, CSRRSI, CSRRCI}" "c_rs1 c = 0" "curr_priv_mode c = machine_mode"
  shows "\<exists>v. exec_system i c = Inr (set_x (c_rd c) v c)"
proof -
  let ?r = "csr_regs c a"
  have s: "csr_static ?r = csr_static (core_csr_file a :: ('x, 'x csr_dev) csr_reg_td)" using assms(3) by blast
  have ok: "csr_readable ?r"
    by (rule csr_readable_static [OF s present_granted [OF assms(1)]])
  have g: "CSR_ACCESS_READ_GRANTED machine_mode (access_flags ?r)" using ok by (simp add: csr_readable_def)
  have "\<exists>v. core_csr_read c (ucast (c_immediate c)) 0 = Inr (rv_ok, v)"
  proof (cases "read_cb ?r")
    case None
    then show ?thesis using g assms(2,5,8) by (simp add: core_csr_read_def csr_read_reg_def csr_at_def)
  next
    case (Some cb)
    then have "rcb_ok cb (internal_reg ?r)" using ok by (simp add: csr_readable_def)
    then obtain v where "cb (c_trap c, c_pmp c, c_mmu c) machine_mode (internal_reg ?r) = Inr (rv_ok, v)"
      using assms(4) unfolding rcb_ok_def by blast
    then show ?thesis using g Some assms(2,5,8) by (simp add: core_csr_read_def csr_read_reg_def csr_at_def)
  qed
  then obtain v where "core_csr_read c (ucast (c_immediate c)) 0 = Inr (rv_ok, v)" by blast
  then show ?thesis
    using assms(2,5,6,7) by (auto simp: instr_CSRRS_def instr_CSRRC_def instr_CSRRSI_def instr_CSRRCI_def CSRRSx_def CSRRCx_def Let_def
      csr_get_mask_def csr_at_def)
qed


section \<open>Fields and numbers of the header\<close>

text \<open>The masks and numbers, under their names without the prefix (\<open>MSTATUS_\<close>, \<open>SATP\<close> and so on).\<close>

definition isa_mstatus :: "(string \<times> u64) list" where
  "isa_mstatus =
    [(''_UIE'', 0x00000001), (''_SIE'', 0x00000002), (''_HIE'', 0x00000004), (''_MIE'', 0x00000008), (''_UPIE'', 0x00000010),
     (''_SPIE'', 0x00000020), (''_HPIE'', 0x00000040), (''_MPIE'', 0x00000080), (''_SPP'', 0x00000100), (''_HPP'', 0x00000600),
     (''_MPP'', 0x00001800), (''_FS'', 0x00006000), (''_XS'', 0x00018000), (''_MPRV'', 0x00020000), (''_SUM'', 0x00040000),
     (''_MXR'', 0x00080000), (''_TVM'', 0x00100000), (''_TW'', 0x00200000), (''_TSR'', 0x00400000), (''32_SD'', 0x80000000),
     (''_UXL'', 0x0000000300000000), (''_SXL'', 0x0000000C00000000), (''64_SD'', 0x8000000000000000)]"

definition isa_sstatus :: "(string \<times> u64) list" where
  "isa_sstatus =
    [(''_UIE'', 0x00000001), (''_SIE'', 0x00000002), (''_UPIE'', 0x00000010), (''_SPIE'', 0x00000020), (''_SPP'', 0x00000100),
     (''_FS'', 0x00006000), (''_XS'', 0x00018000), (''_SUM'', 0x00040000), (''_MXR'', 0x00080000), (''32_SD'', 0x80000000),
     (''_UXL'', 0x0000000300000000), (''64_SD'', 0x8000000000000000)]"

definition isa_satp :: "(string \<times> u64) list" where
  "isa_satp =
    [(''32_MODE'', 0x80000000), (''32_ASID'', 0x7FC00000), (''32_PPN'', 0x003FFFFF), (''64_MODE'', 0xF000000000000000),
     (''64_ASID'', 0x0FFFF00000000000), (''64_PPN'', 0x00000FFFFFFFFFFF)]"

definition isa_irqs :: "(string \<times> nat) list" where
  "isa_irqs =
    [(''S_SOFT'', 1), (''H_SOFT'', 2), (''M_SOFT'', 3), (''S_TIMER'', 5), (''H_TIMER'', 6), (''M_TIMER'', 7), (''S_EXT'', 9),
     (''H_EXT'', 10), (''M_EXT'', 11), (''COP'', 12), (''HOST'', 13)]"

definition isa_causes :: "(string \<times> nat) list" where
  "isa_causes =
    [(''MISALIGNED_FETCH'', 0x0), (''FETCH_ACCESS'', 0x1), (''ILLEGAL_INSTRUCTION'', 0x2), (''BREAKPOINT'', 0x3),
     (''MISALIGNED_LOAD'', 0x4), (''LOAD_ACCESS'', 0x5), (''MISALIGNED_STORE'', 0x6), (''STORE_ACCESS'', 0x7), (''USER_ECALL'', 0x8),
     (''SUPERVISOR_ECALL'', 0x9), (''HYPERVISOR_ECALL'', 0xa), (''MACHINE_ECALL'', 0xb), (''FETCH_PAGE_FAULT'', 0xc),
     (''LOAD_PAGE_FAULT'', 0xd), (''STORE_PAGE_FAULT'', 0xf)]"


text \<open>The union of the fields with the given names.\<close>

definition field_union :: "(string \<times> u64) list \<Rightarrow> string list \<Rightarrow> u64" where
  "field_union tab names = fold (\<lambda>n w. case map_of tab n of Some v \<Rightarrow> v OR w | None \<Rightarrow> w) names 0"

text \<open>
  The masks of the status registers and of \<open>satp\<close> are the fields of the header without those of the hypervisor mode and the
  address space identifier.
\<close>

lemma status_masks:
  "(CSR_MSTATUS_MASK :: 32 word) = ucast (field_union isa_mstatus
    [''_UIE'', ''_SIE'', ''_MIE'', ''_UPIE'', ''_SPIE'', ''_MPIE'', ''_SPP'', ''_MPP'', ''_FS'', ''_XS'', ''_MPRV'', ''_SUM'', ''_MXR'', ''_TVM'', ''_TW'', ''_TSR'', ''32_SD''])"
  "(CSR_MSTATUS_MASK :: 64 word) = field_union isa_mstatus
    [''_UIE'', ''_SIE'', ''_MIE'', ''_UPIE'', ''_SPIE'', ''_MPIE'', ''_SPP'', ''_MPP'', ''_FS'', ''_XS'', ''_MPRV'', ''_SUM'', ''_MXR'', ''_TVM'', ''_TW'', ''_TSR'',
     ''_UXL'', ''_SXL'', ''64_SD'']"
  "(CSR_SSTATUS_MASK :: 32 word) = ucast (field_union isa_sstatus
    [''_UIE'', ''_SIE'', ''_UPIE'', ''_SPIE'', ''_SPP'', ''_FS'', ''_XS'', ''_SUM'', ''_MXR'', ''32_SD''])"
  "(CSR_SSTATUS_MASK :: 64 word) = field_union isa_sstatus
    [''_UIE'', ''_SIE'', ''_UPIE'', ''_SPIE'', ''_SPP'', ''_FS'', ''_XS'', ''_SUM'', ''_MXR'', ''_UXL'', ''64_SD'']"
  "(CSR_SATP_MASK :: 32 word) = ucast (field_union isa_satp [''32_MODE'', ''32_PPN''])"
  "(CSR_SATP_MASK :: 64 word) = field_union isa_satp [''64_MODE'', ''64_PPN'']"
  by code_simp+

text \<open>The exception and interrupt numbers; the reserved ones of the emulator are those of the hypervisor mode.\<close>

lemma trap_numbers:
  "map snd isa_causes = map exc_code [trap_cause_instr_addr_misalign, trap_cause_instr_access_fault, trap_cause_illegal_instr, trap_cause_breakpoint,
     trap_cause_load_addr_misalign, trap_cause_load_access_fault, trap_cause_store_amo_addr_fault, trap_cause_store_amo_access_fault,
     trap_cause_user_ecall, trap_cause_super_ecall, trap_cause_rsvd_3, trap_cause_machine_ecall, trap_cause_instr_page_fault,
     trap_cause_load_page_fault, trap_cause_store_amo_page_fault]"
  "map snd (take 9 isa_irqs) = map irq_code [trap_cause_super_swi, trap_cause_rsvd_0, trap_cause_machine_swi, trap_cause_super_ti, trap_cause_rsvd_1,
     trap_cause_machine_ti, trap_cause_super_exti, trap_cause_rsvd_2, trap_cause_machine_exti]"
  by (simp_all add: isa_causes_def isa_irqs_def)

section \<open>Property\<close>

text \<open>
  C26. The registers of the emulator are those of the header of the ISA tests without floating point, \<open>instret\<close>, the user counters
  from 3 on, event selectors and debugging. In every core with the table of the initialisation, which no step changes, a CSR
  instruction on a missing one raises the illegal instruction exception in every mode, and machine mode can read every other one.
\<close>

theorem emulated_csr_set:
  fixes c :: "('x::len, 'p) rv_core_td"
  assumes "(name, a) \<in> set isa_csrs" "unat (ucast (c_immediate c) :: u16) = a" "csr_instr i"
    and "\<forall>i. csr_static (csr_regs c i) = csr_static (core_csr_file i)" "pmp_wf (c_pmp c)"
  shows "if csr_absent a then exec_system i c = Inr (prepare_sync_trap (exc_word trap_cause_illegal_instr) 0 c)
    else curr_priv_mode c = machine_mode \<and> c_rs1 c = 0 \<and> i \<notin> {CSRRW, CSRRWI} \<longrightarrow> (\<exists>v. exec_system i c = Inr (set_x (c_rd c) v c))"
proof -
  have a: "csr_absent a \<noteq> csr_present a" "a < CSR_ADDR_MAX" using isa_csrs_split assms(1) by (auto simp: list_all_iff)
  show ?thesis
  proof (cases "csr_absent a")
    case True
    then show ?thesis using absent_illegal [OF _ a(2) assms(4,2,3)] by simp
  next
    case False
    then show ?thesis using present_read [OF _ a(2) assms(4,5,2), of i] a(1) assms(3) by (auto simp: csr_instr_def)
  qed
qed

text \<open>A read of \<open>hpmcounter3\<close> in machine mode, and one of \<open>mcause\<close>.\<close>

definition csr_set_core :: "nat \<Rightarrow> (64, unit) rv_core_td" where
  "csr_set_core a = (rv_core_init ())\<lparr>c_immediate := of_nat a, c_rd := 5\<rparr>"

theorem emulated_csr_set_witness:
  "exec_system CSRRS (csr_set_core 0xC03) = Inr (prepare_sync_trap 2 0 (csr_set_core 0xC03)) \<and>
   (\<exists>v. exec_system CSRRS (csr_set_core 0x342) = Inr (set_x 5 v (csr_set_core 0x342)))"
proof -
  have m: "(''hpmcounter3'', 0xC03) \<in> set isa_csrs" "(''mcause'', 0x342) \<in> set isa_csrs"
    by (simp_all add: isa_csrs_def csrs_unprivileged_def csrs_machine_trap_def)
  have c: "\<forall>i. csr_static (csr_regs (csr_set_core a) i) = csr_static (core_csr_file i)" "pmp_wf (c_pmp (csr_set_core a))"
    "curr_priv_mode (csr_set_core a) = machine_mode" "c_rs1 (csr_set_core a) = 0" "c_rd (csr_set_core a) = 5" for a
    by (simp_all add: csr_set_core_def rv_core_init_def rv_core_init_csr_regs_def rv_core_zero_def core_csr_file_def Let_def pmp_zero_wf xlen_ok_def)
  have i: "unat (ucast (c_immediate (csr_set_core 0xC03)) :: u16) = 0xC03" "unat (ucast (c_immediate (csr_set_core 0x342)) :: u16) = 0x342"
    by (simp_all add: csr_set_core_def)
  show ?thesis
    using emulated_csr_set [OF m(1) i(1) _ c(1,2), of CSRRS] emulated_csr_set [OF m(2) i(2) _ c(1,2), of CSRRS] c(3,4,5)
    by (auto simp: csr_instr_def csr_absent_def exc_word_def)
qed

end
