(* ===== verification/UnitTests.thy ===== *)
theory UnitTests
  imports Pmp Trap Fifo
begin

text \<open>
  The unit tests of the repository that fit its interfaces, \<open>src/core/pmp/unit_tests.c\<close>, \<open>src/core/trap/unit_tests.c\<close> and \<open>src/helpers/fifo_test.c\<close>,
  as boolean functions over the model, and their evaluation in both builds: the model passes the tests that the code was written against. Those of the MMU and
  of the PLIC call functions that the code no longer has in that form.
\<close>

section \<open>Setting up PMP registers\<close>

definition SET_BIT :: "'a::len word \<Rightarrow> nat \<Rightarrow> 'a word" where
  "SET_BIT v n = v OR push_bit n 1"

definition pmp_map_cfg :: "(u8 \<Rightarrow> u8) \<Rightarrow> nat \<Rightarrow> 'x::len pmp_td \<Rightarrow> 'x pmp_td" where
  "pmp_map_cfg f k pmp = pmp\<lparr>pmp_cfg := (pmp_cfg pmp)[k := f (pmp_cfg pmp ! k)]\<rparr>"

primrec pmp_mode_code :: "pmp_addr_matching \<Rightarrow> u8" where
  "pmp_mode_code pmp_a_off = 0" | "pmp_mode_code pmp_a_tor = 1" | "pmp_mode_code pmp_a_na4 = 2" | "pmp_mode_code pmp_a_napot = 3"

definition pmp_set_cfg_l_flag :: "nat \<Rightarrow> 'x::len pmp_td \<Rightarrow> 'x pmp_td" where
  "pmp_set_cfg_l_flag = pmp_map_cfg (\<lambda>c. SET_BIT c PMP_CFG_L_BIT)"

definition pmp_set_cfg_a_mode :: "nat \<Rightarrow> pmp_addr_matching \<Rightarrow> 'x::len pmp_td \<Rightarrow> 'x pmp_td" where
  "pmp_set_cfg_a_mode k mode = pmp_map_cfg (\<lambda>c. c OR push_bit PMP_CFG_A_BIT_OFFS (pmp_mode_code mode)) k"

definition pmp_set_cfg_x_flag :: "nat \<Rightarrow> 'x::len pmp_td \<Rightarrow> 'x pmp_td" where
  "pmp_set_cfg_x_flag = pmp_map_cfg (\<lambda>c. SET_BIT c 2)"

definition pmp_set_cfg_w_flag :: "nat \<Rightarrow> 'x::len pmp_td \<Rightarrow> 'x pmp_td" where
  "pmp_set_cfg_w_flag = pmp_map_cfg (\<lambda>c. SET_BIT c 1)"

definition pmp_set_cfg_r_flag :: "nat \<Rightarrow> 'x::len pmp_td \<Rightarrow> 'x pmp_td" where
  "pmp_set_cfg_r_flag = pmp_map_cfg (\<lambda>c. SET_BIT c 0)"

definition pmp_clear_cfg_x_flag :: "nat \<Rightarrow> 'x::len pmp_td \<Rightarrow> 'x pmp_td" where
  "pmp_clear_cfg_x_flag = pmp_map_cfg (\<lambda>c. CLEAR_BIT c 2)"

definition pmp_clear_cfg_w_flag :: "nat \<Rightarrow> 'x::len pmp_td \<Rightarrow> 'x pmp_td" where
  "pmp_clear_cfg_w_flag = pmp_map_cfg (\<lambda>c. CLEAR_BIT c 1)"

definition pmp_clear_cfg_r_flag :: "nat \<Rightarrow> 'x::len pmp_td \<Rightarrow> 'x pmp_td" where
  "pmp_clear_cfg_r_flag = pmp_map_cfg (\<lambda>c. CLEAR_BIT c 0)"

definition pmp_set_napot_addr :: "nat \<Rightarrow> 'x::len word \<Rightarrow> 'x word \<Rightarrow> 'x pmp_td \<Rightarrow> 'x pmp_td" where
  "pmp_set_napot_addr k base sz pmp = pmp\<lparr>pmp_addr := (pmp_addr pmp)[k := drop_bit 2 (base + (sz div 2 - 1))]\<rparr>"

definition pmp_set_na4_tor_addr :: "nat \<Rightarrow> 'x::len word \<Rightarrow> 'x pmp_td \<Rightarrow> 'x pmp_td" where
  "pmp_set_na4_tor_addr k base pmp = pmp\<lparr>pmp_addr := (pmp_addr pmp)[k := drop_bit 2 base]\<rparr>"

text \<open>The register after a call of the write functions, and the word \<open>cfg[k]\<close>.\<close>

definition pmp_written :: "('x::len pmp_td \<times> rv_ret) res \<Rightarrow> ('x pmp_td \<Rightarrow> bool) \<Rightarrow> bool" where
  "pmp_written r P = (case r of Inl _ \<Rightarrow> False | Inr (pmp, _) \<Rightarrow> P pmp)"

definition pmp_cfg_word :: "'x::len pmp_td \<Rightarrow> nat \<Rightarrow> 'x word" where
  "pmp_cfg_word pmp k = word_of_bytes (take (XLEN_BYTES TYPE('x)) (drop (k * XLEN_BYTES TYPE('x)) (pmp_cfg pmp)))"

definition pmp_expect :: "privilege_level \<Rightarrow> ('x::len word \<times> u8 \<times> bus_access_type \<times> rv_ret) list \<Rightarrow> 'x pmp_td \<Rightarrow> bool" where
  "pmp_expect l cs pmp = list_all (\<lambda>(addr, n, a, r). pmp_mem_check pmp l addr n a = Inr r) cs"

section \<open>The PMP tests\<close>

definition test_PMP_napot_memcheck :: "'x::len itself \<Rightarrow> bool" where
  "test_PMP_napot_memcheck _ \<longleftrightarrow>
    (let pmp = pmp_set_cfg_r_flag 0 (pmp_set_napot_addr 0 0x40000000 0x1000 (pmp_set_cfg_a_mode 0 pmp_a_napot pmp_zero)) :: 'x pmp_td
     in pmp_expect supervisor_mode [(0x40000000, 1, bus_read_access, rv_ok), (0x40000fff, 1, bus_read_access, rv_ok), (0x3fffffff, 1, bus_read_access, rv_err),
          (0x40001000, 1, bus_read_access, rv_err)] pmp)"

definition test_PMP_na4_memcheck :: "'x::len itself \<Rightarrow> bool" where
  "test_PMP_na4_memcheck _ \<longleftrightarrow>
    (let pmp = pmp_set_cfg_r_flag 0 (pmp_set_na4_tor_addr 0 0x40000000 (pmp_set_cfg_a_mode 0 pmp_a_na4 pmp_zero)) :: 'x pmp_td
     in pmp_expect supervisor_mode [(0x40000000, 1, bus_read_access, rv_ok), (0x40000003, 1, bus_read_access, rv_ok), (0x3fffffff, 1, bus_read_access, rv_err),
          (0x40000004, 1, bus_read_access, rv_err)] pmp)"

definition test_PMP_tor_first_entry_memcheck :: "'x::len itself \<Rightarrow> bool" where
  "test_PMP_tor_first_entry_memcheck _ \<longleftrightarrow>
    (let pmp = pmp_set_cfg_r_flag 0 (pmp_set_na4_tor_addr 0 0x80087000 (pmp_set_cfg_a_mode 0 pmp_a_tor pmp_zero)) :: 'x pmp_td
     in pmp_expect supervisor_mode [(0x0, 1, bus_read_access, rv_ok), (0x80086FFF, 1, bus_read_access, rv_ok), (0x40000000, 1, bus_read_access, rv_ok),
          (0x80080000, 1, bus_read_access, rv_ok), (0x80087000, 1, bus_read_access, rv_err)] pmp)"

definition test_PMP_tor_memcheck :: "'x::len itself \<Rightarrow> bool" where
  "test_PMP_tor_memcheck _ \<longleftrightarrow>
    (let pmp = pmp_set_cfg_r_flag 1 (pmp_set_na4_tor_addr 1 0x80000000 (pmp_set_na4_tor_addr 0 0x40000000 (pmp_set_cfg_a_mode 1 pmp_a_tor (pmp_set_cfg_a_mode 0 pmp_a_off pmp_zero)))) :: 'x pmp_td
     in pmp_expect supervisor_mode [(0x40000000, 1, bus_read_access, rv_ok), (0x7fffffff, 1, bus_read_access, rv_ok), (0x3fffffff, 1, bus_read_access, rv_err),
          (0x80000000, 1, bus_read_access, rv_err)] pmp)"

definition test_PMP_tor_higher_cfg_memcheck :: "'x::len itself \<Rightarrow> bool" where
  "test_PMP_tor_higher_cfg_memcheck _ \<longleftrightarrow>
    (let pmp = pmp_set_cfg_r_flag 6 (pmp_set_na4_tor_addr 6 0x80000000 (pmp_set_na4_tor_addr 5 0x40000000 (pmp_set_cfg_a_mode 6 pmp_a_tor (pmp_set_cfg_a_mode 5 pmp_a_off pmp_zero)))) :: 'x pmp_td
     in pmp_expect supervisor_mode [(0x40000000, 1, bus_read_access, rv_ok), (0x7fffffff, 1, bus_read_access, rv_ok), (0x3fffffff, 1, bus_read_access, rv_err),
          (0x80000000, 1, bus_read_access, rv_err)] pmp)"

definition test_PMP_tor_memcheck_r_flag :: "'x::len itself \<Rightarrow> bool" where
  "test_PMP_tor_memcheck_r_flag _ \<longleftrightarrow>
    (let pmp = pmp_set_na4_tor_addr 1 0x80000000 (pmp_set_na4_tor_addr 0 0x40000000 (pmp_set_cfg_r_flag 1 (pmp_set_cfg_a_mode 1 pmp_a_tor (pmp_set_cfg_a_mode 0 pmp_a_off pmp_zero)))) :: 'x pmp_td
     in pmp_expect supervisor_mode [(0x40000000, 1, bus_read_access, rv_ok), (0x40000000, 1, bus_write_access, rv_err), (0x40000000, 1, bus_instr_access, rv_err),
          (0x7fffffff, 1, bus_read_access, rv_ok), (0x3fffffff, 1, bus_read_access, rv_err), (0x80000000, 1, bus_read_access, rv_err)] pmp)"

definition test_PMP_tor_memcheck_rwx_flags :: "'x::len itself \<Rightarrow> bool" where
  "test_PMP_tor_memcheck_rwx_flags _ \<longleftrightarrow>
    (let pmp0 = pmp_set_na4_tor_addr 1 0x80000000 (pmp_set_na4_tor_addr 0 0x40000000 (pmp_set_cfg_w_flag 1 (pmp_set_cfg_a_mode 1 pmp_a_tor (pmp_set_cfg_a_mode 0 pmp_a_off pmp_zero)))) :: 'x pmp_td;
         pmp1 = pmp_set_cfg_x_flag 1 (pmp_clear_cfg_w_flag 1 (pmp_set_cfg_r_flag 1 pmp0));
         pmp2 = pmp_set_cfg_x_flag 1 (pmp_set_cfg_w_flag 1 (pmp_clear_cfg_r_flag 1 pmp1));
         pmp3 = pmp_clear_cfg_x_flag 1 (pmp_set_cfg_w_flag 1 (pmp_set_cfg_r_flag 1 pmp2))
     in pmp_expect supervisor_mode [(0x40000000, 1, bus_write_access, rv_ok), (0x40000000, 1, bus_read_access, rv_err), (0x40000000, 1, bus_instr_access, rv_err),
          (0x7fffffff, 1, bus_write_access, rv_ok), (0x3fffffff, 1, bus_write_access, rv_err), (0x80000000, 1, bus_write_access, rv_err)] pmp0 \<and>
        pmp_expect supervisor_mode [(0x7fffffff, 1, bus_write_access, rv_err), (0x7fffffff, 1, bus_read_access, rv_ok), (0x7fffffff, 1, bus_instr_access, rv_ok)] pmp1 \<and>
        pmp_expect supervisor_mode [(0x7fffffff, 1, bus_write_access, rv_ok), (0x7fffffff, 1, bus_read_access, rv_err), (0x7fffffff, 1, bus_instr_access, rv_ok)] pmp2 \<and>
        pmp_expect supervisor_mode [(0x7fffffff, 1, bus_write_access, rv_ok), (0x7fffffff, 1, bus_read_access, rv_ok), (0x7fffffff, 1, bus_instr_access, rv_err)] pmp3)"

definition test_PMP_napot_outofbounds_memcheck :: "'x::len itself \<Rightarrow> bool" where
  "test_PMP_napot_outofbounds_memcheck _ \<longleftrightarrow>
    (let pmp = pmp_set_cfg_x_flag 0 (pmp_set_cfg_w_flag 0 (pmp_set_cfg_r_flag 0 (pmp_set_napot_addr 0 0x40000000 0x1000 (pmp_set_cfg_a_mode 0 pmp_a_napot pmp_zero)))) :: 'x pmp_td
     in pmp_expect supervisor_mode [(0x40000000, 4, bus_read_access, rv_ok), (0x40000fff, 2, bus_read_access, rv_err), (0x40000ffe, 2, bus_read_access, rv_ok),
          (0x40000ffc, 4, bus_read_access, rv_ok), (0x3fffffff, 4, bus_read_access, rv_err), (0x40001000, 1, bus_read_access, rv_err)] pmp)"

definition test_PMP_napot_m_mode_locked_memcheck :: "'x::len itself \<Rightarrow> bool" where
  "test_PMP_napot_m_mode_locked_memcheck _ \<longleftrightarrow>
    (let pmp = pmp_set_cfg_x_flag 0 (pmp_set_cfg_w_flag 0 (pmp_set_cfg_l_flag 0 (pmp_set_napot_addr 0 0x40000000 0x1000 (pmp_set_cfg_a_mode 0 pmp_a_napot pmp_zero)))) :: 'x pmp_td
     in pmp_expect machine_mode [(0x40000000, 4, bus_read_access, rv_err), (0x40000fff, 2, bus_read_access, rv_err), (0x40000000, 4, bus_write_access, rv_ok),
          (0x40000fff, 2, bus_write_access, rv_ok), (0x40000000, 4, bus_instr_access, rv_ok), (0x40000fff, 2, bus_instr_access, rv_ok)] pmp)"

definition test_PMP_lock_bit :: "'x::len itself \<Rightarrow> bool" where
  "test_PMP_lock_bit _ \<longleftrightarrow>
    (let tmp = pmp_set_cfg_x_flag 11 (pmp_set_cfg_a_mode 11 pmp_a_na4 (pmp_zero :: 'x pmp_td));
         real = pmp_set_cfg_l_flag 11 (pmp_zero :: 'x pmp_td)
     in pmp_cfg tmp ! 11 = 0x14 \<and>
        pmp_written (pmp_write_csr_cfg real machine_mode 1 (pmp_cfg_word tmp 1)) (\<lambda>real. pmp_cfg real ! 11 = 0x80 \<and>
        pmp_written (pmp_write_csr_addr real machine_mode 11 0x1234) (\<lambda>real. pmp_addr real ! 11 = 0 \<and>
        pmp_written (pmp_write_csr_addr real machine_mode 10 0x1234) (\<lambda>real. pmp_addr real ! 10 = 0x1234))))"

definition test_PMP_tor_check_locked_csr_write :: "'x::len itself \<Rightarrow> bool" where
  "test_PMP_tor_check_locked_csr_write _ \<longleftrightarrow>
    (let tmp = pmp_set_cfg_l_flag 1 (pmp_set_na4_tor_addr 1 0x4000 (pmp_set_cfg_a_mode 1 pmp_a_tor (pmp_set_cfg_a_mode 0 pmp_a_off (pmp_zero :: 'x pmp_td))))
     in pmp_cfg tmp ! 1 = 0x88 \<and>
        pmp_written (pmp_write_csr_cfg tmp machine_mode 0 0xFF00) (\<lambda>tmp. pmp_cfg tmp ! 1 = 0x88 \<and>
        pmp_written (pmp_write_csr_addr tmp machine_mode 1 0x1234) (\<lambda>tmp. pmp_addr tmp ! 1 = 0x1000 \<and>
        pmp_written (pmp_write_csr_addr tmp machine_mode 0 0x4321) (\<lambda>tmp. pmp_addr tmp ! 0 = 0))))"

definition test_PMP_tor_check_locked_csr_write_edge_case :: "'x::len itself \<Rightarrow> bool" where
  "test_PMP_tor_check_locked_csr_write_edge_case _ \<longleftrightarrow>
    (let tmp = pmp_set_cfg_l_flag 8 (pmp_set_na4_tor_addr 8 0x4000 (pmp_set_cfg_a_mode 8 pmp_a_tor (pmp_set_cfg_a_mode 7 pmp_a_off (pmp_zero :: 'x pmp_td))))
     in pmp_cfg tmp ! 8 = 0x88 \<and>
        pmp_written (pmp_write_csr_cfg tmp machine_mode 1 0xFF) (\<lambda>tmp. pmp_cfg tmp ! 8 = 0x88 \<and>
        pmp_written (pmp_write_csr_addr tmp machine_mode 8 0x1234) (\<lambda>tmp. pmp_addr tmp ! 8 = 0x1000 \<and>
        pmp_written (pmp_write_csr_addr tmp machine_mode 7 0x4321) (\<lambda>tmp. pmp_addr tmp ! 7 = 0))))"

text \<open>The two builds differ in the word of \<open>cfg\<close> that holds the byte of entry 6 and in what it reads as.\<close>

definition pmp_read_write_csr :: "nat \<Rightarrow> 'x::len word \<Rightarrow> bool" where
  "pmp_read_write_csr k expected \<longleftrightarrow>
    (let tmp = pmp_set_na4_tor_addr 6 0x80000000 (pmp_set_na4_tor_addr 5 0x40000000 (pmp_set_cfg_a_mode 6 pmp_a_tor (pmp_set_cfg_a_mode 5 pmp_a_off pmp_zero)))
     in pmp_written (pmp_write_csr_cfg pmp_zero machine_mode (of_nat k) (pmp_cfg_word tmp k)) (\<lambda>real.
        pmp_written (pmp_write_csr_addr real machine_mode 5 (pmp_addr tmp ! 5)) (\<lambda>real.
        pmp_written (pmp_write_csr_addr real machine_mode 6 (pmp_addr tmp ! 6)) (\<lambda>real.
          pmp_cfg real ! 6 = 0x08 \<and> pmp_read_csr_cfg real machine_mode (of_nat k) = Inr (rv_ok, expected) \<and>
          pmp_read_csr_addr real machine_mode 5 = Inr (rv_ok, 0x10000000) \<and> pmp_read_csr_addr real machine_mode 6 = Inr (rv_ok, 0x20000000)))))"

definition test_PMP_read_write_csr_RV64 :: bool where
  "test_PMP_read_write_csr_RV64 \<longleftrightarrow> pmp_read_write_csr 0 (0x0008000000000000 :: 64 word)"

definition test_PMP_read_write_csr_RV32 :: bool where
  "test_PMP_read_write_csr_RV32 \<longleftrightarrow> pmp_read_write_csr 1 (0x00080000 :: 32 word)"

section \<open>The trap tests\<close>

text \<open>The registers that a test sets before its calls, through the pointers of the level, \<open>*trap.m.regs[...]\<close>.\<close>

definition trap_regs_set :: "(trap_cell \<times> nat) list \<Rightarrow> 'x::len trap_td" where
  "trap_regs_set rs = fold (\<lambda>(cell, k) t. trap_put cell (push_bit k 1) t) rs trap_init"

definition trap_pending_at :: "'x::len trap_td \<Rightarrow> privilege_level \<Rightarrow> trap_cause_interrupt \<Rightarrow> privilege_level option \<Rightarrow> bool" where
  "trap_pending_at t cur irq level \<longleftrightarrow> (case trap_check_interrupt_pending t cur irq of
     Inl _ \<Rightarrow> False | Inr (r, p) \<Rightarrow> (case level of None \<Rightarrow> r = trap_ret_none | Some q \<Rightarrow> r = trap_ret_irq_pending \<and> p = q))"

definition test_TRAP_simple_irq :: "'x::len itself \<Rightarrow> bool" where
  "test_TRAP_simple_irq _ \<longleftrightarrow>
    (let t = trap_set_pending_bits 0 0 1 (trap_regs_set [(trap_m_regs trap_reg_status, 3), (trap_m_regs trap_reg_ie, irq_code trap_cause_machine_swi)] :: 'x trap_td)
     in trap_pending_at t supervisor_mode trap_cause_machine_swi (Some machine_mode))"

definition trap_delegated_timer :: "nat \<Rightarrow> 'x::len trap_td" where
  "trap_delegated_timer status = trap_regs_set [(trap_m_regs trap_reg_ideleg, irq_code trap_cause_super_ti),
     (trap_m_regs trap_reg_ie, irq_code trap_cause_super_ti), (trap_m_regs trap_reg_ip, irq_code trap_cause_super_ti),
     (trap_m_regs trap_reg_status, status)]"

definition test_TRAP_delegate_to_supervisor_with_sie_disabled :: "'x::len itself \<Rightarrow> bool" where
  "test_TRAP_delegate_to_supervisor_with_sie_disabled _ \<longleftrightarrow>
     trap_pending_at (trap_delegated_timer 3 :: 'x trap_td) supervisor_mode trap_cause_super_ti None"

definition test_TRAP_delegate_to_supervisor_with_sie_enabled :: "'x::len itself \<Rightarrow> bool" where
  "test_TRAP_delegate_to_supervisor_with_sie_enabled _ \<longleftrightarrow>
     trap_pending_at (trap_delegated_timer 1 :: 'x trap_td) supervisor_mode trap_cause_super_ti (Some supervisor_mode) \<and>
     trap_pending_at (trap_delegated_timer 1 :: 'x trap_td) machine_mode trap_cause_super_ti None"

definition test_TRAP_delegate_to_supervisor_with_mie_enabled :: "'x::len itself \<Rightarrow> bool" where
  "test_TRAP_delegate_to_supervisor_with_mie_enabled _ \<longleftrightarrow>
     trap_pending_at (trap_delegated_timer 3 :: 'x trap_td) machine_mode trap_cause_super_ti None \<and>
     trap_pending_at (trap_delegated_timer 3 :: 'x trap_td) supervisor_mode trap_cause_super_ti None"

definition trap_supervisor_timer :: "'x::len trap_td" where
  "trap_supervisor_timer = trap_regs_set [(trap_m_regs trap_reg_ie, irq_code trap_cause_super_ti),
     (trap_m_regs trap_reg_ip, irq_code trap_cause_super_ti), (trap_m_regs trap_reg_status, 1)]"

definition test_TRAP_sie_enabled_trigger_from_machine_mode :: "'x::len itself \<Rightarrow> bool" where
  "test_TRAP_sie_enabled_trigger_from_machine_mode _ \<longleftrightarrow> trap_pending_at (trap_supervisor_timer :: 'x trap_td) machine_mode trap_cause_super_ti None"

definition test_TRAP_sie_enabled_trigger_from_supervisor_mode :: "'x::len itself \<Rightarrow> bool" where
  "test_TRAP_sie_enabled_trigger_from_supervisor_mode _ \<longleftrightarrow>
     trap_pending_at (trap_supervisor_timer :: 'x trap_td) supervisor_mode trap_cause_super_ti (Some machine_mode)"

definition test_TRAP_get_exception_level :: "'x::len itself \<Rightarrow> bool" where
  "test_TRAP_get_exception_level _ \<longleftrightarrow>
    (let t = trap_regs_set [(trap_m_regs trap_reg_edeleg, exc_code trap_cause_illegal_instr)] :: 'x trap_td;
         u = trap_put (trap_s_regs trap_reg_edeleg) (push_bit (exc_code trap_cause_store_amo_addr_fault) 1)
               (trap_put (trap_m_regs trap_reg_edeleg) (push_bit (exc_code trap_cause_store_amo_addr_fault) 1) t);
         level = (\<lambda>t l e. trap_check_exception_delegation t l (of_nat (exc_code e) :: 'x word))
     in level t supervisor_mode trap_cause_illegal_instr = Inr supervisor_mode \<and>
        level t supervisor_mode trap_cause_load_access_fault = Inr machine_mode \<and>
        level t user_mode trap_cause_illegal_instr = Inr supervisor_mode \<and>
        level u user_mode trap_cause_store_amo_addr_fault = Inr user_mode \<and>
        level u supervisor_mode trap_cause_store_amo_addr_fault = Inr supervisor_mode \<and>
        level u machine_mode trap_cause_store_amo_addr_fault = Inr machine_mode)"

section \<open>The FIFO test\<close>

text \<open>The last byte taken out and the number of bytes left, which the program prints.\<close>

definition fifo_test_main :: "(u8 list \<times> u32) res" where
  "fifo_test_main =
    (let fifo = fifo_init (replicate 16 0) 16 in
     res_bind (fifo_in fifo [42] 1) (\<lambda>(fifo, _).
     res_bind (fifo_in fifo [43] 1) (\<lambda>(fifo, _).
     res_bind (fifo_in fifo [44] 1) (\<lambda>(fifo, _).
     res_bind (fifo_in fifo [45] 1) (\<lambda>(fifo, _).
     res_bind (fifo_out fifo 1) (\<lambda>(fifo, _, _).
     res_bind (fifo_out fifo 1) (\<lambda>(fifo, tmp_data_out, _).
       Inr (tmp_data_out, fifo_len fifo))))))))"

section \<open>Results\<close>

definition pmp_tests :: "('x::len itself \<Rightarrow> bool) list" where
  "pmp_tests = [test_PMP_lock_bit, test_PMP_napot_memcheck, test_PMP_na4_memcheck, test_PMP_tor_first_entry_memcheck, test_PMP_tor_memcheck,
     test_PMP_tor_higher_cfg_memcheck, test_PMP_napot_m_mode_locked_memcheck, test_PMP_tor_check_locked_csr_write,
     test_PMP_tor_check_locked_csr_write_edge_case, test_PMP_tor_memcheck_r_flag, test_PMP_tor_memcheck_rwx_flags, test_PMP_napot_outofbounds_memcheck]"

definition trap_tests :: "('x::len itself \<Rightarrow> bool) list" where
  "trap_tests = [test_TRAP_simple_irq, test_TRAP_delegate_to_supervisor_with_sie_disabled, test_TRAP_delegate_to_supervisor_with_sie_enabled,
     test_TRAP_delegate_to_supervisor_with_mie_enabled, test_TRAP_sie_enabled_trigger_from_machine_mode,
     test_TRAP_sie_enabled_trigger_from_supervisor_mode, test_TRAP_get_exception_level]"

lemma pmp_tests_pass_rv32: "list_all (\<lambda>test. test TYPE(32)) pmp_tests" "test_PMP_read_write_csr_RV32"
  by code_simp+

lemma pmp_tests_pass_rv64: "list_all (\<lambda>test. test TYPE(64)) pmp_tests" "test_PMP_read_write_csr_RV64"
  by code_simp+

lemma trap_tests_pass: "list_all (\<lambda>test. test TYPE(32)) trap_tests" "list_all (\<lambda>test. test TYPE(64)) trap_tests"
  by code_simp+

lemma fifo_test_pass: "fifo_test_main = Inr ([43], 2)"
  by code_simp

end
