(* ===== verification/Spec2Isabelle.thy ===== *)
theory Spec2Isabelle
  imports WideMul Fifo Csr CsrMap Trap Pmp Mmu Clint Plic PlicSpec SimpleUart Uart8250 UartSpec CoreState Instr IsaRef Decode DecodeSpec
    InstrCodes DecodeTable IsaTable CoreRun CoreLaws CoreTrap CoreInit CsrTable ControlRef Soc UserMode SocInv SocRun RamAccess
    AccessFault Sv32Ram Uret BusMap Boot IsaMachine Firmware UartIrq CommandLine IsaCsr UnitTests
begin

text \<open>
  Verification of \<open>riscv_em\<close>, an emulator of a RISC-V computer in C: a core of 32 or 64 bits with the
  extensions M, A, Zicsr, the three privilege levels, physical memory protection (PMP) and the Sv32 translation, and a system on
  chip with memories, a core-local interruptor (CLINT), a platform-level interrupt controller (PLIC) and one of two UARTs.

  \<^bold>\<open>Parts of the program and their theories.\<close> Paths are below \<open>src/\<close>.

    \<^item> \<open>Prelude\<close>: C errors as values (\<open>halt\<close>, \<open>res_bind\<close>, the postcondition \<open>post\<close>), byte lists and arrays with C bounds, sparse memories.
      \<open>RvTypes\<close>: \<open>core/riscv_types.h\<close>, \<open>core/riscv_config.h\<close>, \<open>soc/riscv_example_soc.h\<close> (addresses), \<open>core/riscv_helper.h\<close>.
      \<open>WideMul\<close>: the double-width products of the same helpers, and that they are exact.
    \<^item> \<open>Fifo\<close>: \<open>helpers/fifo.c\<close>, a ring buffer with free-running counters, against a reference queue on lists whose answers it must give, refusals
      included (\<open>queue_run\<close>, locale \<open>bounded_queue\<close>).
    \<^item> \<open>Csr\<close>, \<open>CsrMap\<close>: \<open>core/csr/\<close>, the register table and its access functions. \<open>CoreInit\<close>: the initialisers of \<open>rv_core_init\<close>.
      \<open>CsrTable\<close>: the table that they build follows the address convention of the architecture.
    \<^item> \<open>Trap\<close>: \<open>core/trap/\<close>, trap registers, delegation, entry and return. \<open>Pmp\<close>: \<open>core/pmp/\<close>, with the check as a
      first-match rule for every configuration: over windows computed modulo \<open>2 ^ XLEN\<close> as the code does, which are the ranges of the architecture below
      the top of the address space, and with the refusal of the lower modes when no entry matches.
      \<open>Mmu\<close>: \<open>core/mmu/\<close>, and the Sv32 walk of the privileged specification, which it computes wherever the entries of the walk can be
      read. \<open>Sv32Ram\<close>: the same for the whole access of the core, with the page tables in the RAM of the system.
    \<^item> \<open>CoreState\<close>, \<open>Instr\<close>, \<open>Decode\<close>, \<open>CoreRun\<close>: \<open>core/core.c\<close>. The record \<open>rv_core_td\<close> has the fields of the structure; \<open>bus_access\<close> and the
      \<open>priv\<close> pointer are a function argument and the field \<open>c_priv\<close>; an execute callback is an element of the datatype \<open>instr\<close>, and
      \<open>exec_instr\<close> the call through it; each \<open>instr_*\<close> function is a definition; the decoding tables are the nested arrays of the source.
      \<open>IsaRef\<close>, \<open>ControlRef\<close>: instructions against a reference on integers. \<open>DecodeSpec\<close>: an encoder, and that decoding inverts it.
      \<open>InstrCodes\<close>: the codes of \<open>core/riscv_instr.h\<close>. \<open>DecodeTable\<close>: an analysis of the tables, from a partly known word to the instruction (or
      failure) it leads to. \<open>IsaTable\<close>: the opcode table of \<open>../isa_test_env/encoding.h\<close>, and what the decoder makes of each entry.
      \<open>IsaCsr\<close>: the registers, fields and trap numbers of the same header, and which of the registers the emulator has.
      \<open>CoreLaws\<close>: locales (\<open>bus_effect\<close>, \<open>core_access\<close>, \<open>core_effect\<close>, \<open>core_step_effect\<close>) whose assumptions are the elementary effects of an
      instruction and whose lemmas lift a relation over every instruction and over a step; the frame of the register file.
      \<open>CoreTrap\<close>: which trap the core takes between two instructions.
    \<^item> \<open>Clint\<close>, \<open>Plic\<close>, \<open>SimpleUart\<close>, \<open>Uart8250\<close>: \<open>peripherals/\<close>. \<open>PlicSpec\<close>: selection by priority over all
      words, with the numbers that the code counts and its tie-break, claim and complete. \<open>UartSpec\<close>: transmission
      order (locale \<open>transmitter\<close>, instances for both UARTs).
    \<^item> \<open>Soc\<close>: \<open>soc/riscv_example_soc.c\<close> and \<open>helpers/file_helper.c\<close>: bus, loader, main loop, and the step relation \<open>soc_step\<close> of the loop and
      the receiving thread of \<open>main.c\<close>.
      \<open>UserMode\<close>: what user mode cannot do, to the core and to RAM. \<open>SocInv\<close>: the invariant of the system (locale \<open>bus_device\<close>, one instance per
      device and one for the bus that is made of them). \<open>Uret\<close>: which instruction never ends (predicate \<open>ends\<close>, locales \<open>ending_bus\<close> and
      \<open>ending_core\<close>): in a well-formed system an iteration hangs exactly at a \<open>uret\<close>.
      \<open>SocRun\<close>: reachable states, termination, the timer and its interrupt.
      \<open>UartIrq\<close>: from a received character to its interrupt. \<open>BusMap\<close>: the memory map, from an address as a number to the device,
      the offset and the outcome. \<open>RamAccess\<close>: loads, stores and atomic instructions down to the bytes of RAM. \<open>AccessFault\<close>: refused loads and stores, from the check to the handler.
      \<open>Boot\<close>: the boot ROM, executed from the initial state up to the first instruction of the firmware.
      \<open>IsaMachine\<close>: an abstract machine of the instruction set (\<open>isa_step\<close>), a program counter, registers, the bytes of RAM and a
      reservation, with the instructions defined on integers; and for each instruction, that the emulator does what the machine does.
      \<open>Firmware\<close>: the relation \<open>isa_rel\<close> between both states, one iteration of the main loop against one step of the machine, and
      from there whole runs of a firmware out of reset. The scope is that of programs in machine mode with code and data in RAM,
      without interrupts and system instructions; the machine has no step outside of it.
    \<^item> \<open>CommandLine\<close>: \<open>main.c\<close>, the options (with \<open>getopt\<close> and \<open>strtol\<close> of the C library on lists of strings) and the run that they start.
    \<^item> \<open>UnitTests\<close>: \<open>unit_tests/\<close>, the checks of the PMP, trap and FIFO tests evaluated on the model in both builds.

  \<^bold>\<open>How the parts interact.\<close> \<open>rv_soc_run\<close> repeats \<open>soc_iteration\<close>: \<open>rv_core_run\<close> fetches, decodes and executes one instruction; every memory access
  goes through \<open>mmu_checked_bus_access\<close> (translation, itself with memory accesses), \<open>pmp_checked_bus_access\<close> and the bus to a device;
  then the UART, the PLIC and the CLINT are updated and their three lines go to \<open>rv_core_process_interrupts\<close>. CSR instructions
  reach the trap, PMP and MMU components through the callbacks of the register table.

  \<^bold>\<open>Conventions.\<close> \<open>'x\<close> is the register width; \<open>xlen_ok\<close> says it is 32 or 64, the two builds, and \<open>is_rv64\<close> is the \<open>#ifdef\<close>. Whatever ends or
  breaks the program is a value of \<open>halt\<close>: \<open>Die\<close> (a deliberate exit), \<open>Hang\<close> (an endless loop, which for the main loop means that it does not return), \<open>OutOfBounds\<close>, \<open>NullDeref\<close>, \<open>BadShift\<close> (undefined behaviour). Integers
  have their C width, with conversions written out. Byte-wise accesses work on the bytes of an object in little-endian order.

  \<^bold>\<open>Fuel and bounds.\<close> No definition uses fuel. \<open>rv_soc_run\<close> is a partial function: \<open>None\<close> is a run that never returns, because the loop goes
  on forever or because an instruction does. With a cycle limit other than zero the first cannot happen, and the second happens exactly when the run comes
  to a \<open>uret\<close>, the endless loop of \<open>instr_URET\<close> (theories \<open>Uret\<close>, \<open>SocRun\<close>, \<open>CommandLine\<close>). The walk over the decoding tables recurses on the finite tables; the delegation loops on the privilege level.

  \<^bold>\<open>Not modelled.\<close> Output for debugging and the dump functions; the terminal mode of \<open>main.c\<close> (calls of the C library), and the
  interleaving of its receiving thread with the run started by \<open>main_run\<close> (the step relation \<open>soc_step\<close> has it); the mutex of the
  UARTs, which makes their operations atomic steps here; characters that arrive in the middle of an iteration (in \<open>soc_step\<close> they arrive between two);
  the overflow of the \<open>static int\<close> that counts the calls of \<open>clint_update\<close>, whose only test (\<open>i%1 == 0\<close>) always holds; the unit tests of the
  MMU and of the PLIC, which call functions that the code no longer has in that form; the programs in \<open>firmware/\<close> and \<open>isa_test_env/\<close>, which run
  inside the emulated machine (of \<open>isa_test_env/encoding.h\<close>, the debug and trigger fields and the access macros).
\<close>

end
